(* ===== verification/Prelude.thy ===== *)
theory Prelude
  imports Main "HOL-Library.Char_ord" "HOL-Library.List_Lexorder" "HOL-Library.Code_Target_Nat"
begin

text \<open>
  Shared ground of the development: the units of time, the Python string operations the
  code uses (decimal rendering, zero padding, prefixes, \<open>strip\<close>), and the lemmas on
  lists of rows (first match, update in place, unique keys) that every table proof uses.

  A Python \<open>str\<close> is a \<^typ>\<open>string\<close> whose characters are the code points below 256
  (HTTP header values are decoded as Latin-1, so they never leave that range); a Python
  \<open>bytes\<close> is a \<^typ>\<open>string\<close> as well.  A \<open>datetime\<close> in UTC is the number of
  microseconds since the epoch, an \<^typ>\<open>int\<close>, as PostgreSQL stores a TIMESTAMPTZ.
\<close>

named_theorems wp_rules "weakest preconditions of the session operations"
named_theorems row_simps "reading a table after an update or an insert"

section \<open>Time\<close>

type_synonym timestamp = int

definition seconds :: "int \<Rightarrow> timestamp" where
  "seconds n = n * 1000000"

definition minutes :: "int \<Rightarrow> timestamp" where
  "minutes n = seconds (60 * n)"

definition days :: "int \<Rightarrow> timestamp" where
  "days n = seconds (86400 * n)"

lemma seconds_mono [simp]: "seconds m \<le> seconds n \<longleftrightarrow> m \<le> n"
  and seconds_strict_mono [simp]: "seconds m < seconds n \<longleftrightarrow> m < n"
  by (simp_all add: seconds_def)

section \<open>Decimal rendering\<close>

definition digit_char :: "nat \<Rightarrow> char" where
  "digit_char d = char_of (48 + d)"

definition char_digit :: "char \<Rightarrow> nat" where
  "char_digit c = of_char c - 48"

lemma char_digit_char [simp]: "d < 10 \<Longrightarrow> char_digit (digit_char d) = d"
  by (simp add: char_digit_def digit_char_def)

definition is_digit :: "char \<Rightarrow> bool" where
  "is_digit c \<longleftrightarrow> 48 \<le> (of_char c :: nat) \<and> (of_char c :: nat) \<le> 57"

lemma is_digit_digit_char [simp]: "d < 10 \<Longrightarrow> is_digit (digit_char d)"
  by (simp add: is_digit_def digit_char_def)

text \<open>\<open>str(n)\<close> for a non-negative integer, and for any integer.\<close>

fun nat_dec :: "nat \<Rightarrow> string" where
  "nat_dec n = (if n < 10 then [digit_char n] else nat_dec (n div 10) @ [digit_char (n mod 10)])"

declare nat_dec.simps [simp del]

definition int_dec :: "int \<Rightarrow> string" where
  "int_dec i = (if i < 0 then CHR ''-'' # nat_dec (nat (- i)) else nat_dec (nat i))"

definition dec_val :: "string \<Rightarrow> nat" where
  "dec_val = foldl (\<lambda>a c. 10 * a + char_digit c) 0"

lemma dec_val_snoc [simp]: "dec_val (xs @ [c]) = 10 * dec_val xs + char_digit c"
  by (simp add: dec_val_def)

lemma dec_val_nat_dec [simp]: "dec_val (nat_dec n) = n"
proof (induction n rule: nat_dec.induct)
  case (1 n)
  show ?case
  proof (cases "n < 10")
    case True
    then show ?thesis by (simp add: nat_dec.simps [of n] dec_val_def)
  next
    case False
    then have "dec_val (nat_dec (n div 10)) = n div 10" by (rule "1.IH")
    with False show ?thesis by (simp add: nat_dec.simps [of n])
  qed
qed

lemma nat_dec_inject [simp]: "nat_dec m = nat_dec n \<longleftrightarrow> m = n"
  by (metis dec_val_nat_dec)

lemma nat_dec_digits: "c \<in> set (nat_dec n) \<Longrightarrow> is_digit c"
proof (induction n rule: nat_dec.induct)
  case (1 n)
  then show ?case by (cases "n < 10") (auto simp: nat_dec.simps [of n])
qed

lemma nat_dec_not_Nil [simp]: "nat_dec n \<noteq> []"
  by (subst nat_dec.simps) simp

lemma minus_not_digit [simp]: "\<not> is_digit (CHR ''-'')"
  by (simp add: is_digit_def)

lemma int_dec_inject [simp]: "int_dec i = int_dec j \<longleftrightarrow> i = j"
proof -
  have no_minus: "CHR ''-'' # xs \<noteq> nat_dec n" for xs n
  proof
    assume "CHR ''-'' # xs = nat_dec n"
    then have "CHR ''-'' \<in> set (nat_dec n)" by (metis list.set_intros(1))
    then show False using nat_dec_digits minus_not_digit by blast
  qed
  show ?thesis
    using no_minus no_minus [symmetric] by (auto simp: int_dec_def)
qed

text \<open>\<open>f"{n:0wd}"\<close> for a non-negative \<open>n\<close>: zeros on the left up to width \<open>w\<close>.\<close>

definition zpad :: "nat \<Rightarrow> string \<Rightarrow> string" where
  "zpad w s = replicate (w - length s) (CHR ''0'') @ s"

lemma dec_val_zeros [simp]: "dec_val (replicate k (CHR ''0'') @ s) = dec_val s"
proof -
  have "foldl (\<lambda>a c. 10 * a + char_digit c) 0 (replicate k (CHR ''0'')) = 0"
    by (induction k) (simp_all add: char_digit_def)
  then show ?thesis by (simp add: dec_val_def)
qed

lemma zpad_nat_dec_inject [simp]: "zpad w (nat_dec m) = zpad w (nat_dec n) \<longleftrightarrow> m = n"
  by (metis dec_val_nat_dec dec_val_zeros zpad_def)

lemma length_zpad: "length (zpad w s) = max w (length s)"
  by (simp add: zpad_def)

lemma length_nat_dec: "0 < k \<Longrightarrow> n < 10 ^ k \<Longrightarrow> length (nat_dec n) \<le> k"
proof (induction k arbitrary: n)
  case (Suc k)
  show ?case
  proof (cases "n < 10")
    case True
    then show ?thesis by (simp add: nat_dec.simps [of n])
  next
    case False
    then have "0 < k" using Suc.prems(2) by (cases k) auto
    moreover have "n div 10 < 10 ^ k" using Suc.prems(2) by (simp add: less_mult_imp_div_less mult.commute)
    ultimately have "length (nat_dec (n div 10)) \<le> k" by (rule Suc.IH)
    with False show ?thesis by (simp add: nat_dec.simps [of n])
  qed
qed simp

section \<open>Prefixes and strip\<close>

definition startswith :: "string \<Rightarrow> string \<Rightarrow> bool" where
  "startswith p s \<longleftrightarrow> take (length p) s = p"

definition removeprefix :: "string \<Rightarrow> string \<Rightarrow> string" where
  "removeprefix p s = (if startswith p s then drop (length p) s else s)"

lemma startswith_append [simp]: "startswith p (p @ s)"
  by (simp add: startswith_def)

lemma removeprefix_append [simp]: "removeprefix p (p @ s) = s"
  by (simp add: removeprefix_def)

lemma startswith_iff: "startswith p s \<longleftrightarrow> (\<exists>t. s = p @ t)"
  by (metis append_take_drop_id startswith_append startswith_def)

text \<open>The code points below 256 for which \<open>str.isspace\<close> holds.\<close>

definition py_space :: "char \<Rightarrow> bool" where
  "py_space c = (let n = of_char c :: nat in
     9 \<le> n \<and> n \<le> 13 \<or> 28 \<le> n \<and> n \<le> 32 \<or> n = 133 \<or> n = 160)"

definition strip :: "string \<Rightarrow> string" where
  "strip s = rev (dropWhile py_space (rev (dropWhile py_space s)))"

lemma strip_id: "(\<And>c. c \<in> set s \<Longrightarrow> \<not> py_space c) \<Longrightarrow> strip s = s"
proof -
  assume ns: "\<And>c. c \<in> set s \<Longrightarrow> \<not> py_space c"
  have keep: "dropWhile py_space t = t" if "set t \<subseteq> set s" for t
    using that ns by (cases t) auto
  show ?thesis by (simp add: strip_def keep)
qed

text \<open>\<open>value or ""\<close> for an optional string.\<close>

definition or_empty :: "string option \<Rightarrow> string" where
  "or_empty v = (case v of None \<Rightarrow> '''' | Some s \<Rightarrow> s)"

text \<open>\<open>str.encode()\<close>: UTF-8 of code points below 256, one or two bytes each.\<close>

definition utf8_char :: "char \<Rightarrow> string" where
  "utf8_char c = (let n = of_char c :: nat in
     if n < 128 then [c] else [char_of (192 + n div 64), char_of (128 + n mod 64)])"

text \<open>The comparison as a test of the top bit, for evaluation.\<close>

lemma utf8_char_code [code]:
  "utf8_char c = (let n = of_char c :: nat in
     if digit7 c then [char_of (192 + n div 64), char_of (128 + n mod 64)] else [c])"
proof -
  have "(of_char c :: nat) < 128 \<longleftrightarrow> \<not> digit7 c"
    by (cases c) (auto simp: of_char_Char horner_sum_simps)
  then show ?thesis by (simp add: utf8_char_def Let_def)
qed

definition encode :: "string \<Rightarrow> string" where
  "encode s = concat (map utf8_char s)"

lemma encode_Nil [simp]: "encode '''' = ''''"
  and encode_Cons [simp]: "encode (c # s) = utf8_char c @ encode s"
  by (simp_all add: encode_def)

section \<open>Rows\<close>

text \<open>
  A table is the list of its rows in heap order.  \<open>result.mappings().first()\<close> on a query
  that filters by \<open>P\<close> is \<^term>\<open>List.find P rows\<close>; an UPDATE with a WHERE clause \<open>P\<close> is
  \<open>update_where\<close>.
\<close>

definition update_where :: "('r \<Rightarrow> bool) \<Rightarrow> ('r \<Rightarrow> 'r) \<Rightarrow> 'r list \<Rightarrow> 'r list" where
  "update_where P f rows = map (\<lambda>r. if P r then f r else r) rows"

lemma update_where_Nil [row_simps]: "update_where P f [] = []"
  and update_where_Cons [row_simps]:
    "update_where P f (r # rows) = (if P r then f r else r) # update_where P f rows"
  and update_where_append [row_simps]:
    "update_where P f (rows @ rows') = update_where P f rows @ update_where P f rows'"
  and length_update_where [row_simps]: "length (update_where P f rows) = length rows"
  by (simp_all add: update_where_def)

lemma set_update_where: "set (update_where P f rows) = {if P r then f r else r | r. r \<in> set rows}"
  by (auto simp: update_where_def)

lemma update_whereE:
  assumes "r \<in> set (update_where P f rows)"
  obtains x where "x \<in> set rows" "r = (if P x then f x else x)"
  using assms by (auto simp: update_where_def)

lemma update_where_id: "(\<And>r. r \<in> set rows \<Longrightarrow> P r \<Longrightarrow> f r = r) \<Longrightarrow> update_where P f rows = rows"
  by (induction rows) (auto simp: row_simps)

lemma map_update_where:
  "(\<And>r. r \<in> set rows \<Longrightarrow> P r \<Longrightarrow> k (f r) = k r) \<Longrightarrow> map k (update_where P f rows) = map k rows"
  by (induction rows) (auto simp: row_simps)

lemma find_Some_iff_mem:
  "List.find P rows = Some r \<Longrightarrow> r \<in> set rows \<and> P r"
  by (induction rows) (auto split: if_splits)

lemma find_SomeD: "List.find P rows = Some r \<Longrightarrow> r \<in> set rows"
  and find_SomeD_prop: "List.find P rows = Some r \<Longrightarrow> P r"
  by (simp_all add: find_Some_iff_mem)

lemma find_None_set: "List.find P rows = None \<longleftrightarrow> (\<forall>r \<in> set rows. \<not> P r)"
  by (auto simp: find_None_iff)

lemma find_append [row_simps]:
  "List.find P (xs @ ys) = (case List.find P xs of None \<Rightarrow> List.find P ys | Some r \<Rightarrow> Some r)"
  by (induction xs) auto

lemma find_update_where:
  "(\<And>r. r \<in> set rows \<Longrightarrow> P r \<Longrightarrow> Q (f r) = Q r) \<Longrightarrow>
   List.find Q (update_where P f rows) = map_option (\<lambda>r. if P r then f r else r) (List.find Q rows)"
  by (induction rows) (auto simp: row_simps)

lemma find_cong_set:
  "(\<And>r. r \<in> set rows \<Longrightarrow> P r = Q r) \<Longrightarrow> List.find P rows = List.find Q rows"
  by (induction rows) auto

lemma find_unique_key:
  assumes "distinct (map k rows)" and "r \<in> set rows"
  shows "List.find (\<lambda>x. k x = k r) rows = Some r"
  using assms by (induction rows) (auto simp: image_iff)

lemma distinct_key_eq:
  "distinct (map k rows) \<Longrightarrow> r \<in> set rows \<Longrightarrow> r' \<in> set rows \<Longrightarrow> k r = k r' \<Longrightarrow> r = r'"
  by (metis inj_onD distinct_map)

lemma filter_append_single:
  "filter P (xs @ [x]) = (if P x then filter P xs @ [x] else filter P xs)"
  by simp

end
