(* ===== verification/Json.thy ===== *)
theory Json
  imports Prelude
begin

text \<open>
  Python's \<open>json.dumps\<close> as the code calls it: with the default separators, with
  \<open>separators=(",", ":")\<close>, with \<open>ensure_ascii=False\<close> and with \<open>sort_keys=True\<close>.
  A \<open>dict\<close> is the list of its items in insertion order.  A float is kept as the text
  Python's \<open>repr\<close> gives it, which is what \<open>json.dumps\<close> writes.
\<close>

datatype json =
    JNull
  | JBool bool
  | JInt int
  | JFloat string
  | JStr string
  | JArr "json list"
  | JObj "(string \<times> json) list"

section \<open>Strings\<close>

definition hex_digit :: "nat \<Rightarrow> char" where
  "hex_digit n = (if n < 10 then char_of (48 + n) else char_of (87 + n))"

text \<open>
  The escapes of \<open>json.encoder\<close>: the two-character escapes, \<open>\u00XX\<close> for the other
  control characters and, with \<open>ensure_ascii\<close>, for everything outside blank to tilde.
\<close>

definition esc_char :: "bool \<Rightarrow> char \<Rightarrow> string" where
  "esc_char ascii c = (let n = of_char c :: nat in
     if n = 34 then [char_of (92::nat), char_of (34::nat)]
     else if n = 92 then [char_of (92::nat), char_of (92::nat)]
     else if n = 10 then [char_of (92::nat), CHR ''n'']
     else if n = 13 then [char_of (92::nat), CHR ''r'']
     else if n = 9 then [char_of (92::nat), CHR ''t'']
     else if n = 12 then [char_of (92::nat), CHR ''f'']
     else if n = 8 then [char_of (92::nat), CHR ''b'']
     else if n < 32 \<or> (ascii \<and> 126 < n)
       then char_of (92::nat) # ''u00'' @ [hex_digit (n div 16), hex_digit (n mod 16)]
     else [c])"

definition quote :: "char" where
  "quote = char_of (34::nat)"

definition json_string :: "bool \<Rightarrow> string \<Rightarrow> string" where
  "json_string ascii s = quote # concat (map (esc_char ascii) s) @ [quote]"

section \<open>Values\<close>

record dump_opts =
  ensure_ascii :: bool
  item_sep :: string
  key_sep :: string
  sort_keys :: bool

definition default_opts :: dump_opts where
  "default_opts = \<lparr>ensure_ascii = True, item_sep = '', '', key_sep = '': '', sort_keys = False\<rparr>"

fun join_with :: "string \<Rightarrow> string list \<Rightarrow> string" where
  "join_with sep [] = ''''"
| "join_with sep [x] = x"
| "join_with sep (x # xs) = x @ sep @ join_with sep xs"

text \<open>
  \<open>sort_keys=True\<close> sorts the items of every object by key, at every level; the rest of
  the rendering does not look at the option.
\<close>

fun sort_json :: "json \<Rightarrow> json" where
  "sort_json (JArr xs) = JArr (map sort_json xs)"
| "sort_json (JObj kvs) = JObj (sort_key fst (map (\<lambda>(k, v). (k, sort_json v)) kvs))"
| "sort_json v = v"

fun dump_value :: "dump_opts \<Rightarrow> json \<Rightarrow> string" where
  "dump_value opt JNull = ''null''"
| "dump_value opt (JBool b) = (if b then ''true'' else ''false'')"
| "dump_value opt (JInt i) = int_dec i"
| "dump_value opt (JFloat r) = r"
| "dump_value opt (JStr s) = json_string (ensure_ascii opt) s"
| "dump_value opt (JArr xs) = ''['' @ join_with (item_sep opt) (map (dump_value opt) xs) @ '']''"
| "dump_value opt (JObj kvs) = ''{'' @ join_with (item_sep opt)
     (map (\<lambda>(k, v). json_string (ensure_ascii opt) k @ key_sep opt @ dump_value opt v) kvs) @ ''}''"

definition json_dumps :: "dump_opts \<Rightarrow> json \<Rightarrow> string" where
  "json_dumps opt v = dump_value opt (if sort_keys opt then sort_json v else v)"

section \<open>A rendered string can be read back\<close>

text \<open>
  The first escape of a text determines the character it stands for and where it ends,
  so the rendering of strings is injective, even with something following it.
\<close>

definition unhex :: "char \<Rightarrow> nat" where
  "unhex c = (let n = of_char c :: nat in if n < 58 then n - 48 else n - 87)"

fun unescape1 :: "string \<Rightarrow> (char \<times> string) option" where
  "unescape1 [] = None"
| "unescape1 (c # r) =
     (if (of_char c :: nat) \<noteq> 92 then Some (c, r)
      else case r of
        [] \<Rightarrow> None
      | d # r' \<Rightarrow>
          (if d = CHR ''u'' then
             (case r' of
                _ # _ # h # l # r'' \<Rightarrow> Some (char_of (16 * unhex h + unhex l), r'')
              | _ \<Rightarrow> None)
           else if d = CHR ''n'' then Some (char_of (10::nat), r')
           else if d = CHR ''r'' then Some (char_of (13::nat), r')
           else if d = CHR ''t'' then Some (char_of (9::nat), r')
           else if d = CHR ''f'' then Some (char_of (12::nat), r')
           else if d = CHR ''b'' then Some (char_of (8::nat), r')
           else Some (d, r')))"

lemma unhex_hex_digit [simp]: "n < 16 \<Longrightarrow> unhex (hex_digit n) = n"
  by (simp add: unhex_def hex_digit_def)

lemma char_of_inject [simp]:
  "m < 256 \<Longrightarrow> n < 256 \<Longrightarrow> (char_of (m::nat) = char_of n) = (m = n)"
  by (metis mod_less of_char_of)

lemma unescape1_esc_char: "unescape1 (esc_char a c @ r) = Some (c, r)"
proof -
  let ?n = "of_char c :: nat"
  have bound: "?n < 256" by simp
  have hex: "unhex (hex_digit (?n div 16)) = ?n div 16"
    using bound by (intro unhex_hex_digit) linarith
  have from_code: "of_char c = k \<Longrightarrow> char_of (k::nat) = c" for k by auto
  show ?thesis
    by (simp add: esc_char_def Let_def hex from_code del: char_of_inject)
qed

lemma esc_char_not_Nil [simp]: "esc_char a c \<noteq> []"
  by (simp add: esc_char_def Let_def)

lemma esc_char_hd: "hd (esc_char a c @ r) \<noteq> quote"
proof -
  have "c \<noteq> quote" if "of_char c \<noteq> (34::nat)"
    using that by (auto simp: quote_def)
  moreover have "char_of (92::nat) \<noteq> quote" by (simp add: quote_def)
  ultimately show ?thesis by (simp add: esc_char_def Let_def)
qed

lemma escaped_unique:
  "concat (map (esc_char a) s) @ quote # r = concat (map (esc_char a) t) @ quote # r' \<Longrightarrow>
   s = t \<and> r = r'"
proof (induction s arbitrary: t)
  case Nil
  show ?case
  proof (cases t)
    case Nil
    with Nil.prems show ?thesis by simp
  next
    case (Cons c t')
    with Nil.prems have "hd (esc_char a c @ (concat (map (esc_char a) t') @ quote # r')) = quote"
      by (metis append.assoc append_Nil concat.simps(1,2) list.sel(1) list.simps(8,9))
    then show ?thesis using esc_char_hd by blast
  qed
next
  case (Cons c s)
  note outer = Cons
  show ?case
  proof (cases t)
    case Nil
    with outer(2) have "hd (esc_char a c @ (concat (map (esc_char a) s) @ quote # r)) = quote"
      by simp
    then show ?thesis using esc_char_hd by blast
  next
    case (Cons d t')
    let ?x = "concat (map (esc_char a) s) @ quote # r"
    let ?y = "concat (map (esc_char a) t') @ quote # r'"
    have "esc_char a c @ ?x = esc_char a d @ ?y"
      using outer(2) Cons by simp
    then have "Some (c, ?x) = Some (d, ?y)"
      by (metis unescape1_esc_char)
    then have "c = d" and "?x = ?y" by simp_all
    with outer(1) [of t'] Cons show ?thesis by simp
  qed
qed

lemma json_string_unique:
  "json_string a s @ r = json_string a t @ r' \<Longrightarrow> s = t \<and> r = r'"
  using escaped_unique [of a s r t r'] by (simp add: json_string_def)

end
