(* ===== verification/Schema.thy ===== *)
theory Schema
  imports Json
begin

text \<open>
  The relational state of the application: one record per row type of
  \<open>db/001_schema.sql\<close>, the database as the lists of their rows, and the constraints
  (CHECK, UNIQUE, foreign key) that PostgreSQL enforces on the rows the application writes.

  The TEXT columns whose CHECK lists the admissible values are of one enumeration,
  \<open>status\<close>; which of its values a table admits is part of the table's constraint.
  JSONB columns that the code only writes hold the JSON text handed to CAST.
\<close>

section \<open>Enumerated columns\<close>

datatype status =
    ACTIVE | INACTIVE | BLOCKED | REVOKED | PUBLISHED | SUPERSEDED
  | SCHEDULED | COMPLETED | CANCELLED | USED | EXPIRED | PENDING | SUCCESS | FAILED
  | AVAILABLE | CONSUMED | DEBIT | CREDIT | CREATED | COMMAND_SENT | RUNNING | TIMEOUT
  | SENT | ACKNOWLEDGED | OPEN | RESOLVED | IDLE | BUSY | OFFLINE

fun status_text :: "status \<Rightarrow> string" where
  "status_text ACTIVE = ''ACTIVE''"
| "status_text INACTIVE = ''INACTIVE''"
| "status_text BLOCKED = ''BLOCKED''"
| "status_text REVOKED = ''REVOKED''"
| "status_text PUBLISHED = ''PUBLISHED''"
| "status_text SUPERSEDED = ''SUPERSEDED''"
| "status_text SCHEDULED = ''SCHEDULED''"
| "status_text COMPLETED = ''COMPLETED''"
| "status_text CANCELLED = ''CANCELLED''"
| "status_text USED = ''USED''"
| "status_text EXPIRED = ''EXPIRED''"
| "status_text PENDING = ''PENDING''"
| "status_text SUCCESS = ''SUCCESS''"
| "status_text FAILED = ''FAILED''"
| "status_text AVAILABLE = ''AVAILABLE''"
| "status_text CONSUMED = ''CONSUMED''"
| "status_text DEBIT = ''DEBIT''"
| "status_text CREDIT = ''CREDIT''"
| "status_text CREATED = ''CREATED''"
| "status_text COMMAND_SENT = ''COMMAND_SENT''"
| "status_text RUNNING = ''RUNNING''"
| "status_text TIMEOUT = ''TIMEOUT''"
| "status_text SENT = ''SENT''"
| "status_text ACKNOWLEDGED = ''ACKNOWLEDGED''"
| "status_text OPEN = ''OPEN''"
| "status_text RESOLVED = ''RESOLVED''"
| "status_text IDLE = ''IDLE''"
| "status_text BUSY = ''BUSY''"
| "status_text OFFLINE = ''OFFLINE''"

definition payment_methods :: "string list" where
  "payment_methods = [''CARD'', ''QR'', ''RF_CARD'']"

section \<open>Rows\<close>

record company =
  co_id :: int
  co_external_key :: string
  co_name :: string

record panel_user =
  pu_id :: int
  pu_company_id :: int
  pu_token_hash :: string
  pu_active :: bool

record station =
  st_id :: int
  st_company_id :: int
  st_external_key :: string
  st_name :: string

record device =
  dev_id :: int
  dev_station_id :: int
  dev_external_key :: string
  dev_status :: status
  dev_monitoring_enabled :: bool
  dev_offline_threshold_seconds :: int

record device_credential =
  cred_id :: int
  cred_device_id :: int
  cred_hash :: string
  cred_status :: status
  cred_issued_at :: timestamp
  cred_revoked_at :: "timestamp option"

record device_configuration =
  cfg_id :: int
  cfg_device_id :: int
  cfg_version :: int
  cfg_status :: status
  cfg_checksum :: string
  cfg_snapshot :: "(string \<times> json) list"
  cfg_created_at :: timestamp

record device_current_state =
  cs_device_id :: int
  cs_last_seen_at :: "timestamp option"
  cs_app_version :: "string option"
  cs_state_payload :: string
  cs_current_configuration_version :: "int option"
  cs_acknowledged_configuration_version :: "int option"
  cs_updated_at :: timestamp

record device_heartbeat =
  hb_id :: int
  hb_device_id :: int
  hb_occurred_at :: timestamp
  hb_received_at :: timestamp
  hb_sequence :: "int option"
  hb_payload :: string

record program =
  prog_id :: int
  prog_company_id :: int
  prog_external_key :: string
  prog_name :: string
  prog_price_minor :: int
  prog_active :: bool

record program_payment_method =
  ppm_id :: int
  ppm_program_id :: int
  ppm_payment_method :: string
  ppm_enabled :: bool

record entitlement =
  ent_id :: int
  ent_device_id :: int
  ent_program_id :: int
  ent_enabled :: bool

record wash_bay =
  bay_id :: int
  bay_station_id :: int
  bay_device_id :: "int option"
  bay_external_key :: string
  bay_status :: status

record maintenance_window =
  mw_id :: int
  mw_device_id :: "int option"
  mw_starts_at :: timestamp
  mw_ends_at :: timestamp
  mw_status :: status

record qr_code =
  qr_id :: int
  qr_token_hash :: string
  qr_company_id :: int
  qr_station_id :: int
  qr_program_id :: int
  qr_amount_minor :: int
  qr_currency :: string
  qr_usage_limit :: int
  qr_usage_count :: int
  qr_status :: status
  qr_starts_at :: timestamp
  qr_expires_at :: timestamp

record rf_card =
  card_id :: int
  card_company_id :: int
  card_uid_hash :: string
  card_status :: status
  card_expires_at :: "timestamp option"

record rf_wallet =
  wal_id :: int
  wal_rf_card_id :: int
  wal_balance_minor :: int
  wal_version :: int
  wal_updated_at :: timestamp

record payment_transaction =
  pay_id :: int
  pay_device_id :: int
  pay_station_id :: int
  pay_idempotency_key :: string
  pay_request_hash :: string
  pay_method :: string
  pay_amount_minor :: int
  pay_currency :: string
  pay_status :: status
  pay_error_code :: "string option"
  pay_error_message :: "string option"
  pay_program_id :: "int option"
  pay_qr_code_id :: "int option"
  pay_rf_wallet_id :: "int option"
  pay_created_at :: timestamp
  pay_completed_at :: "timestamp option"

record payment_attempt =
  att_id :: int
  att_payment_id :: int
  att_attempt_no :: int
  att_status :: status
  att_created_at :: timestamp

record provider_transaction =
  prov_id :: int
  prov_payment_id :: int
  prov_provider_ref :: string
  prov_status :: status
  prov_created_at :: timestamp

record start_right =
  sr_id :: int
  sr_payment_id :: int
  sr_device_id :: int
  sr_wash_bay_id :: int
  sr_program_id :: int
  sr_status :: status
  sr_created_at :: timestamp

record ledger_entry =
  led_id :: int
  led_wallet_id :: int
  led_payment_id :: "int option"
  led_direction :: status
  led_amount_minor :: int
  led_created_at :: timestamp

record program_execution =
  exe_id :: int
  exe_payment_id :: int
  exe_device_id :: int
  exe_wash_bay_id :: "int option"
  exe_program_id :: "int option"
  exe_status :: status
  exe_created_at :: timestamp
  exe_started_at :: "timestamp option"
  exe_completed_at :: "timestamp option"

record command =
  cmd_id :: int
  cmd_device_id :: int
  cmd_program_execution_id :: int
  cmd_command_key :: string
  cmd_status :: status
  cmd_payload :: json
  cmd_created_at :: timestamp
  cmd_sent_at :: "timestamp option"
  cmd_acknowledged_at :: "timestamp option"
  cmd_completed_at :: "timestamp option"
  cmd_result_code :: "string option"

record command_result =
  res_id :: int
  res_command_id :: int
  res_result_key :: string
  res_request_hash :: string
  res_status :: status
  res_code :: "string option"
  res_message :: "string option"
  res_payload :: string
  res_created_at :: timestamp

record event =
  ev_id :: int
  ev_device_id :: int
  ev_payment_id :: "int option"
  ev_event_type :: string
  ev_payload :: string
  ev_created_at :: timestamp

record audit_entry =
  aud_id :: int
  aud_payment_id :: int
  aud_action :: string
  aud_payload :: string
  aud_created_at :: timestamp

record alarm =
  al_id :: int
  al_device_id :: int
  al_alarm_key :: string
  al_status :: status
  al_opened_at :: timestamp
  al_closed_at :: "timestamp option"

section \<open>The database\<close>

record db =
  companies :: "company list"
  panel_users :: "panel_user list"
  stations :: "station list"
  devices :: "device list"
  device_credentials :: "device_credential list"
  device_configurations :: "device_configuration list"
  device_current_states :: "device_current_state list"
  device_heartbeats :: "device_heartbeat list"
  programs :: "program list"
  program_payment_methods :: "program_payment_method list"
  entitlements :: "entitlement list"
  wash_bays :: "wash_bay list"
  maintenance_windows :: "maintenance_window list"
  qr_codes :: "qr_code list"
  rf_cards :: "rf_card list"
  rf_wallets :: "rf_wallet list"
  payment_transactions :: "payment_transaction list"
  payment_attempts :: "payment_attempt list"
  provider_transactions :: "provider_transaction list"
  start_rights :: "start_right list"
  rf_wallet_ledger :: "ledger_entry list"
  program_executions :: "program_execution list"
  commands :: "command list"
  command_results :: "command_result list"
  events :: "event list"
  audit_entries :: "audit_entry list"
  alarms :: "alarm list"

text \<open>The BIGSERIAL sequences behind the tables the application inserts into.\<close>

datatype seq =
    PaymentSeq | AttemptSeq | ProviderSeq | StartRightSeq | LedgerSeq
  | EventSeq | AuditSeq | ResultSeq | AlarmSeq | HeartbeatSeq

section \<open>Row constraints\<close>

text \<open>
  CHECK constraints that an UPDATE of the application can touch: they are checked on
  every updated row.
\<close>

definition check_qr_code :: "qr_code \<Rightarrow> bool" where
  "check_qr_code q \<longleftrightarrow>
     0 \<le> qr_amount_minor q \<and> 0 < qr_usage_limit q \<and>
     0 \<le> qr_usage_count q \<and> qr_usage_count q \<le> qr_usage_limit q \<and>
     qr_status q \<in> {ACTIVE, USED, EXPIRED}"

definition check_rf_wallet :: "rf_wallet \<Rightarrow> bool" where
  "check_rf_wallet w \<longleftrightarrow> 0 \<le> wal_balance_minor w \<and> 0 \<le> wal_version w"

definition check_command :: "command \<Rightarrow> bool" where
  "check_command c \<longleftrightarrow> cmd_status c \<in> {PENDING, SENT, ACKNOWLEDGED, SUCCESS, FAILED}"

definition check_execution :: "program_execution \<Rightarrow> bool" where
  "check_execution e \<longleftrightarrow>
     exe_status e \<in> {CREATED, COMMAND_SENT, RUNNING, SUCCESS, FAILED, TIMEOUT, CANCELLED}"

definition check_maintenance :: "maintenance_window \<Rightarrow> bool" where
  "check_maintenance m \<longleftrightarrow>
     mw_status m \<in> {SCHEDULED, ACTIVE, COMPLETED, CANCELLED} \<and> mw_starts_at m < mw_ends_at m"

definition check_alarm :: "alarm \<Rightarrow> bool" where
  "check_alarm a \<longleftrightarrow> al_status a \<in> {OPEN, RESOLVED}"

text \<open>Existence of the row a foreign key points to.\<close>

definition has_key :: "('r \<Rightarrow> int) \<Rightarrow> 'r list \<Rightarrow> int \<Rightarrow> bool" where
  "has_key k rows i \<longleftrightarrow> i \<in> k ` set rows"

definition has_key_opt :: "('r \<Rightarrow> int) \<Rightarrow> 'r list \<Rightarrow> int option \<Rightarrow> bool" where
  "has_key_opt k rows i \<longleftrightarrow> (case i of None \<Rightarrow> True | Some j \<Rightarrow> has_key k rows j)"

definition payment_statuses :: "status set" where
  "payment_statuses = {PENDING, SUCCESS, FAILED, CANCELLED}"

text \<open>Everything PostgreSQL checks when a row is inserted.\<close>

definition insertable_payment :: "db \<Rightarrow> payment_transaction \<Rightarrow> bool" where
  "insertable_payment d p \<longleftrightarrow>
     \<not> has_key pay_id (payment_transactions d) (pay_id p) \<and>
     (pay_device_id p, pay_idempotency_key p) \<notin>
       (\<lambda>r. (pay_device_id r, pay_idempotency_key r)) ` set (payment_transactions d) \<and>
     pay_method p \<in> set payment_methods \<and>
     0 \<le> pay_amount_minor p \<and>
     pay_status p \<in> payment_statuses \<and>
     has_key dev_id (devices d) (pay_device_id p) \<and>
     has_key st_id (stations d) (pay_station_id p) \<and>
     has_key_opt prog_id (programs d) (pay_program_id p) \<and>
     has_key_opt qr_id (qr_codes d) (pay_qr_code_id p) \<and>
     has_key_opt wal_id (rf_wallets d) (pay_rf_wallet_id p)"

definition insertable_attempt :: "db \<Rightarrow> payment_attempt \<Rightarrow> bool" where
  "insertable_attempt d a \<longleftrightarrow>
     \<not> has_key att_id (payment_attempts d) (att_id a) \<and>
     has_key pay_id (payment_transactions d) (att_payment_id a) \<and>
     0 < att_attempt_no a \<and> att_status a \<in> payment_statuses \<and>
     (att_payment_id a, att_attempt_no a) \<notin>
       (\<lambda>r. (att_payment_id r, att_attempt_no r)) ` set (payment_attempts d)"

definition insertable_provider :: "db \<Rightarrow> provider_transaction \<Rightarrow> bool" where
  "insertable_provider d t \<longleftrightarrow>
     \<not> has_key prov_id (provider_transactions d) (prov_id t) \<and>
     has_key pay_id (payment_transactions d) (prov_payment_id t) \<and>
     \<not> has_key prov_payment_id (provider_transactions d) (prov_payment_id t) \<and>
     prov_provider_ref t \<notin> prov_provider_ref ` set (provider_transactions d) \<and>
     prov_status t \<in> payment_statuses"

definition insertable_start_right :: "db \<Rightarrow> start_right \<Rightarrow> bool" where
  "insertable_start_right d r \<longleftrightarrow>
     \<not> has_key sr_id (start_rights d) (sr_id r) \<and>
     has_key pay_id (payment_transactions d) (sr_payment_id r) \<and>
     \<not> has_key sr_payment_id (start_rights d) (sr_payment_id r) \<and>
     has_key dev_id (devices d) (sr_device_id r) \<and>
     has_key bay_id (wash_bays d) (sr_wash_bay_id r) \<and>
     has_key prog_id (programs d) (sr_program_id r) \<and>
     sr_status r \<in> {AVAILABLE, CONSUMED, CANCELLED, EXPIRED}"

definition insertable_ledger :: "db \<Rightarrow> ledger_entry \<Rightarrow> bool" where
  "insertable_ledger d l \<longleftrightarrow>
     \<not> has_key led_id (rf_wallet_ledger d) (led_id l) \<and>
     has_key wal_id (rf_wallets d) (led_wallet_id l) \<and>
     has_key_opt pay_id (payment_transactions d) (led_payment_id l) \<and>
     led_direction l \<in> {DEBIT, CREDIT} \<and> 0 < led_amount_minor l \<and>
     (case led_payment_id l of None \<Rightarrow> True
      | Some p \<Rightarrow> (Some p, led_direction l) \<notin>
          (\<lambda>r. (led_payment_id r, led_direction r)) ` set (rf_wallet_ledger d))"

definition insertable_event :: "db \<Rightarrow> event \<Rightarrow> bool" where
  "insertable_event d e \<longleftrightarrow>
     \<not> has_key ev_id (events d) (ev_id e) \<and>
     has_key dev_id (devices d) (ev_device_id e) \<and>
     has_key_opt pay_id (payment_transactions d) (ev_payment_id e)"

definition insertable_audit :: "db \<Rightarrow> audit_entry \<Rightarrow> bool" where
  "insertable_audit d a \<longleftrightarrow>
     \<not> has_key aud_id (audit_entries d) (aud_id a) \<and>
     has_key pay_id (payment_transactions d) (aud_payment_id a)"

definition insertable_result :: "db \<Rightarrow> command_result \<Rightarrow> bool" where
  "insertable_result d r \<longleftrightarrow>
     \<not> has_key res_id (command_results d) (res_id r) \<and>
     has_key cmd_id (commands d) (res_command_id r) \<and>
     \<not> has_key res_command_id (command_results d) (res_command_id r) \<and>
     res_status r \<in> {SUCCESS, FAILED}"

definition insertable_alarm :: "db \<Rightarrow> alarm \<Rightarrow> bool" where
  "insertable_alarm d a \<longleftrightarrow>
     \<not> has_key al_id (alarms d) (al_id a) \<and>
     has_key dev_id (devices d) (al_device_id a) \<and> check_alarm a \<and>
     (al_status a = OPEN \<longrightarrow>
       \<not> (\<exists>r \<in> set (alarms d). al_status r = OPEN \<and>
            al_device_id r = al_device_id a \<and> al_alarm_key r = al_alarm_key a))"

definition insertable_heartbeat :: "db \<Rightarrow> device_heartbeat \<Rightarrow> bool" where
  "insertable_heartbeat d h \<longleftrightarrow>
     \<not> has_key hb_id (device_heartbeats d) (hb_id h) \<and>
     has_key dev_id (devices d) (hb_device_id h)"

definition insertable_current_state :: "db \<Rightarrow> device_current_state \<Rightarrow> bool" where
  "insertable_current_state d c \<longleftrightarrow>
     \<not> has_key cs_device_id (device_current_states d) (cs_device_id c) \<and>
     has_key dev_id (devices d) (cs_device_id c)"

lemmas insertable_defs =
  insertable_payment_def insertable_attempt_def insertable_provider_def
  insertable_start_right_def insertable_ledger_def insertable_event_def
  insertable_audit_def insertable_result_def insertable_alarm_def
  insertable_heartbeat_def insertable_current_state_def

lemma has_key_append [row_simps]: "has_key k (xs @ ys) i \<longleftrightarrow> has_key k xs i \<or> has_key k ys i"
  and has_key_Nil [row_simps]: "has_key k [] i \<longleftrightarrow> False"
  and has_key_Cons [row_simps]: "has_key k (x # xs) i \<longleftrightarrow> i = k x \<or> has_key k xs i"
  by (auto simp: has_key_def)

lemma has_key_find: "List.find (\<lambda>r. k r = i) rows = Some r \<Longrightarrow> has_key k rows i"
  by (auto simp: has_key_def dest: find_Some_iff_mem)

lemma has_key_memI: "r \<in> set rows \<Longrightarrow> has_key k rows (k r)"
  by (simp add: has_key_def)

lemma has_key_update_where [row_simps]:
  assumes "\<And>r. k (f r) = k r"
  shows "has_key k (update_where P f rows) i \<longleftrightarrow> has_key k rows i"
proof -
  have "k ` set (update_where P f rows) = k ` set rows"
    using map_update_where [of rows P k f] assms by (metis list.set_map)
  then show ?thesis by (simp add: has_key_def)
qed

end
