(* ===== verification/Session.thy ===== *)
theory Session
  imports Schema
begin

text \<open>
  SQLAlchemy's \<open>AsyncSession\<close> as the code uses it (\<open>python/app/db.py\<close>): a transaction works
  on a private copy of the database, \<open>commit\<close> publishes it, an exception rolls it back.
  An operation takes the session and returns either an exception or a value, with the
  session it leaves; statements are operations.  Sequences are drawn outside the
  transaction, as in PostgreSQL: a rollback does not give an id back.
\<close>

section \<open>Exceptions\<close>

text \<open>
  \<open>AppError\<close> of \<open>app/http.py\<close> (status code, code, details; the human-readable message text
  is not modelled), and the two library exceptions a statement of the code can raise.
\<close>

datatype exn =
    AppError int string "(string \<times> json) list"
  | IntegrityError string
  | MultipleResultsFound

section \<open>Sessions and operations\<close>

record session =
  committed :: db
  working :: db
  seqs :: "seq \<Rightarrow> int"

text \<open>One order for the updates of a session, so that equal sessions are equal terms.\<close>

lemma session_update_order [simp]:
  "seqs_update f (working_update g s) = working_update g (seqs_update f s)"
  "seqs_update f (committed_update h s) = committed_update h (seqs_update f s)"
  "working_update g (committed_update h s) = committed_update h (working_update g s)"
  by simp_all

type_synonym 'a op = "session \<Rightarrow> (exn + 'a) \<times> session"

definition ret :: "'a \<Rightarrow> 'a op" where
  "ret a s = (Inr a, s)"

definition raise :: "exn \<Rightarrow> 'a op" where
  "raise e s = (Inl e, s)"

definition bind_op :: "'a op \<Rightarrow> ('a \<Rightarrow> 'b op) \<Rightarrow> 'b op" where
  "bind_op m f s = (case m s of (Inl e, s') \<Rightarrow> (Inl e, s') | (Inr a, s') \<Rightarrow> f a s')"

definition then_op :: "'a op \<Rightarrow> 'b op \<Rightarrow> 'b op" where
  "then_op m n = bind_op m (\<lambda>_. n)"

definition raise_if :: "bool \<Rightarrow> exn \<Rightarrow> unit op" where
  "raise_if c e = (if c then raise e else ret ())"

definition when_op :: "bool \<Rightarrow> unit op \<Rightarrow> unit op" where
  "when_op c m = (if c then m else ret ())"

text \<open>A \<open>for\<close> loop over rows already fetched, with an accumulator.\<close>

fun fold_op :: "('x \<Rightarrow> 'a \<Rightarrow> 'a op) \<Rightarrow> 'x list \<Rightarrow> 'a \<Rightarrow> 'a op" where
  "fold_op f [] a = ret a"
| "fold_op f (x # xs) a = bind_op (f x a) (fold_op f xs)"

text \<open>A SELECT, evaluated on the transaction's own view.\<close>

definition sql_select :: "(db \<Rightarrow> 'a) \<Rightarrow> 'a op" where
  "sql_select q s = (Inr (q (working s)), s)"

text \<open>
  An UPDATE of the rows satisfying \<open>P\<close>; the CHECK constraint \<open>chk\<close> is tested on every
  updated row, and the number of rows touched is returned (\<open>rowcount\<close>).
\<close>

definition sql_update ::
  "string \<Rightarrow> (db \<Rightarrow> 'r list) \<Rightarrow> (('r list \<Rightarrow> 'r list) \<Rightarrow> db \<Rightarrow> db) \<Rightarrow> ('r \<Rightarrow> bool) \<Rightarrow>
   ('r \<Rightarrow> bool) \<Rightarrow> ('r \<Rightarrow> 'r) \<Rightarrow> int op" where
  "sql_update name rows upd chk P f s =
     (if \<forall>r \<in> set (rows (working s)). P r \<longrightarrow> chk (f r)
      then (Inr (int (length (filter P (rows (working s))))),
            s\<lparr>working := upd (\<lambda>_. update_where P f (rows (working s))) (working s)\<rparr>)
      else (Inl (IntegrityError name), s))"

text \<open>
  An INSERT into a table with a BIGSERIAL key: \<open>nextval\<close> first, then the constraints on the
  row, then the row itself; the id is returned (\<open>RETURNING id\<close>).
\<close>

definition sql_insert ::
  "string \<Rightarrow> seq \<Rightarrow> (db \<Rightarrow> 'r list) \<Rightarrow> (('r list \<Rightarrow> 'r list) \<Rightarrow> db \<Rightarrow> db) \<Rightarrow> (db \<Rightarrow> 'r \<Rightarrow> bool) \<Rightarrow>
   (int \<Rightarrow> 'r) \<Rightarrow> int op" where
  "sql_insert name q rows upd chk mk s =
     (let i = seqs s q; s' = s\<lparr>seqs := (seqs s)(q := i + 1)\<rparr>
      in if chk (working s) (mk i)
         then (Inr i, s'\<lparr>working := upd (\<lambda>_. rows (working s) @ [mk i]) (working s)\<rparr>)
         else (Inl (IntegrityError name), s'))"

text \<open>An INSERT into a table whose key the statement gives.\<close>

definition sql_insert_key ::
  "string \<Rightarrow> (db \<Rightarrow> 'r list) \<Rightarrow> (('r list \<Rightarrow> 'r list) \<Rightarrow> db \<Rightarrow> db) \<Rightarrow> (db \<Rightarrow> 'r \<Rightarrow> bool) \<Rightarrow> 'r \<Rightarrow> unit op" where
  "sql_insert_key name rows upd chk r s =
     (if chk (working s) r
      then (Inr (), s\<lparr>working := upd (\<lambda>_. rows (working s) @ [r]) (working s)\<rparr>)
      else (Inl (IntegrityError name), s))"

definition commit :: "unit op" where
  "commit s = (Inr (), s\<lparr>committed := working s\<rparr>)"

definition rollback :: "session \<Rightarrow> session" where
  "rollback s = s\<lparr>working := committed s\<rparr>"

text \<open>
  \<open>get_session\<close> of \<open>db.py\<close>: the handler runs in a fresh session; an exception rolls back
  and propagates; closing the session discards whatever was not committed.
\<close>

definition with_session :: "'a op \<Rightarrow> 'a op" where
  "with_session m s =
     (case m (s\<lparr>working := committed s\<rparr>) of
        (Inl e, s') \<Rightarrow> (Inl e, rollback s')
      | (Inr a, s') \<Rightarrow> (Inr a, s'\<lparr>working := committed s'\<rparr>))"

section \<open>Weakest preconditions\<close>

definition wp :: "'a op \<Rightarrow> ('a \<Rightarrow> session \<Rightarrow> bool) \<Rightarrow> (exn \<Rightarrow> session \<Rightarrow> bool) \<Rightarrow> session \<Rightarrow> bool" where
  "wp m Q E s = (case m s of (Inl e, s') \<Rightarrow> E e s' | (Inr a, s') \<Rightarrow> Q a s')"

lemma wp_ret [wp_rules]: "wp (ret a) Q E s = Q a s"
  by (simp add: wp_def ret_def)

lemma wp_ret_fun: "wp (ret a) Q E = Q a"
  by (rule ext) (rule wp_ret)

lemma wp_raise [wp_rules]: "wp (raise e) Q E s = E e s"
  by (simp add: wp_def raise_def)

lemma wp_bind [wp_rules]: "wp (bind_op m f) Q E s = wp m (\<lambda>a. wp (f a) Q E) E s"
  by (simp add: wp_def bind_op_def split: prod.splits sum.splits)

lemma wp_then [wp_rules]: "wp (then_op m n) Q E s = wp m (\<lambda>_. wp n Q E) E s"
  by (simp add: then_op_def wp_bind)

lemma wp_if [wp_rules]: "wp (if c then m else n) Q E s = (if c then wp m Q E s else wp n Q E s)"
  by simp

lemma wp_raise_if [wp_rules]: "wp (raise_if c e) Q E s = (if c then E e s else Q () s)"
  by (simp add: raise_if_def wp_rules)

lemma wp_when [wp_rules]: "wp (when_op c m) Q E s = (if c then wp m Q E s else Q () s)"
  by (simp add: when_op_def wp_rules)

lemma wp_case_option [wp_rules]:
  "wp (case x of None \<Rightarrow> m | Some y \<Rightarrow> f y) Q E s =
   (case x of None \<Rightarrow> wp m Q E s | Some y \<Rightarrow> wp (f y) Q E s)"
  by (simp split: option.splits)

lemma wp_case_prod [wp_rules]:
  "wp (case x of (y, z) \<Rightarrow> f y z) Q E s = (case x of (y, z) \<Rightarrow> wp (f y z) Q E s)"
  by (simp split: prod.splits)

lemma wp_let [wp_rules]: "wp (let x = y in f x) Q E s = (let x = y in wp (f x) Q E s)"
  by simp

lemma wp_select [wp_rules]: "wp (sql_select q) Q E s = Q (q (working s)) s"
  by (simp add: wp_def sql_select_def)

lemma wp_update [wp_rules]:
  "wp (sql_update name rows upd chk P f) Q E s =
     (if \<forall>r \<in> set (rows (working s)). P r \<longrightarrow> chk (f r)
      then Q (int (length (filter P (rows (working s)))))
             (s\<lparr>working := upd (\<lambda>_. update_where P f (rows (working s))) (working s)\<rparr>)
      else E (IntegrityError name) s)"
  unfolding wp_def sql_update_def by (cases "\<forall>r \<in> set (rows (working s)). P r \<longrightarrow> chk (f r)") auto

lemma wp_insert [wp_rules]:
  "wp (sql_insert name q rows upd chk mk) Q E s =
     (if chk (working s) (mk (seqs s q))
      then Q (seqs s q)
             (s\<lparr>seqs := (seqs s)(q := seqs s q + 1),
                working := upd (\<lambda>_. rows (working s) @ [mk (seqs s q)]) (working s)\<rparr>)
      else E (IntegrityError name) (s\<lparr>seqs := (seqs s)(q := seqs s q + 1)\<rparr>))"
  by (simp add: wp_def sql_insert_def Let_def)

lemma wp_insert_key [wp_rules]:
  "wp (sql_insert_key name rows upd chk r) Q E s =
     (if chk (working s) r
      then Q () (s\<lparr>working := upd (\<lambda>_. rows (working s) @ [r]) (working s)\<rparr>)
      else E (IntegrityError name) s)"
  by (simp add: wp_def sql_insert_key_def)

lemma wp_commit [wp_rules]: "wp commit Q E s = Q () (s\<lparr>committed := working s\<rparr>)"
  by (simp add: wp_def commit_def)

lemma wp_fold_Nil [wp_rules]: "wp (fold_op f [] a) Q E s = Q a s"
  and wp_fold_Cons [wp_rules]:
    "wp (fold_op f (x # xs) a) Q E s = wp (f x a) (\<lambda>b. wp (fold_op f xs b) Q E) E s"
  by (simp_all add: wp_rules)

lemmas wp_control = wp_ret wp_raise wp_bind wp_then wp_if wp_raise_if wp_when wp_case_option wp_case_prod
  wp_let wp_select wp_commit

lemma wp_mono:
  assumes "wp m Q E s" and "\<And>a t. Q a t \<Longrightarrow> Q' a t" and "\<And>e t. E e t \<Longrightarrow> E' e t"
  shows "wp m Q' E' s"
  using assms by (auto simp: wp_def split: prod.splits sum.splits)

lemma wp_InrD: "wp m Q E s \<Longrightarrow> m s = (Inr a, t) \<Longrightarrow> Q a t"
  and wp_InlD: "wp m Q E s \<Longrightarrow> m s = (Inl e, t) \<Longrightarrow> E e t"
  by (simp_all add: wp_def)

lemma wp_exact: "wp m (\<lambda>a t. m s = (Inr a, t)) (\<lambda>e t. m s = (Inl e, t)) s"
  by (simp add: wp_def split: prod.splits sum.splits)

text \<open>Loop rule: an invariant of the accumulator and the session.\<close>

lemma wp_fold:
  assumes "I a s"
    and step: "\<And>x b t. x \<in> set xs \<Longrightarrow> I b t \<Longrightarrow> wp (f x b) I E t"
  shows "wp (fold_op f xs a) I E s"
  using assms
proof (induction xs arbitrary: a s)
  case Nil
  then show ?case by (simp add: wp_rules)
next
  case (Cons x xs)
  have "wp (f x a) I E s" using Cons.prems by simp
  then show ?case
    unfolding wp_fold_Cons
  proof (rule wp_mono)
    fix b t
    assume "I b t"
    then show "wp (fold_op f xs b) I E t"
      using Cons.prems(2) by (intro Cons.IH) auto
  qed
qed

section \<open>Sequences only grow\<close>

definition seqs_le :: "(seq \<Rightarrow> int) \<Rightarrow> (seq \<Rightarrow> int) \<Rightarrow> bool" where
  "seqs_le a b \<longleftrightarrow> (\<forall>q. a q \<le> b q)"

definition bump :: "seq \<Rightarrow> (seq \<Rightarrow> int) \<Rightarrow> (seq \<Rightarrow> int)" where
  "bump q sq = sq(q := sq q + 1)"

lemma seqs_le_refl [simp]: "seqs_le a a"
  and seqs_le_trans: "seqs_le a b \<Longrightarrow> seqs_le b c \<Longrightarrow> seqs_le a c"
  and seqs_le_bump [simp]: "seqs_le a (bump q a)"
  by (auto simp: seqs_le_def bump_def intro: order_trans)

lemma bump_simps [simp]: "bump q sq q = sq q + 1" "q \<noteq> r \<Longrightarrow> bump q sq r = sq r"
  by (simp_all add: bump_def)

text \<open>
  Chains of inserts: what one insert does to the sequences and the working database, and
  a backward rule per insert.  The states of a chain stay one nested application, so a
  chain of any length is executed symbolically without growing.
\<close>

definition put :: "session \<Rightarrow> (seq \<Rightarrow> int) \<times> db \<Rightarrow> session" where
  "put s x = s\<lparr>seqs := fst x, working := snd x\<rparr>"

definition insert_when ::
  "bool \<Rightarrow> seq \<Rightarrow> (db \<Rightarrow> 'r list) \<Rightarrow> (('r list \<Rightarrow> 'r list) \<Rightarrow> db \<Rightarrow> db) \<Rightarrow> (int \<Rightarrow> 'r) \<Rightarrow>
   (seq \<Rightarrow> int) \<times> db \<Rightarrow> (seq \<Rightarrow> int) \<times> db" where
  "insert_when c q rows upd mk x =
     (if c then (bump q (fst x), upd (\<lambda>_. rows (snd x) @ [mk (fst x q)]) (snd x)) else x)"

lemma fst_insert_when:
    "fst (insert_when c q rows upd mk x) = (if c then bump q (fst x) else fst x)"
  and snd_insert_when:
    "snd (insert_when c q rows upd mk x) =
       (if c then upd (\<lambda>_. rows (snd x) @ [mk (fst x q)]) (snd x) else snd x)"
  by (simp_all add: insert_when_def)

lemma put_simps [simp]:
  "working (put s x) = snd x" "seqs (put s x) = fst x" "committed (put s x) = committed s"
  "put (put s x) y = put s y" "put s (seqs s, working s) = s"
  by (simp_all add: put_def)

lemma update_putI:
  assumes "\<forall>r. chk (f r)"
    and "Q (int (length (filter P (rows (snd x)))))
      (put s (fst x, upd (\<lambda>_. update_where P f (rows (snd x))) (snd x)))"
  shows "wp (sql_update name rows upd chk P f) Q E (put s x)"
  using assms by (simp add: wp_update put_def)

lemma insert_putI:
  assumes "chk (snd x) (mk (fst x q)) \<Longrightarrow> Q (fst x q) (put s (insert_when True q rows upd mk x))"
    and "seqs_le sq (fst x)"
    and "\<And>e t. committed t = committed s \<Longrightarrow> seqs_le sq (seqs t) \<Longrightarrow> E e t"
  shows "wp (sql_insert name q rows upd chk mk) Q E (put s x)"
proof -
  have "seqs_le sq (bump q (fst x))" using assms(2) seqs_le_bump seqs_le_trans by blast
  moreover have "committed ((put s x)\<lparr>seqs := f\<rparr>) = committed s" for f by simp
  ultimately show ?thesis
    using assms(1) assms(3) [of "(put s x)\<lparr>seqs := bump q (fst x)\<rparr>"]
    by (simp add: wp_insert insert_when_def put_def bump_def)
qed

lemma when_insert_putI:
  assumes "(c \<Longrightarrow> chk (snd x) (mk (fst x q))) \<Longrightarrow> Q () (put s (insert_when c q rows upd mk x))"
    and "seqs_le sq (fst x)"
    and "\<And>e t. committed t = committed s \<Longrightarrow> seqs_le sq (seqs t) \<Longrightarrow> E e t"
  shows "wp (when_op c (bind_op (sql_insert name q rows upd chk mk) (\<lambda>_. ret ()))) Q E (put s x)"
proof (cases c)
  case True
  have "wp (sql_insert name q rows upd chk mk) (\<lambda>_. Q ()) E (put s x)"
    by (rule insert_putI [OF _ assms(2,3)]) (use assms(1) True in simp)
  with True show ?thesis by (simp only: when_op_def if_True wp_bind wp_ret_fun)
next
  case False
  then show ?thesis using assms(1) by (simp add: wp_rules insert_when_def)
qed

lemma seqs_le_insert_when [simp]: "seqs_le sq (fst x) \<Longrightarrow> seqs_le sq (fst (insert_when c q rows upd mk x))"
  using seqs_le_trans seqs_le_bump by (auto simp: fst_insert_when)

section \<open>What every request promises\<close>

text \<open>
  The contract between a handler and \<open>get_session\<close>.  An operation is \<open>atomic\<close> when an
  exception never leaves anything published: whatever it wrote before failing is
  discarded by the rollback.  A reader publishes nothing at all.
\<close>

locale atomic_op =
  fixes run :: "'i \<Rightarrow> 'a op"
  assumes error_unpublished: "run i s = (Inl e, t) \<Longrightarrow> committed t = committed s"
begin

lemma request_error_no_effect:
  assumes "with_session (run i) s = (Inl e, t)"
  shows "committed t = committed s"
proof -
  obtain r u where u: "run i (s\<lparr>working := committed s\<rparr>) = (r, u)"
    by (cases "run i (s\<lparr>working := committed s\<rparr>)")
  with assms have "r = Inl e" and t: "t = rollback u"
    by (auto simp: with_session_def split: sum.splits)
  with u have "committed u = committed s"
    using error_unpublished by fastforce
  with t show ?thesis by (simp add: rollback_def)
qed

lemma request_closes:
  "with_session (run i) s = (r, t) \<Longrightarrow> working t = committed t"
  by (auto simp: with_session_def rollback_def split: prod.splits sum.splits)

end

locale reader_op = atomic_op +
  assumes success_unpublished: "run i s = (Inr a, t) \<Longrightarrow> committed t = committed s"
begin

lemma request_reads_only:
  assumes "with_session (run i) s = (r, t)"
  shows "committed t = committed s"
proof (cases r)
  case (Inl e)
  with assms show ?thesis using request_error_no_effect by blast
next
  case (Inr a)
  obtain r' u where u: "run i (s\<lparr>working := committed s\<rparr>) = (r', u)"
    by (cases "run i (s\<lparr>working := committed s\<rparr>)")
  with assms Inr have "r' = Inr a" and t: "t = u\<lparr>working := committed u\<rparr>"
    by (auto simp: with_session_def split: sum.splits)
  with u have "committed u = committed s"
    using success_unpublished by fastforce
  with t show ?thesis by simp
qed

end

text \<open>
  An operation keeps an invariant \<open>I\<close> of the database and the sequences when it publishes
  only states that satisfy it, whether it ends normally or with an exception (a handler may
  raise after its commit); then so does every request, and every sequence of requests.
\<close>

definition run_requests :: "('i \<Rightarrow> 'a op) \<Rightarrow> 'i list \<Rightarrow> session \<Rightarrow> session" where
  "run_requests run = fold (\<lambda>i s. snd (with_session (run i) s))"

locale invariant_op =
  fixes run :: "'i \<Rightarrow> 'a op" and I :: "db \<Rightarrow> (seq \<Rightarrow> int) \<Rightarrow> bool"
  assumes keeps: "working s = committed s \<Longrightarrow> I (committed s) (seqs s) \<Longrightarrow> run i s = (r, t) \<Longrightarrow>
      I (committed t) (seqs t)"
begin

lemma request_invariant:
  assumes inv: "I (committed s) (seqs s)" and req: "with_session (run i) s = (r, t)"
  shows "I (committed t) (seqs t)"
proof -
  let ?s = "s\<lparr>working := committed s\<rparr>"
  obtain r' u where u: "run i ?s = (r', u)" by (cases "run i ?s")
  have "I (committed u) (seqs u)" by (rule keeps [OF _ _ u]) (use inv in simp_all)
  then show ?thesis
    using req u by (auto simp: with_session_def rollback_def split: sum.splits)
qed

lemma requests_invariant:
  "I (committed s) (seqs s) \<Longrightarrow>
   I (committed (run_requests run is s)) (seqs (run_requests run is s))"
proof (induction "is" arbitrary: s)
  case (Cons i "is")
  have "I (committed (snd (with_session (run i) s))) (seqs (snd (with_session (run i) s)))"
    by (rule request_invariant [OF Cons.prems prod.collapse [symmetric]])
  from Cons.IH [OF this] show ?case by (simp add: run_requests_def)
qed (simp add: run_requests_def)

end

lemma invariant_wpI:
  assumes "\<And>i s. working s = committed s \<Longrightarrow> I (committed s) (seqs s) \<Longrightarrow>
      wp (run i) (\<lambda>_ t. I (committed t) (seqs t)) (\<lambda>_ t. I (committed t) (seqs t)) s"
  shows "invariant_op run I"
proof (unfold_locales, goal_cases)
  case (1 s i r t)
  with assms [of s i] show ?case by (cases r) (auto simp: wp_def)
qed

end
