(* ===== verification/Worker.thy ===== *)
theory Worker
  imports Session
begin

text \<open>
  \<open>python/app/worker.py\<close>: one sweep of the device-evaluation worker.  Maintenance windows
  are activated and completed by the clock, every active device is checked for silence, and
  devices with repeated execution failures get an alarm; everything is committed at the end.
\<close>

section \<open>Alarms\<close>

definition find_open_alarm :: "int \<Rightarrow> string \<Rightarrow> db \<Rightarrow> alarm option" where
  "find_open_alarm device_id alarm_key d =
     List.find (\<lambda>a. al_device_id a = device_id \<and> al_alarm_key a = alarm_key \<and> al_status a = OPEN)
       (alarms d)"

definition open_row :: "timestamp \<Rightarrow> int \<Rightarrow> string \<Rightarrow> int \<Rightarrow> alarm" where
  "open_row now device_id alarm_key i =
     \<lparr>al_id = i, al_device_id = device_id, al_alarm_key = alarm_key, al_status = OPEN,
      al_opened_at = now, al_closed_at = None\<rparr>"

definition resolve_row :: "timestamp \<Rightarrow> alarm \<Rightarrow> alarm" where
  "resolve_row now a = a\<lparr>al_status := RESOLVED, al_closed_at := Some now\<rparr>"

definition open_alarm :: "timestamp \<Rightarrow> int \<Rightarrow> string \<Rightarrow> bool op" where
  "open_alarm now device_id alarm_key =
     bind_op (sql_select (\<lambda>d. map_option al_id (find_open_alarm device_id alarm_key d))) (\<lambda>existing.
     if existing \<noteq> None then ret False
     else bind_op (sql_insert ''alarms'' AlarmSeq alarms alarms_update insertable_alarm
            (open_row now device_id alarm_key)) (\<lambda>_. ret True))"

definition offline_key :: "int \<Rightarrow> string" where
  "offline_key device_id = ''device:'' @ int_dec device_id @ '':offline''"

definition failures_key :: "int \<Rightarrow> string" where
  "failures_key device_id = ''device:'' @ int_dec device_id @ '':execution-failures''"

section \<open>Maintenance windows\<close>

definition starts_now :: "timestamp \<Rightarrow> maintenance_window \<Rightarrow> bool" where
  "starts_now now m \<longleftrightarrow> mw_status m = SCHEDULED \<and> mw_starts_at m \<le> now \<and> now < mw_ends_at m"

definition ends_now :: "timestamp \<Rightarrow> maintenance_window \<Rightarrow> bool" where
  "ends_now now m \<longleftrightarrow> mw_status m \<in> {SCHEDULED, ACTIVE} \<and> mw_ends_at m \<le> now"

definition set_mw_status :: "status \<Rightarrow> maintenance_window \<Rightarrow> maintenance_window" where
  "set_mw_status st m = m\<lparr>mw_status := st\<rparr>"

definition active_maintenance_ids :: "timestamp \<Rightarrow> db \<Rightarrow> int list" where
  "active_maintenance_ids now d =
     List.map_filter mw_device_id
       (filter (\<lambda>m. mw_status m = ACTIVE \<and> mw_starts_at m \<le> now \<and> now < mw_ends_at m)
          (maintenance_windows d))"

section \<open>Devices\<close>

text \<open>The LEFT JOIN with the current state: no row and no contact look the same.\<close>

definition last_seen :: "db \<Rightarrow> int \<Rightarrow> timestamp option" where
  "last_seen d device_id =
     (case List.find (\<lambda>c. cs_device_id c = device_id) (device_current_states d) of
        None \<Rightarrow> None | Some c \<Rightarrow> cs_last_seen_at c)"

definition device_rows :: "db \<Rightarrow> (int \<times> timestamp option) list" where
  "device_rows d = map (\<lambda>v. (dev_id v, last_seen d (dev_id v)))
     (sort_key dev_id (filter (\<lambda>v. dev_status v = ACTIVE) (devices d)))"

definition silent_for :: "timestamp \<Rightarrow> timestamp \<Rightarrow> timestamp option \<Rightarrow> bool" where
  "silent_for duration now seen \<longleftrightarrow> (case seen of None \<Rightarrow> False | Some t \<Rightarrow> t < now - duration)"

definition is_offline :: "timestamp \<Rightarrow> timestamp option \<Rightarrow> bool" where
  "is_offline = silent_for (seconds 120)"

definition is_alarm_due :: "timestamp \<Rightarrow> timestamp option \<Rightarrow> bool" where
  "is_alarm_due = silent_for (minutes 5)"

text \<open>The body of the loop, with the two counters.\<close>

definition evaluate_device ::
  "timestamp \<Rightarrow> int list \<Rightarrow> int \<times> timestamp option \<Rightarrow> int \<times> int \<Rightarrow> (int \<times> int) op" where
  "evaluate_device now maintained row counters =
     (case row of (device_id, seen) \<Rightarrow> case counters of (opened, resolved) \<Rightarrow>
     bind_op (sql_select (\<lambda>d. map_option al_id (find_open_alarm device_id (offline_key device_id) d)))
       (\<lambda>existing.
     if is_alarm_due now seen \<and> device_id \<notin> set maintained then
       (if existing = None
        then bind_op (sql_insert ''alarms'' AlarmSeq alarms alarms_update insertable_alarm
               (open_row now device_id (offline_key device_id))) (\<lambda>_. ret (opened + 1, resolved))
        else ret (opened, resolved))
     else (case existing of
         Some i \<Rightarrow>
           if \<not> is_offline now seen
           then bind_op (sql_update ''alarms'' alarms alarms_update check_alarm
                  (\<lambda>a. al_id a = i \<and> al_status a = OPEN) (resolve_row now))
                  (\<lambda>_. ret (opened, resolved + 1))
           else ret (opened, resolved)
       | None \<Rightarrow> ret (opened, resolved))))"

section \<open>Repeated failures\<close>

definition recent_failure :: "timestamp \<Rightarrow> program_execution \<Rightarrow> bool" where
  "recent_failure now e \<longleftrightarrow> now - minutes 10 \<le> exe_created_at e \<and> exe_status e \<in> {FAILED, TIMEOUT}"

text \<open>\<open>GROUP BY device_id HAVING count(*) >= 3\<close>\<close>

definition failing_devices :: "timestamp \<Rightarrow> db \<Rightarrow> int list" where
  "failing_devices now d =
     (let ids = map exe_device_id (filter (recent_failure now) (program_executions d))
      in filter (\<lambda>i. 3 \<le> count_list ids i) (remdups ids))"

definition count_failures :: "timestamp \<Rightarrow> int \<Rightarrow> int \<Rightarrow> int op" where
  "count_failures now device_id opened =
     bind_op (open_alarm now device_id (failures_key device_id)) (\<lambda>created.
     ret (opened + (if created then 1 else 0)))"

section \<open>The sweep\<close>

record sweep_result =
  alarms_opened :: int
  alarms_resolved :: int
  maintenance_activated :: int
  maintenance_completed :: int
  devices_evaluated :: int

definition sweep_target_runtime :: "timestamp \<Rightarrow> sweep_result op" where
  "sweep_target_runtime now =
     bind_op (sql_update ''maintenance_windows'' maintenance_windows maintenance_windows_update
        check_maintenance (starts_now now) (set_mw_status ACTIVE)) (\<lambda>activated.
     bind_op (sql_update ''maintenance_windows'' maintenance_windows maintenance_windows_update
        check_maintenance (ends_now now) (set_mw_status COMPLETED)) (\<lambda>completed.
     bind_op (sql_select (active_maintenance_ids now)) (\<lambda>maintained.
     bind_op (sql_select device_rows) (\<lambda>rows.
     bind_op (fold_op (evaluate_device now maintained) rows (0, 0)) (\<lambda>(opened, resolved).
     bind_op (sql_select (failing_devices now)) (\<lambda>failing.
     bind_op (fold_op (count_failures now) failing opened) (\<lambda>opened'.
     then_op commit
       (ret \<lparr>alarms_opened = opened', alarms_resolved = resolved,
             maintenance_activated = activated, maintenance_completed = completed,
             devices_evaluated = int (length rows)\<rparr>))))))))"

end
