(* ===== verification/Calendar.thy ===== *)
theory Calendar
  imports Prelude
begin

text \<open>
  The calendar arithmetic of Python's \<open>datetime\<close> that the code relies on: conversion of a
  UTC timestamp to a date and back, \<open>replace(day=1)\<close>, and \<open>isoformat()\<close>.  The algorithms
  are those of the standard library (\<open>_ymd2ord\<close>, \<open>_ord2ymd\<close>).
\<close>

section \<open>Dates\<close>

definition is_leap :: "int \<Rightarrow> bool" where
  "is_leap y \<longleftrightarrow> y mod 4 = 0 \<and> (y mod 100 \<noteq> 0 \<or> y mod 400 = 0)"

definition days_before_year :: "int \<Rightarrow> int" where
  "days_before_year y = (let z = y - 1 in z * 365 + z div 4 - z div 100 + z div 400)"

definition month_offset :: "int \<Rightarrow> int" where
  "month_offset m =
     (if m = 1 then 0 else if m = 2 then 31 else if m = 3 then 59 else if m = 4 then 90
      else if m = 5 then 120 else if m = 6 then 151 else if m = 7 then 181
      else if m = 8 then 212 else if m = 9 then 243 else if m = 10 then 273
      else if m = 11 then 304 else 334)"

definition days_before_month :: "bool \<Rightarrow> int \<Rightarrow> int" where
  "days_before_month leap m = month_offset m + (if 2 < m \<and> leap then 1 else 0)"

definition days_in_month :: "bool \<Rightarrow> int \<Rightarrow> int" where
  "days_in_month leap m =
     (if m = 2 then (if leap then 29 else 28)
      else if m = 4 \<or> m = 6 \<or> m = 9 \<or> m = 11 then 30 else 31)"

definition ymd2ord :: "int \<Rightarrow> int \<Rightarrow> int \<Rightarrow> int" where
  "ymd2ord y m d = days_before_year y + days_before_month (is_leap y) m + d"

text \<open>The month and day of the \<open>n\<close>-th day (from 0) of a year.\<close>

definition month_day :: "bool \<Rightarrow> int \<Rightarrow> int \<times> int" where
  "month_day leap n =
     (let month = (n + 50) div 32; preceding = days_before_month leap month
      in if n < preceding
         then (month - 1, n - (preceding - days_in_month leap (month - 1)) + 1)
         else (month, n - preceding + 1))"

definition ord2ymd :: "int \<Rightarrow> int \<times> int \<times> int" where
  "ord2ymd ord =
     (let n0 = ord - 1;
          n400 = n0 div 146097; r1 = n0 mod 146097;
          n100 = r1 div 36524; r2 = r1 mod 36524;
          n4 = r2 div 1461; r3 = r2 mod 1461;
          n1 = r3 div 365; r4 = r3 mod 365;
          year = n400 * 400 + 1 + n100 * 100 + n4 * 4 + n1
      in if n1 = 4 \<or> n100 = 4 then (year - 1, 12, 31)
         else let leap = (n1 = 3 \<and> (n4 \<noteq> 24 \<or> n100 = 3))
              in (year, month_day leap r4))"

text \<open>\<open>month_day\<close> on every day of both kinds of year, by evaluation.\<close>

definition month_day_ok :: "bool \<Rightarrow> int \<Rightarrow> bool" where
  "month_day_ok leap n =
     (case month_day leap n of (m, d) \<Rightarrow>
        1 \<le> m \<and> m \<le> 12 \<and> 1 \<le> d \<and> d \<le> days_in_month leap m \<and>
        days_before_month leap m + d = n + 1)"

lemma month_day_table:
  "list_all (month_day_ok False) [0..364]" "list_all (month_day_ok True) [0..364]"
  by code_simp+

lemma month_day_ok: "0 \<le> n \<Longrightarrow> n \<le> 364 \<Longrightarrow> month_day_ok leap n"
  using month_day_table by (cases leap) (auto simp: list_all_iff)

lemma days_before_year_split:
  assumes "0 \<le> b" "b \<le> 3" "0 \<le> c" "c \<le> 24" "0 \<le> e" "e \<le> (3::int)"
  shows "days_before_year (a * 400 + 1 + b * 100 + c * 4 + e) =
    146097 * a + 36524 * b + 1461 * c + 365 * e"
proof -
  let ?z = "a * 400 + b * 100 + c * 4 + e"
  have "?z div 4 = 100 * a + 25 * b + c"
    by (rule int_div_pos_eq [where r = e]) (insert assms, auto)
  moreover have "?z div 100 = 4 * a + b"
    by (rule int_div_pos_eq [where r = "4 * c + e"]) (insert assms, auto)
  moreover have "?z div 400 = a"
    by (rule int_div_pos_eq [where r = "100 * b + 4 * c + e"]) (insert assms, auto)
  ultimately
  show ?thesis by (simp add: days_before_year_def Let_def algebra_simps)
qed

lemma is_leap_split:
  assumes "0 \<le> b" "b \<le> 3" "0 \<le> c" "c \<le> 24" "0 \<le> e" "e \<le> (3::int)"
  shows "is_leap (a * 400 + 1 + b * 100 + c * 4 + e) \<longleftrightarrow> e = 3 \<and> (c \<noteq> 24 \<or> b = 3)"
proof -
  let ?y = "a * 400 + 1 + b * 100 + c * 4 + e"
  have "e \<noteq> 3 \<Longrightarrow> ?y mod 4 = e + 1"
    by (rule int_mod_pos_eq [where q = "100 * a + 25 * b + c"]) (insert assms, auto)
  moreover have "e = 3 \<Longrightarrow> ?y mod 4 = 0"
    by (rule int_mod_pos_eq [where q = "100 * a + 25 * b + c + 1"]) (insert assms, auto)
  moreover have "e = 3 \<Longrightarrow> c \<noteq> 24 \<Longrightarrow> ?y mod 100 = 4 * c + 4"
    by (rule int_mod_pos_eq [where q = "4 * a + b"]) (insert assms, auto)
  moreover have "e = 3 \<Longrightarrow> c = 24 \<Longrightarrow> ?y mod 100 = 0"
    by (rule int_mod_pos_eq [where q = "4 * a + b + 1"]) (insert assms, auto)
  moreover have "e = 3 \<Longrightarrow> c = 24 \<Longrightarrow> b \<noteq> 3 \<Longrightarrow> ?y mod 400 = 100 * b + 100"
    by (rule int_mod_pos_eq [where q = a]) (insert assms, auto)
  moreover have "e = 3 \<Longrightarrow> c = 24 \<Longrightarrow> b = 3 \<Longrightarrow> ?y mod 400 = 0"
    by (rule int_mod_pos_eq [where q = "a + 1"]) (insert assms, auto)
  ultimately show ?thesis
    using assms unfolding is_leap_def by (cases "e = 3"; cases "c = 24"; cases "b = 3") auto
qed

definition valid_date :: "int \<Rightarrow> int \<Rightarrow> int \<Rightarrow> bool" where
  "valid_date y m d \<longleftrightarrow> 1 \<le> m \<and> m \<le> 12 \<and> 1 \<le> d \<and> d \<le> days_in_month (is_leap y) m"

lemma ord2ymd_sound:
  assumes "ord2ymd n = (y, m, d)"
  shows "valid_date y m d \<and> ymd2ord y m d = n"
proof -
  define a where "a = (n - 1) div 146097"
  define r1 where "r1 = (n - 1) mod 146097"
  define b where "b = r1 div 36524"
  define r2 where "r2 = r1 mod 36524"
  define c where "c = r2 div 1461"
  define r3 where "r3 = r2 mod 1461"
  define e where "e = r3 div 365"
  define r4 where "r4 = r3 mod 365"
  have eqs: "r1 = 36524 * b + r2" "r2 = 1461 * c + r3" "r3 = 365 * e + r4"
    unfolding b_def c_def e_def r4_def r3_def r2_def by simp_all
  have n: "n = 1 + 146097 * a + 36524 * b + 1461 * c + 365 * e + r4"
    unfolding a_def b_def c_def e_def r4_def r3_def r2_def r1_def by simp
  have r1: "0 \<le> r1" "r1 < 146097" unfolding r1_def by simp_all
  have r2: "0 \<le> r2" "r2 < 36524" and r3: "0 \<le> r3" "r3 < 1461" and r4: "0 \<le> r4" "r4 < 365"
    unfolding r2_def r3_def r4_def by simp_all
  have b: "0 \<le> b" "b \<le> 4" and r2b: "b = 4 \<Longrightarrow> r2 = 0"
    using r1 r2 eqs(1) by linarith+
  have c: "0 \<le> c" "c \<le> 24" using r2 r3 eqs(2) by linarith+
  have e: "0 \<le> e" "e \<le> 4" and r4e: "e = 4 \<Longrightarrow> r4 = 0"
    using r3 r4 eqs(3) by linarith+
  have r3b: "b = 4 \<Longrightarrow> c = 0 \<and> e = 0 \<and> r4 = 0"
    using r2b unfolding c_def e_def r4_def r3_def by simp
  have res: "(y, m, d) =
    (if e = 4 \<or> b = 4 then (a * 400 + b * 100 + c * 4 + e, 12, 31)
     else (a * 400 + 1 + b * 100 + c * 4 + e, month_day (e = 3 \<and> (c \<noteq> 24 \<or> b = 3)) r4))"
    using assms [symmetric] unfolding ord2ymd_def Let_def
    by (simp only: a_def [symmetric] r1_def [symmetric] b_def [symmetric] r2_def [symmetric]
        c_def [symmetric] r3_def [symmetric] e_def [symmetric] r4_def [symmetric]) (simp add: algebra_simps)
  consider (year) "e \<noteq> 4" "b \<noteq> 4" | (last4) "e = 4" "b \<noteq> 4" | (last400) "b = 4" by blast
  then show ?thesis
  proof cases
    case year
    then have bc: "b \<le> 3" "e \<le> 3" using b e by simp_all
    note split = days_before_year_split [OF b(1) bc(1) c e(1) bc(2)]
      is_leap_split [OF b(1) bc(1) c e(1) bc(2)]
    have "month_day_ok (e = 3 \<and> (c \<noteq> 24 \<or> b = 3)) r4" using r4 by (intro month_day_ok) simp_all
    moreover have "y = a * 400 + 1 + b * 100 + c * 4 + e"
      and "month_day (e = 3 \<and> (c \<noteq> 24 \<or> b = 3)) r4 = (m, d)"
      using res year by simp_all
    ultimately show ?thesis
      by (auto simp: month_day_ok_def valid_date_def ymd2ord_def split n)
  next
    case last4
    then have bc: "b \<le> 3" using b by simp
    have leap: "c \<noteq> 24 \<or> b = 3"
    proof (rule ccontr)
      assume "\<not> (c \<noteq> 24 \<or> b = 3)"
      then have "r2 \<ge> 1461 * 24 + 1460"
        using last4 eqs r4 by linarith
      then show False using r2 by simp
    qed
    note split = days_before_year_split [OF b(1) bc c, of 3 a] is_leap_split [OF b(1) bc c, of 3 a]
    from res last4 have "y = a * 400 + 1 + b * 100 + c * 4 + 3" "m = 12" "d = 31" by simp_all
    then show ?thesis
      using split leap r4e last4
      by (simp add: valid_date_def ymd2ord_def n days_before_month_def month_offset_def days_in_month_def)
  next
    case last400
    from res last400 r3b have y: "y = a * 400 + 1 + 3 * 100 + 24 * 4 + 3" "m = 12" "d = 31" by simp_all
    have "days_before_year y = 146097 * a + 145731"
      using days_before_year_split [of 3 24 3 a] by (simp add: y)
    moreover have "is_leap y" using is_leap_split [of 3 24 3 a] by (simp add: y)
    ultimately show ?thesis
      using y(2,3) last400 r3b
      by (simp add: valid_date_def ymd2ord_def n days_before_month_def month_offset_def days_in_month_def)
  qed
qed

section \<open>Timestamps\<close>

text \<open>The ordinal of 1970-01-01 is 719163.\<close>

definition date_ord :: "timestamp \<Rightarrow> int" where
  "date_ord t = t div days 1 + 719163"

definition midnight :: "int \<Rightarrow> timestamp" where
  "midnight ord = (ord - 719163) * days 1"

text \<open>\<open>now.replace(hour=0, minute=0, second=0, microsecond=0)\<close>.\<close>

definition start_of_day :: "timestamp \<Rightarrow> timestamp" where
  "start_of_day t = midnight (date_ord t)"

definition date_of :: "timestamp \<Rightarrow> int \<times> int \<times> int" where
  "date_of t = ord2ymd (date_ord t)"

lemma start_of_day_bounds: "start_of_day t \<le> t" "t < start_of_day t + days 1"
proof -
  have "start_of_day t = t div days 1 * days 1"
    by (simp add: start_of_day_def midnight_def date_ord_def)
  moreover have "t = t div days 1 * days 1 + t mod days 1" by simp
  moreover have "0 \<le> t mod days 1" "t mod days 1 < days 1" by (simp_all add: days_def seconds_def)
  ultimately show "start_of_day t \<le> t" "t < start_of_day t + days 1" by linarith+
qed

lemma midnight_le [simp]: "midnight a \<le> midnight b \<longleftrightarrow> a \<le> b"
  and midnight_less [simp]: "midnight a < midnight b \<longleftrightarrow> a < b"
  and midnight_Suc: "midnight (a + 1) = midnight a + days 1"
  by (simp_all add: midnight_def days_def seconds_def)

text \<open>\<open>isoformat()\<close> of an aware datetime in UTC.\<close>

definition isoformat :: "timestamp \<Rightarrow> string" where
  "isoformat t =
     (case date_of t of (y, m, d) \<Rightarrow>
        let r = t mod days 1; us = r mod 1000000; s = r div 1000000;
            p2 = (\<lambda>n. zpad 2 (nat_dec (nat n)))
        in zpad 4 (nat_dec (nat y)) @ ''-'' @ p2 m @ ''-'' @ p2 d @ ''T'' @
           p2 (s div 3600) @ '':'' @ p2 (s div 60 mod 60) @ '':'' @ p2 (s mod 60) @
           (if us = 0 then '''' else ''.'' @ zpad 6 (nat_dec (nat us))) @ ''+00:00'')"

end
