(* ===== verification/Http.thy ===== *)
theory Http
  imports Session Calendar
begin

text \<open>
  \<open>python/app/http.py\<close> and \<open>python/app/settings.py\<close>: the response envelope, the handler
  that renders an \<open>AppError\<close>, the settings, and the digests of \<open>hashlib\<close> and \<open>hmac\<close>, which
  are parameters of the model.
\<close>

section \<open>Settings\<close>

definition DEVICE_HEARTBEAT_SECONDS :: int where
  "DEVICE_HEARTBEAT_SECONDS = 30"

definition CSRF_SECRET :: string where
  "CSRF_SECRET = ''benchmark-csrf-secret''"

definition QR_PEPPER :: string where
  "QR_PEPPER = ''benchmark-qr-pepper''"

section \<open>Digests\<close>

text \<open>
  \<open>sha256(b).hexdigest()\<close> and \<open>hmac.new(key, msg, sha256).hexdigest()\<close> on bytes.
\<close>

record digests =
  sha256_hex :: "string \<Rightarrow> string"
  hmac_sha256_hex :: "string \<Rightarrow> string \<Rightarrow> string"

section \<open>Responses\<close>

record meta =
  request_id :: string
  server_time :: string

text \<open>
  \<open>meta()\<close>: the request id is the hex form of a fresh UUID, given from outside;
  \<open>replace("+00:00", "Z")\<close> acts on the suffix that \<open>isoformat\<close> ends with.
\<close>

definition utc_suffix :: string where
  "utc_suffix = ''+00:00''"

definition zulu :: "string \<Rightarrow> string" where
  "zulu t = (let n = length t - length utc_suffix in
     if drop n t = utc_suffix then take n t @ ''Z'' else t)"

definition make_meta :: "string \<Rightarrow> timestamp \<Rightarrow> meta" where
  "make_meta uuid now = \<lparr>request_id = uuid, server_time = zulu (isoformat now)\<rparr>"

datatype 'a response =
    SuccessResponse (status_code: int) (data: 'a) (response_meta: meta)
  | ErrorResponse (status_code: int) (error_code: string) (error_details: "(string \<times> json) list")
      (response_meta: meta)
  | FrameworkError (status_code: int)

definition success_response :: "string \<Rightarrow> timestamp \<Rightarrow> 'a \<Rightarrow> 'a response" where
  "success_response uuid now d = SuccessResponse 200 d (make_meta uuid now)"

text \<open>
  \<open>FrameworkError\<close> is an answer FastAPI gives itself: 422 for a request that does not match
  its declared shape, 500 for an exception nobody handles.  \<open>app_error_handler\<close> renders an \<open>AppError\<close>; any other exception reaches the framework,
  which answers 500.
\<close>

fun error_response :: "string \<Rightarrow> timestamp \<Rightarrow> exn \<Rightarrow> 'a response" where
  "error_response uuid now (AppError code name details) =
     ErrorResponse code name details (make_meta uuid now)"
| "error_response uuid now (IntegrityError _) = FrameworkError 500"
| "error_response uuid now MultipleResultsFound = FrameworkError 500"

lemma zulu_isoformat: "\<exists>t. isoformat now = t @ utc_suffix \<and> zulu (isoformat now) = t @ ''Z''"
proof -
  have "\<exists>t. isoformat now = t @ utc_suffix"
    by (simp add: isoformat_def utc_suffix_def Let_def split: prod.splits)
  then obtain t where "isoformat now = t @ utc_suffix" ..
  then show ?thesis by (auto simp: zulu_def)
qed

end
