(* ===== verification/Auth.thy ===== *)
theory Auth
  imports Http
begin

text \<open>
  \<open>python/app/auth.py\<close> and the panel credentials of \<open>python/app/dashboard.py\<close>: the token
  carried by the Authorization header, and the lookups that turn it into a device or a
  panel user.
\<close>

section \<open>Tokens\<close>

definition scheme_token :: "string \<Rightarrow> string option \<Rightarrow> string" where
  "scheme_token scheme authorization =
     (case authorization of
        None \<Rightarrow> ''''
      | Some a \<Rightarrow>
          if a = '''' \<or> \<not> startswith scheme a then ''''
          else strip (removeprefix scheme a))"

definition device_token :: "string option \<Rightarrow> string" where
  "device_token = scheme_token ''Device ''"

definition bearer_token :: "string option \<Rightarrow> string" where
  "bearer_token = scheme_token ''Bearer ''"

section \<open>Devices\<close>

definition INVALID_DEVICE_CREDENTIAL :: exn where
  "INVALID_DEVICE_CREDENTIAL = AppError 401 ''INVALID_DEVICE_CREDENTIAL'' []"

definition authenticate_device :: "digests \<Rightarrow> int \<Rightarrow> string \<Rightarrow> device op" where
  "authenticate_device dg device_id token =
     (let token_hash = sha256_hex dg (encode token) in
      bind_op (sql_select (\<lambda>d. List.find (\<lambda>c. cred_device_id c = device_id
         \<and> cred_hash c = token_hash \<and> cred_status c = ACTIVE) (device_credentials d)))
        (\<lambda>credential.
      bind_op (sql_select (\<lambda>d. List.find (\<lambda>v. dev_id v = device_id) (devices d)))
        (\<lambda>device.
      case device of
        None \<Rightarrow> raise INVALID_DEVICE_CREDENTIAL
      | Some v \<Rightarrow>
          if credential = None \<or> dev_status v \<noteq> ACTIVE then raise INVALID_DEVICE_CREDENTIAL
          else ret v)))"

text \<open>The credentials a database accepts, as one predicate.\<close>

definition device_authentic :: "digests \<Rightarrow> db \<Rightarrow> int \<Rightarrow> string \<Rightarrow> device \<Rightarrow> bool" where
  "device_authentic dg d device_id token v \<longleftrightarrow>
     List.find (\<lambda>v. dev_id v = device_id) (devices d) = Some v \<and> dev_status v = ACTIVE \<and>
     (\<exists>c \<in> set (device_credentials d). cred_device_id c = device_id \<and>
        cred_hash c = sha256_hex dg (encode token) \<and> cred_status c = ACTIVE)"

lemma wp_authenticate_device [wp_rules]:
  "wp (authenticate_device dg i tok) Q E s \<longleftrightarrow>
     (if \<exists>v. device_authentic dg (working s) i tok v
      then \<exists>v. device_authentic dg (working s) i tok v \<and> Q v s
      else E INVALID_DEVICE_CREDENTIAL s)"
  by (auto simp: authenticate_device_def device_authentic_def Let_def wp_rules find_None_set
      split: option.splits dest: find_Some_iff_mem)

section \<open>Panel users\<close>

definition INVALID_PANEL_CREDENTIAL :: exn where
  "INVALID_PANEL_CREDENTIAL = AppError 401 ''INVALID_PANEL_CREDENTIAL'' []"

definition authenticate_panel :: "digests \<Rightarrow> string \<Rightarrow> panel_user op" where
  "authenticate_panel dg token =
     (let token_hash = sha256_hex dg (encode token) in
      bind_op (sql_select (\<lambda>d. List.find (\<lambda>u. pu_token_hash u = token_hash \<and> pu_active u)
         (panel_users d)))
        (\<lambda>row. case row of None \<Rightarrow> raise INVALID_PANEL_CREDENTIAL | Some u \<Rightarrow> ret u))"

section \<open>Properties\<close>

lemma scheme_token_prefix:
  assumes "\<And>c. c \<in> set t \<Longrightarrow> \<not> py_space c" and "scheme \<noteq> ''''"
  shows "scheme_token scheme (Some (scheme @ t)) = t"
  using assms by (simp add: scheme_token_def strip_id)

interpretation authenticate_device: reader_op "\<lambda>(i, tok). authenticate_device dg i tok"
proof (unfold_locales, goal_cases)
  case (1 i s e t)
  have "wp (authenticate_device dg (fst i) (snd i)) (\<lambda>_ u. u = s) (\<lambda>_ u. u = s) s"
    by (auto simp: wp_rules)
  with 1 show ?case by (auto simp: wp_def split: prod.splits)
next
  case (2 i s a t)
  have "wp (authenticate_device dg (fst i) (snd i)) (\<lambda>_ u. u = s) (\<lambda>_ u. u = s) s"
    by (auto simp: wp_rules)
  with 2 show ?case by (auto simp: wp_def split: prod.splits)
qed

end
