(* ===== verification/Dashboard.thy ===== *)
theory Dashboard
  imports Worker Auth
begin

text \<open>
  \<open>python/app/dashboard.py\<close>: the reporting period and the overview of one company, every
  query of it as a list comprehension over the tables it joins.
\<close>

section \<open>The period\<close>

text \<open>\<open>start.replace(...)\<close> on a midnight keeps it a midnight of the new date.\<close>

definition first_of_month :: "timestamp \<Rightarrow> timestamp" where
  "first_of_month today = (case date_of today of (y, m, d) \<Rightarrow> midnight (ymd2ord y m 1))"

definition first_of_next_month :: "timestamp \<Rightarrow> timestamp" where
  "first_of_next_month start = (case date_of start of (y, m, d) \<Rightarrow>
     if m = 12 then midnight (ymd2ord (y + 1) 1 d) else midnight (ymd2ord y (m + 1) d))"

definition INVALID_PERIOD :: exn where
  "INVALID_PERIOD = AppError 422 ''INVALID_PERIOD'' []"

definition period_bounds :: "timestamp \<Rightarrow> string \<Rightarrow> exn + timestamp \<times> timestamp" where
  "period_bounds now period =
     (let today = start_of_day now in
      if period = ''TODAY'' then Inr (today, today + days 1)
      else if period = ''LAST_7_DAYS'' then Inr (today - days 6, today + days 1)
      else if period = ''THIS_MONTH'' then
        (let start = first_of_month today in Inr (start, first_of_next_month start))
      else Inl INVALID_PERIOD)"

section \<open>The answer\<close>

record device_counts =
  dc_total :: int
  dc_online :: int
  dc_offline :: int
  dc_unknown :: int
  dc_active :: int

record financial_counts =
  fc_transaction_count :: int
  fc_successful :: int
  fc_failed :: int
  fc_pending :: int
  fc_cancelled :: int
  fc_gross_amount :: int

record method_row =
  mr_payment_method :: string
  mr_total_count :: int
  mr_successful_count :: int
  mr_amount :: int

record overview_payload =
  ov_period :: string
  ov_company_id :: string
  ov_company_name :: string
  ov_period_start :: string
  ov_period_end :: string
  ov_dealer_count :: int
  ov_company_count :: int
  ov_station_count :: int
  ov_wash_bay_count :: int
  ov_devices :: device_counts
  ov_suspended :: int
  ov_financial :: financial_counts
  ov_refund_amount :: int
  ov_net_amount :: int
  ov_currency :: string
  ov_payment_methods :: "method_row list"
  ov_failed_execution_count :: int

section \<open>The queries\<close>

definition count_where :: "('a \<Rightarrow> bool) \<Rightarrow> 'a list \<Rightarrow> int" where
  "count_where P xs = int (length (filter P xs))"

text \<open>\<open>coalesce(sum(...) FILTER (WHERE ...), 0)\<close>\<close>

definition sum_where :: "('a \<Rightarrow> int) \<Rightarrow> ('a \<Rightarrow> bool) \<Rightarrow> 'a list \<Rightarrow> int" where
  "sum_where f P xs = sum_list (map f (filter P xs))"

definition company_stations :: "int \<Rightarrow> db \<Rightarrow> station list" where
  "company_stations company_id d = filter (\<lambda>t. st_company_id t = company_id) (stations d)"

definition company_bays :: "int \<Rightarrow> db \<Rightarrow> wash_bay list" where
  "company_bays company_id d =
     [w. w \<leftarrow> wash_bays d, t \<leftarrow> company_stations company_id d, st_id t = bay_station_id w]"

text \<open>The devices of the company, each with the last contact of the LEFT JOIN.\<close>

definition company_devices :: "int \<Rightarrow> db \<Rightarrow> (device \<times> timestamp option) list" where
  "company_devices company_id d =
     [(v, last_seen d (dev_id v)). v \<leftarrow> devices d, t \<leftarrow> company_stations company_id d,
        st_id t = dev_station_id v]"

definition seen_since :: "timestamp \<Rightarrow> device \<times> timestamp option \<Rightarrow> bool" where
  "seen_since cutoff r = (case snd r of None \<Rightarrow> False | Some t \<Rightarrow> cutoff \<le> t)"

definition seen_before :: "timestamp \<Rightarrow> device \<times> timestamp option \<Rightarrow> bool" where
  "seen_before cutoff r = (case snd r of None \<Rightarrow> False | Some t \<Rightarrow> t < cutoff)"

definition count_devices :: "timestamp \<Rightarrow> int \<Rightarrow> db \<Rightarrow> device_counts" where
  "count_devices online_cutoff company_id d =
     (let rows = company_devices company_id d in
      \<lparr>dc_total = int (length rows),
       dc_online = count_where (seen_since online_cutoff) rows,
       dc_offline = count_where (seen_before online_cutoff) rows,
       dc_unknown = count_where (\<lambda>r. snd r = None) rows,
       dc_active = count_where (\<lambda>r. dev_status (fst r) = ACTIVE) rows\<rparr>)"

definition period_payments :: "int \<Rightarrow> timestamp \<Rightarrow> timestamp \<Rightarrow> db \<Rightarrow> payment_transaction list" where
  "period_payments company_id start end d =
     [p. p \<leftarrow> payment_transactions d, t \<leftarrow> company_stations company_id d,
        st_id t = pay_station_id p \<and> start \<le> pay_created_at p \<and> pay_created_at p < end]"

definition paid :: "payment_transaction \<Rightarrow> bool" where
  "paid p \<longleftrightarrow> pay_status p = SUCCESS"

definition count_payments :: "payment_transaction list \<Rightarrow> financial_counts" where
  "count_payments rows =
     \<lparr>fc_transaction_count = int (length rows),
      fc_successful = count_where paid rows,
      fc_failed = count_where (\<lambda>p. pay_status p = FAILED) rows,
      fc_pending = count_where (\<lambda>p. pay_status p = PENDING) rows,
      fc_cancelled = count_where (\<lambda>p. pay_status p = CANCELLED) rows,
      fc_gross_amount = sum_where pay_amount_minor paid rows\<rparr>"

text \<open>\<open>GROUP BY p.method ORDER BY p.method\<close>\<close>

definition group_methods :: "payment_transaction list \<Rightarrow> method_row list" where
  "group_methods rows =
     map (\<lambda>m. let group = filter (\<lambda>p. pay_method p = m) rows in
       \<lparr>mr_payment_method = m, mr_total_count = int (length group),
        mr_successful_count = count_where paid group,
        mr_amount = sum_where pay_amount_minor paid group\<rparr>)
       (sort (remdups (map pay_method rows)))"

definition count_failed_executions :: "int \<Rightarrow> timestamp \<Rightarrow> timestamp \<Rightarrow> db \<Rightarrow> int" where
  "count_failed_executions company_id start end d =
     int (length [e. e \<leftarrow> program_executions d, p \<leftarrow> payment_transactions d,
        pay_id p = exe_payment_id e, t \<leftarrow> company_stations company_id d,
        st_id t = pay_station_id p \<and> start \<le> exe_created_at e \<and> exe_created_at e < end \<and>
        exe_status e \<in> {FAILED, TIMEOUT}])"

section \<open>The operation\<close>

definition COMPANY_NOT_FOUND :: exn where
  "COMPANY_NOT_FOUND = AppError 404 ''COMPANY_NOT_FOUND'' []"

definition overview_view ::
  "string \<Rightarrow> company \<Rightarrow> timestamp \<Rightarrow> timestamp \<Rightarrow> int \<Rightarrow> int \<Rightarrow> device_counts \<Rightarrow> financial_counts \<Rightarrow>
   method_row list \<Rightarrow> int \<Rightarrow> overview_payload" where
  "overview_view period company start end station_count wash_bay_count device_stats financial methods failed =
     \<lparr>ov_period = period, ov_company_id = int_dec (co_id company), ov_company_name = co_name company,
      ov_period_start = isoformat start, ov_period_end = isoformat end,
      ov_dealer_count = 0, ov_company_count = 1, ov_station_count = station_count,
      ov_wash_bay_count = wash_bay_count, ov_devices = device_stats, ov_suspended = 0,
      ov_financial = financial, ov_refund_amount = 0, ov_net_amount = fc_gross_amount financial,
      ov_currency = ''TRY'', ov_payment_methods = methods, ov_failed_execution_count = failed\<rparr>"

text \<open>The clock is read twice: for the period and, later, for the online cutoff.\<close>

definition overview :: "timestamp \<Rightarrow> timestamp \<Rightarrow> int \<Rightarrow> string \<Rightarrow> overview_payload op" where
  "overview now now' company_id period =
     (case period_bounds now period of
        Inl e \<Rightarrow> raise e
      | Inr (start, end) \<Rightarrow>
     bind_op (sql_select (\<lambda>d. List.find (\<lambda>c. co_id c = company_id) (companies d))) (\<lambda>company.
     case company of None \<Rightarrow> raise COMPANY_NOT_FOUND
     | Some c \<Rightarrow>
     bind_op (sql_select (\<lambda>d. (int (length (company_stations company_id d)),
        int (length (company_bays company_id d))))) (\<lambda>(station_count, wash_bay_count).
     bind_op (sql_select (count_devices (now' - seconds 120) company_id)) (\<lambda>device_stats.
     bind_op (sql_select (\<lambda>d. count_payments (period_payments company_id start end d))) (\<lambda>financial.
     bind_op (sql_select (\<lambda>d. group_methods (period_payments company_id start end d))) (\<lambda>methods.
     bind_op (sql_select (count_failed_executions company_id start end)) (\<lambda>failed.
     ret (overview_view period c start end station_count wash_bay_count device_stats financial methods
       failed))))))))"

section \<open>Behaviour\<close>

definition overview_of :: "timestamp \<Rightarrow> int \<Rightarrow> string \<Rightarrow> company \<Rightarrow> timestamp \<Rightarrow> timestamp \<Rightarrow> db \<Rightarrow> overview_payload" where
  "overview_of now' company_id period c start end d =
     overview_view period c start end (int (length (company_stations company_id d)))
       (int (length (company_bays company_id d))) (count_devices (now' - seconds 120) company_id d)
       (count_payments (period_payments company_id start end d))
       (group_methods (period_payments company_id start end d))
       (count_failed_executions company_id start end d)"

lemma wp_overview [wp_rules]:
  "wp (overview now now' company_id period) Q E s =
     (case period_bounds now period of
        Inl e \<Rightarrow> E e s
      | Inr (start, end) \<Rightarrow>
          (case List.find (\<lambda>c. co_id c = company_id) (companies (working s)) of
             None \<Rightarrow> E COMPANY_NOT_FOUND s
           | Some c \<Rightarrow> Q (overview_of now' company_id period c start end (working s)) s))"
  by (simp add: overview_def overview_of_def wp_rules split: sum.splits option.splits prod.splits)

interpretation overview: reader_op "\<lambda>(now, now', i, p). overview now now' i p"
proof (unfold_locales, goal_cases)
  case (1 i s e t)
  obtain a b c d where i: "i = (a, b, c, d)" by (metis prod_cases4)
  have "wp (overview a b c d) (\<lambda>_ u. u = s) (\<lambda>_ u. u = s) s"
    by (simp add: wp_rules split: sum.splits option.splits prod.splits)
  with 1 show ?case by (auto simp: i wp_def split: prod.splits)
next
  case (2 i s v t)
  obtain a b c d where i: "i = (a, b, c, d)" by (metis prod_cases4)
  have "wp (overview a b c d) (\<lambda>_ u. u = s) (\<lambda>_ u. u = s) s"
    by (simp add: wp_rules split: sum.splits option.splits prod.splits)
  with 2 show ?case by (auto simp: i wp_def split: prod.splits)
qed

end
