(* ===== verification/Payments.thy ===== *)
theory Payments
  imports Auth
begin

text \<open>
  \<open>python/app/payments.py\<close>: the model.  \<open>create_payment\<close> is cut at the blank lines of the
  source into the replay check, the operational guards, the resolution of the program, the
  settlement per payment method and the rows that record the payment; the handler composes
  them in the source's order and commits once.
\<close>

section \<open>Hashes and identifiers\<close>

definition secret_hash :: "digests \<Rightarrow> string \<Rightarrow> string \<Rightarrow> string" where
  "secret_hash dg value pepper = hmac_sha256_hex dg (encode pepper) (encode value)"

definition is_hex :: "char \<Rightarrow> bool" where
  "is_hex c = (let n = of_char c :: nat in
     48 \<le> n \<and> n \<le> 57 \<or> 65 \<le> n \<and> n \<le> 70 \<or> 97 \<le> n \<and> n \<le> 102)"

text \<open>\<open>str.upper()\<close> on the hexadecimal digits that are left.\<close>

definition upper_hex :: "char \<Rightarrow> char" where
  "upper_hex c = (let n = of_char c :: nat in if 97 \<le> n \<and> n \<le> 102 then char_of (n - 32) else c)"

definition INVALID_RF_UID :: exn where
  "INVALID_RF_UID = AppError 422 ''INVALID_RF_UID'' []"

definition normalize_uid :: "string \<Rightarrow> exn + string" where
  "normalize_uid value =
     (let normalized = map upper_hex (filter is_hex value) in
      if length normalized < 8 \<or> 64 < length normalized \<or> odd (length normalized)
      then Inl INVALID_RF_UID else Inr normalized)"

section \<open>The request\<close>

text \<open>\<open>DevicePaymentRequest\<close> of \<open>main.py\<close>, dumped to a dict in field order.\<close>

record payment_request =
  station_program_id :: "int option"
  payment_method :: string
  configuration_version :: int
  displayed_price_minor :: "int option"
  qr_token :: "string option"
  rf_uid :: "string option"
  test_scenario :: "string option"

definition opt_json :: "('a \<Rightarrow> json) \<Rightarrow> 'a option \<Rightarrow> json" where
  "opt_json f v = (case v of None \<Rightarrow> JNull | Some x \<Rightarrow> f x)"

definition body_items :: "payment_request \<Rightarrow> (string \<times> json) list" where
  "body_items b =
     [(''station_program_id'', opt_json JInt (station_program_id b)),
      (''payment_method'', JStr (payment_method b)),
      (''configuration_version'', JInt (configuration_version b)),
      (''displayed_price_minor'', opt_json JInt (displayed_price_minor b)),
      (''qr_token'', opt_json JStr (qr_token b)),
      (''rf_uid'', opt_json JStr (rf_uid b)),
      (''test_scenario'', opt_json JStr (test_scenario b))]"

definition hash_opts :: dump_opts where
  "hash_opts = \<lparr>ensure_ascii = False, item_sep = '','', key_sep = '':'', sort_keys = False\<rparr>"

definition request_hash :: "digests \<Rightarrow> payment_request \<Rightarrow> string" where
  "request_hash dg body =
     secret_hash dg (json_dumps hash_opts (JObj (body_items body))) CSRF_SECRET"

text \<open>The text hashed into the key of \<open>pg_advisory_xact_lock\<close>.\<close>

definition payment_lock_key :: "int \<Rightarrow> string \<Rightarrow> string" where
  "payment_lock_key device_id key = ''payment:'' @ int_dec device_id @ '':'' @ key"

section \<open>The answer\<close>

record payment_payload =
  pp_id :: string
  pp_code :: string
  pp_status :: status
  pp_payment_method :: string
  pp_amount_minor :: int
  pp_currency :: string
  pp_error_code :: "string option"
  pp_station_program_id :: "string option"
  pp_created_at :: string
  pp_start_right :: "(string \<times> status) option"
  pp_execution :: "(string \<times> status) option"

text \<open>\<open>f"{n:012d}"\<close>\<close>

definition format_012d :: "int \<Rightarrow> string" where
  "format_012d n = (if n < 0 then CHR ''-'' # zpad 11 (nat_dec (nat (- n)))
     else zpad 12 (nat_dec (nat n)))"

definition PAYMENT_NOT_FOUND :: exn where
  "PAYMENT_NOT_FOUND = AppError 404 ''PAYMENT_NOT_FOUND'' []"

definition payment_view ::
  "payment_transaction \<Rightarrow> start_right option \<Rightarrow> program_execution option \<Rightarrow> payment_payload" where
  "payment_view payment right execution =
     \<lparr>pp_id = int_dec (pay_id payment),
      pp_code = ''PAY-'' @ format_012d (pay_id payment),
      pp_status = pay_status payment,
      pp_payment_method = pay_method payment,
      pp_amount_minor = pay_amount_minor payment,
      pp_currency = pay_currency payment,
      pp_error_code = pay_error_code payment,
      pp_station_program_id = map_option int_dec (pay_program_id payment),
      pp_created_at = isoformat (pay_created_at payment),
      pp_start_right = map_option (\<lambda>r. (int_dec (sr_id r), sr_status r)) right,
      pp_execution = map_option (\<lambda>e. (int_dec (exe_id e), exe_status e)) execution\<rparr>"

definition read_payment :: "int \<Rightarrow> payment_payload op" where
  "read_payment payment_id =
     bind_op (sql_select (\<lambda>d. List.find (\<lambda>p. pay_id p = payment_id) (payment_transactions d)))
       (\<lambda>payment.
     case payment of None \<Rightarrow> raise PAYMENT_NOT_FOUND
     | Some p \<Rightarrow>
     bind_op (sql_select (\<lambda>d. List.find (\<lambda>r. sr_payment_id r = payment_id) (start_rights d)))
       (\<lambda>right.
     bind_op (sql_select (\<lambda>d. List.find (\<lambda>e. exe_payment_id e = payment_id) (program_executions d)))
       (\<lambda>execution. ret (payment_view p right execution))))"

section \<open>Replay\<close>

definition IDEMPOTENCY_CONFLICT :: exn where
  "IDEMPOTENCY_CONFLICT = AppError 409 ''IDEMPOTENCY_CONFLICT'' []"

definition find_by_key :: "int \<Rightarrow> string \<Rightarrow> db \<Rightarrow> payment_transaction option" where
  "find_by_key device_id key d =
     List.find (\<lambda>p. pay_device_id p = device_id \<and> pay_idempotency_key p = key)
       (payment_transactions d)"

text \<open>\<open>None\<close>: no payment under this key yet; \<open>Some\<close>: the answer recorded for it.\<close>

definition check_replay :: "int \<Rightarrow> string \<Rightarrow> string \<Rightarrow> payment_payload option op" where
  "check_replay device_id key body_hash =
     bind_op (sql_select (find_by_key device_id key)) (\<lambda>existing.
     case existing of
       None \<Rightarrow> ret None
     | Some p \<Rightarrow>
         then_op (raise_if (pay_request_hash p \<noteq> body_hash) IDEMPOTENCY_CONFLICT)
           (bind_op (read_payment (pay_id p)) (\<lambda>v. ret (Some v))))"

section \<open>Operational guards\<close>

definition guard_error :: "string \<Rightarrow> exn" where
  "guard_error code = AppError 409 code []"

definition device_online :: "timestamp \<Rightarrow> device_current_state \<Rightarrow> bool" where
  "device_online now c \<longleftrightarrow>
     (case cs_last_seen_at c of None \<Rightarrow> False | Some seen \<Rightarrow> \<not> seen < now - seconds 120)"

definition in_maintenance :: "timestamp \<Rightarrow> int \<Rightarrow> maintenance_window \<Rightarrow> bool" where
  "in_maintenance now device_id m \<longleftrightarrow>
     mw_device_id m = Some device_id \<and> mw_status m = ACTIVE \<and>
     mw_starts_at m \<le> now \<and> now < mw_ends_at m"

definition occupies_bay :: "int \<Rightarrow> program_execution \<Rightarrow> bool" where
  "occupies_bay wash_bay_id e \<longleftrightarrow>
     exe_wash_bay_id e = Some wash_bay_id \<and> exe_status e \<in> {CREATED, COMMAND_SENT, RUNNING}"

definition configuration_acknowledged ::
  "device_configuration option \<Rightarrow> device_current_state \<Rightarrow> int \<Rightarrow> bool" where
  "configuration_acknowledged configuration state requested_version \<longleftrightarrow>
     (case configuration of None \<Rightarrow> False
      | Some c \<Rightarrow> cfg_version c = requested_version \<and>
          cs_acknowledged_configuration_version state = Some (cfg_version c))"

definition operational_guards :: "timestamp \<Rightarrow> device \<Rightarrow> payment_request \<Rightarrow> (int \<times> int) op" where
  "operational_guards now device body =
     (let device_id = dev_id device; station_id = dev_station_id device in
      then_op (raise_if (dev_status device \<noteq> ACTIVE) (guard_error ''DEVICE_NOT_OPERATIONAL''))
     (bind_op (sql_select (\<lambda>d. List.find (\<lambda>t. st_id t = station_id) (stations d))) (\<lambda>station.
      case station of None \<Rightarrow> raise (guard_error ''DEVICE_NOT_OPERATIONAL'')
      | Some t \<Rightarrow>
      bind_op (sql_select (\<lambda>d. List.find (\<lambda>c. cs_device_id c = device_id) (device_current_states d)))
        (\<lambda>state.
      case state of None \<Rightarrow> raise (guard_error ''DEVICE_OFFLINE'')
      | Some c \<Rightarrow>
      then_op (raise_if (\<not> device_online now c) (guard_error ''DEVICE_OFFLINE''))
     (bind_op (sql_select (\<lambda>d. List.find (\<lambda>w. bay_device_id w = Some device_id) (wash_bays d)))
        (\<lambda>wash_bay.
      case wash_bay of None \<Rightarrow> raise (guard_error ''DEVICE_NOT_ASSIGNED'')
      | Some w \<Rightarrow>
      bind_op (sql_select (\<lambda>d. List.find (in_maintenance now device_id) (maintenance_windows d)))
        (\<lambda>maintenance.
      then_op (raise_if (maintenance \<noteq> None) (guard_error ''DEVICE_IN_MAINTENANCE''))
     (bind_op (sql_select (\<lambda>d. List.find (\<lambda>c. cfg_device_id c = device_id \<and> cfg_status c = PUBLISHED)
         (device_configurations d))) (\<lambda>configuration.
      then_op (raise_if (\<not> configuration_acknowledged configuration c (configuration_version body))
         (guard_error ''CONFIGURATION_NOT_ACKNOWLEDGED''))
     (bind_op (sql_select (\<lambda>d. List.find (occupies_bay (bay_id w)) (program_executions d))) (\<lambda>busy.
      then_op (raise_if (busy \<noteq> None) (guard_error ''WASH_BAY_BUSY''))
     (ret (st_company_id t, bay_id w)))))))))))))"

section \<open>Program resolution\<close>

definition qr_hash :: "digests \<Rightarrow> payment_request \<Rightarrow> string" where
  "qr_hash dg body = secret_hash dg (or_empty (qr_token body)) QR_PEPPER"

definition find_qr :: "string \<Rightarrow> db \<Rightarrow> qr_code option" where
  "find_qr token_hash d = List.find (\<lambda>q. qr_token_hash q = token_hash) (qr_codes d)"

definition requested_program ::
  "digests \<Rightarrow> device \<Rightarrow> int \<Rightarrow> payment_request \<Rightarrow> int op" where
  "requested_program dg device company_id body =
     (if payment_method body = ''QR'' then
        bind_op (sql_select (find_qr (qr_hash dg body))) (\<lambda>qr_preflight.
        case qr_preflight of None \<Rightarrow> raise (AppError 404 ''QR_NOT_FOUND'' [])
        | Some q \<Rightarrow>
            if qr_company_id q \<noteq> company_id \<or> qr_station_id q \<noteq> dev_station_id device
            then raise (AppError 404 ''QR_NOT_FOUND'' [])
            else ret (qr_program_id q))
      else (case station_program_id body of
              None \<Rightarrow> raise (AppError 422 ''STATION_PROGRAM_REQUIRED'' [])
            | Some p \<Rightarrow> ret p))"

definition or_zero :: "int option \<Rightarrow> int" where
  "or_zero v = (case v of None \<Rightarrow> 0 | Some n \<Rightarrow> n)"

definition resolve_program ::
  "digests \<Rightarrow> device \<Rightarrow> int \<Rightarrow> payment_request \<Rightarrow> (int \<times> int) op" where
  "resolve_program dg device company_id body =
     bind_op (requested_program dg device company_id body) (\<lambda>program_id.
     bind_op (sql_select (\<lambda>d. List.find (\<lambda>p. prog_id p = program_id \<and>
        prog_company_id p = company_id \<and> prog_active p) (programs d))) (\<lambda>program.
     case program of None \<Rightarrow> raise (guard_error ''PROGRAM_NOT_AVAILABLE'')
     | Some p \<Rightarrow>
     bind_op (sql_select (\<lambda>d. List.find (\<lambda>e. ent_device_id e = dev_id device \<and>
        ent_program_id e = program_id \<and> ent_enabled e) (entitlements d))) (\<lambda>entitlement.
     then_op (raise_if (entitlement = None) (guard_error ''ENTITLEMENT_REQUIRED''))
    (bind_op (sql_select (\<lambda>d. List.find (\<lambda>m. ppm_program_id m = program_id \<and>
        ppm_payment_method m = payment_method body \<and> ppm_enabled m) (program_payment_methods d)))
        (\<lambda>method_enabled.
     then_op (raise_if (method_enabled = None) (guard_error ''PAYMENT_METHOD_NOT_AVAILABLE''))
    (then_op (raise_if (payment_method body \<in> {''CARD'', ''RF_CARD''} \<and>
          or_zero (displayed_price_minor body) \<noteq> prog_price_minor p)
        (AppError 409 ''PROGRAM_PRICE_CHANGED'' [(''current_price_minor'', JInt (prog_price_minor p))]))
     (ret (program_id, prog_price_minor p))))))))"

section \<open>Settlement\<close>

text \<open>The local variables the three branches of the source assign.\<close>

record settlement =
  stl_status :: status
  stl_error_code :: "string option"
  stl_error_message :: "string option"
  stl_amount_minor :: int
  stl_qr_code_id :: "int option"
  stl_rf_wallet_id :: "int option"

definition settled :: "int \<Rightarrow> settlement" where
  "settled program_price =
     \<lparr>stl_status = SUCCESS, stl_error_code = None, stl_error_message = None,
      stl_amount_minor = program_price, stl_qr_code_id = None, stl_rf_wallet_id = None\<rparr>"

definition failed_with :: "string \<Rightarrow> int \<Rightarrow> settlement" where
  "failed_with code program_price =
     (settled program_price)\<lparr>stl_status := FAILED, stl_error_code := Some code,
        stl_error_message := Some code\<rparr>"

definition card_scenarios :: "(string \<times> status \<times> string option) list" where
  "card_scenarios =
     [(''TEST_SUCCESS'', SUCCESS, None),
      (''TEST_FAILED'', FAILED, Some ''CARD_DECLINED''),
      (''TEST_CANCELLED'', CANCELLED, Some ''CARD_CANCELLED''),
      (''TEST_TIMEOUT'', PENDING, None),
      (''TEST_INSUFFICIENT_FUNDS'', FAILED, Some ''INSUFFICIENT_FUNDS''),
      (''TEST_PROVIDER_ERROR'', FAILED, Some ''PROVIDER_ERROR'')]"

definition settle_card :: "payment_request \<Rightarrow> int \<Rightarrow> settlement op" where
  "settle_card body program_price =
     (case map_of card_scenarios (or_empty (test_scenario body)) of
        None \<Rightarrow> raise (AppError 422 ''INVALID_TEST_SCENARIO'' [])
      | Some (st, code) \<Rightarrow>
          ret ((settled program_price)\<lparr>stl_status := st, stl_error_code := code,
             stl_error_message := code\<rparr>))"

definition redeemable :: "timestamp \<Rightarrow> device \<Rightarrow> int \<Rightarrow> int \<Rightarrow> qr_code \<Rightarrow> bool" where
  "redeemable now device company_id program_id q \<longleftrightarrow>
     qr_status q = ACTIVE \<and> qr_company_id q = company_id \<and>
     qr_station_id q = dev_station_id device \<and> qr_program_id q = program_id \<and>
     qr_starts_at q \<le> now \<and> now < qr_expires_at q \<and> qr_usage_count q < qr_usage_limit q"

text \<open>The UPDATE of a redemption, with the values read from the locked row.\<close>

definition redeem :: "qr_code \<Rightarrow> qr_code \<Rightarrow> qr_code" where
  "redeem q r = (let new_usage = qr_usage_count q + 1 in
     r\<lparr>qr_usage_count := new_usage,
       qr_status := (if qr_usage_limit q \<le> new_usage then USED else ACTIVE)\<rparr>)"

definition settle_qr ::
  "digests \<Rightarrow> timestamp \<Rightarrow> device \<Rightarrow> int \<Rightarrow> int \<Rightarrow> payment_request \<Rightarrow> int \<Rightarrow> settlement op" where
  "settle_qr dg now device company_id program_id body program_price =
     bind_op (sql_select (find_qr (qr_hash dg body))) (\<lambda>qr.
     case qr of None \<Rightarrow> ret (failed_with ''QR_INVALID'' program_price)
     | Some q \<Rightarrow>
         if \<not> redeemable now device company_id program_id q
         then ret (failed_with ''QR_INVALID'' program_price)
         else then_op (sql_update ''qr_codes'' qr_codes qr_codes_update check_qr_code
                         (\<lambda>r. qr_id r = qr_id q) (redeem q))
                (ret ((settled program_price)\<lparr>stl_amount_minor := qr_amount_minor q,
                   stl_qr_code_id := Some (qr_id q)\<rparr>)))"

definition card_usable :: "timestamp \<Rightarrow> int \<Rightarrow> rf_card \<Rightarrow> bool" where
  "card_usable now company_id c \<longleftrightarrow>
     card_status c = ACTIVE \<and> card_company_id c = company_id \<and>
     (case card_expires_at c of None \<Rightarrow> True | Some e \<Rightarrow> now < e)"

definition debit_wallet :: "timestamp \<Rightarrow> int \<Rightarrow> rf_wallet \<Rightarrow> rf_wallet" where
  "debit_wallet now amount w =
     w\<lparr>wal_balance_minor := wal_balance_minor w - amount, wal_version := wal_version w + 1,
       wal_updated_at := now\<rparr>"

definition settle_rf ::
  "digests \<Rightarrow> timestamp \<Rightarrow> int \<Rightarrow> payment_request \<Rightarrow> int \<Rightarrow> settlement op" where
  "settle_rf dg now company_id body program_price =
     (case normalize_uid (or_empty (rf_uid body)) of
        Inl e \<Rightarrow> raise e
      | Inr uid \<Rightarrow>
     bind_op (sql_select (\<lambda>d. List.find (\<lambda>c. card_uid_hash c = secret_hash dg uid QR_PEPPER) (rf_cards d)))
       (\<lambda>card.
     case card of None \<Rightarrow> ret (failed_with ''RF_CARD_INVALID'' program_price)
     | Some c \<Rightarrow>
         if \<not> card_usable now company_id c then ret (failed_with ''RF_CARD_INVALID'' program_price)
         else bind_op (sql_select (\<lambda>d. List.find (\<lambda>w. wal_rf_card_id w = card_id c) (rf_wallets d)))
           (\<lambda>wallet.
         case wallet of None \<Rightarrow> ret (failed_with ''RF_INSUFFICIENT_BALANCE'' program_price)
         | Some w \<Rightarrow>
             if wal_balance_minor w < program_price
             then ret (failed_with ''RF_INSUFFICIENT_BALANCE'' program_price)
             else then_op (sql_update ''rf_wallets'' rf_wallets rf_wallets_update check_rf_wallet
                             (\<lambda>r. wal_id r = wal_id w) (debit_wallet now program_price))
                    (ret ((settled program_price)\<lparr>stl_rf_wallet_id := Some (wal_id w)\<rparr>)))))"

definition settle ::
  "digests \<Rightarrow> timestamp \<Rightarrow> device \<Rightarrow> int \<Rightarrow> int \<Rightarrow> payment_request \<Rightarrow> int \<Rightarrow> settlement op" where
  "settle dg now device company_id program_id body program_price =
     (if payment_method body = ''CARD'' then settle_card body program_price
      else if payment_method body = ''QR''
        then settle_qr dg now device company_id program_id body program_price
      else if payment_method body = ''RF_CARD'' then settle_rf dg now company_id body program_price
      else raise (AppError 422 ''UNSUPPORTED_PAYMENT_METHOD'' []))"

section \<open>The rows of a payment\<close>

definition payment_row ::
  "timestamp \<Rightarrow> device \<Rightarrow> string \<Rightarrow> string \<Rightarrow> string \<Rightarrow> int \<Rightarrow> settlement \<Rightarrow> int \<Rightarrow>
   payment_transaction" where
  "payment_row now device key body_hash method program_id stl i =
     \<lparr>pay_id = i, pay_device_id = dev_id device, pay_station_id = dev_station_id device,
      pay_idempotency_key = key, pay_request_hash = body_hash, pay_method = method,
      pay_amount_minor = stl_amount_minor stl, pay_currency = ''TRY'',
      pay_status = stl_status stl, pay_error_code = stl_error_code stl,
      pay_error_message = stl_error_message stl, pay_program_id = Some program_id,
      pay_qr_code_id = stl_qr_code_id stl, pay_rf_wallet_id = stl_rf_wallet_id stl,
      pay_created_at = now,
      pay_completed_at = (if stl_status stl = PENDING then None else Some now)\<rparr>"

definition attempt_row :: "timestamp \<Rightarrow> int \<Rightarrow> status \<Rightarrow> int \<Rightarrow> payment_attempt" where
  "attempt_row now payment_id st i =
     \<lparr>att_id = i, att_payment_id = payment_id, att_attempt_no = 1, att_status = st,
      att_created_at = now\<rparr>"

definition provider_row :: "timestamp \<Rightarrow> int \<Rightarrow> status \<Rightarrow> int \<Rightarrow> provider_transaction" where
  "provider_row now payment_id st i =
     \<lparr>prov_id = i, prov_payment_id = payment_id,
      prov_provider_ref = ''MOCK-'' @ int_dec payment_id, prov_status = st,
      prov_created_at = now\<rparr>"

definition ledger_row :: "timestamp \<Rightarrow> int \<Rightarrow> int \<Rightarrow> int \<Rightarrow> int \<Rightarrow> ledger_entry" where
  "ledger_row now payment_id wallet_id amount i =
     \<lparr>led_id = i, led_wallet_id = wallet_id, led_payment_id = Some payment_id,
      led_direction = DEBIT, led_amount_minor = amount, led_created_at = now\<rparr>"

definition start_right_row ::
  "timestamp \<Rightarrow> device \<Rightarrow> int \<Rightarrow> int \<Rightarrow> int \<Rightarrow> int \<Rightarrow> start_right" where
  "start_right_row now device payment_id wash_bay_id program_id i =
     \<lparr>sr_id = i, sr_payment_id = payment_id, sr_device_id = dev_id device,
      sr_wash_bay_id = wash_bay_id, sr_program_id = program_id, sr_status = AVAILABLE,
      sr_created_at = now\<rparr>"

definition payment_event ::
  "timestamp \<Rightarrow> device \<Rightarrow> int \<Rightarrow> string \<Rightarrow> settlement \<Rightarrow> int \<Rightarrow> event" where
  "payment_event now device payment_id method stl i =
     \<lparr>ev_id = i, ev_device_id = dev_id device, ev_payment_id = Some payment_id,
      ev_event_type = ''payment.completed'',
      ev_payload = json_dumps default_opts (JObj
        [(''status'', JStr (status_text (stl_status stl))), (''method'', JStr method),
         (''error_code'', opt_json JStr (stl_error_code stl))]),
      ev_created_at = now\<rparr>"

definition payment_audit :: "timestamp \<Rightarrow> int \<Rightarrow> status \<Rightarrow> int \<Rightarrow> audit_entry" where
  "payment_audit now payment_id st i =
     \<lparr>aud_id = i, aud_payment_id = payment_id, aud_action = ''payment.completed'',
      aud_payload = json_dumps default_opts (JObj [(''status'', JStr (status_text st))]),
      aud_created_at = now\<rparr>"

definition record_payment ::
  "timestamp \<Rightarrow> device \<Rightarrow> string \<Rightarrow> string \<Rightarrow> string \<Rightarrow> int \<Rightarrow> int \<Rightarrow> int \<Rightarrow> settlement \<Rightarrow> int op" where
  "record_payment now device key body_hash method wash_bay_id program_id program_price stl =
     bind_op (sql_insert ''payment_transactions'' PaymentSeq payment_transactions
        payment_transactions_update insertable_payment
        (payment_row now device key body_hash method program_id stl)) (\<lambda>payment_id.
     bind_op (sql_insert ''payment_attempts'' AttemptSeq payment_attempts payment_attempts_update
        insertable_attempt (attempt_row now payment_id (stl_status stl))) (\<lambda>_.
     then_op (when_op (method = ''CARD'')
       (bind_op (sql_insert ''provider_transactions'' ProviderSeq provider_transactions
          provider_transactions_update insertable_provider
          (provider_row now payment_id (stl_status stl))) (\<lambda>_. ret ())))
    (then_op (when_op (method = ''RF_CARD'' \<and> stl_status stl = SUCCESS \<and> stl_rf_wallet_id stl \<noteq> None)
       (bind_op (sql_insert ''rf_wallet_ledger'' LedgerSeq rf_wallet_ledger
          rf_wallet_ledger_update insertable_ledger
          (ledger_row now payment_id (the (stl_rf_wallet_id stl)) program_price)) (\<lambda>_. ret ())))
    (then_op (when_op (stl_status stl = SUCCESS)
       (bind_op (sql_insert ''start_rights'' StartRightSeq start_rights start_rights_update
          insertable_start_right
          (start_right_row now device payment_id wash_bay_id program_id)) (\<lambda>_. ret ())))
    (bind_op (sql_insert ''events'' EventSeq events events_update insertable_event
        (payment_event now device payment_id method stl)) (\<lambda>_.
     bind_op (sql_insert ''audit_entries'' AuditSeq audit_entries audit_entries_update
        insertable_audit (payment_audit now payment_id (stl_status stl))) (\<lambda>_.
     ret payment_id)))))))"

section \<open>The handler\<close>

definition new_payment ::
  "digests \<Rightarrow> timestamp \<Rightarrow> device \<Rightarrow> payment_request \<Rightarrow> string \<Rightarrow> int op" where
  "new_payment dg now device body key =
     bind_op (operational_guards now device body) (\<lambda>(company_id, wash_bay_id).
     bind_op (resolve_program dg device company_id body) (\<lambda>(program_id, program_price).
     bind_op (settle dg now device company_id program_id body program_price) (\<lambda>stl.
     record_payment now device key (request_hash dg body) (payment_method body) wash_bay_id
       program_id program_price stl)))"

definition create_payment ::
  "digests \<Rightarrow> timestamp \<Rightarrow> device \<Rightarrow> payment_request \<Rightarrow> string \<Rightarrow> payment_payload op" where
  "create_payment dg now device body key =
     bind_op (check_replay (dev_id device) key (request_hash dg body)) (\<lambda>replay.
     case replay of
       Some v \<Rightarrow> ret v
     | None \<Rightarrow>
         bind_op (new_payment dg now device body key) (\<lambda>payment_id.
         then_op commit (read_payment payment_id)))"

end
