(* ===== verification/Commands.thy ===== *)
theory Commands
  imports Auth
begin

text \<open>
  \<open>python/app/commands.py\<close>: a device polls its pending commands (which marks them sent),
  acknowledges one within 30 seconds of its creation and reports its result within 120
  seconds of the acknowledgement; the program execution behind the command follows.
\<close>

section \<open>Polling\<close>

definition pollable :: "int \<Rightarrow> command \<Rightarrow> bool" where
  "pollable device_id c \<longleftrightarrow> cmd_device_id c = device_id \<and> cmd_status c \<in> {PENDING, SENT}"

text \<open>\<open>ORDER BY created_at, id LIMIT :limit\<close>; the sort is stable.\<close>

definition select_pending :: "int \<Rightarrow> int \<Rightarrow> db \<Rightarrow> command list" where
  "select_pending device_id limit d =
     take (nat limit)
       (sort_key cmd_created_at (sort_key cmd_id (filter (pollable device_id) (commands d))))"

definition mark_sent :: "timestamp \<Rightarrow> command \<Rightarrow> command" where
  "mark_sent now c = c\<lparr>cmd_status := SENT, cmd_sent_at := Some now\<rparr>"

definition set_exe_status :: "status \<Rightarrow> program_execution \<Rightarrow> program_execution" where
  "set_exe_status st e = e\<lparr>exe_status := st\<rparr>"

text \<open>The body of the loop over the rows: two UPDATEs and the change of the local row.\<close>

definition mark_pending :: "timestamp \<Rightarrow> command \<Rightarrow> command list \<Rightarrow> command list op" where
  "mark_pending now row done =
     (if cmd_status row = PENDING then
        bind_op (sql_update ''commands'' commands commands_update check_command
           (\<lambda>c. cmd_id c = cmd_id row) (mark_sent now)) (\<lambda>_.
        bind_op (sql_update ''program_executions'' program_executions program_executions_update
           check_execution
           (\<lambda>e. exe_id e = cmd_program_execution_id row \<and> exe_status e = CREATED)
           (set_exe_status COMMAND_SENT)) (\<lambda>_.
        ret (done @ [mark_sent now row])))
      else ret (done @ [row]))"

record command_item =
  ci_id :: string
  ci_execution_id :: string
  ci_type :: string
  ci_status :: status
  ci_payload :: json
  ci_created_at :: string
  ci_sent_at :: "string option"
  ci_ack_deadline_at :: string
  ci_result_deadline_at :: "string option"

definition command_item :: "command \<Rightarrow> command_item" where
  "command_item c =
     \<lparr>ci_id = int_dec (cmd_id c),
      ci_execution_id = int_dec (cmd_program_execution_id c),
      ci_type = ''EXECUTE_PROGRAM'',
      ci_status = cmd_status c,
      ci_payload = cmd_payload c,
      ci_created_at = isoformat (cmd_created_at c),
      ci_sent_at = map_option isoformat (cmd_sent_at c),
      ci_ack_deadline_at = isoformat (cmd_created_at c + seconds 30),
      ci_result_deadline_at = map_option (\<lambda>t. isoformat (t + seconds 120)) (cmd_acknowledged_at c)\<rparr>"

definition pending_commands :: "timestamp \<Rightarrow> int \<Rightarrow> int \<Rightarrow> command_item list op" where
  "pending_commands now device_id limit =
     bind_op (sql_select (select_pending device_id limit)) (\<lambda>rows.
     bind_op (fold_op (mark_pending now) rows []) (\<lambda>rows'.
     then_op commit (ret (map command_item rows'))))"

section \<open>Acknowledging\<close>

definition COMMAND_NOT_FOUND :: exn where
  "COMMAND_NOT_FOUND = AppError 404 ''COMMAND_NOT_FOUND'' []"

definition conflict :: "string \<Rightarrow> exn" where
  "conflict code = AppError 409 code []"

definition find_command :: "int \<Rightarrow> int \<Rightarrow> db \<Rightarrow> command option" where
  "find_command device_id command_id d =
     List.find (\<lambda>c. cmd_id c = command_id \<and> cmd_device_id c = device_id) (commands d)"

definition acknowledge :: "timestamp \<Rightarrow> command \<Rightarrow> command" where
  "acknowledge now c = c\<lparr>cmd_status := ACKNOWLEDGED, cmd_acknowledged_at := Some now\<rparr>"

definition start_running :: "timestamp \<Rightarrow> program_execution \<Rightarrow> program_execution" where
  "start_running now e = e\<lparr>exe_status := RUNNING, exe_started_at := Some now\<rparr>"

definition acknowledge_command :: "timestamp \<Rightarrow> int \<Rightarrow> int \<Rightarrow> (string \<times> status) op" where
  "acknowledge_command now device_id command_id =
     bind_op (sql_select (find_command device_id command_id)) (\<lambda>command.
     case command of None \<Rightarrow> raise COMMAND_NOT_FOUND
     | Some c \<Rightarrow>
         if cmd_status c \<in> {PENDING, SENT} \<and> cmd_created_at c \<le> now - seconds 30
         then raise (conflict ''COMMAND_EXPIRED'')
         else if cmd_status c \<in> {PENDING, SENT} then
           bind_op (sql_update ''commands'' commands commands_update check_command
              (\<lambda>r. cmd_id r = command_id) (acknowledge now)) (\<lambda>_.
           bind_op (sql_update ''program_executions'' program_executions program_executions_update
              check_execution (\<lambda>e. exe_id e = cmd_program_execution_id c) (start_running now)) (\<lambda>_.
           then_op commit (ret (int_dec (cmd_id c), ACKNOWLEDGED))))
         else if cmd_status c \<notin> {ACKNOWLEDGED, SUCCESS, FAILED}
         then raise (conflict ''COMMAND_NOT_ACKNOWLEDGEABLE'')
         else ret (int_dec (cmd_id c), cmd_status c))"

section \<open>Reporting a result\<close>

text \<open>\<open>f"{result}:{code}:{message}"\<close>: \<open>None\<close> is rendered as the text \<open>None\<close>.\<close>

definition py_str_opt :: "string option \<Rightarrow> string" where
  "py_str_opt v = (case v of None \<Rightarrow> ''None'' | Some s \<Rightarrow> s)"

definition result_text :: "string \<Rightarrow> string option \<Rightarrow> string option \<Rightarrow> string" where
  "result_text result code message = result @ '':'' @ py_str_opt code @ '':'' @ py_str_opt message"

definition result_hash :: "digests \<Rightarrow> string \<Rightarrow> string option \<Rightarrow> string option \<Rightarrow> string" where
  "result_hash dg result code message =
     hmac_sha256_hex dg (encode CSRF_SECRET) (encode (result_text result code message))"

definition result_status :: "string \<Rightarrow> status option" where
  "result_status result =
     (if result = ''SUCCESS'' then Some SUCCESS
      else if result = ''FAILED'' then Some FAILED else None)"

record result_payload =
  rp_id :: string
  rp_status :: status
  rp_result_code :: "string option"

definition opt_str :: "string option \<Rightarrow> json" where
  "opt_str v = (case v of None \<Rightarrow> JNull | Some s \<Rightarrow> JStr s)"

definition result_row ::
  "timestamp \<Rightarrow> int \<Rightarrow> string \<Rightarrow> string \<Rightarrow> string \<Rightarrow> status \<Rightarrow> string option \<Rightarrow> string option \<Rightarrow> int \<Rightarrow>
   command_result" where
  "result_row now command_id key hash result st code message i =
     \<lparr>res_id = i, res_command_id = command_id, res_result_key = key, res_request_hash = hash,
      res_status = st, res_code = code, res_message = message,
      res_payload = json_dumps default_opts (JObj
        [(''result'', JStr result), (''code'', opt_str code), (''message'', opt_str message)]),
      res_created_at = now\<rparr>"

definition complete_command :: "timestamp \<Rightarrow> status \<Rightarrow> string option \<Rightarrow> command \<Rightarrow> command" where
  "complete_command now st code c =
     c\<lparr>cmd_status := st, cmd_completed_at := Some now, cmd_result_code := code\<rparr>"

definition complete_execution :: "timestamp \<Rightarrow> status \<Rightarrow> program_execution \<Rightarrow> program_execution" where
  "complete_execution now st e = e\<lparr>exe_status := st, exe_completed_at := Some now\<rparr>"

definition execution_event ::
  "timestamp \<Rightarrow> int \<Rightarrow> int \<Rightarrow> string \<Rightarrow> string option \<Rightarrow> int \<Rightarrow> event" where
  "execution_event now device_id command_id result code i =
     \<lparr>ev_id = i, ev_device_id = device_id, ev_payment_id = None,
      ev_event_type = ''execution.completed'',
      ev_payload = json_dumps default_opts (JObj
        [(''command_id'', JInt command_id), (''status'', JStr result), (''code'', opt_str code)]),
      ev_created_at = now\<rparr>"

definition result_expired :: "timestamp \<Rightarrow> command \<Rightarrow> bool" where
  "result_expired now c \<longleftrightarrow>
     (case cmd_acknowledged_at c of None \<Rightarrow> False | Some t \<Rightarrow> t \<le> now - seconds 120)"

definition store_result ::
  "timestamp \<Rightarrow> int \<Rightarrow> command \<Rightarrow> string \<Rightarrow> status \<Rightarrow> string option \<Rightarrow> string option \<Rightarrow> string \<Rightarrow>
   string \<Rightarrow> result_payload op" where
  "store_result now device_id c result st code message key hash =
     bind_op (sql_insert ''command_results'' ResultSeq command_results command_results_update
        insertable_result (result_row now (cmd_id c) key hash result st code message)) (\<lambda>_.
     bind_op (sql_update ''commands'' commands commands_update check_command
        (\<lambda>r. cmd_id r = cmd_id c) (complete_command now st code)) (\<lambda>_.
     bind_op (sql_update ''program_executions'' program_executions program_executions_update
        check_execution (\<lambda>e. exe_id e = cmd_program_execution_id c)
        (complete_execution now st)) (\<lambda>_.
     bind_op (sql_insert ''events'' EventSeq events events_update insertable_event
        (execution_event now device_id (cmd_id c) result code)) (\<lambda>_.
     then_op commit
       (ret \<lparr>rp_id = int_dec (cmd_id c), rp_status = st, rp_result_code = code\<rparr>)))))"

definition apply_command_result ::
  "digests \<Rightarrow> timestamp \<Rightarrow> int \<Rightarrow> int \<Rightarrow> string \<Rightarrow> string option \<Rightarrow> string option \<Rightarrow> string \<Rightarrow>
   result_payload op" where
  "apply_command_result dg now device_id command_id result code message key =
     (case result_status result of
        None \<Rightarrow> raise (AppError 422 ''INVALID_COMMAND_RESULT'' [])
      | Some st \<Rightarrow>
     bind_op (sql_select (find_command device_id command_id)) (\<lambda>command.
     case command of None \<Rightarrow> raise COMMAND_NOT_FOUND
     | Some c \<Rightarrow>
     (let hash = result_hash dg result code message in
     bind_op (sql_select (\<lambda>d. List.find (\<lambda>r. res_command_id r = command_id) (command_results d)))
       (\<lambda>existing.
     case existing of
       Some r \<Rightarrow>
         if res_result_key r \<noteq> key \<or> res_request_hash r \<noteq> hash
         then raise (conflict ''IDEMPOTENCY_CONFLICT'')
         else ret \<lparr>rp_id = int_dec (cmd_id c), rp_status = res_status r, rp_result_code = res_code r\<rparr>
     | None \<Rightarrow>
         if cmd_status c \<noteq> ACKNOWLEDGED then raise (conflict ''COMMAND_NOT_RUNNING'')
         else if result_expired now c then raise (conflict ''COMMAND_RESULT_EXPIRED'')
         else store_result now device_id c result st code message key hash))))"

end
