(* ===== verification/Fixture.thy ===== *)
theory Fixture
  imports Payments Commands Worker
begin

text \<open>
  A small concrete database in the shape of the seed of \<open>db/seed/seed.py\<close>: one company,
  one station, one device with its published configuration, one program that every payment
  method may pay, a QR code with one use, an RF card with a wallet of one program's price,
  a pending command and a silent device's state.  The witnesses of the properties evaluate
  the handlers on it.  The digests are replaced by injective functions.
\<close>

definition demo_digests :: digests where
  "demo_digests = \<lparr>sha256_hex = (\<lambda>b. b), hmac_sha256_hex = (\<lambda>k m. m)\<rparr>"

definition demo_device :: device where
  "demo_device = \<lparr>dev_id = 1, dev_station_id = 1, dev_external_key = ''dev-0000001'',
     dev_status = ACTIVE, dev_monitoring_enabled = True, dev_offline_threshold_seconds = 90\<rparr>"

definition demo_state :: "timestamp \<Rightarrow> device_current_state" where
  "demo_state seen = \<lparr>cs_device_id = 1, cs_last_seen_at = Some seen, cs_app_version = Some ''1.0.0'',
     cs_state_payload = ''{}'', cs_current_configuration_version = Some 1,
     cs_acknowledged_configuration_version = Some 1, cs_updated_at = seen\<rparr>"

definition demo_qr :: qr_code where
  "demo_qr = \<lparr>qr_id = 1, qr_token_hash = ''qr-token-1'', qr_company_id = 1, qr_station_id = 1,
     qr_program_id = 1, qr_amount_minor = 1500, qr_currency = ''TRY'', qr_usage_limit = 1,
     qr_usage_count = 0, qr_status = ACTIVE, qr_starts_at = 0, qr_expires_at = days 1\<rparr>"

definition demo_card :: rf_card where
  "demo_card = \<lparr>card_id = 1, card_company_id = 1, card_uid_hash = ''AABBCCDD00000001'',
     card_status = ACTIVE, card_expires_at = Some (days 1)\<rparr>"

definition demo_wallet :: rf_wallet where
  "demo_wallet = \<lparr>wal_id = 1, wal_rf_card_id = 1, wal_balance_minor = 1000, wal_version = 0,
     wal_updated_at = 0\<rparr>"

definition demo_execution :: program_execution where
  "demo_execution = \<lparr>exe_id = 1, exe_payment_id = 100, exe_device_id = 1, exe_wash_bay_id = Some 2,
     exe_program_id = Some 1, exe_status = CREATED, exe_created_at = 0, exe_started_at = None,
     exe_completed_at = None\<rparr>"

definition demo_command :: command where
  "demo_command = \<lparr>cmd_id = 1, cmd_device_id = 1, cmd_program_execution_id = 1,
     cmd_command_key = ''cmd-00000001'', cmd_status = PENDING, cmd_payload = JObj [],
     cmd_created_at = 0, cmd_sent_at = None, cmd_acknowledged_at = None, cmd_completed_at = None,
     cmd_result_code = None\<rparr>"

definition demo_db :: db where
  "demo_db =
     \<lparr>companies = [\<lparr>co_id = 1, co_external_key = ''cmp-000001'', co_name = ''Company 1''\<rparr>],
      panel_users = [\<lparr>pu_id = 1, pu_company_id = 1, pu_token_hash = ''panel-company-1'', pu_active = True\<rparr>],
      stations = [\<lparr>st_id = 1, st_company_id = 1, st_external_key = ''stn-000001'', st_name = ''Station 1''\<rparr>],
      devices = [demo_device],
      device_credentials = [\<lparr>cred_id = 1, cred_device_id = 1, cred_hash = ''credential-1'',
        cred_status = ACTIVE, cred_issued_at = 0, cred_revoked_at = None\<rparr>],
      device_configurations = [\<lparr>cfg_id = 1, cfg_device_id = 1, cfg_version = 1, cfg_status = PUBLISHED,
        cfg_checksum = ''c'', cfg_snapshot = [(''device_id'', JStr ''dev-0000001'')], cfg_created_at = 0\<rparr>],
      device_current_states = [demo_state 0],
      device_heartbeats = [],
      programs = [\<lparr>prog_id = 1, prog_company_id = 1, prog_external_key = ''prg-000001'',
        prog_name = ''Program 1'', prog_price_minor = 1000, prog_active = True\<rparr>],
      program_payment_methods =
        [\<lparr>ppm_id = 1, ppm_program_id = 1, ppm_payment_method = ''CARD'', ppm_enabled = True\<rparr>,
         \<lparr>ppm_id = 2, ppm_program_id = 1, ppm_payment_method = ''QR'', ppm_enabled = True\<rparr>,
         \<lparr>ppm_id = 3, ppm_program_id = 1, ppm_payment_method = ''RF_CARD'', ppm_enabled = True\<rparr>],
      entitlements = [\<lparr>ent_id = 1, ent_device_id = 1, ent_program_id = 1, ent_enabled = True\<rparr>],
      wash_bays = [\<lparr>bay_id = 1, bay_station_id = 1, bay_device_id = Some 1,
        bay_external_key = ''bay-0000001'', bay_status = IDLE\<rparr>],
      maintenance_windows = [],
      qr_codes = [demo_qr], rf_cards = [demo_card], rf_wallets = [demo_wallet],
      payment_transactions = [], payment_attempts = [], provider_transactions = [],
      start_rights = [], rf_wallet_ledger = [], program_executions = [demo_execution],
      commands = [demo_command], command_results = [], events = [], audit_entries = [],
      alarms = []\<rparr>"

definition demo :: session where
  "demo = \<lparr>committed = demo_db, working = demo_db, seqs = (\<lambda>_. 1)\<rparr>"

definition card_request :: payment_request where
  "card_request = \<lparr>station_program_id = Some 1, payment_method = ''CARD'', configuration_version = 1,
     displayed_price_minor = Some 1000, qr_token = None, rf_uid = None,
     test_scenario = Some ''TEST_SUCCESS''\<rparr>"

definition qr_request :: payment_request where
  "qr_request = \<lparr>station_program_id = None, payment_method = ''QR'', configuration_version = 1,
     displayed_price_minor = None, qr_token = Some ''qr-token-1'', rf_uid = None, test_scenario = None\<rparr>"

definition rf_request :: payment_request where
  "rf_request = \<lparr>station_program_id = Some 1, payment_method = ''RF_CARD'', configuration_version = 1,
     displayed_price_minor = Some 1000, qr_token = None, rf_uid = Some ''AABBCCDD00000001'',
     test_scenario = None\<rparr>"

definition demo_key :: string where
  "demo_key = ''corr-key-1''"

end
