(* ===== verification/Dashboard_Properties.thy ===== *)
theory Dashboard_Properties
  imports Dashboard Fixture
begin

text \<open>
  The dashboard's periods cover the present and tile the calendar, and the figures of the
  overview add up.
\<close>

section \<open>Calendar months\<close>

lemma year_length: "days_before_year (y + 1) = days_before_year y + (if is_leap y then 366 else 365)"
proof -
  have step: "y div k - (y - 1) div k = (if y mod k = 0 then 1 else 0)" if "0 < k" for k :: int
  proof -
    define q r where "q = y div k" and "r = y mod k"
    have y: "y = k * q + r" and r: "0 \<le> r" "r < k" using that by (simp_all add: q_def r_def)
    have "(y - 1) div k = (if r = 0 then q - 1 else q)"
    proof (cases "r = 0")
      case True
      have "(y - 1) div k = q - 1"
        by (rule int_div_pos_eq [where r = "k - 1"]) (use y True that in \<open>auto simp: algebra_simps\<close>)
      with True show ?thesis by simp
    next
      case False
      have "(y - 1) div k = q"
        by (rule int_div_pos_eq [where r = "r - 1"]) (use y r False in auto)
      with False show ?thesis by simp
    qed
    then show ?thesis by (simp add: q_def r_def)
  qed
  have "y mod 400 mod 100 = y mod 100" "y mod 100 mod 4 = y mod 4" by (simp_all add: mod_mod_cancel)
  then have imp: "y mod 400 = 0 \<Longrightarrow> y mod 100 = 0" "y mod 100 = 0 \<Longrightarrow> y mod 4 = 0" by (metis mod_0)+
  have sum: "z * 365 + q4 - q100 + q400 = (z - 1) * 365 + p4 - p100 + p400 + (if a \<and> (\<not> b \<or> c) then 366 else 365)"
    if "q4 - p4 = (if a then 1 else 0)" "q100 - p100 = (if b then 1 else 0)" "q400 - p400 = (if c then 1 else 0)"
      "c \<Longrightarrow> b" "b \<Longrightarrow> a" for z q4 q100 q400 p4 p100 p400 :: int and a b c
    using that by (auto split: if_splits)
  show ?thesis
    unfolding days_before_year_def Let_def is_leap_def add_diff_cancel_right'
    by (rule sum [OF step [of 4, OF zero_less_numeral] step [of 100, OF zero_less_numeral]
          step [of 400, OF zero_less_numeral] imp(1) imp(2)])
qed

lemma year_mono: "x < y \<Longrightarrow> days_before_year (x + 1) \<le> days_before_year y"
proof (induction "nat (y - x)" arbitrary: y)
  case (Suc n)
  show ?case
  proof (cases "y = x + 1")
    case False
    with Suc have "days_before_year (x + 1) \<le> days_before_year (y - 1)" by simp
    also have "\<dots> \<le> days_before_year (y - 1 + 1)" using year_length [of "y - 1"] by simp
    finally show ?thesis by simp
  qed simp
qed simp

lemma month_cases:
  assumes "1 \<le> m" "m \<le> (12 :: int)"
  obtains "m = 1" | "m = 2" | "m = 3" | "m = 4" | "m = 5" | "m = 6" | "m = 7" | "m = 8"
    | "m = 9" | "m = 10" | "m = 11" | "m = 12"
proof -
  have "m = 1 \<or> m = 2 \<or> m = 3 \<or> m = 4 \<or> m = 5 \<or> m = 6 \<or> m = 7 \<or> m = 8 \<or> m = 9 \<or> m = 10 \<or> m = 11 \<or> m = 12"
    using assms by presburger
  then show thesis using that by blast
qed

lemma month_length:
  assumes "1 \<le> m" "m < 12"
  shows "days_before_month l (m + 1) = days_before_month l m + days_in_month l m"
  by (rule month_cases [of m])
    (use assms in \<open>auto simp: days_before_month_def month_offset_def days_in_month_def\<close>)

lemma month_mono:
  assumes "1 \<le> m" "m < n" "n \<le> 12"
  shows "days_before_month l m + days_in_month l m \<le> days_before_month l n"
  using assms(2,3)
proof (induction "nat (n - m)" arbitrary: n)
  case (Suc k)
  show ?case
  proof (cases "n = m + 1")
    case True
    then show ?thesis using month_length [of m l] assms(1) Suc.prems by simp
  next
    case False
    with Suc have "days_before_month l m + days_in_month l m \<le> days_before_month l (n - 1)" by simp
    also have "\<dots> \<le> days_before_month l (n - 1 + 1)"
      using month_length [of "n - 1" l] Suc.prems assms(1) by (simp add: days_in_month_def)
    finally show ?thesis by simp
  qed
qed simp

lemma day_of_year_bounds:
  assumes "valid_date y m d"
  shows "days_before_year y < ymd2ord y m d" "ymd2ord y m d \<le> days_before_year (y + 1)"
proof -
  let ?l = "is_leap y"
  have v: "1 \<le> m" "m \<le> 12" "1 \<le> d" "d \<le> days_in_month ?l m" using assms by (simp_all add: valid_date_def)
  have "0 \<le> days_before_month ?l m"
    by (rule month_cases [OF v(1,2)]) (simp_all add: days_before_month_def month_offset_def)
  with v show "days_before_year y < ymd2ord y m d" by (simp add: ymd2ord_def)
  have "days_before_month ?l m + days_in_month ?l m \<le> (if ?l then 366 else 365)"
    by (rule month_cases [OF v(1,2)]) (simp_all add: days_before_month_def month_offset_def days_in_month_def)
  with v show "ymd2ord y m d \<le> days_before_year (y + 1)" by (simp add: ymd2ord_def year_length)
qed

text \<open>A day has one date.\<close>

lemma ymd2ord_inject:
  assumes "valid_date y m d" "valid_date y' m' d'" "ymd2ord y m d = ymd2ord y' m' d'"
  shows "(y, m, d) = (y', m', d')"
proof -
  have y: "y = y'"
    using day_of_year_bounds [OF assms(1)] day_of_year_bounds [OF assms(2)] assms(3)
      year_mono [of y y'] year_mono [of y' y] by linarith
  have same: "days_before_month (is_leap y) m + d = days_before_month (is_leap y) m' + d'"
    and v: "1 \<le> m" "m \<le> 12" "1 \<le> m'" "m' \<le> 12" "1 \<le> d" "d \<le> days_in_month (is_leap y) m"
      "1 \<le> d'" "d' \<le> days_in_month (is_leap y) m'"
    using assms y by (auto simp: valid_date_def ymd2ord_def)
  have "\<not> m < m'" using month_mono [of m m' "is_leap y"] same v by linarith
  moreover have "\<not> m' < m" using month_mono [of m' m "is_leap y"] same v by linarith
  ultimately have "m = m'" by simp
  with y assms(3) show ?thesis by (simp add: ymd2ord_def)
qed

lemma date_of_midnight: "valid_date y m d \<Longrightarrow> date_of (midnight (ymd2ord y m d)) = (y, m, d)"
proof -
  assume v: "valid_date y m d"
  have "date_ord (midnight n) = n" for n
    by (simp add: date_ord_def midnight_def days_def seconds_def)
  then have "ord2ymd (ymd2ord y m d) = date_of (midnight (ymd2ord y m d))" by (simp add: date_of_def)
  moreover obtain a b c where abc: "ord2ymd (ymd2ord y m d) = (a, b, c)" by (metis prod_cases3)
  ultimately show ?thesis using ord2ymd_sound [OF abc] ymd2ord_inject [OF v, of a b c] by simp
qed

section \<open>Months as intervals\<close>

definition month_start :: "int \<times> int \<Rightarrow> timestamp" where
  "month_start ym = midnight (ymd2ord (fst ym) (snd ym) 1)"

definition next_month :: "int \<times> int \<Rightarrow> int \<times> int" where
  "next_month ym = (if snd ym = 12 then (fst ym + 1, 1) else (fst ym, snd ym + 1))"

lemma date_ord_midnight [simp]: "date_ord (midnight n) = n"
  by (simp add: date_ord_def midnight_def days_def seconds_def)

lemma date_of_start_of_day [simp]: "date_of (start_of_day t) = date_of t"
  by (simp add: date_of_def start_of_day_def)

lemma date_ofD: "date_of t = (y, m, d) \<Longrightarrow> valid_date y m d \<and> date_ord t = ymd2ord y m d"
  using ord2ymd_sound unfolding date_of_def by metis

lemma days_in_month_pos: "28 \<le> days_in_month l m" "days_in_month l m \<le> 31"
  by (simp_all add: days_in_month_def)

lemma next_month_ord:
  assumes "1 \<le> m" "m \<le> 12"
  shows "ymd2ord (fst (next_month (y, m))) (snd (next_month (y, m))) 1 =
    ymd2ord y m 1 + days_in_month (is_leap y) m"
proof (cases "m = 12")
  case True
  then show ?thesis
    by (simp add: next_month_def ymd2ord_def year_length days_before_month_def month_offset_def days_in_month_def)
next
  case False
  then show ?thesis
    using assms month_length [of m "is_leap y"] by (simp add: next_month_def ymd2ord_def)
qed

lemma midnight_date_ord: "midnight (date_ord t) \<le> t" "t < midnight (date_ord t + 1)"
  using start_of_day_bounds [of t] by (simp_all add: start_of_day_def midnight_Suc)

lemma midnight_le_iff: "midnight n \<le> t \<longleftrightarrow> n \<le> date_ord t"
proof
  assume "midnight n \<le> t"
  then have "midnight n < midnight (date_ord t + 1)" using midnight_date_ord(2) by (rule le_less_trans)
  then show "n \<le> date_ord t" by simp
next
  assume "n \<le> date_ord t"
  then have "midnight n \<le> midnight (date_ord t)" by simp
  then show "midnight n \<le> t" using midnight_date_ord(1) by (rule order.trans)
qed

lemma less_midnight_iff: "t < midnight n \<longleftrightarrow> date_ord t < n"
  using midnight_le_iff [of n t] by linarith

lemma month_contains:
  assumes "date_of t = (y, m, d)"
  shows "month_start (y, m) \<le> t" "t < month_start (next_month (y, m))"
proof -
  have v: "valid_date y m d" "date_ord t = ymd2ord y m d" using date_ofD [OF assms] by auto
  then have "ymd2ord y m 1 \<le> date_ord t" "date_ord t + 1 \<le> ymd2ord y m 1 + days_in_month (is_leap y) m"
    by (auto simp: valid_date_def ymd2ord_def)
  then show "month_start (y, m) \<le> t" "t < month_start (next_month (y, m))"
    using next_month_ord [of m y] v(1)
    by (simp_all add: month_start_def valid_date_def midnight_le_iff less_midnight_iff)
qed

lemma date_in_month:
  assumes "1 \<le> m" "m \<le> 12" "month_start (y, m) \<le> t" "t < month_start (next_month (y, m))"
  shows "\<exists>d. date_of t = (y, m, d)"
proof -
  let ?d = "date_ord t - ymd2ord y m 1 + 1"
  have "ymd2ord y m 1 \<le> date_ord t" "date_ord t < ymd2ord y m 1 + days_in_month (is_leap y) m"
    using assms(3,4) next_month_ord [OF assms(1,2), of y]
    by (simp_all add: month_start_def midnight_le_iff less_midnight_iff)
  then have "valid_date y m ?d" using assms(1,2) by (simp add: valid_date_def)
  moreover have "ymd2ord y m ?d = date_ord t" by (simp add: ymd2ord_def)
  moreover have "date_of (midnight (date_ord t)) = date_of t" by (simp add: date_of_def)
  ultimately have "date_of t = (y, m, ?d)" using date_of_midnight [of y m ?d] by simp
  then show ?thesis ..
qed

lemma this_month_eq:
  assumes "date_of now = (y, m, d)"
  shows "period_bounds now ''THIS_MONTH'' = Inr (month_start (y, m), month_start (next_month (y, m)))"
proof -
  have "valid_date y m 1"
    using date_ofD [OF assms] days_in_month_pos(1) [of "is_leap y" m] by (auto simp: valid_date_def)
  from date_of_midnight [OF this] show ?thesis
    using assms by (simp add: period_bounds_def Let_def first_of_month_def first_of_next_month_def
        month_start_def next_month_def)
qed

lemma month_range: "date_of t = (y, m, d) \<Longrightarrow> 1 \<le> m \<and> m \<le> 12"
  using date_ofD by (auto simp: valid_date_def)

section \<open>Properties\<close>



text \<open>
  The monthly periods tile time: every instant of the period gets the same period, and
  the instant at which it ends starts the next one.
\<close>

theorem months_tile:
  assumes "period_bounds now ''THIS_MONTH'' = Inr (start, end)"
  shows "(start \<le> t \<and> t < end \<longrightarrow> period_bounds t ''THIS_MONTH'' = Inr (start, end)) \<and>
    (\<exists>end'. period_bounds end ''THIS_MONTH'' = Inr (end, end') \<and> end < end')"
proof -
  obtain y m d where now: "date_of now = (y, m, d)" by (metis prod_cases3)
  note m = month_range [OF now]
  have bounds: "start = month_start (y, m)" "end = month_start (next_month (y, m))"
    using assms this_month_eq [OF now] by simp_all
  obtain y' m' where succ: "next_month (y, m) = (y', m')" by (cases "next_month (y, m)")
  then have m': "1 \<le> m'" "m' \<le> 12" using m by (auto simp: next_month_def split: if_splits)
  then have "valid_date y' m' 1" using days_in_month_pos(1) [of "is_leap y'" m'] by (simp add: valid_date_def)
  then have start': "date_of end = (y', m', 1)"
    using date_of_midnight by (simp add: bounds succ month_start_def)
  have "period_bounds t ''THIS_MONTH'' = Inr (start, end)" if "start \<le> t" "t < end"
    using date_in_month [of m y t] m that this_month_eq [of t y m] unfolding bounds by auto
  moreover have "period_bounds end ''THIS_MONTH'' = Inr (end, month_start (next_month (y', m')))"
    using this_month_eq [OF start'] by (simp add: bounds succ)
  moreover have "end < month_start (next_month (y', m'))"
    using month_contains(2) [OF start'] .
  ultimately show ?thesis by blast
qed

lemma months_tile_witness:
  "\<exists>e. period_bounds (days 59) ''THIS_MONTH'' = Inr (days 59, days 90) \<and>
     period_bounds (days 90) ''THIS_MONTH'' = Inr (days 90, e)"
proof -
  have "period_bounds (days 59) ''THIS_MONTH'' = Inr (days 59, days 90)" by code_simp
  with months_tile [OF this] show ?thesis by blast
qed

lemma count_where_split:
  assumes "\<And>x. x \<in> set xs \<Longrightarrow> R x \<longleftrightarrow> P x \<or> Q x" "\<And>x. x \<in> set xs \<Longrightarrow> \<not> (P x \<and> Q x)"
  shows "count_where R xs = count_where P xs + count_where Q xs"
  using assms by (induction xs) (auto simp: count_where_def)

text \<open>
  The device figures add up: the total is the sum of the devices that are online, offline
  and never seen, and no more devices are active than there are.
\<close>

theorem device_figures:
  "dc_total (count_devices cutoff i d) =
     dc_online (count_devices cutoff i d) + dc_offline (count_devices cutoff i d) +
     dc_unknown (count_devices cutoff i d) \<and>
   dc_active (count_devices cutoff i d) \<le> dc_total (count_devices cutoff i d)"
proof -
  have "int (length xs) = count_where (seen_since c) xs + count_where (seen_before c) xs +
      count_where (\<lambda>r. snd r = None) xs" for c and xs :: "(device \<times> timestamp option) list"
    by (induction xs) (auto simp: count_where_def seen_since_def seen_before_def split: option.splits)
  moreover have "count_where P xs \<le> int (length xs)" for P and xs :: "(device \<times> timestamp option) list"
    by (simp add: count_where_def)
  ultimately show ?thesis by (simp add: count_devices_def Let_def)
qed

lemma sum_one_key:
  fixes c :: int
  shows "distinct ks \<Longrightarrow> sum_list (map (\<lambda>m. if a = m then c else 0) ks) = (if a \<in> set ks then c else 0)"
  by (induction ks) auto

lemma sum_where_groups:
  fixes f :: "'a \<Rightarrow> int"
  assumes "distinct ks" "\<And>x. x \<in> set xs \<Longrightarrow> k x \<in> set ks"
  shows "sum_list (map (\<lambda>m. sum_where f P (filter (\<lambda>x. k x = m) xs)) ks) = sum_where f P xs"
  using assms(2)
proof (induction xs)
  case Nil
  then show ?case by (simp add: sum_where_def)
next
  case (Cons x xs)
  let ?c = "if P x then f x else 0"
  have "sum_where f P (filter (\<lambda>x. k x = m) (x # xs)) =
      (if k x = m then ?c else 0) + sum_where f P (filter (\<lambda>x. k x = m) xs)" for m
    by (simp add: sum_where_def)
  then have "sum_list (map (\<lambda>m. sum_where f P (filter (\<lambda>x. k x = m) (x # xs))) ks) =
      ?c + sum_where f P xs"
    using sum_one_key [OF assms(1), of "k x" ?c] Cons by (simp add: sum_list_addf)
  then show ?case by (simp add: sum_where_def)
qed

lemma count_as_sum: "count_where P xs = sum_where (\<lambda>_. 1) P xs" "int (length xs) = sum_where (\<lambda>_. 1) (\<lambda>_. True) xs"
  by (simp_all add: count_where_def sum_where_def sum_list_triv)

lemma group_sum:
  fixes f :: "payment_transaction \<Rightarrow> int"
  shows "sum_list (map (\<lambda>m. sum_where f P (filter (\<lambda>p. pay_method p = m) rows))
      (sort (remdups (map pay_method rows)))) = sum_where f P rows"
  by (rule sum_where_groups) simp_all

text \<open>
  The financial figures add up: the four statuses account for every transaction of the
  period, and the rows per payment method account for all transactions, all successful ones
  and the whole gross amount; every method has one row.
\<close>

theorem financial_figures:
  assumes "\<forall>p \<in> set rows. pay_status p \<in> payment_statuses"
  shows "fc_transaction_count (count_payments rows) =
      fc_successful (count_payments rows) + fc_failed (count_payments rows) +
      fc_pending (count_payments rows) + fc_cancelled (count_payments rows) \<and>
    sum_list (map mr_total_count (group_methods rows)) = fc_transaction_count (count_payments rows) \<and>
    sum_list (map mr_successful_count (group_methods rows)) = fc_successful (count_payments rows) \<and>
    sum_list (map mr_amount (group_methods rows)) = fc_gross_amount (count_payments rows) \<and>
    distinct (map mr_payment_method (group_methods rows)) \<and>
    mr_payment_method ` set (group_methods rows) = pay_method ` set rows"
proof (intro conjI)
  show "fc_transaction_count (count_payments rows) =
      fc_successful (count_payments rows) + fc_failed (count_payments rows) +
      fc_pending (count_payments rows) + fc_cancelled (count_payments rows)"
    using assms
    by (induction rows) (auto simp: count_payments_def count_where_def paid_def payment_statuses_def)
  show "sum_list (map mr_total_count (group_methods rows)) = fc_transaction_count (count_payments rows)"
    using group_sum [of "\<lambda>_. 1" "\<lambda>_. True" rows]
    by (simp add: group_methods_def count_payments_def Let_def comp_def count_as_sum(2))
  show "sum_list (map mr_successful_count (group_methods rows)) = fc_successful (count_payments rows)"
    using group_sum [of "\<lambda>_. 1" paid rows]
    by (simp add: group_methods_def count_payments_def Let_def comp_def count_as_sum(1))
  show "sum_list (map mr_amount (group_methods rows)) = fc_gross_amount (count_payments rows)"
    using group_sum [of pay_amount_minor paid rows]
    by (simp add: group_methods_def count_payments_def Let_def comp_def)
  show "distinct (map mr_payment_method (group_methods rows))"
    by (simp add: group_methods_def Let_def comp_def)
  show "mr_payment_method ` set (group_methods rows) = pay_method ` set rows"
    by (simp add: group_methods_def Let_def image_image)
qed

definition sample_payments :: "payment_transaction list" where
  "sample_payments =
     [payment_row 0 demo_device ''k1'' '''' ''CARD'' 1 (settled 1000) 1,
      payment_row 1 demo_device ''k2'' '''' ''QR'' 1 (failed_with ''QR_INVALID'' 500) 2,
      payment_row 2 demo_device ''k3'' '''' ''CARD'' 1 (settled 1500) 3]"

lemma financial_figures_witness:
  "sum_list (map mr_amount (group_methods sample_payments)) = 2500"
proof -
  have "\<forall>p \<in> set sample_payments. pay_status p \<in> payment_statuses"
    "fc_gross_amount (count_payments sample_payments) = 2500" by code_simp+
  with financial_figures [of sample_payments] show ?thesis by simp
qed

end
