(* ===== verification/Heartbeat.thy ===== *)
theory Heartbeat
  imports Auth
begin

text \<open>
  \<open>python/app/heartbeat.py\<close>: every heartbeat is appended to \<open>device_heartbeats\<close> and the
  device's current state is created on first contact and then brought up to date.
\<close>

section \<open>The operation\<close>

text \<open>\<open>json.dumps(state, separators=(",", ":"), sort_keys=True)\<close>\<close>

definition state_opts :: dump_opts where
  "state_opts = \<lparr>ensure_ascii = True, item_sep = '','', key_sep = '':'', sort_keys = True\<rparr>"

definition state_payload :: "(string \<times> json) list \<Rightarrow> string" where
  "state_payload state = json_dumps state_opts (JObj state)"

definition new_current_state :: "int \<Rightarrow> timestamp \<Rightarrow> device_current_state" where
  "new_current_state device_id now =
     \<lparr>cs_device_id = device_id, cs_last_seen_at = None, cs_app_version = None,
      cs_state_payload = ''{}'', cs_current_configuration_version = None,
      cs_acknowledged_configuration_version = None, cs_updated_at = now\<rparr>"

definition touch_state ::
  "timestamp \<Rightarrow> string option \<Rightarrow> string \<Rightarrow> device_current_state \<Rightarrow> device_current_state" where
  "touch_state now app_version payload c =
     c\<lparr>cs_last_seen_at := Some now, cs_app_version := app_version,
       cs_state_payload := payload, cs_updated_at := now\<rparr>"

definition record_heartbeat ::
  "timestamp \<Rightarrow> int \<Rightarrow> int option \<Rightarrow> string option \<Rightarrow> (string \<times> json) list \<Rightarrow> unit op" where
  "record_heartbeat now device_id sequence app_version state =
     (let payload = state_payload state in
      bind_op (sql_insert ''device_heartbeats'' HeartbeatSeq device_heartbeats device_heartbeats_update insertable_heartbeat
         (\<lambda>i. \<lparr>hb_id = i, hb_device_id = device_id, hb_occurred_at = now, hb_received_at = now,
               hb_sequence = sequence, hb_payload = payload\<rparr>)) (\<lambda>_.
      bind_op (sql_select (\<lambda>d. List.find (\<lambda>c. cs_device_id c = device_id) (device_current_states d)))
        (\<lambda>current.
      then_op (when_op (current = None)
         (sql_insert_key ''device_current_states'' device_current_states device_current_states_update
            insertable_current_state (new_current_state device_id now)))
      (then_op (sql_update ''device_current_states'' device_current_states device_current_states_update
         (\<lambda>_. True) (\<lambda>c. cs_device_id c = device_id) (touch_state now app_version payload))
       commit))))"

section \<open>Behaviour\<close>

text \<open>The heartbeat table of the two statements together: update the row or insert it.\<close>

definition upsert_state ::
  "timestamp \<Rightarrow> int \<Rightarrow> string option \<Rightarrow> string \<Rightarrow> device_current_state list \<Rightarrow>
   device_current_state list" where
  "upsert_state now device_id app_version payload rows =
     update_where (\<lambda>c. cs_device_id c = device_id) (touch_state now app_version payload)
       (if has_key cs_device_id rows device_id then rows
        else rows @ [new_current_state device_id now])"

definition heartbeat_row ::
  "int \<Rightarrow> timestamp \<Rightarrow> int \<Rightarrow> int option \<Rightarrow> (string \<times> json) list \<Rightarrow> device_heartbeat" where
  "heartbeat_row i now device_id sequence state =
     \<lparr>hb_id = i, hb_device_id = device_id, hb_occurred_at = now, hb_received_at = now,
      hb_sequence = sequence, hb_payload = state_payload state\<rparr>"

lemma find_None_has_key: "List.find (\<lambda>c. k c = i) rows = None \<longleftrightarrow> \<not> has_key k rows i"
  by (auto simp: find_None_set has_key_def)

lemma record_heartbeat_wp:
  assumes dev: "has_key dev_id (devices (working s)) device_id"
    and fresh: "\<not> has_key hb_id (device_heartbeats (working s)) (seqs s HeartbeatSeq)"
  shows "wp (record_heartbeat now device_id sequence app_version state) Q E s =
    (let d = (working s)\<lparr>
           device_heartbeats := device_heartbeats (working s) @
             [heartbeat_row (seqs s HeartbeatSeq) now device_id sequence state],
           device_current_states :=
             upsert_state now device_id app_version (state_payload state)
               (device_current_states (working s))\<rparr>
     in Q () (s\<lparr>committed := d, working := d,
              seqs := (seqs s)(HeartbeatSeq := seqs s HeartbeatSeq + 1)\<rparr>))"
  using assms
  by (auto simp: record_heartbeat_def Let_def wp_rules insertable_heartbeat_def row_simps
      insertable_current_state_def find_None_has_key new_current_state_def heartbeat_row_def
      upsert_state_def touch_state_def fun_upd_def update_where_def)

lemma upsert_state_lookup:
  "List.find (\<lambda>c. cs_device_id c = i) (upsert_state now device_id app_version payload rows) =
   (if i = device_id
    then Some (touch_state now app_version payload
      (case List.find (\<lambda>c. cs_device_id c = device_id) rows of
         None \<Rightarrow> new_current_state device_id now | Some c \<Rightarrow> c))
    else List.find (\<lambda>c. cs_device_id c = i) rows)"
proof -
  have "List.find (\<lambda>c. cs_device_id c = i)
      (update_where (\<lambda>c. cs_device_id c = device_id) (touch_state now app_version payload) xs) =
    map_option (\<lambda>c. if cs_device_id c = device_id then touch_state now app_version payload c else c)
      (List.find (\<lambda>c. cs_device_id c = i) xs)" for xs
    by (rule find_update_where) (simp add: touch_state_def)
  moreover have "has_key cs_device_id rows device_id \<longleftrightarrow>
      List.find (\<lambda>c. cs_device_id c = device_id) rows \<noteq> None"
    by (simp add: find_None_has_key)
  ultimately show ?thesis
    by (auto simp: upsert_state_def row_simps new_current_state_def
        split: option.splits dest: find_Some_iff_mem)
qed

lemma distinct_upsert_state:
  "distinct (map cs_device_id rows) \<Longrightarrow>
   distinct (map cs_device_id (upsert_state now device_id app_version payload rows))"
proof -
  assume "distinct (map cs_device_id rows)"
  moreover have "map cs_device_id (update_where (\<lambda>c. cs_device_id c = device_id)
      (touch_state now app_version payload) xs) = map cs_device_id xs" for xs
    by (rule map_update_where) (simp add: touch_state_def)
  ultimately show ?thesis
    by (auto simp: upsert_state_def has_key_def new_current_state_def)
qed

interpretation record_heartbeat: atomic_op "\<lambda>(now, i, sq, v, st). record_heartbeat now i sq v st"
proof (unfold_locales, goal_cases)
  case (1 i s e t)
  obtain now dv sq v st where i: "i = (now, dv, sq, v, st)" by (metis prod_cases5)
  have "wp (record_heartbeat now dv sq v st) (\<lambda>_ _. True) (\<lambda>_ u. committed u = committed s) s"
    by (simp add: record_heartbeat_def Let_def wp_rules)
  with 1 show ?case by (auto simp: i wp_def)
qed

end
