(* ===== verification/Configuration.thy ===== *)
theory Configuration
  imports Auth
begin

text \<open>
  \<open>python/app/configuration.py\<close>: the published configuration of a device.  The schema
  does not limit a device to one published configuration, and \<open>one_or_none()\<close> raises when
  it finds two.
\<close>

definition CONFIGURATION_NOT_FOUND :: exn where
  "CONFIGURATION_NOT_FOUND = AppError 404 ''CONFIGURATION_NOT_FOUND'' []"

definition published :: "int \<Rightarrow> device_configuration \<Rightarrow> bool" where
  "published device_id c \<longleftrightarrow> cfg_device_id c = device_id \<and> cfg_status c = PUBLISHED"

text \<open>\<open>one_or_none()\<close>\<close>

definition one_or_none :: "'r list \<Rightarrow> 'r option op" where
  "one_or_none rows = (case rows of
     [] \<Rightarrow> ret None | [r] \<Rightarrow> ret (Some r) | _ \<Rightarrow> raise MultipleResultsFound)"

lemma wp_one_or_none [wp_rules]:
  "wp (one_or_none rows) Q E s =
     (case rows of [] \<Rightarrow> Q None s | [r] \<Rightarrow> Q (Some r) s | _ \<Rightarrow> E MultipleResultsFound s)"
  by (simp add: one_or_none_def wp_rules split: list.splits)

text \<open>
  The answer is a \<open>dict\<close> display with \<open>**snapshot\<close> at its end: an item of the snapshot
  replaces the value of an earlier key of the same name and keeps its place.
\<close>

definition dict_set :: "'v \<Rightarrow> string \<Rightarrow> (string \<times> 'v) list \<Rightarrow> (string \<times> 'v) list" where
  "dict_set v k d = (if k \<in> fst ` set d then map (\<lambda>(k', w). if k' = k then (k', v) else (k', w)) d
     else d @ [(k, v)])"

definition dict_merge :: "(string \<times> 'v) list \<Rightarrow> (string \<times> 'v) list \<Rightarrow> (string \<times> 'v) list" where
  "dict_merge d e = fold (\<lambda>(k, v). dict_set v k) e d"

definition configuration_payload ::
  "device_configuration \<Rightarrow> int option \<Rightarrow> (string \<times> json) list" where
  "configuration_payload c current_version =
     dict_merge
       [(''id'', JStr (int_dec (cfg_id c))),
        (''version'', JInt (cfg_version c)),
        (''checksum'', JStr (cfg_checksum c)),
        (''update_available'', JBool (current_version \<noteq> Some (cfg_version c)))]
       (cfg_snapshot c)"

definition get_configuration :: "int \<Rightarrow> int option \<Rightarrow> (string \<times> json) list op" where
  "get_configuration device_id current_version =
     bind_op (sql_select (\<lambda>d. filter (published device_id) (device_configurations d))) (\<lambda>rows.
     bind_op (one_or_none rows) (\<lambda>row.
     case row of
       None \<Rightarrow> raise CONFIGURATION_NOT_FOUND
     | Some c \<Rightarrow> ret (configuration_payload c current_version)))"

section \<open>Dictionaries\<close>

lemma map_of_replace:
  "map_of (map (\<lambda>(k', w). if k' = k then (k', v) else (k', w)) d) x =
   (if x = k then map_option (\<lambda>_. v) (map_of d k) else map_of d x)"
proof (induction d)
  case (Cons kv d)
  then show ?case by (cases kv) auto
qed simp

lemma map_of_dict_set: "map_of (dict_set v k d) k' = (if k' = k then Some v else map_of d k')"
proof (cases "k \<in> fst ` set d")
  case True
  then obtain w where "map_of d k = Some w"
    by (metis map_of_eq_None_iff option.exhaust)
  with True show ?thesis by (simp add: dict_set_def map_of_replace)
next
  case False
  then have "map_of d k = None" by (simp add: map_of_eq_None_iff)
  with False show ?thesis by (simp add: dict_set_def map_add_def split: option.splits)
qed

lemma map_of_dict_merge:
  "map_of (dict_merge d e) k =
     (case map_of (rev e) k of Some v \<Rightarrow> Some v | None \<Rightarrow> map_of d k)"
proof (induction e arbitrary: d)
  case Nil
  then show ?case by (simp add: dict_merge_def)
next
  case (Cons kv e)
  obtain k0 v0 where kv: "kv = (k0, v0)" by (cases kv)
  have "map_of (dict_merge d (kv # e)) k = map_of (dict_merge (dict_set v0 k0 d) e) k"
    by (simp add: kv dict_merge_def)
  also have "\<dots> = (case map_of (rev e) k of Some v \<Rightarrow> Some v | None \<Rightarrow> map_of (dict_set v0 k0 d) k)"
    by (rule Cons.IH)
  finally show ?case
    by (simp add: kv map_of_dict_set map_add_def split: option.splits)
qed

section \<open>Behaviour\<close>

lemma wp_get_configuration [wp_rules]:
  "wp (get_configuration device_id v) Q E s =
     (case filter (published device_id) (device_configurations (working s)) of
        [] \<Rightarrow> E CONFIGURATION_NOT_FOUND s
      | [c] \<Rightarrow> Q (configuration_payload c v) s
      | _ \<Rightarrow> E MultipleResultsFound s)"
  by (simp add: get_configuration_def wp_rules split: list.splits)

interpretation get_configuration: reader_op "\<lambda>(i, v). get_configuration i v"
proof (unfold_locales, goal_cases)
  case (1 i s e t)
  have "wp (get_configuration (fst i) (snd i)) (\<lambda>_ u. u = s) (\<lambda>_ u. u = s) s"
    by (simp add: wp_rules split: list.splits)
  with 1 show ?case by (auto simp: wp_def split: prod.splits)
next
  case (2 i s a t)
  have "wp (get_configuration (fst i) (snd i)) (\<lambda>_ u. u = s) (\<lambda>_ u. u = s) s"
    by (simp add: wp_rules split: list.splits)
  with 2 show ?case by (auto simp: wp_def split: prod.splits)
qed

end
