(* ===== verification/Api.thy ===== *)
theory Api
  imports Heartbeat Configuration Payments Commands Dashboard
begin

text \<open>
  \<open>python/app/main.py\<close>: the request models with their validation, one handler per endpoint,
  and how the framework turns the outcome of a handler into a response.
\<close>

section \<open>Requests\<close>

record heartbeat_request =
  hr_sequence :: "int option"
  hr_app_version :: "string option"
  hr_state :: "(string \<times> json) list"

record result_request =
  rr_result :: string
  rr_code :: "string option"
  rr_message :: "string option"

datatype request =
    Heartbeat heartbeat_request
  | GetConfiguration "int option"
  | Payment payment_request string
  | CommandsPending "int option"
  | CommandAcknowledge int
  | CommandResult int result_request string
  | DashboardOverview "string option"

record headers =
  x_device_id :: int
  authorization :: "string option"

definition max_length :: "nat \<Rightarrow> string option \<Rightarrow> bool" where
  "max_length n v = (case v of None \<Rightarrow> True | Some s \<Rightarrow> length s \<le> n)"

definition at_least :: "int \<Rightarrow> int option \<Rightarrow> bool" where
  "at_least n v = (case v of None \<Rightarrow> True | Some i \<Rightarrow> n \<le> i)"

definition valid_key :: "string \<Rightarrow> bool" where
  "valid_key key \<longleftrightarrow> 8 \<le> length key \<and> length key \<le> 128"

definition valid_payment :: "payment_request \<Rightarrow> bool" where
  "valid_payment body \<longleftrightarrow> 0 < configuration_version body \<and> at_least 1 (displayed_price_minor body)"

text \<open>The defaults of the query parameters.\<close>

definition query_limit :: "int option \<Rightarrow> int" where
  "query_limit limit = (case limit of None \<Rightarrow> 20 | Some n \<Rightarrow> n)"

definition query_period :: "string option \<Rightarrow> string" where
  "query_period period = (case period of None \<Rightarrow> ''TODAY'' | Some p \<Rightarrow> p)"

fun valid_request :: "request \<Rightarrow> bool" where
  "valid_request (Heartbeat body) = max_length 60 (hr_app_version body)"
| "valid_request (GetConfiguration current_version) = at_least 1 current_version"
| "valid_request (Payment body key) = (valid_payment body \<and> valid_key key)"
| "valid_request (CommandsPending limit) = (1 \<le> query_limit limit \<and> query_limit limit \<le> 100)"
| "valid_request (CommandAcknowledge command_id) = True"
| "valid_request (CommandResult command_id body key) =
     (max_length 64 (rr_code body) \<and> max_length 500 (rr_message body) \<and> valid_key key)"
| "valid_request (DashboardOverview period) =
     (query_period period \<in> {''TODAY'', ''LAST_7_DAYS'', ''THIS_MONTH''})"

section \<open>Handlers\<close>

datatype api_data =
    HeartbeatData bool int
  | ConfigurationData "(string \<times> json) list"
  | PaymentData payment_payload
  | CommandsData "command_item list" int
  | AcknowledgeData string status
  | ResultData result_payload
  | OverviewData overview_payload

text \<open>\<open>authenticate_device(session, x_device_id, device_token(authorization))\<close>\<close>

definition with_device :: "digests \<Rightarrow> headers \<Rightarrow> (device \<Rightarrow> 'a op) \<Rightarrow> 'a op" where
  "with_device dg h k =
     bind_op (authenticate_device dg (x_device_id h) (device_token (authorization h))) k"

definition heartbeat :: "digests \<Rightarrow> timestamp \<Rightarrow> headers \<Rightarrow> heartbeat_request \<Rightarrow> (int \<times> api_data) op" where
  "heartbeat dg now h body = with_device dg h (\<lambda>device.
     then_op (record_heartbeat now (dev_id device) (hr_sequence body) (hr_app_version body) (hr_state body))
       (ret (200, HeartbeatData True DEVICE_HEARTBEAT_SECONDS)))"

definition configuration :: "digests \<Rightarrow> headers \<Rightarrow> int option \<Rightarrow> (int \<times> api_data) op" where
  "configuration dg h current_version = with_device dg h (\<lambda>device.
     bind_op (get_configuration (dev_id device) current_version) (\<lambda>d.
     ret (200, ConfigurationData d)))"

text \<open>\<open>str(payload.get("error_code") or "PAYMENT_FAILED")\<close>\<close>

definition payment_error :: "payment_payload \<Rightarrow> exn" where
  "payment_error v =
     AppError 409 (if or_empty (pp_error_code v) = '''' then ''PAYMENT_FAILED'' else or_empty (pp_error_code v))
       [(''payment_id'', JStr (pp_id v)), (''status'', JStr (status_text (pp_status v)))]"

text \<open>A failed or cancelled payment is answered with an error, after its commit.\<close>

definition payment ::
  "digests \<Rightarrow> timestamp \<Rightarrow> headers \<Rightarrow> payment_request \<Rightarrow> string \<Rightarrow> (int \<times> api_data) op" where
  "payment dg now h body key = with_device dg h (\<lambda>device.
     bind_op (create_payment dg now device body key) (\<lambda>v.
     if pp_status v \<in> {FAILED, CANCELLED} then raise (payment_error v)
     else ret (if pp_status v = PENDING then 202 else 200, PaymentData v)))"

definition commands_pending ::
  "digests \<Rightarrow> timestamp \<Rightarrow> headers \<Rightarrow> int option \<Rightarrow> (int \<times> api_data) op" where
  "commands_pending dg now h limit = with_device dg h (\<lambda>device.
     bind_op (pending_commands now (dev_id device) (query_limit limit)) (\<lambda>items.
     ret (200, CommandsData items 5)))"

definition command_acknowledge ::
  "digests \<Rightarrow> timestamp \<Rightarrow> headers \<Rightarrow> int \<Rightarrow> (int \<times> api_data) op" where
  "command_acknowledge dg now h command_id = with_device dg h (\<lambda>device.
     bind_op (acknowledge_command now (dev_id device) command_id) (\<lambda>(i, st).
     ret (200, AcknowledgeData i st)))"

definition command_result_handler ::
  "digests \<Rightarrow> timestamp \<Rightarrow> headers \<Rightarrow> int \<Rightarrow> result_request \<Rightarrow> string \<Rightarrow> (int \<times> api_data) op" where
  "command_result_handler dg now h command_id body key = with_device dg h (\<lambda>device.
     bind_op (apply_command_result dg now (dev_id device) command_id (rr_result body) (rr_code body)
       (rr_message body) key) (\<lambda>v.
     ret (200, ResultData v)))"

definition dashboard_overview ::
  "digests \<Rightarrow> timestamp \<Rightarrow> timestamp \<Rightarrow> headers \<Rightarrow> string option \<Rightarrow> (int \<times> api_data) op" where
  "dashboard_overview dg now now' h period =
     bind_op (authenticate_panel dg (bearer_token (authorization h))) (\<lambda>current.
     bind_op (overview now now' (pu_company_id current) (query_period period)) (\<lambda>v.
     ret (200, OverviewData v)))"

definition health :: bool where
  "health = True"

section \<open>The application\<close>

fun handle :: "digests \<Rightarrow> timestamp \<Rightarrow> timestamp \<Rightarrow> headers \<Rightarrow> request \<Rightarrow> (int \<times> api_data) op" where
  "handle dg now now' h (Heartbeat body) = heartbeat dg now h body"
| "handle dg now now' h (GetConfiguration v) = configuration dg h v"
| "handle dg now now' h (Payment body key) = payment dg now h body key"
| "handle dg now now' h (CommandsPending limit) = commands_pending dg now h limit"
| "handle dg now now' h (CommandAcknowledge i) = command_acknowledge dg now h i"
| "handle dg now now' h (CommandResult i body key) = command_result_handler dg now h i body key"
| "handle dg now now' h (DashboardOverview period) = dashboard_overview dg now now' h period"

text \<open>
  One request: validation before anything else, the handler in a session of its own, and
  the answer.  \<open>uuid\<close> is the request id, \<open>answered\<close> the time of the answer.
\<close>

definition serve ::
  "digests \<Rightarrow> string \<Rightarrow> timestamp \<Rightarrow> timestamp \<Rightarrow> timestamp \<Rightarrow> headers \<Rightarrow> request \<Rightarrow> session \<Rightarrow>
   api_data response \<times> session" where
  "serve dg uuid now now' answered h req s =
     (if \<not> valid_request req then (FrameworkError 422, s)
      else case with_session (handle dg now now' h req) s of
        (Inr (code, d), t) \<Rightarrow> (SuccessResponse code d (make_meta uuid answered), t)
      | (Inl e, t) \<Rightarrow> (error_response uuid answered e, t))"

end
