(* ===== verification/Worker_Facts.thy ===== *)
theory Worker_Facts
  imports Worker
begin

text \<open>
  The sweep as a set of open alarms: every device contributes one verdict (raise, clear or
  keep its offline alarm), every failing device one more.  The interface \<open>alarm_book\<close> states
  what raising and clearing promise; its lemmas give the effect of a whole run of verdicts
  and that running them twice changes nothing.  The alarm table interprets it.
\<close>

section \<open>The interface\<close>

datatype verdict = Raise | Clear | Keep

fun decide ::
  "('k \<Rightarrow> 's \<Rightarrow> 's) \<Rightarrow> ('k \<Rightarrow> 's \<Rightarrow> 's) \<Rightarrow> 'k \<times> verdict \<Rightarrow> 's \<Rightarrow> 's" where
  "decide rk ck (k, Raise) s = rk k s"
| "decide rk ck (k, Clear) s = ck k s"
| "decide rk ck (k, Keep) s = s"

definition newly_raised :: "'k set \<Rightarrow> ('k \<times> verdict) list \<Rightarrow> int" where
  "newly_raised K kvs = int (length (filter (\<lambda>(k, v). v = Raise \<and> k \<notin> K) kvs))"

definition newly_cleared :: "'k set \<Rightarrow> ('k \<times> verdict) list \<Rightarrow> int" where
  "newly_cleared K kvs = int (length (filter (\<lambda>(k, v). v = Clear \<and> k \<in> K) kvs))"

lemma newly_simps [simp]:
  "newly_raised K [] = 0" "newly_cleared K [] = 0"
  "newly_raised K ((k, v) # kvs) = (if v = Raise \<and> k \<notin> K then 1 else 0) + newly_raised K kvs"
  "newly_cleared K ((k, v) # kvs) = (if v = Clear \<and> k \<in> K then 1 else 0) + newly_cleared K kvs"
  "newly_raised K (kvs @ kvs') = newly_raised K kvs + newly_raised K kvs'"
  by (simp_all add: newly_raised_def newly_cleared_def)

lemma newly_cong:
  assumes "\<And>k v. (k, v) \<in> set kvs \<Longrightarrow> k \<in> K \<longleftrightarrow> k \<in> L"
  shows "newly_raised K kvs = newly_raised L kvs" "newly_cleared K kvs = newly_cleared L kvs"
proof -
  have "filter (\<lambda>(k, v). v = w \<and> k \<notin> K) kvs = filter (\<lambda>(k, v). v = w \<and> k \<notin> L) kvs"
    "filter (\<lambda>(k, v). v = w \<and> k \<in> K) kvs = filter (\<lambda>(k, v). v = w \<and> k \<in> L) kvs" for w
    using assms by (auto intro!: filter_cong)
  then show "newly_raised K kvs = newly_raised L kvs" "newly_cleared K kvs = newly_cleared L kvs"
    by (simp_all add: newly_raised_def newly_cleared_def)
qed

locale alarm_book =
  fixes ok :: "'s \<Rightarrow> bool" and opens :: "'s \<Rightarrow> 'k set"
    and raise_key :: "'k \<Rightarrow> 's \<Rightarrow> 's" and clear_key :: "'k \<Rightarrow> 's \<Rightarrow> 's"
  assumes ok_raise: "ok s \<Longrightarrow> ok (raise_key k s)"
    and ok_clear: "ok s \<Longrightarrow> ok (clear_key k s)"
    and opens_raise: "ok s \<Longrightarrow> opens (raise_key k s) = insert k (opens s)"
    and opens_clear: "ok s \<Longrightarrow> opens (clear_key k s) = opens s - {k}"
    and raise_open: "ok s \<Longrightarrow> k \<in> opens s \<Longrightarrow> raise_key k s = s"
    and clear_closed: "ok s \<Longrightarrow> k \<notin> opens s \<Longrightarrow> clear_key k s = s"
begin

lemma ok_decide: "ok s \<Longrightarrow> ok (decide raise_key clear_key kv s)"
  by (cases "(raise_key, clear_key, kv, s)" rule: decide.cases) (auto intro: ok_raise ok_clear)

lemma ok_run: "ok s \<Longrightarrow> ok (fold (decide raise_key clear_key) kvs s)"
  by (induction kvs arbitrary: s) (simp_all add: ok_decide)

lemma opens_decide:
  "ok s \<Longrightarrow> opens (decide raise_key clear_key (k, v) s) =
     (case v of Raise \<Rightarrow> insert k (opens s) | Clear \<Rightarrow> opens s - {k} | Keep \<Rightarrow> opens s)"
  by (cases v) (simp_all add: opens_raise opens_clear)

lemma opens_other:
  "ok s \<Longrightarrow> k' \<noteq> k \<Longrightarrow> k' \<in> opens (decide raise_key clear_key (k, v) s) \<longleftrightarrow> k' \<in> opens s"
  by (cases v) (simp_all add: opens_raise opens_clear)

lemma opens_run:
  assumes "ok s" "distinct (map fst kvs)"
  shows "opens (fold (decide raise_key clear_key) kvs s) =
    (opens s - {k. (k, Clear) \<in> set kvs}) \<union> {k. (k, Raise) \<in> set kvs}"
  using assms
proof (induction kvs arbitrary: s)
  case (Cons kv kvs)
  obtain k v where kv: "kv = (k, v)" by (cases kv)
  have fresh: "(k, w) \<notin> set kvs" for w using Cons.prems kv by force
  have "opens (fold (decide raise_key clear_key) (kv # kvs) s) =
      (opens (decide raise_key clear_key kv s) - {k. (k, Clear) \<in> set kvs}) \<union> {k. (k, Raise) \<in> set kvs}"
    using Cons by (simp add: ok_decide)
  then show ?case
    using fresh Cons.prems(1) by (cases v) (auto simp: kv opens_raise opens_clear)
qed simp

text \<open>A second run of the same verdicts leaves the state exactly as it is.\<close>

lemma settled_run:
  assumes "ok s" and "\<And>k. (k, Raise) \<in> set kvs \<Longrightarrow> k \<in> opens s"
    and "\<And>k. (k, Clear) \<in> set kvs \<Longrightarrow> k \<notin> opens s"
  shows "fold (decide raise_key clear_key) kvs s = s"
  using assms
proof (induction kvs)
  case (Cons kv kvs)
  obtain k v where kv: "kv = (k, v)" by (cases kv)
  have "decide raise_key clear_key kv s = s"
    using Cons.prems kv by (cases v) (auto intro: raise_open clear_closed)
  with Cons show ?case by simp
qed simp

lemma run_twice:
  assumes "ok s" "distinct (map fst kvs)"
  shows "fold (decide raise_key clear_key) kvs (fold (decide raise_key clear_key) kvs s) =
    fold (decide raise_key clear_key) kvs s"
proof (rule settled_run [OF ok_run])
  have once: "(k, v) \<in> set kvs \<Longrightarrow> (k, w) \<in> set kvs \<Longrightarrow> v = w" for k v w
    using assms(2) by (meson eq_key_imp_eq_value)
  fix k
  show "(k, Raise) \<in> set kvs \<Longrightarrow> k \<in> opens (fold (decide raise_key clear_key) kvs s)"
    by (simp add: opens_run [OF assms])
  show "(k, Clear) \<in> set kvs \<Longrightarrow> k \<notin> opens (fold (decide raise_key clear_key) kvs s)"
    using once by (force simp: opens_run [OF assms])
qed (fact assms(1))

end

section \<open>The alarm table\<close>

definition open_keys :: "db \<Rightarrow> (int \<times> string) set" where
  "open_keys d = (\<lambda>a. (al_device_id a, al_alarm_key a)) ` {a \<in> set (alarms d). al_status a = OPEN}"

definition alarms_ok :: "(seq \<Rightarrow> int) \<Rightarrow> db \<Rightarrow> bool" where
  "alarms_ok sq d \<longleftrightarrow> distinct (map al_id (alarms d)) \<and>
     (\<forall>a \<in> set (alarms d). al_id a < sq AlarmSeq) \<and>
     distinct (map (\<lambda>a. (al_device_id a, al_alarm_key a)) (filter (\<lambda>a. al_status a = OPEN) (alarms d)))"

definition raise_alarm ::
  "timestamp \<Rightarrow> int \<times> string \<Rightarrow> (seq \<Rightarrow> int) \<times> db \<Rightarrow> (seq \<Rightarrow> int) \<times> db" where
  "raise_alarm now k x =
     insert_when (find_open_alarm (fst k) (snd k) (snd x) = None) AlarmSeq alarms alarms_update
       (open_row now (fst k) (snd k)) x"

definition clear_alarm ::
  "timestamp \<Rightarrow> int \<times> string \<Rightarrow> (seq \<Rightarrow> int) \<times> db \<Rightarrow> (seq \<Rightarrow> int) \<times> db" where
  "clear_alarm now k x =
     (case find_open_alarm (fst k) (snd k) (snd x) of None \<Rightarrow> x
      | Some a \<Rightarrow> (fst x, (snd x)\<lparr>alarms := update_where (\<lambda>b. al_id b = al_id a \<and> al_status b = OPEN)
          (resolve_row now) (alarms (snd x))\<rparr>))"

lemma find_open_alarm_None: "find_open_alarm i k d = None \<longleftrightarrow> (i, k) \<notin> open_keys d"
  by (auto simp: find_open_alarm_def find_None_set open_keys_def)

lemma find_open_alarm_SomeD:
  assumes "find_open_alarm i k d = Some a"
  shows "a \<in> set (alarms d)" "al_device_id a = i" "al_alarm_key a = k" "al_status a = OPEN"
  using assms by (auto simp: find_open_alarm_def dest: find_Some_iff_mem)

lemma open_keys_insert:
  "open_keys (d\<lparr>alarms := alarms d @ [open_row now i k j]\<rparr>) = insert (i, k) (open_keys d)"
proof -
  have "{a \<in> set (alarms d @ [open_row now i k j]). al_status a = OPEN} =
      insert (open_row now i k j) {a \<in> set (alarms d). al_status a = OPEN}"
    by (auto simp: open_row_def)
  then show ?thesis by (simp add: open_keys_def) (simp add: open_row_def)
qed

lemma open_unique:
  assumes "alarms_ok sq d" "a \<in> set (alarms d)" "al_status a = OPEN"
    "b \<in> set (alarms d)" "al_status b = OPEN"
    "(al_device_id a, al_alarm_key a) = (al_device_id b, al_alarm_key b)"
  shows "a = b"
proof -
  have "distinct (map (\<lambda>a. (al_device_id a, al_alarm_key a)) (filter (\<lambda>a. al_status a = OPEN) (alarms d)))"
    using assms(1) by (simp add: alarms_ok_def)
  from distinct_key_eq [OF this, of a b] show ?thesis using assms by simp
qed

lemma raise_alarm_ok:
  assumes "alarms_ok (fst x) (snd x)"
  shows "alarms_ok (fst (raise_alarm now k x)) (snd (raise_alarm now k x))"
proof (cases "find_open_alarm (fst k) (snd k) (snd x)")
  case None
  then have "k \<notin> open_keys (snd x)" by (simp add: find_open_alarm_None)
  with assms None show ?thesis
    by (fastforce simp: alarms_ok_def raise_alarm_def insert_when_def open_row_def open_keys_def)
next
  case (Some a)
  with assms show ?thesis by (simp add: raise_alarm_def insert_when_def)
qed

lemma resolve_filter:
  assumes "distinct (map al_id as)" "a \<in> set as" "al_status a = OPEN"
  shows "filter (\<lambda>b. al_status b = OPEN)
    (update_where (\<lambda>b. al_id b = al_id a \<and> al_status b = OPEN) (resolve_row now) as) =
    filter (\<lambda>b. al_status b = OPEN \<and> b \<noteq> a) as"
  using assms
proof (induction as)
  case (Cons b as)
  show ?case
  proof (cases "b = a")
    case True
    have "filter (\<lambda>b. al_status b = OPEN)
        (update_where (\<lambda>b. al_id b = al_id a \<and> al_status b = OPEN) (resolve_row now) as) =
        filter (\<lambda>b. al_status b = OPEN) as"
      using Cons.prems True
      by (subst update_where_id) (auto simp: image_iff)
    moreover have "filter (\<lambda>b. al_status b = OPEN \<and> b \<noteq> a) as = filter (\<lambda>b. al_status b = OPEN) as"
      using Cons.prems True by (auto intro!: filter_cong)
    moreover have "al_status (resolve_row now a) = RESOLVED" by (simp add: resolve_row_def)
    ultimately show ?thesis using True Cons.prems by (simp add: row_simps)
  next
    case False
    with Cons have "al_id b \<noteq> al_id a" by (auto simp: image_iff)
    with Cons False show ?thesis by (simp add: row_simps)
  qed
qed simp

lemma map_al_id_resolve [simp]: "map al_id (update_where P (resolve_row now) as) = map al_id as"
  by (simp add: map_update_where resolve_row_def)

lemma al_id_resolve: "b \<in> set (update_where P (resolve_row now) as) \<Longrightarrow> al_id b \<in> al_id ` set as"
  by (metis imageI list.set_map map_al_id_resolve)

lemma clear_alarm_ok:
  assumes ok: "alarms_ok (fst x) (snd x)"
  shows "alarms_ok (fst (clear_alarm now k x)) (snd (clear_alarm now k x))" (is ?ok)
    and "open_keys (snd (clear_alarm now k x)) = open_keys (snd x) - {k}" (is ?keys)
proof -
  let ?key = "\<lambda>a. (al_device_id a, al_alarm_key a)"
  have "?ok \<and> ?keys"
  proof (cases "find_open_alarm (fst k) (snd k) (snd x)")
    case None
    then have "k \<notin> open_keys (snd x)" by (simp add: find_open_alarm_None)
    with None ok show ?thesis by (simp add: clear_alarm_def)
  next
    case (Some a)
    let ?as = "alarms (snd x)"
    let ?bs = "update_where (\<lambda>b. al_id b = al_id a \<and> al_status b = OPEN) (resolve_row now) ?as"
    note a = find_open_alarm_SomeD [OF Some]
    have ids: "distinct (map al_id ?as)" using ok by (simp add: alarms_ok_def)
    note opens = resolve_filter [OF ids a(1,4), of now]
    have "distinct (map ?key (filter (\<lambda>b. al_status b = OPEN \<and> b \<noteq> a) ?as))"
      using ok by (auto simp: alarms_ok_def distinct_map inj_on_def)
    then have 1: ?ok
      using ok al_id_resolve by (fastforce simp: clear_alarm_def Some alarms_ok_def opens)
    have "{b \<in> set ?bs. al_status b = OPEN} = {b \<in> set ?as. al_status b = OPEN \<and> b \<noteq> a}"
      using arg_cong [OF opens, of set] by simp
    moreover have "?key b = k \<longleftrightarrow> b = a" if "b \<in> set ?as" "al_status b = OPEN" for b
      using open_unique [OF ok that a(1,4)] a(2,3) by auto
    ultimately have 2: ?keys
      by (auto simp: clear_alarm_def Some open_keys_def)
    from 1 2 show ?thesis by blast
  qed
  then show ?ok ?keys by blast+
qed

lemma open_keys_raise: "open_keys (snd (raise_alarm now k x)) = insert k (open_keys (snd x))"
proof (cases "find_open_alarm (fst k) (snd k) (snd x)")
  case None
  then show ?thesis by (simp add: raise_alarm_def insert_when_def open_keys_insert)
next
  case (Some a)
  then have "k \<in> open_keys (snd x)"
    using find_open_alarm_None [of "fst k" "snd k" "snd x"] by auto
  with Some show ?thesis by (auto simp: raise_alarm_def insert_when_def)
qed

lemma raise_alarm_id: "k \<in> open_keys (snd x) \<Longrightarrow> raise_alarm now k x = x"
  using find_open_alarm_None [of "fst k" "snd k" "snd x"] by (auto simp: raise_alarm_def insert_when_def)

lemma clear_alarm_id: "k \<notin> open_keys (snd x) \<Longrightarrow> clear_alarm now k x = x"
  using find_open_alarm_None [of "fst k" "snd k" "snd x"] by (simp add: clear_alarm_def)

interpretation alarm_table: alarm_book
  "\<lambda>x. alarms_ok (fst x) (snd x)" "\<lambda>x. open_keys (snd x)" "raise_alarm now" "clear_alarm now" for now
  by unfold_locales
    (simp_all add: raise_alarm_ok clear_alarm_ok open_keys_raise raise_alarm_id clear_alarm_id)

end
