(* ===== verification/Sweep_Facts.thy ===== *)
theory Sweep_Facts
  imports Worker_Facts
begin

text \<open>
  The sweep of \<open>worker.py\<close> as a run of verdicts on the alarm table: every active device gets
  one verdict on its offline alarm, every failing device one on its failure alarm.  The
  handler's loops are shown to compute exactly that run and to count what it changed.
\<close>

section \<open>The verdict on each device\<close>

definition verdict_on :: "timestamp \<Rightarrow> int list \<Rightarrow> int \<times> timestamp option \<Rightarrow> (int \<times> string) \<times> verdict" where
  "verdict_on now maintained row =
     ((fst row, offline_key (fst row)),
      if is_alarm_due now (snd row) \<and> fst row \<notin> set maintained then Raise
      else if is_offline now (snd row) then Keep else Clear)"

definition failure_verdict :: "int \<Rightarrow> (int \<times> string) \<times> verdict" where
  "failure_verdict device_id = ((device_id, failures_key device_id), Raise)"

definition evaluate ::
  "timestamp \<Rightarrow> ((int \<times> string) \<times> verdict) list \<Rightarrow> (seq \<Rightarrow> int) \<times> db \<Rightarrow> (seq \<Rightarrow> int) \<times> db" where
  "evaluate now kvs x = fold (decide (raise_alarm now) (clear_alarm now)) kvs x"

lemma wp_put_insert_alarm:
  assumes ok: "alarms_ok (fst x) (snd x)" and dev: "has_key dev_id (devices (snd x)) i"
    and new: "find_open_alarm i k (snd x) = None"
  shows "wp (sql_insert ''alarms'' AlarmSeq alarms alarms_update insertable_alarm (open_row now i k)) Q E (put s x)
    = Q (fst x AlarmSeq) (put s (raise_alarm now (i, k) x))"
proof -
  have "insertable_alarm (snd x) (open_row now i k (fst x AlarmSeq))"
    using assms
    by (auto simp: insertable_alarm_def open_row_def check_alarm_def alarms_ok_def has_key_def
        find_open_alarm_def find_None_set)
  then show ?thesis
    using new by (simp add: wp_insert put_def raise_alarm_def insert_when_def bump_def)
qed

lemma wp_evaluate_device:
  assumes ok: "alarms_ok (fst x) (snd x)" and dev: "has_key dev_id (devices (snd x)) (fst row)"
  shows "wp (evaluate_device now maintained row (o1, r1)) Q E (put s x) =
    (let kv = verdict_on now maintained row
     in Q (o1 + newly_raised (open_keys (snd x)) [kv], r1 + newly_cleared (open_keys (snd x)) [kv])
          (put s (decide (raise_alarm now) (clear_alarm now) kv x)))"
proof -
  obtain i seen where row: "row = (i, seen)" by (cases row)
  have chk: "check_alarm (resolve_row now a)" for a by (simp add: check_alarm_def resolve_row_def)
  have due: "is_alarm_due now seen \<Longrightarrow> is_offline now seen"
    by (auto simp: is_alarm_due_def is_offline_def silent_for_def minutes_def seconds_def split: option.splits)
  show ?thesis
  proof (cases "find_open_alarm i (offline_key i) (snd x)")
    case None
    then have "(i, offline_key i) \<notin> open_keys (snd x)" by (simp add: find_open_alarm_None)
    then show ?thesis
      using None assms(2) row due wp_put_insert_alarm [OF ok _ None, of now]
      by (simp add: evaluate_device_def verdict_on_def wp_control Let_def clear_alarm_id)
  next
    case (Some a)
    then have mem: "(i, offline_key i) \<in> open_keys (snd x)"
      using find_open_alarm_None [of i "offline_key i" "snd x"] by auto
    then show ?thesis
      using Some row due
      by (auto simp: evaluate_device_def verdict_on_def wp_rules Let_def raise_alarm_id chk clear_alarm_def put_def)
  qed
qed


lemma newly_split:
  "newly_raised K (kv # kvs) = newly_raised K [kv] + newly_raised K kvs"
  "newly_cleared K (kv # kvs) = newly_cleared K [kv] + newly_cleared K kvs"
  by (cases kv; simp)+

lemma decide_frame:
  "devices (snd (decide (raise_alarm now) (clear_alarm now) kv x)) = devices (snd x)"
  "program_executions (snd (decide (raise_alarm now) (clear_alarm now) kv x)) = program_executions (snd x)"
  by (cases kv; cases "snd kv"; simp add: raise_alarm_def clear_alarm_def insert_when_def split: option.splits)+

text \<open>A whole loop of verdicts on distinct devices: the counters and the table.\<close>

lemma wp_evaluate_all:
  assumes "alarms_ok (fst x) (snd x)" "\<And>row. row \<in> set rows \<Longrightarrow> has_key dev_id (devices (snd x)) (fst row)"
    and "distinct (map fst rows)"
  shows "wp (fold_op (evaluate_device now maintained) rows (o1, r1)) Q E (put s x) =
    (let kvs = map (verdict_on now maintained) rows
     in Q (o1 + newly_raised (open_keys (snd x)) kvs, r1 + newly_cleared (open_keys (snd x)) kvs)
          (put s (evaluate now kvs x)))"
  using assms
proof (induction rows arbitrary: o1 r1 x)
  case Nil
  then show ?case by (simp add: wp_rules evaluate_def)
next
  case (Cons row rows)
  let ?kv = "verdict_on now maintained row" and ?kvs = "map (verdict_on now maintained) rows"
  let ?x = "decide (raise_alarm now) (clear_alarm now) ?kv x"
  have ok: "alarms_ok (fst ?x) (snd ?x)" using alarm_table.ok_decide Cons.prems(1) by blast
  have same: "k \<in> open_keys (snd ?x) \<longleftrightarrow> k \<in> open_keys (snd x)" if "(k, v) \<in> set ?kvs" for k v
  proof -
    obtain k' v' where kv: "?kv = (k', v')" by (cases ?kv)
    have "fst k \<in> fst ` set rows" "fst k' = fst row"
      using that kv by (force simp: verdict_on_def)+
    then have "k \<noteq> k'" using Cons.prems(3) by (metis distinct.simps(2) list.set_map list.simps(9))
    then show ?thesis unfolding kv using alarm_table.opens_other [OF Cons.prems(1)] by simp
  qed
  have cong: "newly_raised (open_keys (snd ?x)) ?kvs = newly_raised (open_keys (snd x)) ?kvs"
    "newly_cleared (open_keys (snd ?x)) ?kvs = newly_cleared (open_keys (snd x)) ?kvs"
    by (rule newly_cong, rule same, assumption)+
  have "wp (fold_op (evaluate_device now maintained) rows (o1 + a, r1 + b)) Q E (put s ?x) =
    Q (o1 + a + newly_raised (open_keys (snd x)) ?kvs, r1 + b + newly_cleared (open_keys (snd x)) ?kvs)
      (put s (evaluate now ?kvs ?x))" for a b
    using Cons.IH [OF ok, of "o1 + a" "r1 + b"] Cons.prems cong
    by (simp add: decide_frame Let_def)
  then show ?case
    using wp_evaluate_device [OF Cons.prems(1), of row] Cons.prems(2)
    by (simp add: wp_fold_Cons Let_def evaluate_def newly_split [of _ ?kv ?kvs] add.assoc del: fold_op.simps)
qed


lemma wp_count_failures:
  assumes ok: "alarms_ok (fst x) (snd x)" and dev: "has_key dev_id (devices (snd x)) i"
  shows "wp (count_failures now i o1) Q E (put s x) =
    Q (o1 + newly_raised (open_keys (snd x)) [failure_verdict i])
      (put s (decide (raise_alarm now) (clear_alarm now) (failure_verdict i) x))"
proof (cases "find_open_alarm i (failures_key i) (snd x)")
  case None
  then have "(i, failures_key i) \<notin> open_keys (snd x)" by (simp add: find_open_alarm_None)
  then show ?thesis
    using None wp_put_insert_alarm [OF assms None, of now]
    by (simp add: count_failures_def open_alarm_def failure_verdict_def wp_control)
next
  case (Some a)
  then have "(i, failures_key i) \<in> open_keys (snd x)"
    using find_open_alarm_None [of i "failures_key i" "snd x"] by auto
  then show ?thesis
    using Some by (simp add: count_failures_def open_alarm_def failure_verdict_def wp_control raise_alarm_id)
qed

lemma wp_count_all:
  assumes "alarms_ok (fst x) (snd x)" "\<And>i. i \<in> set ids \<Longrightarrow> has_key dev_id (devices (snd x)) i" "distinct ids"
  shows "wp (fold_op (count_failures now) ids o1) Q E (put s x) =
    (let kvs = map failure_verdict ids
     in Q (o1 + newly_raised (open_keys (snd x)) kvs) (put s (evaluate now kvs x)))"
  using assms
proof (induction ids arbitrary: o1 x)
  case Nil
  then show ?case by (simp add: wp_rules evaluate_def)
next
  case (Cons i ids)
  let ?kv = "failure_verdict i" and ?kvs = "map failure_verdict ids"
  let ?x = "decide (raise_alarm now) (clear_alarm now) ?kv x"
  have ok: "alarms_ok (fst ?x) (snd ?x)" using alarm_table.ok_decide Cons.prems(1) by blast
  have same: "k \<in> open_keys (snd ?x) \<longleftrightarrow> k \<in> open_keys (snd x)" if "(k, v) \<in> set ?kvs" for k v
  proof -
    have "k \<noteq> (i, failures_key i)" using that Cons.prems(3) by (force simp: failure_verdict_def)
    then show ?thesis unfolding failure_verdict_def by (rule alarm_table.opens_other [OF Cons.prems(1)])
  qed
  have cong: "newly_raised (open_keys (snd ?x)) ?kvs = newly_raised (open_keys (snd x)) ?kvs"
    by (rule newly_cong, rule same, assumption)
  have "wp (fold_op (count_failures now) ids (o1 + a)) Q E (put s ?x) =
    Q (o1 + a + newly_raised (open_keys (snd x)) ?kvs) (put s (evaluate now ?kvs ?x))" for a
    using Cons.IH [OF ok, of "o1 + a"] Cons.prems cong
    by (simp add: decide_frame Let_def)
  then show ?case
    using wp_count_failures [OF Cons.prems(1), of i] Cons.prems(2)
    by (simp add: wp_fold_Cons Let_def evaluate_def newly_split [of _ ?kv ?kvs] add.assoc del: fold_op.simps)
qed

section \<open>The whole sweep\<close>

definition maintain :: "timestamp \<Rightarrow> db \<Rightarrow> db" where
  "maintain now d = d\<lparr>maintenance_windows :=
     update_where (ends_now now) (set_mw_status COMPLETED)
       (update_where (starts_now now) (set_mw_status ACTIVE) (maintenance_windows d))\<rparr>"

definition device_verdicts :: "timestamp \<Rightarrow> db \<Rightarrow> ((int \<times> string) \<times> verdict) list" where
  "device_verdicts now d = map (verdict_on now (active_maintenance_ids now d)) (device_rows d)"

definition failure_verdicts :: "timestamp \<Rightarrow> db \<Rightarrow> ((int \<times> string) \<times> verdict) list" where
  "failure_verdicts now d = map failure_verdict (failing_devices now d)"

definition sweep_verdicts :: "timestamp \<Rightarrow> db \<Rightarrow> ((int \<times> string) \<times> verdict) list" where
  "sweep_verdicts now d = device_verdicts now (maintain now d) @ failure_verdicts now d"

definition swept :: "timestamp \<Rightarrow> (seq \<Rightarrow> int) \<times> db \<Rightarrow> (seq \<Rightarrow> int) \<times> db" where
  "swept now x = evaluate now (sweep_verdicts now (snd x)) (fst x, maintain now (snd x))"

definition sweep_report :: "timestamp \<Rightarrow> db \<Rightarrow> sweep_result" where
  "sweep_report now d =
     (let kvs = sweep_verdicts now d
      in \<lparr>alarms_opened = newly_raised (open_keys d) kvs, alarms_resolved = newly_cleared (open_keys d) kvs,
          maintenance_activated = int (length (filter (starts_now now) (maintenance_windows d))),
          maintenance_completed = int (length (filter (ends_now now)
            (update_where (starts_now now) (set_mw_status ACTIVE) (maintenance_windows d)))),
          devices_evaluated = int (length (device_rows d))\<rparr>)"

text \<open>What the sweep needs of the database; the schema's constraints give all of it.\<close>

definition sweepable :: "(seq \<Rightarrow> int) \<Rightarrow> db \<Rightarrow> bool" where
  "sweepable sq d \<longleftrightarrow> alarms_ok sq d \<and> distinct (map dev_id (devices d)) \<and>
     (\<forall>m \<in> set (maintenance_windows d). check_maintenance m) \<and>
     (\<forall>e \<in> set (program_executions d). has_key dev_id (devices d) (exe_device_id e))"

lemma key_texts_differ: "offline_key i \<noteq> failures_key j"
proof
  assume "offline_key i = failures_key j"
  then have "rev (offline_key i) = rev (failures_key j)" by simp
  then show False by (simp add: offline_key_def failures_key_def)
qed

lemma maintain_frame [simp]:
  "alarms (maintain now d) = alarms d" "devices (maintain now d) = devices d"
  "program_executions (maintain now d) = program_executions d"
  "device_current_states (maintain now d) = device_current_states d"
  "open_keys (maintain now d) = open_keys d" "failing_devices now (maintain now d) = failing_devices now d"
  "device_rows (maintain now d) = device_rows d" "alarms_ok sq (maintain now d) = alarms_ok sq d"
  by (simp_all add: maintain_def open_keys_def failing_devices_def device_rows_def last_seen_def [abs_def] alarms_ok_def)

lemma evaluate_frame:
  "devices (snd (evaluate now kvs x)) = devices (snd x)"
  "program_executions (snd (evaluate now kvs x)) = program_executions (snd x)"
  by (induction kvs arbitrary: x) (simp_all add: evaluate_def decide_frame)

lemma device_rows_keys:
  assumes "distinct (map dev_id (devices d))"
  shows "distinct (map fst (device_rows d))" "row \<in> set (device_rows d) \<Longrightarrow> has_key dev_id (devices d) (fst row)"
proof -
  let ?xs = "filter (\<lambda>v. dev_status v = ACTIVE) (devices d)"
  have fst: "map fst (device_rows d) = map dev_id (sort_key dev_id ?xs)"
    by (simp add: device_rows_def)
  have "distinct (map dev_id ?xs)" using assms by (rule distinct_map_filter)
  then have "distinct (map dev_id (sort_key dev_id ?xs))" by (auto simp: distinct_map)
  then show "distinct (map fst (device_rows d))" using fst by metis
  show "row \<in> set (device_rows d) \<Longrightarrow> has_key dev_id (devices d) (fst row)"
    by (auto simp: device_rows_def has_key_def)
qed

lemma failing_devices_keys:
  assumes "\<forall>e \<in> set (program_executions d). has_key dev_id (devices d) (exe_device_id e)"
  shows "distinct (failing_devices now d)" "i \<in> set (failing_devices now d) \<Longrightarrow> has_key dev_id (devices d) i"
  using assms by (auto simp: failing_devices_def Let_def)

lemma wp_maintain:
  assumes "\<forall>m \<in> set (maintenance_windows (working s)). check_maintenance m"
  shows "wp (bind_op (sql_update ''maintenance_windows'' maintenance_windows maintenance_windows_update
      check_maintenance (starts_now now) (set_mw_status ACTIVE)) (\<lambda>activated.
    bind_op (sql_update ''maintenance_windows'' maintenance_windows maintenance_windows_update
      check_maintenance (ends_now now) (set_mw_status COMPLETED)) (m activated))) Q E s =
    wp (m (int (length (filter (starts_now now) (maintenance_windows (working s)))))
      (int (length (filter (ends_now now)
        (update_where (starts_now now) (set_mw_status ACTIVE) (maintenance_windows (working s)))))))
      Q E (put s (seqs s, maintain now (working s)))"
proof -
  have "\<forall>r \<in> set (maintenance_windows (working s)). check_maintenance (set_mw_status ACTIVE r)"
    "\<forall>r \<in> set (update_where (starts_now now) (set_mw_status ACTIVE) (maintenance_windows (working s))).
       check_maintenance (set_mw_status COMPLETED r)"
    using assms by (auto simp: check_maintenance_def set_mw_status_def update_where_def)
  then show ?thesis by (simp add: wp_bind wp_update maintain_def put_def)
qed

lemma wp_sweep:
  assumes "sweepable (seqs s) (working s)"
  shows "wp (sweep_target_runtime now) Q E s =
    (let x = swept now (seqs s, working s)
     in Q (sweep_report now (working s)) (s\<lparr>committed := snd x, working := snd x, seqs := fst x\<rparr>))"
proof -
  let ?d = "working s" and ?m = "maintain now (working s)"
  let ?ds = "device_verdicts now ?m" and ?fs = "failure_verdicts now ?d"
  let ?x1 = "evaluate now ?ds (seqs s, ?m)"
  have ok: "alarms_ok (seqs s) ?m" and ids: "distinct (map dev_id (devices ?m))"
    and exes: "\<forall>e \<in> set (program_executions ?d). has_key dev_id (devices ?d) (exe_device_id e)"
    using assms by (simp_all add: sweepable_def)
  have ok1: "alarms_ok (fst ?x1) (snd ?x1)"
    unfolding evaluate_def using alarm_table.ok_run [of "(seqs s, ?m)"] ok by simp
  have dist: "distinct (map fst ?ds)"
    using device_rows_keys(1) [OF ids] by (auto simp: device_verdicts_def verdict_on_def distinct_map inj_on_def)
  have same: "k \<in> open_keys (snd ?x1) \<longleftrightarrow> k \<in> open_keys ?d" if "(k, v) \<in> set ?fs" for k v
  proof -
    have "(k, w) \<notin> set ?ds" for w
      using that key_texts_differ key_texts_differ [symmetric] by (auto simp: failure_verdicts_def failure_verdict_def device_verdicts_def verdict_on_def)
    then show ?thesis
      unfolding evaluate_def using alarm_table.opens_run [of "(seqs s, ?m)", OF _ dist] ok by simp
  qed
  have nofail: "newly_cleared K (?ds @ ?fs) = newly_cleared K ?ds" for K
    by (simp add: newly_cleared_def failure_verdicts_def failure_verdict_def filter_empty_conv)
  have windows: "\<forall>m \<in> set (maintenance_windows ?d). check_maintenance m"
    using assms by (simp add: sweepable_def)
  have loop: "wp (fold_op (evaluate_device now (active_maintenance_ids now ?m)) (device_rows ?d) (0, 0)) P E
      (put s (seqs s, ?m)) =
    P (newly_raised (open_keys ?d) ?ds, newly_cleared (open_keys ?d) ?ds) (put s ?x1)" for P
    using wp_evaluate_all [of "(seqs s, ?m)" "device_rows ?m"] device_rows_keys [OF ids] ok
    by (simp add: device_verdicts_def Let_def)
  have cong: "newly_raised (open_keys (snd ?x1)) ?fs = newly_raised (open_keys ?d) ?fs"
    by (rule newly_cong, rule same, assumption)
  have count: "wp (fold_op (count_failures now) (failing_devices now ?d) o1) P E (put s ?x1) =
      P (o1 + newly_raised (open_keys ?d) ?fs) (put s (evaluate now ?fs ?x1))" for P o1
    using wp_count_all [OF ok1, of "failing_devices now ?d"] failing_devices_keys [OF exes] cong
    by (simp add: failure_verdicts_def evaluate_frame Let_def)
  have final: "evaluate now ?fs ?x1 = swept now (seqs s, ?d)"
    by (simp add: swept_def sweep_verdicts_def evaluate_def)
  have failing: "failing_devices now (snd ?x1) = failing_devices now ?d"
    by (simp add: failing_devices_def evaluate_frame)
  show ?thesis
    unfolding sweep_target_runtime_def wp_maintain [OF windows]
    by (simp add: loop count failing final wp_control Let_def sweep_report_def sweep_verdicts_def nofail)
      (simp add: put_def)
qed

end
