(* ===== verification/Worker_Properties.thy ===== *)
theory Worker_Properties
  imports Sweep_Facts Fixture
begin

text \<open>
  What one sweep of the worker does to the alarms and the maintenance windows, and that
  a second sweep at the same time finds nothing left to do.
\<close>

section \<open>Open alarms after a sweep\<close>

lemma sweep_keys_distinct:
  assumes "distinct (map dev_id (devices d))"
    and "\<forall>e \<in> set (program_executions d). has_key dev_id (devices d) (exe_device_id e)"
  shows "distinct (map fst (sweep_verdicts now d))"
proof -
  have "distinct (map fst (device_rows d))" using device_rows_keys(1) [OF assms(1)] .
  then have "distinct (map fst (device_verdicts now (maintain now d)))"
    by (auto simp: device_verdicts_def verdict_on_def distinct_map inj_on_def)
  moreover have "distinct (map fst (failure_verdicts now d))"
    using failing_devices_keys(1) [OF assms(2)]
    by (auto simp: failure_verdicts_def failure_verdict_def distinct_map inj_on_def)
  ultimately show ?thesis
    using key_texts_differ key_texts_differ [symmetric]
    by (auto simp: sweep_verdicts_def failure_verdicts_def failure_verdict_def device_verdicts_def verdict_on_def)
qed

lemma open_after_sweep:
  assumes "sweepable sq d"
  shows "open_keys (snd (swept now (sq, d))) =
    (open_keys d - {k. (k, Clear) \<in> set (sweep_verdicts now d)}) \<union>
    {k. (k, Raise) \<in> set (sweep_verdicts now d)}"
proof -
  have "distinct (map fst (sweep_verdicts now d))"
    using assms by (intro sweep_keys_distinct) (simp_all add: sweepable_def)
  then show ?thesis
    using assms alarm_table.opens_run [of "(sq, maintain now d)" "sweep_verdicts now d" now]
    by (simp add: swept_def evaluate_def sweepable_def)
qed

definition due_unmaintained :: "timestamp \<Rightarrow> db \<Rightarrow> int \<Rightarrow> bool" where
  "due_unmaintained now d i \<longleftrightarrow>
     is_alarm_due now (last_seen d i) \<and> i \<notin> set (active_maintenance_ids now (maintain now d))"

lemma device_verdict_iff:
  assumes "v \<in> set (devices d)" "dev_status v = ACTIVE"
  shows "((dev_id v, offline_key (dev_id v)), Raise) \<in> set (sweep_verdicts now d) \<longleftrightarrow>
      due_unmaintained now d (dev_id v)"
    and "((dev_id v, offline_key (dev_id v)), Clear) \<in> set (sweep_verdicts now d) \<longleftrightarrow>
      \<not> is_offline now (last_seen d (dev_id v))"
proof -
  have due: "is_alarm_due now seen \<Longrightarrow> is_offline now seen" for seen
    by (auto simp: is_alarm_due_def is_offline_def silent_for_def minutes_def seconds_def split: option.splits)
  let ?i = "dev_id v" and ?M = "active_maintenance_ids now (maintain now d)"
  have rows: "(?i, seen) \<in> set (device_rows d) \<longleftrightarrow> seen = last_seen d ?i" for seen
    using assms by (auto simp: device_rows_def image_iff)
  have "((?i, offline_key ?i), w) \<in> set (sweep_verdicts now d) \<longleftrightarrow>
      w = snd (verdict_on now ?M (?i, last_seen d ?i))" for w
  proof -
    have "((?i, offline_key ?i), w) \<in> set (sweep_verdicts now d) \<longleftrightarrow>
        (\<exists>seen. (?i, seen) \<in> set (device_rows d) \<and> w = snd (verdict_on now ?M (?i, seen)))"
      using key_texts_differ
      by (simp add: sweep_verdicts_def device_verdicts_def failure_verdicts_def failure_verdict_def image_iff)
        (force simp: verdict_on_def)
    then show ?thesis unfolding rows by blast
  qed
  then show
    "((?i, offline_key ?i), Raise) \<in> set (sweep_verdicts now d) \<longleftrightarrow> due_unmaintained now d ?i"
    "((?i, offline_key ?i), Clear) \<in> set (sweep_verdicts now d) \<longleftrightarrow> \<not> is_offline now (last_seen d ?i)"
    using due by (auto simp: verdict_on_def due_unmaintained_def)
qed

lemma failure_verdict_iff:
  "((i, failures_key i), Raise) \<in> set (sweep_verdicts now d) \<longleftrightarrow> i \<in> set (failing_devices now d)"
  "((i, failures_key i), Clear) \<notin> set (sweep_verdicts now d)"
  using key_texts_differ key_texts_differ [symmetric]
  by (auto simp: sweep_verdicts_def device_verdicts_def verdict_on_def failure_verdicts_def failure_verdict_def)

section \<open>Running it twice\<close>

lemma windows_settled:
  "filter (starts_now now) (maintenance_windows (maintain now d)) = []"
  "filter (ends_now now) (maintenance_windows (maintain now d)) = []"
  by (auto simp: maintain_def filter_empty_conv update_where_def ends_now_def starts_now_def set_mw_status_def)

lemma update_where_none: "filter P rows = [] \<Longrightarrow> update_where P f rows = rows"
  by (rule update_where_id) (auto simp: filter_empty_conv)

lemma maintain_twice: "maintain now (maintain now d) = maintain now d"
  using update_where_none [OF windows_settled(1) [of now d], of "set_mw_status ACTIVE"]
    update_where_none [OF windows_settled(2) [of now d], of "set_mw_status COMPLETED"]
  by (simp add: maintain_def [of now "maintain now d"])

lemma alarms_self: "\<exists>as. d = d\<lparr>alarms := as\<rparr>"
  by (rule exI [of _ "alarms d"]) simp

lemma evaluate_rest: "\<exists>as. snd (evaluate now kvs x) = (snd x)\<lparr>alarms := as\<rparr>"
proof (induction kvs arbitrary: x)
  case Nil
  show ?case by (simp add: evaluate_def alarms_self)
next
  case (Cons kv kvs)
  let ?x = "decide (raise_alarm now) (clear_alarm now) kv x"
  obtain k v where kv: "kv = (k, v)" by (cases kv)
  have "\<exists>as. snd ?x = (snd x)\<lparr>alarms := as\<rparr>"
    unfolding kv
    by (cases v; cases "find_open_alarm (fst k) (snd k) (snd x)";
        simp add: raise_alarm_def clear_alarm_def insert_when_def alarms_self; blast)
  then obtain as where "snd ?x = (snd x)\<lparr>alarms := as\<rparr>" ..
  moreover obtain bs where "snd (evaluate now kvs ?x) = (snd ?x)\<lparr>alarms := bs\<rparr>" using Cons by blast
  ultimately have "snd (evaluate now (kv # kvs) x) = (snd x)\<lparr>alarms := bs\<rparr>" by (simp add: evaluate_def)
  then show ?case by blast
qed

lemma swept_rest: "\<exists>as. snd (swept now x) = (maintain now (snd x))\<lparr>alarms := as\<rparr>"
  unfolding swept_def using evaluate_rest [of now _ "(fst x, maintain now (snd x))"] by simp

lemma verdicts_frame:
  "sweep_verdicts now (d\<lparr>alarms := as\<rparr>) = sweep_verdicts now d"
  by (simp add: sweep_verdicts_def device_verdicts_def failure_verdicts_def device_rows_def last_seen_def [abs_def]
      failing_devices_def active_maintenance_ids_def maintain_def)

lemma verdicts_maintain: "sweep_verdicts now (maintain now d) = sweep_verdicts now d"
  by (simp add: sweep_verdicts_def failure_verdicts_def maintain_twice)

lemma swept_frame:
  "sweep_verdicts now (snd (swept now x)) = sweep_verdicts now (snd x)"
  "maintain now (snd (swept now x)) = snd (swept now x)"
  "maintenance_windows (snd (swept now x)) = maintenance_windows (maintain now (snd x))"
  "device_rows (snd (swept now x)) = device_rows (snd x)"
proof -
  obtain as where as: "snd (swept now x) = (maintain now (snd x))\<lparr>alarms := as\<rparr>" using swept_rest by blast
  have "maintain now (d\<lparr>alarms := as\<rparr>) = (maintain now d)\<lparr>alarms := as\<rparr>" for d as
    by (simp add: maintain_def)
  with as show "maintain now (snd (swept now x)) = snd (swept now x)" by (simp add: maintain_twice)
  show "sweep_verdicts now (snd (swept now x)) = sweep_verdicts now (snd x)"
    by (simp add: as verdicts_frame verdicts_maintain)
  show "maintenance_windows (snd (swept now x)) = maintenance_windows (maintain now (snd x))" by (simp add: as)
  have "device_rows (d\<lparr>alarms := as\<rparr>) = device_rows d" for d as
    by (simp add: device_rows_def last_seen_def [abs_def])
  then show "device_rows (snd (swept now x)) = device_rows (snd x)" by (simp add: as)
qed

lemma swept_twice:
  assumes "sweepable (fst x) (snd x)"
  shows "swept now (swept now x) = swept now x"
proof -
  have keys: "distinct (map fst (sweep_verdicts now (snd x)))"
    using assms by (intro sweep_keys_distinct) (simp_all add: sweepable_def)
  have "swept now (swept now x) = evaluate now (sweep_verdicts now (snd x)) (swept now x)"
    by (simp add: swept_def [of now "swept now x"] swept_frame)
  also have "\<dots> = swept now x"
    using alarm_table.run_twice [of "(fst x, maintain now (snd x))" "sweep_verdicts now (snd x)" now] keys assms
    by (simp add: swept_def [of now x] evaluate_def sweepable_def)
  finally show ?thesis .
qed

lemma sweepable_swept:
  assumes "sweepable (fst x) (snd x)"
  shows "sweepable (fst (swept now x)) (snd (swept now x))"
proof -
  have "alarms_ok (fst (swept now x)) (snd (swept now x))"
    unfolding swept_def evaluate_def using alarm_table.ok_run [of "(fst x, maintain now (snd x))"] assms
    by (simp add: sweepable_def)
  moreover have "\<forall>m \<in> set (maintenance_windows (maintain now (snd x))). check_maintenance m"
    using assms by (auto simp: sweepable_def maintain_def update_where_def check_maintenance_def set_mw_status_def)
  moreover have "devices (snd (swept now x)) = devices (snd x)"
    "program_executions (snd (swept now x)) = program_executions (snd x)"
    by (simp_all add: swept_def evaluate_frame)
  ultimately show ?thesis
    using assms by (simp add: sweepable_def swept_frame)
qed

lemma report_swept:
  assumes "sweepable (fst x) (snd x)"
  shows "sweep_report now (snd (swept now x)) =
    \<lparr>alarms_opened = 0, alarms_resolved = 0, maintenance_activated = 0, maintenance_completed = 0,
     devices_evaluated = int (length (device_rows (snd x)))\<rparr>"
proof -
  let ?kvs = "sweep_verdicts now (snd x)" and ?K = "open_keys (snd (swept now x))"
  have keys: "distinct (map fst ?kvs)"
    using assms by (intro sweep_keys_distinct) (simp_all add: sweepable_def)
  have once: "(k, v) \<in> set ?kvs \<Longrightarrow> (k, w) \<in> set ?kvs \<Longrightarrow> v = w" for k v w
    using keys by (meson eq_key_imp_eq_value)
  have K: "?K = (open_keys (snd x) - {k. (k, Clear) \<in> set ?kvs}) \<union> {k. (k, Raise) \<in> set ?kvs}"
    using open_after_sweep [of "fst x" "snd x" now] assms by simp
  have "newly_raised ?K ?kvs = 0" "newly_cleared ?K ?kvs = 0"
    using once unfolding K newly_raised_def newly_cleared_def by (auto simp: filter_empty_conv dest: once)
  then show ?thesis
    by (simp add: sweep_report_def Let_def swept_frame update_where_none windows_settled)
qed

section \<open>Properties\<close>

text \<open>The worker's transaction, in its own session.\<close>

definition worker_run :: "timestamp \<Rightarrow> sweep_result op" where
  "worker_run now = with_session (sweep_target_runtime now)"

lemma worker_run_eq:
  assumes "sweepable (seqs s) (committed s)"
  shows "worker_run now s =
    (let x = swept now (seqs s, committed s)
     in (Inr (sweep_report now (committed s)), s\<lparr>committed := snd x, working := snd x, seqs := fst x\<rparr>))"
proof -
  let ?s = "s\<lparr>working := committed s\<rparr>"
  have "wp (sweep_target_runtime now) (\<lambda>r t. r = sweep_report now (committed s) \<and>
      t = (let x = swept now (seqs s, committed s) in s\<lparr>committed := snd x, working := snd x, seqs := fst x\<rparr>))
      (\<lambda>_ _. False) ?s"
    using assms by (subst wp_sweep) (simp_all add: Let_def)
  then show ?thesis
    by (auto simp: worker_run_def with_session_def wp_def Let_def split: prod.splits sum.splits)
qed

lemma demo_sweepable: "sweepable (seqs demo) (committed demo)"
  by code_simp

text \<open>
  C21. After a sweep, the offline alarm of an active device is open exactly when the device has
  been silent for five minutes and is not in an active maintenance window, or the alarm was
  open before and the device has still been silent for 120 seconds.  The sweep never fails.
\<close>

theorem sweep_offline_alarm:
  assumes "sweepable (seqs s) (committed s)" and "v \<in> set (devices (committed s))" "dev_status v = ACTIVE"
  shows "\<exists>r t. worker_run now s = (Inr r, t) \<and>
    ((dev_id v, offline_key (dev_id v)) \<in> open_keys (committed t) \<longleftrightarrow>
       due_unmaintained now (committed s) (dev_id v) \<or>
       (dev_id v, offline_key (dev_id v)) \<in> open_keys (committed s) \<and>
       is_offline now (last_seen (committed s) (dev_id v)))"
  using device_verdict_iff [OF assms(2,3), of now]
  by (auto simp: worker_run_eq [OF assms(1)] Let_def open_after_sweep [OF assms(1)])

lemma sweep_offline_alarm_witness:
  "\<exists>r t. worker_run (minutes 6) demo = (Inr r, t) \<and> (1, offline_key 1) \<in> open_keys (committed t)"
proof -
  have dev: "demo_device \<in> set (devices (committed demo))" "dev_status demo_device = ACTIVE" "dev_id demo_device = 1"
    by (simp_all add: demo_def demo_db_def demo_device_def)
  have "due_unmaintained (minutes 6) (committed demo) 1" by code_simp
  with sweep_offline_alarm [OF demo_sweepable dev(1,2), of "minutes 6"] dev(3) show ?thesis by auto
qed

text \<open>
  C22. A sweep opens the failure alarm of every device with at least three failed or timed-out
  executions in the last ten minutes, and never closes a failure alarm.
\<close>

theorem sweep_failure_alarm:
  assumes "sweepable (seqs s) (committed s)"
  shows "\<exists>r t. worker_run now s = (Inr r, t) \<and>
    ((i, failures_key i) \<in> open_keys (committed t) \<longleftrightarrow>
       (i, failures_key i) \<in> open_keys (committed s) \<or>
       3 \<le> length (filter (\<lambda>e. exe_device_id e = i \<and> recent_failure now e) (program_executions (committed s))))"
proof -
  have "count_list (map exe_device_id (filter P es)) i = length (filter (\<lambda>e. exe_device_id e = i \<and> P e) es)" for P and es :: "program_execution list"
    by (induction es) auto
  moreover have "i \<in> set (filter (\<lambda>j. 3 \<le> count_list xs j) (remdups xs)) \<longleftrightarrow> 3 \<le> count_list xs i" for xs
    by (cases "i \<in> set xs") simp_all
  ultimately have "i \<in> set (failing_devices now d) \<longleftrightarrow>
      3 \<le> length (filter (\<lambda>e. exe_device_id e = i \<and> recent_failure now e) (program_executions d))" for d
    by (simp only: failing_devices_def Let_def)
  then show ?thesis
    using failure_verdict_iff [of i now "committed s"]
    by (simp add: worker_run_eq [OF assms] Let_def open_after_sweep [OF assms])
qed

lemma sweep_failure_alarm_witness:
  "\<exists>r t. worker_run 0 demo = (Inr r, t) \<and> (1, failures_key 1) \<notin> open_keys (committed t)"
proof -
  have "(1, failures_key 1) \<notin> open_keys (committed demo)"
    "length (filter (\<lambda>e. exe_device_id e = 1 \<and> recent_failure 0 e) (program_executions (committed demo))) = 0"
    by (simp_all add: open_keys_def demo_def demo_db_def recent_failure_def demo_execution_def)
  then show ?thesis using sweep_failure_alarm [OF demo_sweepable, of 0 1] by auto
qed

text \<open>
  C23. A second sweep at the same time changes nothing: the database stays as it is and the
  report counts no alarm and no maintenance window.
\<close>

theorem sweep_idempotent:
  assumes "sweepable (seqs s) (committed s)" and "worker_run now s = (r, t)"
  shows "worker_run now t =
    (Inr \<lparr>alarms_opened = 0, alarms_resolved = 0, maintenance_activated = 0, maintenance_completed = 0,
          devices_evaluated = int (length (device_rows (committed s)))\<rparr>, t)"
proof -
  let ?x = "(seqs s, committed s)"
  have t: "t = s\<lparr>committed := snd (swept now ?x), working := snd (swept now ?x), seqs := fst (swept now ?x)\<rparr>"
    using assms by (auto simp: worker_run_eq Let_def)
  have "sweepable (seqs t) (committed t)"
    using sweepable_swept [of ?x now] assms(1) by (simp add: t)
  then have "worker_run now t =
      (let x = swept now (seqs t, committed t)
       in (Inr (sweep_report now (committed t)), t\<lparr>committed := snd x, working := snd x, seqs := fst x\<rparr>))"
    by (rule worker_run_eq)
  moreover have "swept now (seqs t, committed t) = (seqs t, committed t)"
    using swept_twice [of ?x now] assms(1) by (simp add: t)
  ultimately show ?thesis
    using report_swept [of ?x now] assms(1) by (simp add: Let_def t)
qed

lemma sweep_idempotent_witness:
  "fst (worker_run (minutes 6) (snd (worker_run (minutes 6) demo))) =
     Inr \<lparr>alarms_opened = 0, alarms_resolved = 0, maintenance_activated = 0, maintenance_completed = 0,
          devices_evaluated = 1\<rparr>"
proof -
  have "int (length (device_rows (committed demo))) = 1" by code_simp
  then show ?thesis
    using sweep_idempotent [OF demo_sweepable, of "minutes 6"] by (cases "worker_run (minutes 6) demo") simp
qed

end
