(* ===== verification/Service.thy ===== *)
theory Service
  imports Api Worker_Properties
begin

text \<open>
  The running system: requests of anybody and sweeps of the worker, in any order and at any
  clock readings.  An invariant of the database and the sequences is proved once per
  operation that writes; the locale \<open>service_invariant\<close> carries it from there to handlers,
  answers and every reachable state.
\<close>

section \<open>Operations that keep an invariant\<close>

text \<open>
  \<open>keeps I m\<close>: from a published state that satisfies \<open>I\<close>, with nothing written yet, \<open>m\<close>
  leaves a published state that satisfies \<open>I\<close>, with an exception as well as without one.
\<close>

definition keeps :: "(db \<Rightarrow> (seq \<Rightarrow> int) \<Rightarrow> bool) \<Rightarrow> 'a op \<Rightarrow> bool" where
  "keeps I m \<longleftrightarrow>
     (\<forall>s. working s = committed s \<longrightarrow> I (committed s) (seqs s) \<longrightarrow>
        wp m (\<lambda>_ t. I (committed t) (seqs t)) (\<lambda>_ t. I (committed t) (seqs t)) s)"

lemma keepsI:
  "(\<And>s. working s = committed s \<Longrightarrow> I (committed s) (seqs s) \<Longrightarrow>
      wp m (\<lambda>_ t. I (committed t) (seqs t)) (\<lambda>_ t. I (committed t) (seqs t)) s) \<Longrightarrow> keeps I m"
  by (simp add: keeps_def)

lemma keepsD:
  "keeps I m \<Longrightarrow> working s = committed s \<Longrightarrow> I (committed s) (seqs s) \<Longrightarrow>
   wp m (\<lambda>_ t. I (committed t) (seqs t)) (\<lambda>_ t. I (committed t) (seqs t)) s"
  by (simp add: keeps_def)

lemma keeps_then_pure:
  assumes "keeps I m" "\<And>v s. snd (k v s) = s"
  shows "keeps I (bind_op m k)"
proof (rule keepsI)
  fix s :: session
  assume "working s = committed s" "I (committed s) (seqs s)"
  from keepsD [OF assms(1) this]
  show "wp (bind_op m k) (\<lambda>_ t. I (committed t) (seqs t)) (\<lambda>_ t. I (committed t) (seqs t)) s"
    unfolding wp_bind
  proof (rule wp_mono)
    fix a and t :: session
    assume "I (committed t) (seqs t)"
    then show "wp (k a) (\<lambda>_ t. I (committed t) (seqs t)) (\<lambda>_ t. I (committed t) (seqs t)) t"
      using assms(2) [of a t] by (auto simp: wp_def split: prod.splits sum.splits)
  qed
qed

lemma keeps_with_device: "(\<And>v. keeps I (k v)) \<Longrightarrow> keeps I (with_device dg h k)"
  by (auto simp: keeps_def with_device_def wp_rules)

lemma pure_simps [simp]: "snd (ret a s) = s" "snd (raise e s) = s"
  by (simp_all add: ret_def raise_def)

text \<open>The operations that only read keep everything.\<close>

lemma keeps_get_configuration: "keeps I (get_configuration i v)"
  by (auto simp: keeps_def wp_get_configuration split: list.splits)

lemma keeps_overview: "keeps I (overview now now' i p)"
  by (auto simp: keeps_def wp_overview split: sum.splits option.splits prod.splits)

lemma keeps_dashboard: "keeps I (dashboard_overview dg now now' h p)"
  by (auto simp: keeps_def dashboard_overview_def authenticate_panel_def Let_def wp_rules
      split: option.splits sum.splits prod.splits)

section \<open>Steps\<close>

text \<open>A step is a request of anybody, with any clock readings, or a sweep of the worker.\<close>

inductive system_step :: "digests \<Rightarrow> session \<Rightarrow> session \<Rightarrow> bool" for dg where
  served: "serve dg uuid now now' answered h req s = (r, t) \<Longrightarrow> system_step dg s t"
| swept: "worker_run now s = (r, t) \<Longrightarrow> system_step dg s t"

inductive_cases system_stepE: "system_step dg s t"

abbreviation reaches :: "digests \<Rightarrow> session \<Rightarrow> session \<Rightarrow> bool" where
  "reaches dg \<equiv> (system_step dg)\<^sup>*\<^sup>*"

lemma reaches_serve: "reaches dg s (snd (serve dg uuid now now' answered h req s))"
  by (rule r_into_rtranclp, rule served, rule prod.collapse [symmetric])

lemma reaches_sweep: "reaches dg s (snd (worker_run now s))"
  by (rule r_into_rtranclp, rule swept, rule prod.collapse [symmetric])

section \<open>From operations to reachable states\<close>

locale service_invariant =
  fixes I :: "db \<Rightarrow> (seq \<Rightarrow> int) \<Rightarrow> bool"
  assumes keeps_create_payment: "keeps I (create_payment dg now device body key)"
    and keeps_pending_commands: "keeps I (pending_commands now device_id limit)"
    and keeps_acknowledge_command: "keeps I (acknowledge_command now device_id command_id)"
    and keeps_command_result:
      "keeps I (apply_command_result dg now device_id command_id result code message key)"
    and keeps_record_heartbeat: "keeps I (record_heartbeat now device_id sequence app_version state)"
    and keeps_sweep: "keeps I (sweep_target_runtime now)"
begin

lemma keeps_handle: "keeps I (handle dg now now' h req)"
proof (cases req)
  case (Heartbeat body)
  then show ?thesis
    by (auto simp: heartbeat_def then_op_def intro!: keeps_with_device keeps_then_pure keeps_record_heartbeat)
next
  case (GetConfiguration v)
  then show ?thesis
    by (auto simp: configuration_def intro!: keeps_with_device keeps_then_pure keeps_get_configuration)
next
  case (Payment body key)
  then show ?thesis
    by (auto simp: payment_def intro!: keeps_with_device keeps_then_pure keeps_create_payment)
next
  case (CommandsPending limit)
  then show ?thesis
    by (auto simp: commands_pending_def intro!: keeps_with_device keeps_then_pure keeps_pending_commands)
next
  case (CommandAcknowledge i)
  then show ?thesis
    by (auto simp: command_acknowledge_def intro!: keeps_with_device keeps_then_pure keeps_acknowledge_command)
next
  case (CommandResult i body key)
  then show ?thesis
    by (auto simp: command_result_handler_def intro!: keeps_with_device keeps_then_pure keeps_command_result)
next
  case (DashboardOverview p)
  then show ?thesis by (simp add: keeps_dashboard)
qed

end

lemma keeps_invariant_op: "(\<And>i. keeps I (run i)) \<Longrightarrow> invariant_op run I"
  by (rule invariant_wpI) (simp add: keepsD)

sublocale service_invariant \<subseteq> requests: invariant_op "\<lambda>(dg, now, now', h, req). handle dg now now' h req" I
  by (rule keeps_invariant_op) (simp add: keeps_handle split: prod.splits)

sublocale service_invariant \<subseteq> sweeps: invariant_op sweep_target_runtime I
  by (rule keeps_invariant_op) (rule keeps_sweep)

context service_invariant
begin

lemma serve_invariant:
  assumes "I (committed s) (seqs s)" "serve dg uuid now now' answered h req s = (r, t)"
  shows "I (committed t) (seqs t)"
proof (cases "valid_request req")
  case True
  obtain r' where "with_session (handle dg now now' h req) s = (r', t)"
    using assms(2) True by (auto simp: serve_def split: prod.splits sum.splits)
  then show ?thesis
    using requests.request_invariant [OF assms(1), of "(dg, now, now', h, req)"] by simp
next
  case False
  with assms show ?thesis by (simp add: serve_def)
qed

lemma step_invariant:
  assumes "system_step dg s t" "I (committed s) (seqs s)"
  shows "I (committed t) (seqs t)"
  using assms(1)
proof (rule system_stepE)
  fix uuid now now' answered h req r
  assume "serve dg uuid now now' answered h req s = (r, t)"
  then show ?thesis using serve_invariant [OF assms(2)] by blast
next
  fix now r
  assume "worker_run now s = (r, t)"
  then show ?thesis
    using sweeps.request_invariant [OF assms(2), of now r t] by (simp add: worker_run_def)
qed

lemma reaches_invariant:
  assumes "reaches dg s t" "I (committed s) (seqs s)"
  shows "I (committed t) (seqs t)"
  using assms by (induction rule: rtranclp_induct) (auto intro: step_invariant)

end

end
