(* ===== verification/Payment_Facts.thy ===== *)
theory Payment_Facts
  imports Payments
begin

text \<open>
  What \<open>create_payment\<close> does, as a specification: \<open>guards_pass\<close> and \<open>program_resolved\<close> say
  when the request is admissible, \<open>settles\<close> how the payment method decides and touches the
  QR code or the wallet, \<open>posted\<close> which rows are written.  The refinement theorem
  \<open>create_payment_refines\<close> shows that the handler implements it: a replay that changes
  nothing, an error that publishes nothing, or exactly one new payment.
\<close>

section \<open>Guards\<close>

definition guards_pass :: "timestamp \<Rightarrow> device \<Rightarrow> payment_request \<Rightarrow> db \<Rightarrow> int \<Rightarrow> int \<Rightarrow> bool" where
  "guards_pass now device body d company_id wash_bay_id \<longleftrightarrow>
     dev_status device = ACTIVE \<and>
     (\<exists>t. List.find (\<lambda>t. st_id t = dev_station_id device) (stations d) = Some t \<and>
        st_company_id t = company_id) \<and>
     (\<exists>c. List.find (\<lambda>c. cs_device_id c = dev_id device) (device_current_states d) = Some c \<and>
        device_online now c \<and>
        configuration_acknowledged
          (List.find (\<lambda>c. cfg_device_id c = dev_id device \<and> cfg_status c = PUBLISHED)
             (device_configurations d)) c (configuration_version body)) \<and>
     (\<exists>w. List.find (\<lambda>w. bay_device_id w = Some (dev_id device)) (wash_bays d) = Some w \<and>
        bay_id w = wash_bay_id) \<and>
     List.find (in_maintenance now (dev_id device)) (maintenance_windows d) = None \<and>
     List.find (occupies_bay wash_bay_id) (program_executions d) = None"

lemma operational_guards_wpI:
  assumes "\<And>c b. guards_pass now device body (working s) c b \<Longrightarrow> Q (c, b) s"
    and "\<And>code. E (guard_error code) s"
  shows "wp (operational_guards now device body) Q E s"
  using assms(2)
  by (auto simp: operational_guards_def guards_pass_def Let_def wp_rules
      split: option.splits intro!: assms(1))

section \<open>Program\<close>

definition program_resolved ::
  "digests \<Rightarrow> device \<Rightarrow> int \<Rightarrow> payment_request \<Rightarrow> db \<Rightarrow> int \<Rightarrow> int \<Rightarrow> bool" where
  "program_resolved dg device company_id body d program_id price \<longleftrightarrow>
     (if payment_method body = ''QR''
      then \<exists>q. find_qr (qr_hash dg body) d = Some q \<and> qr_company_id q = company_id \<and>
             qr_station_id q = dev_station_id device \<and> qr_program_id q = program_id
      else station_program_id body = Some program_id) \<and>
     (\<exists>p. List.find (\<lambda>p. prog_id p = program_id \<and> prog_company_id p = company_id \<and> prog_active p)
        (programs d) = Some p \<and> prog_price_minor p = price) \<and>
     List.find (\<lambda>e. ent_device_id e = dev_id device \<and> ent_program_id e = program_id \<and> ent_enabled e)
       (entitlements d) \<noteq> None \<and>
     List.find (\<lambda>m. ppm_program_id m = program_id \<and> ppm_payment_method m = payment_method body \<and>
       ppm_enabled m) (program_payment_methods d) \<noteq> None \<and>
     (payment_method body \<in> {''CARD'', ''RF_CARD''} \<longrightarrow>
        or_zero (displayed_price_minor body) = price)"

lemma resolve_program_wpI:
  assumes "\<And>p pr. program_resolved dg device company_id body (working s) p pr \<Longrightarrow> Q (p, pr) s"
    and "\<And>e. E e s"
  shows "wp (resolve_program dg device company_id body) Q E s"
  using assms(2)
  by (auto simp: resolve_program_def requested_program_def program_resolved_def wp_rules
      split: option.splits intro!: assms(1))

section \<open>Settlement\<close>

inductive settles ::
  "digests \<Rightarrow> timestamp \<Rightarrow> device \<Rightarrow> int \<Rightarrow> int \<Rightarrow> payment_request \<Rightarrow> int \<Rightarrow> db \<Rightarrow>
   settlement \<Rightarrow> db \<Rightarrow> bool"
  for dg now device company_id program_id body price d where
  by_card:
    "payment_method body = ''CARD'' \<Longrightarrow>
     (or_empty (test_scenario body), st, code) \<in> set card_scenarios \<Longrightarrow>
     settles dg now device company_id program_id body price d
       ((settled price)\<lparr>stl_status := st, stl_error_code := code, stl_error_message := code\<rparr>) d"
| qr_rejected:
    "payment_method body = ''QR'' \<Longrightarrow>
     (\<And>q. find_qr (qr_hash dg body) d = Some q \<Longrightarrow> \<not> redeemable now device company_id program_id q) \<Longrightarrow>
     settles dg now device company_id program_id body price d (failed_with ''QR_INVALID'' price) d"
| by_qr:
    "payment_method body = ''QR'' \<Longrightarrow>
     find_qr (qr_hash dg body) d = Some q \<Longrightarrow>
     redeemable now device company_id program_id q \<Longrightarrow>
     settles dg now device company_id program_id body price d
       ((settled price)\<lparr>stl_amount_minor := qr_amount_minor q, stl_qr_code_id := Some (qr_id q)\<rparr>)
       (d\<lparr>qr_codes := update_where (\<lambda>r. qr_id r = qr_id q) (redeem q) (qr_codes d)\<rparr>)"
| rf_invalid:
    "payment_method body = ''RF_CARD'' \<Longrightarrow>
     normalize_uid (or_empty (rf_uid body)) = Inr uid \<Longrightarrow>
     (\<And>c. List.find (\<lambda>c. card_uid_hash c = secret_hash dg uid QR_PEPPER) (rf_cards d) = Some c \<Longrightarrow>
        \<not> card_usable now company_id c) \<Longrightarrow>
     settles dg now device company_id program_id body price d (failed_with ''RF_CARD_INVALID'' price) d"
| rf_insufficient:
    "payment_method body = ''RF_CARD'' \<Longrightarrow>
     normalize_uid (or_empty (rf_uid body)) = Inr uid \<Longrightarrow>
     List.find (\<lambda>c. card_uid_hash c = secret_hash dg uid QR_PEPPER) (rf_cards d) = Some c \<Longrightarrow>
     card_usable now company_id c \<Longrightarrow>
     (\<And>w. List.find (\<lambda>w. wal_rf_card_id w = card_id c) (rf_wallets d) = Some w \<Longrightarrow> wal_balance_minor w < price) \<Longrightarrow>
     settles dg now device company_id program_id body price d (failed_with ''RF_INSUFFICIENT_BALANCE'' price) d"
| by_rf:
    "payment_method body = ''RF_CARD'' \<Longrightarrow>
     normalize_uid (or_empty (rf_uid body)) = Inr uid \<Longrightarrow>
     List.find (\<lambda>c. card_uid_hash c = secret_hash dg uid QR_PEPPER) (rf_cards d) = Some c \<Longrightarrow>
     card_usable now company_id c \<Longrightarrow>
     List.find (\<lambda>w. wal_rf_card_id w = card_id c) (rf_wallets d) = Some w \<Longrightarrow>
     price \<le> wal_balance_minor w \<Longrightarrow>
     settles dg now device company_id program_id body price d
       ((settled price)\<lparr>stl_rf_wallet_id := Some (wal_id w)\<rparr>)
       (d\<lparr>rf_wallets := update_where (\<lambda>r. wal_id r = wal_id w) (debit_wallet now price) (rf_wallets d)\<rparr>)"

lemma settle_method:
  "payment_method body = ''CARD'' \<Longrightarrow>
     settle dg now device company_id program_id body price = settle_card body price"
  "payment_method body = ''QR'' \<Longrightarrow>
     settle dg now device company_id program_id body price = settle_qr dg now device company_id program_id body price"
  "payment_method body = ''RF_CARD'' \<Longrightarrow>
     settle dg now device company_id program_id body price = settle_rf dg now company_id body price"
  "payment_method body \<notin> {''CARD'', ''QR'', ''RF_CARD''} \<Longrightarrow>
     settle dg now device company_id program_id body price = raise (AppError 422 ''UNSUPPORTED_PAYMENT_METHOD'' [])"
  by (simp_all add: settle_def)

lemma card_scenario_unique:
  "map_of card_scenarios s = Some (st, code) \<longleftrightarrow> (s, st, code) \<in> set card_scenarios"
proof -
  have "distinct (map fst card_scenarios)" by code_simp
  then show ?thesis by (simp add: map_of_eq_Some_iff)
qed

text \<open>Whatever the tables hold: the code settles as specified or raises an error.\<close>

lemma settle_wpI:
  assumes "\<And>stl d. settles dg now device company_id program_id body price (working s) stl d \<Longrightarrow>
      Q stl (s\<lparr>working := d\<rparr>)"
    and "\<And>e. E e s"
  shows "wp (settle dg now device company_id program_id body price) Q E s"
proof -
  have stay: "Q stl s" if "settles dg now device company_id program_id body price (working s) stl (working s)" for stl
  proof -
    have "s\<lparr>working := working s\<rparr> = s" by simp
    with assms(1) [OF that] show ?thesis by metis
  qed
  note rejected = stay [OF settles.qr_rejected] stay [OF settles.rf_invalid] stay [OF settles.rf_insufficient]
  consider "payment_method body = ''CARD''" | "payment_method body = ''QR''"
    | "payment_method body = ''RF_CARD''" | "payment_method body \<notin> {''CARD'', ''QR'', ''RF_CARD''}" by blast
  then show ?thesis
  proof cases
    case 1
    then show ?thesis
      using assms(2) stay [OF settles.by_card [OF 1]]
      by (auto simp: settle_method settle_card_def wp_rules card_scenario_unique split: option.splits)
  next
    case 2
    then show ?thesis
      using assms(2)
      by (auto simp: settle_method settle_qr_def wp_rules split: option.splits
          intro!: assms(1) settles.by_qr rejected)
  next
    case 3
    then show ?thesis
      using assms(2)
      by (auto simp: settle_method settle_rf_def wp_rules split: option.splits sum.splits
          intro!: assms(1) settles.by_rf rejected)
  next
    case 4
    then show ?thesis using assms(2) by (simp add: settle_method wp_rules)
  qed
qed

text \<open>A settlement the specification allows is carried out: the updates pass their checks.\<close>

definition books_checked :: "db \<Rightarrow> bool" where
  "books_checked d \<longleftrightarrow>
     distinct (map qr_id (qr_codes d)) \<and> (\<forall>q \<in> set (qr_codes d). check_qr_code q) \<and>
     distinct (map wal_id (rf_wallets d)) \<and> (\<forall>w \<in> set (rf_wallets d). check_rf_wallet w)"

lemma settle_total:
  assumes "settles dg now device company_id program_id body price (working s) stl d"
    and ok: "books_checked (working s)" and post: "Q stl (s\<lparr>working := d\<rparr>)"
  shows "wp (settle dg now device company_id program_id body price) Q E s"
  using assms(1)
proof cases
  case (by_card st code)
  then have "map_of card_scenarios (or_empty (test_scenario body)) = Some (st, code)"
    by (simp add: card_scenario_unique)
  with post by_card show ?thesis by (simp add: settle_method settle_card_def wp_rules)
next
  case (by_qr q)
  then have q: "q \<in> set (qr_codes (working s))" by (auto simp: find_qr_def dest: find_SomeD)
  have "check_qr_code (redeem q r)" if r: "r \<in> set (qr_codes (working s))" "qr_id r = qr_id q" for r
  proof -
    have "r = q" using ok distinct_key_eq [OF _ r(1) q r(2)] by (simp add: books_checked_def)
    moreover have "check_qr_code q" using ok q by (simp add: books_checked_def)
    ultimately show ?thesis
      using by_qr(5) by (auto simp: check_qr_code_def redeem_def redeemable_def Let_def)
  qed
  with post by_qr show ?thesis by (simp add: settle_method settle_qr_def wp_rules)
next
  case qr_rejected
  with post show ?thesis
    by (cases "find_qr (qr_hash dg body) (working s)") (simp_all add: settle_method settle_qr_def wp_rules)
next
  case (by_rf uid c w)
  then have w: "w \<in> set (rf_wallets (working s))" by (auto dest: find_SomeD)
  have "check_rf_wallet (debit_wallet now price r)"
    if r: "r \<in> set (rf_wallets (working s))" "wal_id r = wal_id w" for r
  proof -
    have "r = w" using ok distinct_key_eq [OF _ r(1) w r(2)] by (simp add: books_checked_def)
    moreover have "check_rf_wallet w" using ok w by (simp add: books_checked_def)
    ultimately show ?thesis using by_rf(8) by (simp add: check_rf_wallet_def debit_wallet_def)
  qed
  with post by_rf show ?thesis by (simp add: settle_method settle_rf_def wp_rules)
next
  case (rf_invalid uid)
  with post show ?thesis
    by (cases "List.find (\<lambda>c. card_uid_hash c = secret_hash dg uid QR_PEPPER) (rf_cards (working s))")
      (simp_all add: settle_method settle_rf_def wp_rules)
next
  case (rf_insufficient uid c)
  with post show ?thesis
    by (cases "List.find (\<lambda>w. wal_rf_card_id w = card_id c) (rf_wallets (working s))")
      (simp_all add: settle_method settle_rf_def wp_rules)
qed

text \<open>Otherwise the code raises an error of its own, before it has written anything.\<close>

inductive unsettled :: "payment_request \<Rightarrow> exn \<Rightarrow> bool" for body where
  bad_scenario: "payment_method body = ''CARD'' \<Longrightarrow>
     or_empty (test_scenario body) \<notin> fst ` set card_scenarios \<Longrightarrow>
     unsettled body (AppError 422 ''INVALID_TEST_SCENARIO'' [])"
| bad_uid: "payment_method body = ''RF_CARD'' \<Longrightarrow> normalize_uid (or_empty (rf_uid body)) = Inl e \<Longrightarrow>
     unsettled body e"
| bad_method: "payment_method body \<notin> {''CARD'', ''QR'', ''RF_CARD''} \<Longrightarrow>
     unsettled body (AppError 422 ''UNSUPPORTED_PAYMENT_METHOD'' [])"

lemma settle_unsettled:
  assumes "unsettled body e" "E e s"
  shows "wp (settle dg now device company_id program_id body price) Q E s"
  using assms(1)
proof cases
  case bad_scenario
  then have "map_of card_scenarios (or_empty (test_scenario body)) = None"
    by (simp add: map_of_eq_None_iff)
  with bad_scenario assms(2) show ?thesis by (simp add: settle_method settle_card_def wp_rules)
next
  case bad_uid
  with assms(2) show ?thesis by (simp add: settle_method settle_rf_def wp_rules)
next
  case bad_method
  with assms(2) show ?thesis by (simp add: settle_method wp_rules)
qed

lemma settles_or_unsettled:
  "(\<exists>stl d1. settles dg now device company_id program_id body price d stl d1) \<or> (\<exists>e. unsettled body e)"
proof -
  consider "payment_method body = ''CARD''" | "payment_method body = ''QR''"
    | "payment_method body = ''RF_CARD''" | "payment_method body \<notin> {''CARD'', ''QR'', ''RF_CARD''}" by blast
  then show ?thesis
  proof cases
    case 1
    show ?thesis
    proof (cases "or_empty (test_scenario body) \<in> fst ` set card_scenarios")
      case True
      then obtain x where "x \<in> set card_scenarios" "or_empty (test_scenario body) = fst x" by blast
      then have "(or_empty (test_scenario body), fst (snd x), snd (snd x)) \<in> set card_scenarios" by simp
      from settles.by_card [OF 1 this] show ?thesis by (intro disjI1 exI)
    next
      case False
      with unsettled.bad_scenario [OF 1] show ?thesis by blast
    qed
  next
    case 2
    show ?thesis
    proof (cases "\<exists>q. find_qr (qr_hash dg body) d = Some q \<and> redeemable now device company_id program_id q")
      case True
      then obtain q where "find_qr (qr_hash dg body) d = Some q" "redeemable now device company_id program_id q" by blast
      from settles.by_qr [OF 2 this] show ?thesis by (intro disjI1 exI)
    next
      case False
      have "settles dg now device company_id program_id body price d (failed_with ''QR_INVALID'' price) d"
        by (rule settles.qr_rejected [OF 2]) (use False in blast)
      then show ?thesis by (intro disjI1 exI)
    qed
  next
    case 3
    show ?thesis
    proof (cases "normalize_uid (or_empty (rf_uid body))")
      case (Inl e)
      with 3 show ?thesis using unsettled.bad_uid by blast
    next
      case uid: (Inr uid)
      show ?thesis
      proof (cases "\<exists>c. List.find (\<lambda>c. card_uid_hash c = secret_hash dg uid QR_PEPPER) (rf_cards d) = Some c \<and>
          card_usable now company_id c")
        case True
        then obtain c where c: "List.find (\<lambda>c. card_uid_hash c = secret_hash dg uid QR_PEPPER) (rf_cards d) = Some c"
          "card_usable now company_id c" by blast
        show ?thesis
        proof (cases "\<exists>w. List.find (\<lambda>w. wal_rf_card_id w = card_id c) (rf_wallets d) = Some w \<and>
            price \<le> wal_balance_minor w")
          case True
          then obtain w where "List.find (\<lambda>w. wal_rf_card_id w = card_id c) (rf_wallets d) = Some w"
            "price \<le> wal_balance_minor w" by blast
          from settles.by_rf [OF 3 uid c this] show ?thesis by (intro disjI1 exI)
        next
          case False
          then have "settles dg now device company_id program_id body price d (failed_with ''RF_INSUFFICIENT_BALANCE'' price) d"
            by (intro settles.rf_insufficient [OF 3 uid c]) (meson not_le)
          then show ?thesis by (intro disjI1 exI)
        qed
      next
        case False
        then have "settles dg now device company_id program_id body price d (failed_with ''RF_CARD_INVALID'' price) d"
          by (intro settles.rf_invalid [OF 3 uid]) blast
        then show ?thesis by (intro disjI1 exI)
      qed
    qed
  next
    case 4
    then show ?thesis using unsettled.bad_method by blast
  qed
qed

section \<open>The rows written\<close>

definition post_store ::
  "timestamp \<Rightarrow> device \<Rightarrow> string \<Rightarrow> string \<Rightarrow> string \<Rightarrow> int \<Rightarrow> int \<Rightarrow> int \<Rightarrow> settlement \<Rightarrow>
   (seq \<Rightarrow> int) \<times> db \<Rightarrow> (seq \<Rightarrow> int) \<times> db" where
  "post_store now device key body_hash method wash_bay_id program_id price stl x =
     (let i = fst x PaymentSeq; st = stl_status stl in
      insert_when True AuditSeq audit_entries audit_entries_update (payment_audit now i st)
     (insert_when True EventSeq events events_update (payment_event now device i method stl)
     (insert_when (st = SUCCESS) StartRightSeq start_rights start_rights_update
        (start_right_row now device i wash_bay_id program_id)
     (insert_when (method = ''RF_CARD'' \<and> st = SUCCESS \<and> stl_rf_wallet_id stl \<noteq> None) LedgerSeq
        rf_wallet_ledger rf_wallet_ledger_update (ledger_row now i (the (stl_rf_wallet_id stl)) price)
     (insert_when (method = ''CARD'') ProviderSeq provider_transactions provider_transactions_update
        (provider_row now i st)
     (insert_when True AttemptSeq payment_attempts payment_attempts_update (attempt_row now i st)
     (insert_when True PaymentSeq payment_transactions payment_transactions_update
        (payment_row now device key body_hash method program_id stl) x)))))))"

definition posted ::
  "timestamp \<Rightarrow> device \<Rightarrow> string \<Rightarrow> string \<Rightarrow> string \<Rightarrow> int \<Rightarrow> int \<Rightarrow> int \<Rightarrow> settlement \<Rightarrow>
   (seq \<Rightarrow> int) \<Rightarrow> db \<Rightarrow> db" where
  "posted now device key body_hash method wash_bay_id program_id price stl sq d =
     snd (post_store now device key body_hash method wash_bay_id program_id price stl (sq, d))"

definition posted_seqs :: "string \<Rightarrow> settlement \<Rightarrow> (seq \<Rightarrow> int) \<Rightarrow> (seq \<Rightarrow> int)" where
  "posted_seqs method stl sq =
     (let s1 = bump AttemptSeq (bump PaymentSeq sq);
          s2 = (if method = ''CARD'' then bump ProviderSeq s1 else s1);
          s3 = (if method = ''RF_CARD'' \<and> stl_status stl = SUCCESS \<and> stl_rf_wallet_id stl \<noteq> None
                then bump LedgerSeq s2 else s2);
          s4 = (if stl_status stl = SUCCESS then bump StartRightSeq s3 else s3)
      in bump AuditSeq (bump EventSeq s4))"

lemma post_store_eq:
  "post_store now dev key h m bay pid price stl (sq, d) =
     (posted_seqs m stl sq, posted now dev key h m bay pid price stl sq d)"
  by (rule prod_eqI)
    (simp_all add: posted_def post_store_def posted_seqs_def Let_def fst_insert_when cong: if_cong)

lemma posted_tables [simp]:
  "payment_transactions (posted now dev key h m bay pid price stl sq d) =
     payment_transactions d @ [payment_row now dev key h m pid stl (sq PaymentSeq)]"
  "payment_attempts (posted now dev key h m bay pid price stl sq d) =
     payment_attempts d @ [attempt_row now (sq PaymentSeq) (stl_status stl) (sq AttemptSeq)]"
  "provider_transactions (posted now dev key h m bay pid price stl sq d) = provider_transactions d @
     (if m = ''CARD'' then [provider_row now (sq PaymentSeq) (stl_status stl) (sq ProviderSeq)] else [])"
  "rf_wallet_ledger (posted now dev key h m bay pid price stl sq d) = rf_wallet_ledger d @
     (if m = ''RF_CARD'' \<and> stl_status stl = SUCCESS \<and> stl_rf_wallet_id stl \<noteq> None
      then [ledger_row now (sq PaymentSeq) (the (stl_rf_wallet_id stl)) price (sq LedgerSeq)] else [])"
  "start_rights (posted now dev key h m bay pid price stl sq d) = start_rights d @
     (if stl_status stl = SUCCESS
      then [start_right_row now dev (sq PaymentSeq) bay pid (sq StartRightSeq)] else [])"
  "events (posted now dev key h m bay pid price stl sq d) =
     events d @ [payment_event now dev (sq PaymentSeq) m stl (sq EventSeq)]"
  "audit_entries (posted now dev key h m bay pid price stl sq d) =
     audit_entries d @ [payment_audit now (sq PaymentSeq) (stl_status stl) (sq AuditSeq)]"
  by (simp_all add: posted_def post_store_def Let_def snd_insert_when fst_insert_when)

lemma posted_frame [simp]:
  "companies (posted now dev key h m bay pid price stl sq d) = companies d"
  "panel_users (posted now dev key h m bay pid price stl sq d) = panel_users d"
  "stations (posted now dev key h m bay pid price stl sq d) = stations d"
  "devices (posted now dev key h m bay pid price stl sq d) = devices d"
  "device_credentials (posted now dev key h m bay pid price stl sq d) = device_credentials d"
  "device_configurations (posted now dev key h m bay pid price stl sq d) = device_configurations d"
  "device_current_states (posted now dev key h m bay pid price stl sq d) = device_current_states d"
  "device_heartbeats (posted now dev key h m bay pid price stl sq d) = device_heartbeats d"
  "programs (posted now dev key h m bay pid price stl sq d) = programs d"
  "program_payment_methods (posted now dev key h m bay pid price stl sq d) = program_payment_methods d"
  "entitlements (posted now dev key h m bay pid price stl sq d) = entitlements d"
  "wash_bays (posted now dev key h m bay pid price stl sq d) = wash_bays d"
  "maintenance_windows (posted now dev key h m bay pid price stl sq d) = maintenance_windows d"
  "qr_codes (posted now dev key h m bay pid price stl sq d) = qr_codes d"
  "rf_cards (posted now dev key h m bay pid price stl sq d) = rf_cards d"
  "rf_wallets (posted now dev key h m bay pid price stl sq d) = rf_wallets d"
  "program_executions (posted now dev key h m bay pid price stl sq d) = program_executions d"
  "commands (posted now dev key h m bay pid price stl sq d) = commands d"
  "command_results (posted now dev key h m bay pid price stl sq d) = command_results d"
  "alarms (posted now dev key h m bay pid price stl sq d) = alarms d"
  by (simp_all add: posted_def post_store_def Let_def snd_insert_when fst_insert_when)

lemma posted_seqs_le: "seqs_le sq (posted_seqs method stl sq)"
  by (simp add: posted_seqs_def Let_def seqs_le_def bump_def)

text \<open>What the constraints of the database have checked once the rows are in.\<close>

definition accepted ::
  "timestamp \<Rightarrow> device \<Rightarrow> string \<Rightarrow> string \<Rightarrow> string \<Rightarrow> int \<Rightarrow> int \<Rightarrow> int \<Rightarrow> settlement \<Rightarrow>
   (seq \<Rightarrow> int) \<Rightarrow> db \<Rightarrow> bool" where
  "accepted now device key body_hash method wash_bay_id program_id price stl sq d \<longleftrightarrow>
     (let i = sq PaymentSeq in
      insertable_payment d (payment_row now device key body_hash method program_id stl i) \<and>
      (i, 1) \<notin> (\<lambda>r. (att_payment_id r, att_attempt_no r)) ` set (payment_attempts d) \<and>
      (method = ''CARD'' \<longrightarrow> \<not> has_key prov_payment_id (provider_transactions d) i) \<and>
      (\<forall>w. stl_rf_wallet_id stl = Some w \<longrightarrow> method = ''RF_CARD'' \<longrightarrow> stl_status stl = SUCCESS \<longrightarrow>
         0 < price \<and> has_key wal_id (rf_wallets d) w \<and>
         (Some i, DEBIT) \<notin> (\<lambda>r. (led_payment_id r, led_direction r)) ` set (rf_wallet_ledger d)) \<and>
      (stl_status stl = SUCCESS \<longrightarrow> \<not> has_key sr_payment_id (start_rights d) i))"

lemma record_payment_wpI:
  assumes post: "accepted now device key body_hash method wash_bay_id program_id price stl
      (seqs s) (working s) \<Longrightarrow>
      Q (seqs s PaymentSeq)
        (s\<lparr>seqs := posted_seqs method stl (seqs s),
           working := posted now device key body_hash method wash_bay_id program_id price stl
             (seqs s) (working s)\<rparr>)"
    and err: "\<And>e t. committed t = committed s \<Longrightarrow> seqs_le (seqs s) (seqs t) \<Longrightarrow> E e t"
  shows "wp (record_payment now device key body_hash method wash_bay_id program_id price stl) Q E s"
proof -
  let ?st = "stl_status stl" and ?i = "seqs s PaymentSeq"
  let ?x0 = "(seqs s, working s)"
  let ?rf = "method = ''RF_CARD'' \<and> ?st = SUCCESS \<and> stl_rf_wallet_id stl \<noteq> None"
  note stage = fst_insert_when snd_insert_when
  define x1 where "x1 = insert_when True PaymentSeq payment_transactions payment_transactions_update
    (payment_row now device key body_hash method program_id stl) ?x0"
  define x2 where "x2 = insert_when True AttemptSeq payment_attempts payment_attempts_update
    (attempt_row now ?i ?st) x1"
  define x3 where "x3 = insert_when (method = ''CARD'') ProviderSeq provider_transactions
    provider_transactions_update (provider_row now ?i ?st) x2"
  define x4 where "x4 = insert_when ?rf LedgerSeq rf_wallet_ledger rf_wallet_ledger_update
    (ledger_row now ?i (the (stl_rf_wallet_id stl)) price) x3"
  define x5 where "x5 = insert_when (?st = SUCCESS) StartRightSeq start_rights start_rights_update
    (start_right_row now device ?i wash_bay_id program_id) x4"
  note xs = x1_def x2_def x3_def x4_def x5_def
  have le: "seqs_le (seqs s) (fst x1)" "seqs_le (seqs s) (fst x2)" "seqs_le (seqs s) (fst x3)"
      "seqs_le (seqs s) (fst x4)" "seqs_le (seqs s) (fst x5)"
    by (simp_all add: xs)
  have t2: "payment_attempts (snd x1) = payment_attempts (working s)" by (simp add: xs stage)
  have t3: "provider_transactions (snd x2) = provider_transactions (working s)" by (simp add: xs stage)
  have t4: "rf_wallet_ledger (snd x3) = rf_wallet_ledger (working s)"
      "rf_wallets (snd x3) = rf_wallets (working s)" by (simp_all add: xs stage)
  have t5: "start_rights (snd x4) = start_rights (working s)" by (simp add: xs stage)
  have final: "insert_when True AuditSeq audit_entries audit_entries_update (payment_audit now ?i ?st)
     (insert_when True EventSeq events events_update (payment_event now device ?i method stl) x5) =
     (posted_seqs method stl (seqs s),
      posted now device key body_hash method wash_bay_id program_id price stl (seqs s) (working s))"
    unfolding post_store_eq [symmetric] by (simp add: post_store_def Let_def xs)
  have "wp (record_payment now device key body_hash method wash_bay_id program_id price stl) Q E (put s ?x0)"
    unfolding record_payment_def wp_bind wp_then wp_ret
  proof (rule insert_putI [where sq = "seqs s", OF _ _ err], goal_cases)
    case 1
    note ins1 = 1
    show ?case
      unfolding x1_def [symmetric] fst_conv
    proof (rule insert_putI [OF _ le(1) err], goal_cases)
      case 1
      note ins2 = 1
      show ?case
        unfolding x2_def [symmetric]
      proof (rule when_insert_putI [OF _ le(2) err], goal_cases)
        case 1
        note ins3 = 1
        show ?case
          unfolding x3_def [symmetric]
        proof (rule when_insert_putI [OF _ le(3) err], goal_cases)
          case 1
          note ins4 = 1
          show ?case
            unfolding x4_def [symmetric]
          proof (rule when_insert_putI [OF _ le(4) err], goal_cases)
            case 1
            note ins5 = 1
            have "accepted now device key body_hash method wash_bay_id program_id price stl
                (seqs s) (working s)"
              using ins1 ins2 ins3 ins4 ins5
              by (auto simp: accepted_def Let_def t2 t3 t4 t5 insertable_attempt_def attempt_row_def
                  insertable_provider_def provider_row_def insertable_ledger_def ledger_row_def
                  insertable_start_right_def start_right_row_def)
            note post = post [OF this]
            show ?case
              unfolding x5_def [symmetric]
              by (rule insert_putI [OF _ le(5) err], rule insert_putI [where sq = "seqs s", OF _ _ err])
                (use post le(5) in \<open>simp_all add: final put_def\<close>)
          qed
        qed
      qed
    qed
  qed simp_all
  then show ?thesis by simp
qed

section \<open>The whole handler\<close>

definition lookup_view :: "db \<Rightarrow> int \<Rightarrow> payment_payload option" where
  "lookup_view d i = map_option
     (\<lambda>p. payment_view p
        (List.find (\<lambda>r. sr_payment_id r = i) (start_rights d))
        (List.find (\<lambda>e. exe_payment_id e = i) (program_executions d)))
     (List.find (\<lambda>p. pay_id p = i) (payment_transactions d))"

lemma wp_read_payment:
  "wp (read_payment i) Q E s =
     (case lookup_view (working s) i of None \<Rightarrow> E PAYMENT_NOT_FOUND s | Some v \<Rightarrow> Q v s)"
  by (simp add: read_payment_def lookup_view_def wp_rules split: option.splits)

inductive pays ::
  "digests \<Rightarrow> timestamp \<Rightarrow> device \<Rightarrow> payment_request \<Rightarrow> string \<Rightarrow> (seq \<Rightarrow> int) \<Rightarrow> db \<Rightarrow>
   int \<Rightarrow> settlement \<Rightarrow> (seq \<Rightarrow> int) \<Rightarrow> db \<Rightarrow> bool"
  for dg now device body key sq d where
  pays:
    "guards_pass now device body d company_id wash_bay_id \<Longrightarrow>
     program_resolved dg device company_id body d program_id price \<Longrightarrow>
     settles dg now device company_id program_id body price d stl d1 \<Longrightarrow>
     accepted now device key (request_hash dg body) (payment_method body) wash_bay_id program_id
       price stl sq d1 \<Longrightarrow>
     pays dg now device body key sq d (sq PaymentSeq) stl
       (posted_seqs (payment_method body) stl sq)
       (posted now device key (request_hash dg body) (payment_method body) wash_bay_id program_id
          price stl sq d1)"

inductive_cases paysE: "pays dg now device body key sq d i stl sq' d'"

lemma new_payment_wpI:
  assumes post: "\<And>i stl sq' d'. pays dg now device body key (seqs s) (working s) i stl sq' d' \<Longrightarrow>
      Q i (s\<lparr>seqs := sq', working := d'\<rparr>)"
    and err: "\<And>e t. committed t = committed s \<Longrightarrow> seqs_le (seqs s) (seqs t) \<Longrightarrow> E e t"
  shows "wp (new_payment dg now device body key) Q E s"
  unfolding new_payment_def wp_bind
proof (rule operational_guards_wpI, goal_cases)
  case (1 c b)
  note guards = 1
  show ?case
    unfolding wp_case_prod prod.case wp_bind
  proof (rule resolve_program_wpI, goal_cases)
    case (1 p pr)
    note program = 1
    show ?case
      unfolding wp_case_prod prod.case wp_bind
    proof (rule settle_wpI, goal_cases)
      case (1 stl d)
      note settled = 1
      show ?case
      proof (rule record_payment_wpI, goal_cases)
        case 1
        then have "accepted now device key (request_hash dg body) (payment_method body) b p pr stl
            (seqs s) d" by simp
        from post [OF pays [OF guards program settled this]] show ?case by simp
      qed (simp add: err)
    qed (simp add: err)
  qed (simp add: err)
qed (simp add: err)

lemma pays_view:
  assumes "pays dg now device body key sq d i stl sq' d'"
  shows "\<exists>v. lookup_view d' i = Some v"
  using assms by cases
    (auto simp: lookup_view_def row_simps payment_row_def split: option.splits)

theorem create_payment_wpI:
  assumes replay: "\<And>p v. find_by_key (dev_id device) key (working s) = Some p \<Longrightarrow>
      pay_request_hash p = request_hash dg body \<Longrightarrow> lookup_view (working s) (pay_id p) = Some v \<Longrightarrow> Q v s"
    and post: "\<And>i stl sq' d' v. find_by_key (dev_id device) key (working s) = None \<Longrightarrow>
      pays dg now device body key (seqs s) (working s) i stl sq' d' \<Longrightarrow>
      lookup_view d' i = Some v \<Longrightarrow> Q v (s\<lparr>committed := d', working := d', seqs := sq'\<rparr>)"
    and err: "\<And>e t. committed t = committed s \<Longrightarrow> seqs_le (seqs s) (seqs t) \<Longrightarrow> E e t"
  shows "wp (create_payment dg now device body key) Q E s"
proof (cases "find_by_key (dev_id device) key (working s)")
  case None
  have "wp (new_payment dg now device body key)
      (\<lambda>i. wp (then_op commit (read_payment i)) Q E) E s"
  proof (rule new_payment_wpI)
    fix i stl sq' d'
    assume pays: "pays dg now device body key (seqs s) (working s) i stl sq' d'"
    obtain v where "lookup_view d' i = Some v" using pays_view [OF pays] by blast
    with post [OF None pays] show "wp (then_op commit (read_payment i)) Q E (s\<lparr>seqs := sq', working := d'\<rparr>)"
      by (simp add: wp_rules wp_read_payment)
  qed (simp add: err)
  with None show ?thesis
    by (simp add: create_payment_def check_replay_def wp_rules)
next
  case (Some p)
  have "p \<in> set (payment_transactions (working s))"
    using Some by (auto simp: find_by_key_def dest: find_SomeD)
  then obtain v where "lookup_view (working s) (pay_id p) = Some v"
    by (cases "lookup_view (working s) (pay_id p)") (auto simp: lookup_view_def find_None_set)
  with Some replay err show ?thesis
    by (auto simp: create_payment_def check_replay_def wp_rules wp_read_payment)
qed

text \<open>The same as an elimination rule for a successful call and for an error.\<close>

lemma create_payment_successE:
  assumes run: "create_payment dg now device body key s = (Inr v, t)"
  obtains (replayed) p where "find_by_key (dev_id device) key (working s) = Some p"
      "pay_request_hash p = request_hash dg body" "lookup_view (working s) (pay_id p) = Some v" "t = s"
  | (paid) i stl sq' d' where "find_by_key (dev_id device) key (working s) = None"
      "pays dg now device body key (seqs s) (working s) i stl sq' d'" "lookup_view d' i = Some v"
      "t = s\<lparr>committed := d', working := d', seqs := sq'\<rparr>"
proof -
  let ?Q = "\<lambda>v t. (\<exists>p. find_by_key (dev_id device) key (working s) = Some p \<and>
      pay_request_hash p = request_hash dg body \<and> lookup_view (working s) (pay_id p) = Some v \<and> t = s) \<or>
    (\<exists>i stl sq' d'. find_by_key (dev_id device) key (working s) = None \<and>
      pays dg now device body key (seqs s) (working s) i stl sq' d' \<and> lookup_view d' i = Some v \<and>
      t = s\<lparr>committed := d', working := d', seqs := sq'\<rparr>)"
  have "wp (create_payment dg now device body key) ?Q (\<lambda>_ _. True) s"
    by (rule create_payment_wpI) auto
  from wp_InrD [OF this run] show thesis using that by blast
qed

lemma create_payment_error:
  assumes "create_payment dg now device body key s = (Inl e, t)"
  shows "committed t = committed s \<and> seqs_le (seqs s) (seqs t)"
proof -
  have "wp (create_payment dg now device body key) (\<lambda>_ _. True)
      (\<lambda>_ t. committed t = committed s \<and> seqs_le (seqs s) (seqs t)) s"
    by (rule create_payment_wpI) auto
  from wp_InlD [OF this assms] show ?thesis .
qed

interpretation create_payment: atomic_op "\<lambda>(dg, now, device, body, key). create_payment dg now device body key"
proof (unfold_locales, goal_cases)
  case (1 i s e t)
  then show ?case by (cases i) (auto dest: create_payment_error)
qed

section \<open>What a settlement leaves alone\<close>

lemma settles_frame:
  assumes "settles dg now device company_id program_id body price d stl d1"
  shows "\<exists>qs ws. d1 = d\<lparr>qr_codes := qs, rf_wallets := ws\<rparr>"
proof -
  have same: "d = d\<lparr>qr_codes := qr_codes d, rf_wallets := rf_wallets d\<rparr>" by simp
  show ?thesis
    using assms
proof cases
  case (by_qr q)
  then have "d1 = d\<lparr>qr_codes := qr_codes d1, rf_wallets := rf_wallets d\<rparr>" by simp
  then show ?thesis by blast
next
  case (by_rf uid c w)
  then have "d1 = d\<lparr>qr_codes := qr_codes d, rf_wallets := rf_wallets d1\<rparr>" by simp
  then show ?thesis by blast
qed (use same in blast)+
qed

end
