(* ===== verification/Request_Hash.thy ===== *)
theory Request_Hash
  imports Payments Commands
begin

text \<open>
  What the stored request hashes say about the request.  The body of a payment is rendered
  as compact JSON before it is hashed, and that rendering determines the body; the result
  of a command is rendered by joining its fields with colons, and that rendering does not.
\<close>

section \<open>UTF-8\<close>

lemma utf8_char_unique:
  assumes "utf8_char c @ r = utf8_char d @ r'"
  shows "c = d \<and> r = r'"
proof -
  let ?m = "of_char c :: nat" and ?n = "of_char d :: nat"
  have small: "?m < 256" "?n < 256" by simp_all
  have lead: "of_char (hd (utf8_char x @ s)) =
      (if of_char x < (128::nat) then of_char x else 192 + of_char x div 64 :: nat)" for x s
  proof -
    have "of_char x < (256::nat)" by simp
    then have "192 + of_char x div 64 < (256::nat)" by linarith
    then show ?thesis by (simp add: utf8_char_def Let_def)
  qed
  have heads: "(if ?m < 128 then ?m else 192 + ?m div 64) = (if ?n < 128 then ?n else 192 + ?n div 64)"
    using lead [of c r] lead [of d r'] assms by simp
  show ?thesis
  proof (cases "?m < 128")
    case True
    with heads have "?n < 128" "?m = ?n" by (auto split: if_splits)
    with True assms show ?thesis by (simp add: utf8_char_def Let_def)
  next
    case False
    with heads have n: "\<not> ?n < 128" "?m div 64 = ?n div 64"
      by (auto split: if_splits)
    have "128 + x mod 64 < (256::nat)" for x :: nat
      using mod_less_divisor [of 64 x] by linarith
    with False n assms have "?m mod 64 = ?n mod 64" and r: "r = r'"
      by (simp_all add: utf8_char_def Let_def)
    with n have "?m = ?n" by (metis div_mult_mod_eq)
    with r show ?thesis by simp
  qed
qed

lemma encode_inject [simp]: "encode s = encode t \<longleftrightarrow> s = t"
proof
  have ne: "utf8_char c \<noteq> []" for c by (simp add: utf8_char_def Let_def)
  show "encode s = encode t \<Longrightarrow> s = t"
  proof (induction s arbitrary: t)
    case Nil
    then show ?case using ne by (cases t) auto
  next
    case (Cons c s)
    then obtain d t' where t: "t = d # t'" using ne by (cases t) auto
    with Cons.prems have "c = d \<and> encode s = encode t'" by (intro utf8_char_unique) simp
    with Cons.IH t show ?case by simp
  qed
qed simp

section \<open>Scalars in a JSON text\<close>

definition numeral_char :: "char \<Rightarrow> bool" where
  "numeral_char c \<longleftrightarrow> is_digit c \<or> c = CHR ''-''"

lemma int_dec_numeral: "c \<in> set (int_dec i) \<Longrightarrow> numeral_char c"
  by (auto simp: int_dec_def numeral_char_def dest: nat_dec_digits split: if_splits)

lemma int_dec_not_Nil [simp]: "int_dec i \<noteq> []"
  by (simp add: int_dec_def)

text \<open>What follows a value in an object: a comma or the closing brace.\<close>

definition ends_value :: "string \<Rightarrow> bool" where
  "ends_value r \<longleftrightarrow> (case r of [] \<Rightarrow> False | c # _ \<Rightarrow> c = CHR '','' \<or> c = CHR ''}'')"

lemma takeWhile_int_dec:
  assumes "ends_value r"
  shows "takeWhile numeral_char (int_dec i @ r) = int_dec i"
proof -
  have "takeWhile numeral_char r = []"
    using assms by (cases r) (auto simp: ends_value_def numeral_char_def is_digit_def)
  then show ?thesis by (simp add: takeWhile_append2 int_dec_numeral)
qed

lemma int_dec_unique:
  assumes "int_dec i @ r = int_dec j @ r'" "ends_value r" "ends_value r'"
  shows "i = j \<and> r = r'"
proof -
  have "int_dec i = int_dec j"
    using assms takeWhile_int_dec by metis
  with assms(1) show ?thesis by simp
qed

lemma hd_int_dec: "numeral_char (hd (int_dec i @ r))"
  by (rule int_dec_numeral [of _ i]) simp

definition scalar :: "json \<Rightarrow> bool" where
  "scalar v \<longleftrightarrow> v = JNull \<or> (\<exists>i. v = JInt i) \<or> (\<exists>s. v = JStr s)"

lemma scalar_unique:
  assumes "scalar v" "scalar w" "ends_value r" "ends_value r'"
    and eq: "dump_value opt v @ r = dump_value opt w @ r'"
  shows "v = w \<and> r = r'"
proof -
  have q: "\<not> numeral_char quote" "\<not> numeral_char (CHR ''n'')" "quote \<noteq> CHR ''n''" by code_simp+
  have num: "numeral_char (hd (dump_value opt x @ s)) \<longleftrightarrow> (\<exists>i. x = JInt i)" if "scalar x" for x s
    using that hd_int_dec q by (auto simp: scalar_def json_string_def)
  have "hd (int_dec i @ s) \<noteq> CHR ''n''" for i s using hd_int_dec [of i s] q(2) by metis
  then have str: "hd (dump_value opt x @ s) = CHR ''n'' \<longleftrightarrow> x = JNull" if "scalar x" for x s
    using that q(3) by (auto simp: scalar_def json_string_def)
  show ?thesis
    using assms num [of v r] num [of w r'] str [of v r] str [of w r']
    by (auto simp: scalar_def dest!: int_dec_unique json_string_unique)
qed

section \<open>The body of a payment\<close>

lemma scalar_opt [simp]: "scalar (opt_json JInt i)" "scalar (opt_json JStr s)" "scalar (JStr t)" "scalar (JInt j)"
  by (auto simp: scalar_def opt_json_def split: option.splits)

lemma opt_json_inject [simp]:
  "opt_json JInt i = opt_json JInt j \<longleftrightarrow> i = j" "opt_json JStr s = opt_json JStr t \<longleftrightarrow> s = t"
  by (auto simp: opt_json_def split: option.splits)

lemma ends_value_simps [simp]: "ends_value (CHR '','' # r)" "ends_value (CHR ''}'' # r)"
  by (simp_all add: ends_value_def)

text \<open>Two objects with the same keys in the same order and scalar values.\<close>

lemma items_unique:
  assumes "map fst kvs = map fst kvs'" "list_all (scalar \<circ> snd) kvs" "list_all (scalar \<circ> snd) kvs'"
    and "join_with '','' (map (\<lambda>(k, v). json_string a k @ '':'' @ dump_value opt v) kvs) @ ''}'' =
      join_with '','' (map (\<lambda>(k, v). json_string a k @ '':'' @ dump_value opt v) kvs') @ ''}''"
  shows "kvs = kvs'"
  using assms
proof (induction kvs arbitrary: kvs')
  case (Cons kv kvs)
  obtain k v where kv: "kv = (k, v)" by (cases kv)
  with Cons.prems(1) obtain v' rest where kvs': "kvs' = (k, v') # rest" "map fst kvs = map fst rest"
    by (cases kvs') auto
  have scalars: "scalar v" "scalar v'" using Cons.prems(2,3) kv kvs' by simp_all
  show ?case
  proof (cases kvs)
    case Nil
    with kvs' have "rest = []" by simp
    with Nil Cons.prems(4) kv kvs' have "dump_value opt v @ ''}'' = dump_value opt v' @ ''}''" by simp
    then have "v = v'" using scalar_unique [OF scalars, of "''}''" "''}''"] by simp
    with Nil \<open>rest = []\<close> kv kvs' show ?thesis by simp
  next
    case (Cons kv1 kvs1)
    then obtain kv2 rest2 where rest: "rest = kv2 # rest2" using kvs' by (cases rest) auto
    let ?f = "\<lambda>(k, v). json_string a k @ '':'' @ dump_value opt v"
    have "dump_value opt v @ CHR '','' # join_with '','' (map ?f kvs) @ ''}'' =
        dump_value opt v' @ CHR '','' # join_with '','' (map ?f rest) @ ''}''"
      using Cons.prems(4) kv kvs' Cons rest by simp
    then have "v = v'" and tail: "join_with '','' (map ?f kvs) @ ''}'' = join_with '','' (map ?f rest) @ ''}''"
      using scalar_unique [OF scalars, of "CHR '','' # _" "CHR '','' # _"] by auto
    moreover have "kvs = rest"
      using Cons.prems(2,3) kv kvs' tail by (intro Cons.IH) auto
    ultimately show ?thesis using kv kvs' by simp
  qed
qed simp

lemma body_text_unique:
  assumes "json_dumps hash_opts (JObj (body_items b)) = json_dumps hash_opts (JObj (body_items b'))"
  shows "b = b'"
proof -
  have "body_items b = body_items b'"
    using assms
    by (intro items_unique [where a = False and opt = hash_opts])
      (simp_all add: json_dumps_def hash_opts_def, simp_all add: body_items_def)
  then show ?thesis by (cases b; cases b') (simp add: body_items_def)
qed

lemma request_hash_inject:
  assumes "inj (hmac_sha256_hex dg (encode CSRF_SECRET))"
  shows "request_hash dg b = request_hash dg b' \<longleftrightarrow> b = b'"
  using assms body_text_unique
  by (auto simp: request_hash_def secret_hash_def dest: injD)

end
