(* ===== verification/Payment_Properties.thy ===== *)
theory Payment_Properties
  imports Payment_Facts Request_Hash Fixture
begin

text \<open>
  The properties of \<open>POST /api/v1/device/payments\<close> as one request sees them: atomicity,
  the refinement of the specification \<open>pays\<close>, idempotent replay, rejection of a reused key,
  and what each payment method may do to the wallet or the QR code.
\<close>

section \<open>Requests\<close>

text \<open>A request in its own session, from a state where no transaction is open.\<close>

definition request_payment ::
  "digests \<Rightarrow> timestamp \<Rightarrow> device \<Rightarrow> payment_request \<Rightarrow> string \<Rightarrow> payment_payload op" where
  "request_payment dg now device body key = with_session (create_payment dg now device body key)"

lemma request_successE:
  assumes "request_payment dg now device body key s = (Inr v, t)"
  obtains (replayed) p where "find_by_key (dev_id device) key (committed s) = Some p"
      "pay_request_hash p = request_hash dg body" "lookup_view (committed s) (pay_id p) = Some v"
      "t = s\<lparr>working := committed s\<rparr>"
  | (paid) i stl sq' d' where "find_by_key (dev_id device) key (committed s) = None"
      "pays dg now device body key (seqs s) (committed s) i stl sq' d'" "lookup_view d' i = Some v"
      "t = s\<lparr>committed := d', working := d', seqs := sq'\<rparr>"
proof -
  obtain t' where run: "create_payment dg now device body key (s\<lparr>working := committed s\<rparr>) = (Inr v, t')"
    and t: "t = t'\<lparr>working := committed t'\<rparr>"
    using assms by (auto simp: request_payment_def with_session_def split: prod.splits sum.splits)
  from run show thesis
  proof (cases rule: create_payment_successE)
    case (replayed p)
    then show ?thesis using that(1) t by simp
  next
    case (paid i stl sq' d')
    then show ?thesis using that(2) t by simp
  qed
qed

lemma request_error:
  assumes "request_payment dg now device body key s = (Inl e, t)"
  shows "committed t = committed s" "working t = committed s" "seqs_le (seqs s) (seqs t)"
proof -
  obtain t' where run: "create_payment dg now device body key (s\<lparr>working := committed s\<rparr>) = (Inl e, t')"
    and t: "t = rollback t'"
    using assms by (auto simp: request_payment_def with_session_def split: prod.splits sum.splits)
  from create_payment_error [OF run] t
  show "committed t = committed s" "working t = committed s" "seqs_le (seqs s) (seqs t)"
    by (simp_all add: rollback_def)
qed

text \<open>The state after a request under a key holds a payment for the key.\<close>

lemma request_recorded:
  assumes "request_payment dg now device body key s = (Inr v, t)"
  obtains p where "find_by_key (dev_id device) key (committed t) = Some p"
    "pay_request_hash p = request_hash dg body" "lookup_view (committed t) (pay_id p) = Some v"
    "working t = committed t"
  using assms
proof (cases rule: request_successE)
  case (replayed p)
  then show ?thesis using that by simp
next
  case (paid i stl sq' d')
  from paid(2) show ?thesis
  proof cases
    case (pays company bay program price d1)
    obtain qs ws where d1: "d1 = (committed s)\<lparr>qr_codes := qs, rf_wallets := ws\<rparr>"
      using settles_frame [OF pays(6)] by blast
    let ?row = "payment_row now device key (request_hash dg body) (payment_method body) program stl i"
    have "find_by_key (dev_id device) key d' = Some ?row"
      using paid(1) pays(1,3) d1 by (simp add: find_by_key_def row_simps payment_row_def)
    then show ?thesis using that [of ?row] paid(3,4) by (simp add: payment_row_def)
  qed
qed

lemma replay_step:
  assumes "find_by_key (dev_id device) key (committed s) = Some p"
    and "lookup_view (committed s) (pay_id p) = Some v" and "working s = committed s"
  shows "request_payment dg now device body key s =
    (if pay_request_hash p = request_hash dg body then (Inr v, s) else (Inl IDEMPOTENCY_CONFLICT, s))"
proof -
  have s: "s\<lparr>working := committed s\<rparr> = s" using assms(3) by (metis (full_types) session.surjective session.update_convs(2))
  have "wp (create_payment dg now device body key)
      (\<lambda>a t. pay_request_hash p = request_hash dg body \<and> a = v \<and> t = s)
      (\<lambda>e t. pay_request_hash p \<noteq> request_hash dg body \<and> e = IDEMPOTENCY_CONFLICT \<and> t = s) s"
    using assms by (simp add: create_payment_def check_replay_def wp_rules wp_read_payment)
  then show ?thesis
    by (auto simp: request_payment_def with_session_def s wp_def rollback_def split: prod.splits sum.splits)
qed

section \<open>Money and redemptions\<close>

text \<open>The balance of a wallet, what the ledger says was debited, and the uses of a QR code.\<close>

definition wallet_balance :: "db \<Rightarrow> int \<Rightarrow> int" where
  "wallet_balance d w =
     sum_list (map wal_balance_minor (filter (\<lambda>r. wal_id r = w) (rf_wallets d)))"

definition wallet_debits :: "db \<Rightarrow> int \<Rightarrow> int" where
  "wallet_debits d w =
     sum_list (map led_amount_minor
       (filter (\<lambda>l. led_wallet_id l = w \<and> led_direction l = DEBIT) (rf_wallet_ledger d)))"

definition qr_uses :: "db \<Rightarrow> int \<Rightarrow> int" where
  "qr_uses d q = sum_list (map qr_usage_count (filter (\<lambda>r. qr_id r = q) (qr_codes d)))"

definition qr_payments :: "db \<Rightarrow> int \<Rightarrow> int" where
  "qr_payments d q =
     int (length (filter (\<lambda>p. pay_qr_code_id p = Some q) (payment_transactions d)))"

lemma filter_unique_key:
  "distinct (map k rows) \<Longrightarrow> r \<in> set rows \<Longrightarrow> filter (\<lambda>x. k x = k r) rows = [r]"
  by (induction rows) (auto simp: image_iff filter_empty_conv)

lemma sum_update_key:
  fixes f :: "'r \<Rightarrow> int"
  assumes "distinct (map k rows)" "r \<in> set rows" "\<And>x. k (g x) = k x"
  shows "sum_list (map f (filter (\<lambda>x. k x = w) (update_where (\<lambda>x. k x = k r) g rows))) =
    sum_list (map f (filter (\<lambda>x. k x = w) rows)) + (if w = k r then f (g r) - f r else 0)"
proof -
  have "filter (\<lambda>x. k x = w) (update_where (\<lambda>x. k x = k r) g rows) =
      update_where (\<lambda>x. k x = k r) g (filter (\<lambda>x. k x = w) rows)"
    using assms(3) by (induction rows) (auto simp: row_simps)
  moreover have "update_where (\<lambda>x. k x = k r) g (filter (\<lambda>x. k x = w) rows) =
      filter (\<lambda>x. k x = w) rows" if "w \<noteq> k r"
    by (rule update_where_id) (use that in auto)
  moreover have "filter (\<lambda>x. k x = w) rows = [r]" if "w = k r"
    unfolding that by (rule filter_unique_key [OF assms(1,2)])
  ultimately show ?thesis by (auto simp: row_simps)
qed

text \<open>Which wallet a settlement debits, and which code it redeems.\<close>

definition debited :: "payment_request \<Rightarrow> settlement \<Rightarrow> int option" where
  "debited body stl =
     (if payment_method body = ''RF_CARD'' \<and> stl_status stl = SUCCESS then stl_rf_wallet_id stl else None)"

lemma settles_wallet:
  assumes "settles dg now device company_id program_id body price d stl d1"
    and "distinct (map wal_id (rf_wallets d))"
  shows "wallet_balance d1 w = wallet_balance d w - (if debited body stl = Some w then price else 0)"
  using assms(1)
proof cases
  case (by_rf uid c r)
  then have "r \<in> set (rf_wallets d)" by (auto dest: find_SomeD)
  from sum_update_key [OF assms(2) this, of "debit_wallet now price" wal_balance_minor w]
  show ?thesis
    using by_rf by (auto simp: wallet_balance_def debited_def debit_wallet_def settled_def)
qed (auto simp: debited_def settled_def failed_with_def wallet_balance_def)

lemma settles_qr:
  assumes "settles dg now device company_id program_id body price d stl d1"
    and "distinct (map qr_id (qr_codes d))"
  shows "qr_uses d1 q = qr_uses d q + (if stl_qr_code_id stl = Some q then 1 else 0)"
  using assms(1)
proof cases
  case (by_qr r)
  then have "r \<in> set (qr_codes d)" by (auto simp: find_qr_def dest: find_SomeD)
  from sum_update_key [OF assms(2) this, of "redeem r" qr_usage_count q]
  show ?thesis
    using by_qr by (auto simp: qr_uses_def redeem_def Let_def settled_def)
qed (auto simp: settled_def failed_with_def qr_uses_def)

lemma pays_wallet:
  assumes "pays dg now device body key sq d i stl sq' d'"
    and "distinct (map wal_id (rf_wallets d))"
  shows "wallet_balance d' w + wallet_debits d' w = wallet_balance d w + wallet_debits d w"
  using assms(1)
proof cases
  case (pays company bay program price d1)
  obtain qs ws where d1: "d1 = d\<lparr>qr_codes := qs, rf_wallets := ws\<rparr>"
    using settles_frame [OF pays(6)] by blast
  have "wallet_balance d' w = wallet_balance d w - (if debited body stl = Some w then price else 0)"
    using settles_wallet [OF pays(6) assms(2)] pays(3) by (simp add: wallet_balance_def)
  moreover have "wallet_debits d' w = wallet_debits d w + (if debited body stl = Some w then price else 0)"
    using pays(3) d1 by (auto simp: wallet_debits_def debited_def ledger_row_def)
  ultimately show ?thesis by simp
qed

lemma pays_qr:
  assumes "pays dg now device body key sq d i stl sq' d'"
    and "distinct (map qr_id (qr_codes d))"
  shows "qr_uses d' q - qr_payments d' q = qr_uses d q - qr_payments d q"
  using assms(1)
proof cases
  case (pays company bay program price d1)
  obtain qs ws where d1: "d1 = d\<lparr>qr_codes := qs, rf_wallets := ws\<rparr>"
    using settles_frame [OF pays(6)] by blast
  have "qr_uses d' q = qr_uses d q + (if stl_qr_code_id stl = Some q then 1 else 0)"
    using settles_qr [OF pays(6) assms(2)] pays(3) by (simp add: qr_uses_def)
  moreover have "qr_payments d' q = qr_payments d q + (if stl_qr_code_id stl = Some q then 1 else 0)"
    using pays(3) d1 by (auto simp: qr_payments_def payment_row_def)
  ultimately show ?thesis by simp
qed

section \<open>Properties\<close>

text \<open>The demonstration requests succeed.\<close>

lemma InrI: "\<not> isl (fst x) \<Longrightarrow> \<exists>v t. x = (Inr v, t)"
  by (cases x; cases "fst x") auto

lemma demo_card: "\<exists>v t. request_payment demo_digests 0 demo_device card_request demo_key demo = (Inr v, t)"
  by (rule InrI) code_simp

lemma demo_rf: "\<exists>v t. request_payment demo_digests 0 demo_device rf_request demo_key demo = (Inr v, t)"
  by (rule InrI) code_simp

lemma demo_qr: "\<exists>v t. request_payment demo_digests 0 demo_device qr_request demo_key demo = (Inr v, t)"
  by (rule InrI) code_simp

text \<open>
  C18. A payment request that ends in an error publishes nothing: every table is as it was
  before, whatever the handler wrote before it failed; only sequence values may be used up.
\<close>

theorem payment_error_atomic:
  assumes "request_payment dg now device body key s = (Inl e, t)"
  shows "committed t = committed s \<and> working t = committed s \<and> seqs_le (seqs s) (seqs t)"
  using request_error [OF assms] by simp

lemma payment_error_atomic_witness:
  "committed (snd (request_payment demo_digests (minutes 3) demo_device card_request demo_key demo)) = demo_db"
proof -
  have "isl (fst (request_payment demo_digests (minutes 3) demo_device card_request demo_key demo))" by code_simp
  then obtain e t where run: "request_payment demo_digests (minutes 3) demo_device card_request demo_key demo = (Inl e, t)"
    by (cases "request_payment demo_digests (minutes 3) demo_device card_request demo_key demo") (auto simp: isl_def)
  then show ?thesis using payment_error_atomic [OF run] by (simp add: demo_def)
qed

text \<open>
  C6. The handler refines the specification: a request that succeeds either replays the
  payment already recorded under its key, with the same request hash, and changes nothing,
  or the key is new and the request makes exactly the transition \<open>pays\<close> (guards, program,
  settlement by method, and the rows of one payment), answered with the view of the new row.
\<close>

theorem payment_refines:
  assumes "request_payment dg now device body key s = (Inr v, t)"
  shows "(\<exists>p. find_by_key (dev_id device) key (committed s) = Some p \<and>
        pay_request_hash p = request_hash dg body \<and> lookup_view (committed s) (pay_id p) = Some v \<and>
        committed t = committed s \<and> seqs t = seqs s) \<or>
    (find_by_key (dev_id device) key (committed s) = None \<and>
      (\<exists>i stl. pays dg now device body key (seqs s) (committed s) i stl (seqs t) (committed t) \<and>
        lookup_view (committed t) i = Some v))"
  using assms by (cases rule: request_successE) auto

lemma payment_refines_witness:
  "\<exists>(t :: session) i stl v. pays demo_digests 0 demo_device qr_request demo_key (seqs demo) demo_db i stl (seqs t) (committed t) \<and>
     lookup_view (committed t) i = Some v"
proof -
  obtain v t where run: "request_payment demo_digests 0 demo_device qr_request demo_key demo = (Inr v, t)"
    using demo_qr by blast
  have "find_by_key (dev_id demo_device) demo_key (committed demo) = None"
    by (simp add: find_by_key_def demo_def demo_db_def)
  with payment_refines [OF run]
  have ex: "\<exists>i stl. pays demo_digests 0 demo_device qr_request demo_key (seqs demo) (committed demo) i stl
      (seqs t) (committed t) \<and> lookup_view (committed t) i = Some v" by simp
  have db: "committed demo = demo_db" by (simp add: demo_def)
  show ?thesis using ex unfolding db by blast
qed

text \<open>
  C19. Retrying is safe: once a request under a key has succeeded, the same request under the
  same key, at any later time and however often, gives the same answer and changes nothing.
\<close>

theorem payment_replay_idempotent:
  assumes "request_payment dg now device body key s = (Inr v, t)"
  shows "request_payment dg now' device body key t = (Inr v, t)"
proof -
  obtain p where p: "find_by_key (dev_id device) key (committed t) = Some p"
    "pay_request_hash p = request_hash dg body" "lookup_view (committed t) (pay_id p) = Some v"
    "working t = committed t"
    using request_recorded [OF assms] .
  then show ?thesis by (simp add: replay_step)
qed

lemma payment_replay_idempotent_witness:
  "\<exists>v t. request_payment demo_digests 0 demo_device rf_request demo_key demo = (Inr v, t) \<and>
     request_payment demo_digests (days 400) demo_device rf_request demo_key t = (Inr v, t)"
proof -
  obtain v t where run: "request_payment demo_digests 0 demo_device rf_request demo_key demo = (Inr v, t)"
    using demo_rf by blast
  then show ?thesis using payment_replay_idempotent [OF run, of "days 400"] by blast
qed

text \<open>
  C20. A key cannot be reused: after a request under a key has succeeded, any request of the
  same device with the same key and a different body is refused with IDEMPOTENCY_CONFLICT and
  changes nothing, provided HMAC-SHA256 has no collision.
\<close>

theorem payment_key_conflict:
  assumes "request_payment dg now device body key s = (Inr v, t)"
    and "inj (hmac_sha256_hex dg (encode CSRF_SECRET))" and "body' \<noteq> body"
  shows "request_payment dg now' device body' key t = (Inl IDEMPOTENCY_CONFLICT, t)"
proof -
  obtain p where p: "find_by_key (dev_id device) key (committed t) = Some p"
    "pay_request_hash p = request_hash dg body" "lookup_view (committed t) (pay_id p) = Some v"
    "working t = committed t"
    using request_recorded [OF assms(1)] .
  moreover have "request_hash dg body \<noteq> request_hash dg body'"
    using assms(3) by (simp add: request_hash_inject [OF assms(2)])
  ultimately show ?thesis by (simp add: replay_step)
qed

lemma payment_key_conflict_witness:
  "\<exists>t. request_payment demo_digests 0 demo_device rf_request demo_key t = (Inl IDEMPOTENCY_CONFLICT, t)"
proof -
  obtain v t where run: "request_payment demo_digests 0 demo_device card_request demo_key demo = (Inr v, t)"
    using demo_card by blast
  have "inj (hmac_sha256_hex demo_digests (encode CSRF_SECRET))" by (simp add: demo_digests_def)
  moreover have "rf_request \<noteq> card_request" by (simp add: rf_request_def card_request_def)
  ultimately show ?thesis using payment_key_conflict [OF run] by blast
qed

text \<open>
  Money is conserved: whatever a payment request does, the balance of a wallet plus all
  that the ledger says was debited from it stays the same.
\<close>

theorem wallet_conserved:
  assumes "distinct (map wal_id (rf_wallets (committed s)))"
    and "request_payment dg now device body key s = (r, t)"
  shows "wallet_balance (committed t) w + wallet_debits (committed t) w =
    wallet_balance (committed s) w + wallet_debits (committed s) w"
proof (cases r)
  case (Inl e)
  then show ?thesis using request_error [of dg now device body key s e t] assms(2) by simp
next
  case (Inr v)
  with assms(2) have "request_payment dg now device body key s = (Inr v, t)" by simp
  then show ?thesis
  proof (cases rule: request_successE)
    case (paid i stl sq' d')
    then show ?thesis using pays_wallet [OF paid(2) assms(1)] by simp
  qed simp
qed

lemma wallet_conserved_witness:
  "\<exists>v t. request_payment demo_digests 0 demo_device rf_request demo_key demo = (Inr v, t) \<and>
     wallet_balance (committed t) 1 + wallet_debits (committed t) 1 = 1000"
proof -
  obtain v t where run: "request_payment demo_digests 0 demo_device rf_request demo_key demo = (Inr v, t)"
    using demo_rf by blast
  have "distinct (map wal_id (rf_wallets (committed demo)))"
    "wallet_balance (committed demo) 1 + wallet_debits (committed demo) 1 = 1000"
    by code_simp+
  with wallet_conserved [OF _ run, of 1] run show ?thesis by auto
qed

text \<open>
  A QR code is used once per payment it funds: the code's usage counter minus the number
  of payments recorded against it is unchanged by every payment request.
\<close>

theorem qr_uses_counted:
  assumes "distinct (map qr_id (qr_codes (committed s)))"
    and "request_payment dg now device body key s = (r, t)"
  shows "qr_uses (committed t) q - qr_payments (committed t) q =
    qr_uses (committed s) q - qr_payments (committed s) q"
proof (cases r)
  case (Inl e)
  then show ?thesis using request_error [of dg now device body key s e t] assms(2) by simp
next
  case (Inr v)
  with assms(2) have "request_payment dg now device body key s = (Inr v, t)" by simp
  then show ?thesis
  proof (cases rule: request_successE)
    case (paid i stl sq' d')
    then show ?thesis using pays_qr [OF paid(2) assms(1)] by simp
  qed simp
qed

lemma qr_uses_counted_witness:
  "\<exists>v t. request_payment demo_digests 0 demo_device qr_request demo_key demo = (Inr v, t) \<and>
     qr_uses (committed t) 1 = qr_payments (committed t) 1"
proof -
  obtain v t where run: "request_payment demo_digests 0 demo_device qr_request demo_key demo = (Inr v, t)"
    using demo_qr by blast
  have "distinct (map qr_id (qr_codes (committed demo)))"
    "qr_uses (committed demo) 1 - qr_payments (committed demo) 1 = 0"
    by code_simp+
  with qr_uses_counted [OF _ run, of 1] run show ?thesis by auto
qed

end
