(* ===== verification/Command_Facts.thy ===== *)
theory Command_Facts
  imports Commands
begin

text \<open>
  The command lifecycle: the effect of each operation on the tables as a function, the
  invariant \<open>commands_ok\<close> that every request keeps, and the status transitions a command
  can make.
\<close>

section \<open>Effects\<close>

definition mark_db :: "timestamp \<Rightarrow> command \<Rightarrow> db \<Rightarrow> db" where
  "mark_db now row d =
     (if cmd_status row = PENDING
      then d\<lparr>commands := update_where (\<lambda>c. cmd_id c = cmd_id row) (mark_sent now) (commands d),
             program_executions := update_where
               (\<lambda>e. exe_id e = cmd_program_execution_id row \<and> exe_status e = CREATED)
               (set_exe_status COMMAND_SENT) (program_executions d)\<rparr>
      else d)"

definition sent_row :: "timestamp \<Rightarrow> command \<Rightarrow> command" where
  "sent_row now row = (if cmd_status row = PENDING then mark_sent now row else row)"

lemma wp_mark_pending:
  "wp (mark_pending now row acc) Q E s =
     Q (acc @ [sent_row now row]) (s\<lparr>working := mark_db now row (working s)\<rparr>)"
  by (simp add: mark_pending_def mark_db_def sent_row_def wp_rules check_command_def
      check_execution_def mark_sent_def set_exe_status_def)

lemma wp_mark_all:
  "wp (fold_op (mark_pending now) rows acc) Q E s =
     Q (acc @ map (sent_row now) rows) (s\<lparr>working := fold (mark_db now) rows (working s)\<rparr>)"
  by (induction rows arbitrary: acc s) (simp_all add: wp_rules wp_mark_pending del: fold_op.simps)

lemma wp_pending_commands:
  "wp (pending_commands now device_id limit) Q E s =
     (let rows = select_pending device_id limit (working s);
          d = fold (mark_db now) rows (working s)
      in Q (map (command_item \<circ> sent_row now) rows) (s\<lparr>working := d, committed := d\<rparr>))"
  by (simp add: pending_commands_def wp_rules wp_mark_all Let_def)

definition ack_db :: "timestamp \<Rightarrow> command \<Rightarrow> db \<Rightarrow> db" where
  "ack_db now c d =
     d\<lparr>commands := update_where (\<lambda>r. cmd_id r = cmd_id c) (acknowledge now) (commands d),
       program_executions := update_where (\<lambda>e. exe_id e = cmd_program_execution_id c)
         (start_running now) (program_executions d)\<rparr>"

lemma find_commandD:
  assumes "find_command device_id command_id d = Some c"
  shows "c \<in> set (commands d)" "cmd_id c = command_id" "cmd_device_id c = device_id"
  using assms by (auto simp: find_command_def dest: find_Some_iff_mem)

lemma wp_acknowledge_command:
  "wp (acknowledge_command now device_id command_id) Q E s =
     (case find_command device_id command_id (working s) of
        None \<Rightarrow> E COMMAND_NOT_FOUND s
      | Some c \<Rightarrow>
          if cmd_status c \<in> {PENDING, SENT}
          then (if cmd_created_at c \<le> now - seconds 30 then E (conflict ''COMMAND_EXPIRED'') s
                else let d = ack_db now c (working s)
                  in Q (int_dec command_id, ACKNOWLEDGED) (s\<lparr>working := d, committed := d\<rparr>))
          else if cmd_status c \<in> {ACKNOWLEDGED, SUCCESS, FAILED}
          then Q (int_dec command_id, cmd_status c) s
          else E (conflict ''COMMAND_NOT_ACKNOWLEDGEABLE'') s)"
proof (cases "find_command device_id command_id (working s)")
  case None
  then show ?thesis by (simp add: acknowledge_command_def wp_rules)
next
  case (Some c)
  note id = find_commandD(2) [OF Some]
  have chk: "check_command (acknowledge now r)" "check_execution (start_running now e)" for r e
    by (simp_all add: check_command_def acknowledge_def check_execution_def start_running_def)
  show ?thesis
  proof (cases "cmd_status c \<in> {PENDING, SENT}")
    case True
    then show ?thesis
      unfolding acknowledge_command_def wp_bind wp_select Some option.case wp_case_option
      by (cases "cmd_created_at c \<le> now - seconds 30") (simp_all add: wp_rules chk ack_db_def id Let_def)
  next
    case False
    then show ?thesis
      unfolding acknowledge_command_def wp_bind wp_select Some option.case wp_case_option
      by (cases "cmd_status c \<in> {ACKNOWLEDGED, SUCCESS, FAILED}") (simp_all add: wp_rules id)
  qed
qed

definition result_db ::
  "timestamp \<Rightarrow> int \<Rightarrow> command \<Rightarrow> string \<Rightarrow> status \<Rightarrow> string option \<Rightarrow> string option \<Rightarrow> string \<Rightarrow>
   string \<Rightarrow> (seq \<Rightarrow> int) \<Rightarrow> db \<Rightarrow> db" where
  "result_db now device_id c result st code message key hash sq d =
     d\<lparr>command_results := command_results d @
         [result_row now (cmd_id c) key hash result st code message (sq ResultSeq)],
       commands := update_where (\<lambda>r. cmd_id r = cmd_id c) (complete_command now st code) (commands d),
       program_executions := update_where (\<lambda>e. exe_id e = cmd_program_execution_id c)
         (complete_execution now st) (program_executions d),
       events := events d @ [execution_event now device_id (cmd_id c) result code (sq EventSeq)]\<rparr>"

lemma store_result_wpI:
  assumes st: "st \<in> {SUCCESS, FAILED}"
    and post: "insertable_result (working s)
        (result_row now (cmd_id c) key hash result st code message (seqs s ResultSeq)) \<Longrightarrow>
      Q \<lparr>rp_id = int_dec (cmd_id c), rp_status = st, rp_result_code = code\<rparr>
        (let d = result_db now device_id c result st code message key hash (seqs s) (working s)
         in s\<lparr>working := d, committed := d, seqs := bump EventSeq (bump ResultSeq (seqs s))\<rparr>)"
    and err: "\<And>e t. committed t = committed s \<Longrightarrow> seqs_le (seqs s) (seqs t) \<Longrightarrow> E e t"
  shows "wp (store_result now device_id c result st code message key hash) Q E s"
proof -
  have chk: "check_command (complete_command now st code r)" "check_execution (complete_execution now st e)"
    for r e using st by (auto simp: check_command_def complete_command_def check_execution_def complete_execution_def)
  have "wp (store_result now device_id c result st code message key hash) Q E (put s (seqs s, working s))"
    unfolding store_result_def wp_bind
  proof (rule insert_putI [where sq = "seqs s", OF _ _ err], goal_cases)
    case 1
    note post = post [OF 1 [unfolded fst_conv snd_conv]]
    show ?case
      by (rule update_putI, simp add: chk, rule update_putI, simp add: chk,
          rule insert_putI [where sq = "seqs s", OF _ _ err])
        (use post in \<open>simp_all add: wp_rules insert_when_def result_db_def Let_def put_def\<close>)
  qed simp_all
  then show ?thesis by simp
qed

lemma result_status_iff: "result_status r = Some st \<Longrightarrow> st \<in> {SUCCESS, FAILED} \<and> status_text st = r"
  by (auto simp: result_status_def split: if_splits)

section \<open>The invariant\<close>

definition terminal :: "status \<Rightarrow> bool" where
  "terminal st \<longleftrightarrow> st \<in> {SUCCESS, FAILED}"

definition command_keys :: "db \<Rightarrow> bool" where
  "command_keys d \<longleftrightarrow> distinct (map cmd_id (commands d)) \<and> distinct (map exe_id (program_executions d)) \<and>
     distinct (map cmd_program_execution_id (commands d)) \<and> distinct (map res_command_id (command_results d))"

definition command_ok :: "db \<Rightarrow> command \<Rightarrow> bool" where
  "command_ok d c \<longleftrightarrow>
     check_command c \<and>
     (cmd_status c \<in> {ACKNOWLEDGED, SUCCESS, FAILED} \<longrightarrow> cmd_acknowledged_at c \<noteq> None) \<and>
     (terminal (cmd_status c) \<longrightarrow>
        (\<forall>e \<in> set (program_executions d). exe_id e = cmd_program_execution_id c \<longrightarrow>
           exe_status e = cmd_status c)) \<and>
     (terminal (cmd_status c) \<longleftrightarrow> (\<exists>r \<in> set (command_results d). res_command_id r = cmd_id c)) \<and>
     (\<forall>r \<in> set (command_results d). res_command_id r = cmd_id c \<longrightarrow> res_status r = cmd_status c)"

definition commands_ok :: "db \<Rightarrow> bool" where
  "commands_ok d \<longleftrightarrow> command_keys d \<and> (\<forall>c \<in> set (commands d). command_ok d c)"

lemma map_update_keys [simp]:
  "map cmd_id (update_where P (mark_sent now) cs) = map cmd_id cs"
  "map cmd_program_execution_id (update_where P (mark_sent now) cs) = map cmd_program_execution_id cs"
  "map cmd_id (update_where P (acknowledge now) cs) = map cmd_id cs"
  "map cmd_program_execution_id (update_where P (acknowledge now) cs) = map cmd_program_execution_id cs"
  "map cmd_id (update_where P (complete_command now st code) cs) = map cmd_id cs"
  "map cmd_program_execution_id (update_where P (complete_command now st code) cs) =
     map cmd_program_execution_id cs"
  "map exe_id (update_where R (set_exe_status st) es) = map exe_id es"
  "map exe_id (update_where R (start_running now) es) = map exe_id es"
  "map exe_id (update_where R (complete_execution now st) es) = map exe_id es"
  by (simp_all add: map_update_where mark_sent_def acknowledge_def complete_command_def
      set_exe_status_def start_running_def complete_execution_def)

lemma same_execution:
  "command_keys d \<Longrightarrow> c \<in> set (commands d) \<Longrightarrow> c' \<in> set (commands d) \<Longrightarrow>
   cmd_program_execution_id c = cmd_program_execution_id c' \<Longrightarrow> c = c'"
  and same_command:
  "command_keys d \<Longrightarrow> c \<in> set (commands d) \<Longrightarrow> c' \<in> set (commands d) \<Longrightarrow> cmd_id c = cmd_id c' \<Longrightarrow> c = c'"
  by (auto simp: command_keys_def dest: distinct_key_eq)

text \<open>
  A change of one command \<open>c\<close> and of its execution: the invariant is kept when the new
  command row satisfies its own clauses, because no other command shares its execution.
\<close>

lemma commands_ok_update:
  assumes ok: "commands_ok d" and c: "c \<in> set (commands d)"
    and keys: "command_keys d'"
    and cmds: "commands d' = update_where (\<lambda>r. cmd_id r = cmd_id c) f (commands d)"
    and exes: "program_executions d' = update_where P g (program_executions d)"
    and own: "\<And>e. P e \<Longrightarrow> exe_id e = cmd_program_execution_id c" "\<And>e. exe_id (g e) = exe_id e"
    and res: "\<And>r. res_command_id r \<noteq> cmd_id c \<Longrightarrow>
      r \<in> set (command_results d') \<longleftrightarrow> r \<in> set (command_results d)"
    and new: "command_ok d' (f c)"
  shows "commands_ok d'"
proof -
  have kd: "command_keys d" using ok by (simp add: commands_ok_def)
  have other: "command_ok d' c'" if c': "c' \<in> set (commands d)" and ne: "cmd_id c' \<noteq> cmd_id c" for c'
  proof -
    have old: "command_ok d c'" using ok c' by (simp add: commands_ok_def)
    have mem: "r \<in> set (command_results d') \<longleftrightarrow> r \<in> set (command_results d)"
      if "res_command_id r = cmd_id c'" for r
      using res ne that by simp
    have "cmd_program_execution_id c' \<noteq> cmd_program_execution_id c"
      using same_execution [OF kd c' c] ne by auto
    then have exe: "e \<in> set (program_executions d') \<Longrightarrow> exe_id e = cmd_program_execution_id c' \<Longrightarrow>
        e \<in> set (program_executions d)" for e
      using own by (auto simp: exes set_update_where split: if_splits)
    show ?thesis
      using old exe mem by (auto simp: command_ok_def)
  qed
  have "command_ok d' r" if mem: "r \<in> set (commands d')" for r
  proof -
    obtain c' where c': "c' \<in> set (commands d)" "r = (if cmd_id c' = cmd_id c then f c' else c')"
      using mem unfolding cmds by (rule update_whereE)
    show ?thesis
    proof (cases "cmd_id c' = cmd_id c")
      case True
      then have "c' = c" using same_command [OF kd c'(1) c] by simp
      then show ?thesis using c' new by simp
    next
      case False
      then show ?thesis using c' other by simp
    qed
  qed
  with keys show ?thesis by (simp add: commands_ok_def)
qed

lemma commands_ok_mark:
  assumes ok: "commands_ok d" and c: "row \<in> set (commands d)"
  shows "commands_ok (mark_db now row d)"
proof (cases "cmd_status row = PENDING")
  case True
  let ?d = "mark_db now row d"
  have old: "command_ok d row" using ok c by (simp add: commands_ok_def)
  show ?thesis
  proof (rule commands_ok_update [OF ok c, where f = "mark_sent now" and g = "set_exe_status COMMAND_SENT"
        and P = "\<lambda>e. exe_id e = cmd_program_execution_id row \<and> exe_status e = CREATED"])
    show "command_keys ?d" using ok True by (simp add: commands_ok_def command_keys_def mark_db_def)
    show "command_ok ?d (mark_sent now row)"
      using old True
      by (auto simp: command_ok_def mark_sent_def mark_db_def check_command_def terminal_def)
  qed (use True in \<open>auto simp: mark_db_def set_exe_status_def\<close>)
next
  case False
  with ok show ?thesis by (simp add: mark_db_def)
qed

lemma mark_db_keeps_row:
  "row' \<in> set (commands d) \<Longrightarrow> cmd_id row' \<noteq> cmd_id row \<Longrightarrow> row' \<in> set (commands (mark_db now row d))"
  by (force simp: mark_db_def set_update_where)

lemma commands_ok_mark_all:
  assumes "commands_ok d" "set rows \<subseteq> set (commands d)" "distinct (map cmd_id rows)"
  shows "commands_ok (fold (mark_db now) rows d)"
  using assms
proof (induction rows arbitrary: d)
  case (Cons row rows)
  have "set rows \<subseteq> set (commands (mark_db now row d))"
    using Cons.prems by (auto intro!: mark_db_keeps_row simp: image_iff)
  with Cons show ?case by (simp add: commands_ok_mark)
qed simp

lemma select_pending_rows:
  "set (select_pending device_id limit d) \<subseteq> {c \<in> set (commands d). pollable device_id c}"
  using set_take_subset by (fastforce simp: select_pending_def)

lemma distinct_select_pending:
  assumes "distinct (map cmd_id (commands d))"
  shows "distinct (map cmd_id (select_pending device_id limit d))"
proof -
  let ?xs = "filter (pollable device_id) (commands d)"
  let ?ys = "sort_key cmd_created_at (sort_key cmd_id ?xs)"
  have inj: "inj_on cmd_id (set (commands d))" and "distinct (commands d)"
    using assms by (auto simp: distinct_map)
  then have "distinct ?ys" by simp
  moreover have "inj_on cmd_id (set ?ys)"
    using inj by (rule inj_on_subset) auto
  ultimately have "distinct (map cmd_id ?ys)" by (simp add: distinct_map)
  then show ?thesis
    unfolding select_pending_def by (metis distinct_take take_map)
qed

lemma commands_ok_ack:
  assumes ok: "commands_ok d" and c: "c \<in> set (commands d)" and st: "cmd_status c \<in> {PENDING, SENT}"
  shows "commands_ok (ack_db now c d)"
proof -
  have old: "command_ok d c" using ok c by (simp add: commands_ok_def)
  show ?thesis
  proof (rule commands_ok_update [OF ok c, where f = "acknowledge now" and g = "start_running now"])
    show "command_keys (ack_db now c d)" using ok by (simp add: commands_ok_def command_keys_def ack_db_def)
    show "command_ok (ack_db now c d) (acknowledge now c)"
      using old st
      by (auto simp: command_ok_def acknowledge_def ack_db_def check_command_def terminal_def)
  qed (auto simp: ack_db_def start_running_def)
qed

lemma commands_ok_result:
  assumes ok: "commands_ok d" and c: "c \<in> set (commands d)"
    and st: "cmd_status c = ACKNOWLEDGED" "st \<in> {SUCCESS, FAILED}"
    and ins: "\<not> has_key res_command_id (command_results d) (cmd_id c)"
  shows "commands_ok (result_db now device_id c result st code message key hash sq d)"
    (is "commands_ok ?d")
proof -
  have old: "command_ok d c" using ok c by (simp add: commands_ok_def)
  have exe: "\<forall>e \<in> set (update_where (\<lambda>e. exe_id e = cmd_program_execution_id c)
      (complete_execution now st) (program_executions d)).
      exe_id e = cmd_program_execution_id c \<longrightarrow> exe_status e = st"
    by (auto simp: update_where_def complete_execution_def)
  show ?thesis
  proof (rule commands_ok_update [OF ok c, where f = "complete_command now st code"
        and g = "complete_execution now st" and P = "\<lambda>e. exe_id e = cmd_program_execution_id c"])
    show "command_keys ?d"
      using ok ins by (auto simp: commands_ok_def command_keys_def result_db_def has_key_def result_row_def)
    show "command_ok ?d (complete_command now st code c)"
      using old st ins exe
      by (auto simp: command_ok_def complete_command_def result_db_def
          check_command_def terminal_def result_row_def has_key_def)
  qed (auto simp: result_db_def complete_execution_def result_row_def)
qed

end
