(* ===== verification/Invariants.thy ===== *)
theory Invariants
  imports Service Payment_Properties Command_Facts
begin

text \<open>
  The invariant of the whole system, \<open>system_ok\<close>: the financial tables agree with each
  other, commands agree with their executions and results, the alarm table has one open
  alarm per key.  Every handler and the worker's sweep keep it; the interpretation of
  \<open>service_invariant\<close> at the end carries it to every reachable state.
\<close>

section \<open>The financial tables\<close>

text \<open>Everything a payment leaves behind is there, whichever request wrote it.\<close>

definition complete :: "db \<Rightarrow> payment_transaction \<Rightarrow> bool" where
  "complete d p \<longleftrightarrow>
     (\<exists>a \<in> set (payment_attempts d). att_payment_id a = pay_id p \<and> att_status a = pay_status p) \<and>
     (pay_method p = ''CARD'' \<longrightarrow>
        (\<exists>t \<in> set (provider_transactions d). prov_payment_id t = pay_id p \<and> prov_status t = pay_status p)) \<and>
     (pay_status p = SUCCESS \<longrightarrow>
        (\<exists>r \<in> set (start_rights d). sr_payment_id r = pay_id p \<and> sr_device_id r = pay_device_id p)) \<and>
     (pay_status p = SUCCESS \<and> pay_method p = ''RF_CARD'' \<longrightarrow>
        (\<exists>l \<in> set (rf_wallet_ledger d). led_payment_id l = Some (pay_id p) \<and> led_direction l = DEBIT \<and>
           led_amount_minor l = pay_amount_minor p)) \<and>
     (\<exists>e \<in> set (events d). ev_payment_id e = Some (pay_id p)) \<and>
     (\<exists>a \<in> set (audit_entries d). aud_payment_id a = pay_id p)"

definition payment_debits :: "db \<Rightarrow> ledger_entry list" where
  "payment_debits d = filter (\<lambda>l. led_direction l = DEBIT \<and> led_payment_id l \<noteq> None) (rf_wallet_ledger d)"

definition payment_keys :: "db \<Rightarrow> (int \<times> string) list" where
  "payment_keys d = map (\<lambda>p. (pay_device_id p, pay_idempotency_key p)) (payment_transactions d)"

text \<open>
  What the books are held against: which payments must be complete (a seeded history need
  not be), the money each wallet ever held, and the uses of each QR code that no recorded
  payment explains; and which commands there are, with a status each of them has had.
\<close>

record expectation =
  must_be_complete :: "payment_transaction \<Rightarrow> bool"
  wallet_total :: "int \<Rightarrow> int"
  unpaid_uses :: "int \<Rightarrow> int"
  command_ids :: "int list"
  command_history :: "int \<Rightarrow> status"

definition financial_ok :: "expectation \<Rightarrow> db \<Rightarrow> bool" where
  "financial_ok expected d \<longleftrightarrow>
     distinct (payment_keys d) \<and> distinct (map pay_id (payment_transactions d)) \<and>
     distinct (map sr_payment_id (start_rights d)) \<and>
     (\<forall>r \<in> set (start_rights d). \<exists>p \<in> set (payment_transactions d).
        pay_id p = sr_payment_id r \<and> pay_status p = SUCCESS) \<and>
     distinct (map led_payment_id (payment_debits d)) \<and>
     (\<forall>p \<in> set (payment_transactions d). must_be_complete expected p \<longrightarrow> complete d p) \<and>
     (\<forall>w. wallet_balance d w + wallet_debits d w = wallet_total expected w) \<and>
     (\<forall>q. qr_uses d q - qr_payments d q = unpaid_uses expected q) \<and>
     distinct (map qr_id (qr_codes d)) \<and> (\<forall>q \<in> set (qr_codes d). check_qr_code q) \<and>
     distinct (map wal_id (rf_wallets d)) \<and> (\<forall>w \<in> set (rf_wallets d). check_rf_wallet w)"

lemma check_update_key:
  assumes "\<forall>x \<in> set rows. chk x" "chk (g r)" "distinct (map k rows)" "r \<in> set rows"
  shows "\<forall>x \<in> set (update_where (\<lambda>x. k x = k r) g rows). chk x"
  using assms by (auto simp: update_where_def dest: distinct_key_eq)

lemma settles_checks:
  assumes "settles dg now device company_id program_id body price d stl d1"
    and "financial_ok expected d"
  shows "distinct (map qr_id (qr_codes d1)) \<and> (\<forall>q \<in> set (qr_codes d1). check_qr_code q) \<and>
    distinct (map wal_id (rf_wallets d1)) \<and> (\<forall>w \<in> set (rf_wallets d1). check_rf_wallet w)"
  using assms(1)
proof cases
  case (by_qr q)
  have q: "q \<in> set (qr_codes d)" using by_qr(4) by (auto simp: find_qr_def dest: find_SomeD)
  then have "check_qr_code q" using assms(2) by (simp add: financial_ok_def)
  then have "check_qr_code (redeem q q)"
    using by_qr(5) by (auto simp: check_qr_code_def redeem_def redeemable_def Let_def)
  moreover have "map qr_id (update_where (\<lambda>r. qr_id r = qr_id q) (redeem q) (qr_codes d)) = map qr_id (qr_codes d)"
    by (rule map_update_where) (simp add: redeem_def Let_def)
  ultimately show ?thesis
    using assms(2) by_qr(2) check_update_key [of "qr_codes d" check_qr_code "redeem q" q qr_id] q
    by (simp add: financial_ok_def)
next
  case (by_rf uid c w)
  have w: "w \<in> set (rf_wallets d)" using by_rf by (auto dest: find_SomeD)
  then have "check_rf_wallet w" using assms(2) by (simp add: financial_ok_def)
  then have "check_rf_wallet (debit_wallet now price w)"
    using by_rf by (auto simp: check_rf_wallet_def debit_wallet_def)
  moreover have "map wal_id (update_where (\<lambda>r. wal_id r = wal_id w) (debit_wallet now price) (rf_wallets d)) =
      map wal_id (rf_wallets d)"
    by (rule map_update_where) (simp add: debit_wallet_def)
  ultimately show ?thesis
    using assms(2) by_rf(2) check_update_key [of "rf_wallets d" check_rf_wallet "debit_wallet now price" w wal_id] w
    by (simp add: financial_ok_def)
qed (use assms(2) in \<open>simp_all add: financial_ok_def\<close>)

text \<open>An RF payment that succeeds names its wallet and pays the program's price.\<close>

lemma settles_rf_success:
  assumes "settles dg now device company_id program_id body price d stl d1"
    and "payment_method body = ''RF_CARD''" "stl_status stl = SUCCESS"
  shows "stl_rf_wallet_id stl \<noteq> None \<and> stl_amount_minor stl = price"
  using assms by cases (auto simp: settled_def failed_with_def)

lemma complete_mono:
  assumes "complete d p"
    and "set (payment_attempts d) \<subseteq> set (payment_attempts d')"
      "set (provider_transactions d) \<subseteq> set (provider_transactions d')"
      "set (start_rights d) \<subseteq> set (start_rights d')"
      "set (rf_wallet_ledger d) \<subseteq> set (rf_wallet_ledger d')"
      "set (events d) \<subseteq> set (events d')" "set (audit_entries d) \<subseteq> set (audit_entries d')"
  shows "complete d' p"
  using assms unfolding complete_def by blast

lemma financial_ok_pays:
  assumes ok: "financial_ok expected d" and pays: "pays dg now device body key sq d i stl sq' d'"
  shows "financial_ok expected d'"
  using pays
proof cases
  case (pays company bay program price d1)
  obtain qs ws where d1: "d1 = d\<lparr>qr_codes := qs, rf_wallets := ws\<rparr>"
    using settles_frame [OF pays(6)] by blast
  let ?p = "payment_row now device key (request_hash dg body) (payment_method body) program stl i"
  note acc = pays(7) [unfolded accepted_def Let_def]
  have i: "pay_id ?p = i" by (simp add: payment_row_def)
  have fresh: "\<not> has_key pay_id (payment_transactions d) i"
    "(dev_id device, key) \<notin> (\<lambda>r. (pay_device_id r, pay_idempotency_key r)) ` set (payment_transactions d)"
    using acc pays(1) by (auto simp: insertable_payment_def d1 payment_row_def)
  have new: "complete d' ?p"
    using settles_rf_success [OF pays(6)] unfolding complete_def pays(3) posted_tables
    by (auto simp: d1 payment_row_def attempt_row_def provider_row_def start_right_row_def ledger_row_def
        payment_event_def payment_audit_def pays(1))
  have old: "complete d' p" if "complete d p" for p
    by (rule complete_mono [OF that]) (auto simp: pays(3) d1)
  have sr: "stl_status stl = SUCCESS \<Longrightarrow> i \<notin> sr_payment_id ` set (start_rights d)"
    using acc pays(1) by (auto simp: d1 has_key_def)
  have led: "Some i \<notin> led_payment_id ` set (payment_debits d)"
    if "payment_method body = ''RF_CARD''" "stl_status stl = SUCCESS" "stl_rf_wallet_id stl = Some w" for w
    using acc pays(1) that by (auto simp: d1 payment_debits_def image_iff)
  have keys: "distinct (payment_keys d')" "distinct (map pay_id (payment_transactions d'))"
    using ok fresh i
    by (auto simp: financial_ok_def payment_keys_def pays(3) d1 payment_row_def has_key_def pays(1))
  have rights: "distinct (map sr_payment_id (start_rights d'))"
    "\<forall>r \<in> set (start_rights d'). \<exists>p \<in> set (payment_transactions d').
        pay_id p = sr_payment_id r \<and> pay_status p = SUCCESS"
    using ok sr by (auto simp: financial_ok_def pays(3) d1 start_right_row_def payment_row_def pays(1))
  have debits: "distinct (map led_payment_id (payment_debits d'))"
    using ok led by (auto simp: financial_ok_def payment_debits_def pays(3) d1 ledger_row_def pays(1))
  have comp: "\<forall>p \<in> set (payment_transactions d'). must_be_complete expected p \<longrightarrow> complete d' p"
    using ok new old by (auto simp: financial_ok_def pays(3) d1 pays(1))
  have books: "\<forall>w. wallet_balance d' w + wallet_debits d' w = wallet_total expected w"
    "\<forall>q. qr_uses d' q - qr_payments d' q = unpaid_uses expected q"
    using ok pays_wallet [OF assms(2)] pays_qr [OF assms(2)] by (simp_all add: financial_ok_def)
  show ?thesis
    unfolding financial_ok_def
    using keys rights debits comp books settles_checks [OF pays(6) ok] by (simp add: pays(3))
qed

text \<open>The other requests leave the financial tables alone, but for new events.\<close>

definition same_finances :: "db \<Rightarrow> db \<Rightarrow> bool" where
  "same_finances d d' \<longleftrightarrow>
     payment_transactions d' = payment_transactions d \<and> payment_attempts d' = payment_attempts d \<and>
     provider_transactions d' = provider_transactions d \<and> start_rights d' = start_rights d \<and>
     rf_wallet_ledger d' = rf_wallet_ledger d \<and> audit_entries d' = audit_entries d \<and>
     qr_codes d' = qr_codes d \<and> rf_wallets d' = rf_wallets d \<and> set (events d) \<subseteq> set (events d')"

lemma financial_ok_same:
  assumes "financial_ok expected d" "same_finances d d'"
  shows "financial_ok expected d'"
proof -
  have "complete d' p" if "complete d p" for p
    by (rule complete_mono [OF that]) (use assms(2) in \<open>simp_all add: same_finances_def\<close>)
  then show ?thesis
    using assms unfolding financial_ok_def payment_keys_def payment_debits_def
      wallet_balance_def wallet_debits_def qr_uses_def qr_payments_def
    by (simp add: same_finances_def)
qed

lemma same_finances_refl [simp]: "same_finances d d"
  by (simp add: same_finances_def)

lemma same_finances_trans: "same_finances a b \<Longrightarrow> same_finances b c \<Longrightarrow> same_finances a c"
  by (auto simp: same_finances_def)

section \<open>The whole database\<close>

text \<open>The order in which a command moves through its statuses; a terminal one is final.\<close>

definition follows :: "status \<Rightarrow> status \<Rightarrow> bool" where
  "follows a b \<longleftrightarrow> a = b \<or> a = PENDING \<and> b \<in> {SENT, ACKNOWLEDGED, SUCCESS, FAILED} \<or>
     a = SENT \<and> b \<in> {ACKNOWLEDGED, SUCCESS, FAILED} \<or> a = ACKNOWLEDGED \<and> terminal b"

definition history_ok :: "expectation \<Rightarrow> db \<Rightarrow> bool" where
  "history_ok expected d \<longleftrightarrow> map cmd_id (commands d) = command_ids expected \<and>
     (\<forall>c \<in> set (commands d). follows (command_history expected (cmd_id c)) (cmd_status c))"

lemma history_ok_update:
  assumes "history_ok expected d" "distinct (map cmd_id (commands d))" "c \<in> set (commands d)"
    and "commands d' = update_where (\<lambda>r. cmd_id r = cmd_id c) f (commands d)"
    and "\<And>r. cmd_id (f r) = cmd_id r"
    and "\<And>a. follows a (cmd_status c) \<Longrightarrow> follows a (cmd_status (f c))"
  shows "history_ok expected d'"
proof -
  have "map cmd_id (commands d') = map cmd_id (commands d)"
    using assms(4,5) by (simp add: map_update_where)
  moreover have "follows (command_history expected (cmd_id r)) (cmd_status r)" if mem: "r \<in> set (commands d')" for r
  proof -
    obtain x where x: "x \<in> set (commands d)" "r = (if cmd_id x = cmd_id c then f x else x)"
      using mem unfolding assms(4) by (rule update_whereE)
    have old: "follows (command_history expected (cmd_id x)) (cmd_status x)"
      using assms(1) x(1) by (simp add: history_ok_def)
    show ?thesis
    proof (cases "cmd_id x = cmd_id c")
      case True
      then have "x = c" using distinct_key_eq [OF assms(2) x(1) assms(3)] by simp
      with x(2) old assms(5,6) show ?thesis by simp
    next
      case False
      with x(2) old show ?thesis by simp
    qed
  qed
  ultimately show ?thesis using assms(1) by (simp add: history_ok_def)
qed

definition system_ok :: "expectation \<Rightarrow> db \<Rightarrow> (seq \<Rightarrow> int) \<Rightarrow> bool" where
  "system_ok expected d sq \<longleftrightarrow> financial_ok expected d \<and> commands_ok d \<and> history_ok expected d \<and> sweepable sq d"

lemma sweepable_seqs_le: "sweepable sq d \<Longrightarrow> seqs_le sq sq' \<Longrightarrow> sweepable sq' d"
  by (auto simp: sweepable_def alarms_ok_def seqs_le_def intro: less_le_trans)

lemma system_ok_seqs_le: "system_ok expected d sq \<Longrightarrow> seqs_le sq sq' \<Longrightarrow> system_ok expected d sq'"
  by (auto simp: system_ok_def intro: sweepable_seqs_le)

text \<open>Transfer of the parts that a change does not touch.\<close>

lemma commands_ok_same:
  assumes "commands_ok d" "commands d' = commands d" "program_executions d' = program_executions d"
    "command_results d' = command_results d"
  shows "commands_ok d'"
  using assms by (simp add: commands_ok_def command_keys_def command_ok_def)

lemma history_ok_same: "history_ok expected d \<Longrightarrow> commands d' = commands d \<Longrightarrow> history_ok expected d'"
  by (simp add: history_ok_def)

lemma sweepable_same:
  assumes "sweepable sq d" "alarms d' = alarms d" "devices d' = devices d"
    "maintenance_windows d' = maintenance_windows d"
    "\<And>e. e \<in> set (program_executions d') \<Longrightarrow> exe_device_id e \<in> exe_device_id ` set (program_executions d)"
  shows "sweepable sq d'"
proof -
  have "has_key dev_id (devices d) (exe_device_id e)" if "e \<in> set (program_executions d')" for e
    using assms(1) assms(5) [OF that] by (auto simp: sweepable_def)
  then show ?thesis using assms(1-4) by (simp add: sweepable_def alarms_ok_def)
qed

lemma exe_device_update:
  assumes "\<And>e. exe_device_id (g e) = exe_device_id e" "e \<in> set (update_where P g es)"
  shows "exe_device_id e \<in> exe_device_id ` set es"
proof -
  have "exe_device_id ` set (update_where P g es) = exe_device_id ` set es"
    using map_update_where [of es P exe_device_id g] assms(1) by (metis list.set_map)
  with assms(2) show ?thesis by blast
qed

lemma exe_device_keeps [simp]:
  "exe_device_id (set_exe_status st e) = exe_device_id e"
  "exe_device_id (start_running now e) = exe_device_id e"
  "exe_device_id (complete_execution now st e) = exe_device_id e"
  by (simp_all add: set_exe_status_def start_running_def complete_execution_def)

section \<open>Every operation keeps the invariant\<close>

text \<open>An error before the commit, and a change of the tables.\<close>

lemma error_ok:
  assumes "system_ok expected (committed s) (seqs s)" "committed t = committed s" "seqs_le (seqs s) (seqs t)"
  shows "system_ok expected (committed t) (seqs t)"
  using assms system_ok_seqs_le by simp

lemma keeps_create_payment: "keeps (system_ok expected) (create_payment dg now device body key)"
  unfolding keeps_def
proof (intro allI impI)
  fix s :: session
  assume s: "working s = committed s" and ok: "system_ok expected (committed s) (seqs s)"
  show "wp (create_payment dg now device body key) (\<lambda>_ t. system_ok expected (committed t) (seqs t))
      (\<lambda>_ t. system_ok expected (committed t) (seqs t)) s"
  proof (rule create_payment_wpI)
    fix i stl sq' d' v
    assume pays: "pays dg now device body key (seqs s) (working s) i stl sq' d'"
    have "financial_ok expected d'"
      using financial_ok_pays [OF _ pays] ok s by (simp add: system_ok_def)
    moreover have "commands_ok d' \<and> history_ok expected d' \<and> sweepable sq' d'"
      using pays
    proof cases
      case (pays company bay program price d1)
      obtain qs ws where d1: "d1 = (working s)\<lparr>qr_codes := qs, rf_wallets := ws\<rparr>"
        using settles_frame [OF pays(6)] by blast
      have "commands_ok d'" by (rule commands_ok_same [of "committed s"]) (use ok s in \<open>simp_all add: system_ok_def pays d1\<close>)
      moreover have "sweepable (seqs s) d'"
        by (rule sweepable_same [of _ "committed s"]) (use ok s in \<open>simp_all add: system_ok_def pays d1\<close>)
      then have "sweepable sq' d'" using sweepable_seqs_le posted_seqs_le pays(2) by blast
      moreover have "history_ok expected d'"
        by (rule history_ok_same [of _ "committed s"]) (use ok s in \<open>simp_all add: system_ok_def pays d1\<close>)
      ultimately show ?thesis by simp
    qed
    ultimately show "system_ok expected (committed (s\<lparr>committed := d', working := d', seqs := sq'\<rparr>))
        (seqs (s\<lparr>committed := d', working := d', seqs := sq'\<rparr>))" by (simp add: system_ok_def)
  next
    fix e and t :: session
    assume "committed t = committed s" "seqs_le (seqs s) (seqs t)"
    then show "system_ok expected (committed t) (seqs t)" by (rule error_ok [OF ok])
  qed (use ok in simp)
qed

lemma history_ok_mark:
  assumes "history_ok expected d" "distinct (map cmd_id (commands d))" "row \<in> set (commands d)"
  shows "history_ok expected (mark_db now row d)"
proof (cases "cmd_status row = PENDING")
  case True
  show ?thesis
    by (rule history_ok_update [OF assms, where f = "mark_sent now"])
      (use True in \<open>auto simp: mark_db_def mark_sent_def follows_def terminal_def\<close>)
qed (use assms in \<open>simp add: mark_db_def\<close>)

lemma history_ok_mark_all:
  assumes "history_ok expected d" "distinct (map cmd_id (commands d))" "set rows \<subseteq> set (commands d)"
    "distinct (map cmd_id rows)"
  shows "history_ok expected (fold (mark_db now) rows d)"
  using assms
proof (induction rows arbitrary: d)
  case (Cons row rows)
  have "set rows \<subseteq> set (commands (mark_db now row d))"
    using Cons.prems by (auto intro!: mark_db_keeps_row simp: image_iff)
  moreover have "map cmd_id (commands (mark_db now row d)) = map cmd_id (commands d)"
    by (simp add: mark_db_def)
  ultimately show ?case using Cons by (simp add: history_ok_mark)
qed simp

lemma keeps_pending_commands: "keeps (system_ok expected) (pending_commands now device_id limit)"
  unfolding keeps_def wp_pending_commands Let_def
proof (intro allI impI)
  fix s :: session
  assume s: "working s = committed s" and ok: "system_ok expected (committed s) (seqs s)"
  let ?rows = "select_pending device_id limit (committed s)"
  let ?d = "fold (mark_db now) ?rows (committed s)"
  have keys: "command_keys (committed s)" using ok by (simp add: system_ok_def commands_ok_def)
  have "commands_ok ?d"
    by (rule commands_ok_mark_all)
      (use ok select_pending_rows [of device_id limit "committed s"] distinct_select_pending keys
        in \<open>auto simp: system_ok_def command_keys_def\<close>)
  moreover have "history_ok expected ?d"
    by (rule history_ok_mark_all)
      (use ok select_pending_rows [of device_id limit "committed s"] distinct_select_pending keys
        in \<open>auto simp: system_ok_def command_keys_def\<close>)
  moreover have step: "same_finances d (mark_db now row d) \<and> (sweepable sq d \<longrightarrow> sweepable sq (mark_db now row d))"
    for d sq row
  proof -
    have "sweepable sq (mark_db now row d)" if "sweepable sq d"
      by (rule sweepable_same [OF that])
        (auto simp: mark_db_def split: if_splits dest: exe_device_update [rotated])
    then show ?thesis by (simp add: same_finances_def mark_db_def)
  qed
  have all: "same_finances d (fold (mark_db now) rows d) \<and> (sweepable sq d \<longrightarrow> sweepable sq (fold (mark_db now) rows d))"
    for rows d sq
    by (induction rows arbitrary: d) (use step same_finances_trans in \<open>auto, blast+\<close>)
  ultimately show "system_ok expected
      (committed (s\<lparr>working := fold (mark_db now) (select_pending device_id limit (working s)) (working s),
         committed := fold (mark_db now) (select_pending device_id limit (working s)) (working s)\<rparr>))
      (seqs (s\<lparr>working := fold (mark_db now) (select_pending device_id limit (working s)) (working s),
         committed := fold (mark_db now) (select_pending device_id limit (working s)) (working s)\<rparr>))"
    using ok financial_ok_same [of expected "committed s" ?d] s by (simp add: system_ok_def)
qed

lemma keeps_acknowledge_command: "keeps (system_ok expected) (acknowledge_command now device_id command_id)"
  unfolding keeps_def
proof (intro allI impI)
  fix s :: session
  assume s: "working s = committed s" and ok: "system_ok expected (committed s) (seqs s)"
  have "system_ok expected (ack_db now c (committed s)) (seqs s)"
    if c: "find_command device_id command_id (committed s) = Some c" and st: "cmd_status c \<in> {PENDING, SENT}" for c
  proof -
    have "commands_ok (ack_db now c (committed s))"
      by (rule commands_ok_ack) (use ok st find_commandD [OF c] in \<open>simp_all add: system_ok_def\<close>)
    moreover have "history_ok expected (ack_db now c (committed s))"
      by (rule history_ok_update [where f = "acknowledge now" and d = "committed s" and c = c])
        (use ok st find_commandD [OF c] in \<open>auto simp: system_ok_def commands_ok_def command_keys_def ack_db_def
          acknowledge_def follows_def terminal_def\<close>)
    moreover have "sweepable (seqs s) (ack_db now c (committed s))"
      by (rule sweepable_same [of _ "committed s"])
        (use ok in \<open>auto simp: system_ok_def ack_db_def dest: exe_device_update [rotated]\<close>)
    moreover have "financial_ok expected (ack_db now c (committed s))"
      by (rule financial_ok_same [of _ "committed s"])
        (use ok in \<open>simp_all add: system_ok_def ack_db_def same_finances_def\<close>)
    ultimately show ?thesis by (simp add: system_ok_def)
  qed
  with ok s show "wp (acknowledge_command now device_id command_id)
      (\<lambda>_ t. system_ok expected (committed t) (seqs t)) (\<lambda>_ t. system_ok expected (committed t) (seqs t)) s"
    by (auto simp: wp_acknowledge_command Let_def split: option.splits)
qed

lemma keeps_command_result:
  "keeps (system_ok expected) (apply_command_result dg now device_id command_id result code message key)"
  unfolding keeps_def
proof (intro allI impI)
  fix s :: session
  assume s: "working s = committed s" and ok: "system_ok expected (committed s) (seqs s)"
  have store: "wp (store_result now device_id c result st code message key hash)
      (\<lambda>_ t. system_ok expected (committed t) (seqs t)) (\<lambda>_ t. system_ok expected (committed t) (seqs t)) s"
    if c: "find_command device_id command_id (committed s) = Some c" and st: "cmd_status c = ACKNOWLEDGED"
      and r: "st \<in> {SUCCESS, FAILED}" for c st hash
  proof (rule store_result_wpI [OF r])
    let ?d = "result_db now device_id c result st code message key hash (seqs s) (committed s)"
    assume ins: "insertable_result (working s)
      (result_row now (cmd_id c) key hash result st code message (seqs s ResultSeq))"
    have "commands_ok ?d"
      by (rule commands_ok_result)
        (use ok ins s r st find_commandD [OF c] in \<open>simp_all add: system_ok_def insertable_result_def result_row_def\<close>)
    moreover have "history_ok expected ?d"
      by (rule history_ok_update [where f = "complete_command now st code" and d = "committed s" and c = c])
        (use ok r st find_commandD [OF c] in \<open>auto simp: system_ok_def commands_ok_def command_keys_def result_db_def
          complete_command_def follows_def terminal_def\<close>)
    moreover have "sweepable (seqs s) ?d"
      by (rule sweepable_same [of _ "committed s"])
        (use ok in \<open>auto simp: system_ok_def result_db_def dest: exe_device_update [rotated]\<close>)
    then have "sweepable (bump EventSeq (bump ResultSeq (seqs s))) ?d"
      using sweepable_seqs_le seqs_le_bump by blast
    moreover have "financial_ok expected ?d"
      by (rule financial_ok_same [of _ "committed s"])
        (use ok in \<open>auto simp: system_ok_def result_db_def same_finances_def\<close>)
    ultimately show "system_ok expected (committed (let d = result_db now device_id c result st code message key hash (seqs s) (working s)
         in s\<lparr>working := d, committed := d, seqs := bump EventSeq (bump ResultSeq (seqs s))\<rparr>))
       (seqs (let d = result_db now device_id c result st code message key hash (seqs s) (working s)
         in s\<lparr>working := d, committed := d, seqs := bump EventSeq (bump ResultSeq (seqs s))\<rparr>))"
      using s by (simp add: system_ok_def Let_def)
  next
    fix e and t :: session
    assume "committed t = committed s" "seqs_le (seqs s) (seqs t)"
    then show "system_ok expected (committed t) (seqs t)" by (rule error_ok [OF ok])
  qed
  show "wp (apply_command_result dg now device_id command_id result code message key)
      (\<lambda>_ t. system_ok expected (committed t) (seqs t)) (\<lambda>_ t. system_ok expected (committed t) (seqs t)) s"
    using ok s store
    by (auto simp: apply_command_result_def wp_control Let_def split: option.splits dest: result_status_iff)
qed

lemma keeps_record_heartbeat: "keeps (system_ok expected) (record_heartbeat now device_id sequence app_version state)"
  unfolding keeps_def
proof (intro allI impI)
  fix s :: session
  assume s: "working s = committed s" and ok: "system_ok expected (committed s) (seqs s)"
  have same: "system_ok expected ((committed s)\<lparr>device_heartbeats := hs, device_current_states := cs\<rparr>) sq"
    if "seqs_le (seqs s) sq" for hs cs sq
  proof -
    let ?d = "(committed s)\<lparr>device_heartbeats := hs, device_current_states := cs\<rparr>"
    have "system_ok expected ?d (seqs s)"
      using ok financial_ok_same [of expected "committed s" ?d] commands_ok_same [of "committed s" ?d]
        history_ok_same [of expected "committed s" ?d] sweepable_same [of "seqs s" "committed s" ?d]
      by (simp add: system_ok_def same_finances_def)
    then show ?thesis using that by (rule system_ok_seqs_le)
  qed
  have le: "seqs_le (seqs s) ((seqs s)(HeartbeatSeq := seqs s HeartbeatSeq + 1))"
    by (simp add: seqs_le_def)
  show "wp (record_heartbeat now device_id sequence app_version state)
      (\<lambda>_ t. system_ok expected (committed t) (seqs t)) (\<lambda>_ t. system_ok expected (committed t) (seqs t)) s"
    using ok s same [OF le] system_ok_seqs_le [OF ok le]
    by (auto simp: record_heartbeat_def Let_def wp_rules)
qed

lemma keeps_sweep: "keeps (system_ok expected) (sweep_target_runtime now)"
  unfolding keeps_def
proof (intro allI impI)
  fix s :: session
  assume s: "working s = committed s" and ok: "system_ok expected (committed s) (seqs s)"
  then have sw: "sweepable (seqs s) (working s)" by (simp add: system_ok_def)
  let ?x = "swept now (seqs s, committed s)"
  obtain as where d: "snd ?x = (maintain now (committed s))\<lparr>alarms := as\<rparr>" using swept_rest [of now "(seqs s, committed s)"] by auto
  have "system_ok expected (snd ?x) (fst ?x)"
    using ok sweepable_swept [of "(seqs s, committed s)" now] financial_ok_same [of expected "committed s" "snd ?x"]
      commands_ok_same [of "committed s" "snd ?x"] history_ok_same [of expected "committed s" "snd ?x"]
    by (simp add: system_ok_def d same_finances_def maintain_def)
  then show "wp (sweep_target_runtime now) (\<lambda>_ t. system_ok expected (committed t) (seqs t))
      (\<lambda>_ t. system_ok expected (committed t) (seqs t)) s"
    using s by (simp add: wp_sweep [OF sw] Let_def)
qed

interpretation good: service_invariant "system_ok expected" for expected
  by unfold_locales
    (rule keeps_create_payment keeps_pending_commands keeps_acknowledge_command keeps_command_result
      keeps_record_heartbeat keeps_sweep)+

lemmas reaches_ok = good.reaches_invariant

end
