(* ===== verification/Hard_Gate.thy ===== *)
theory Hard_Gate
  imports Invariants
begin

text \<open>
  \<open>hard_gate\<close> of \<open>scripts/correctness_driver.py\<close>: the queries the project runs after a
  correctness run and which must all count zero; a database that satisfies \<open>system_ok\<close> passes.
\<close>

section \<open>The queries\<close>

text \<open>\<open>SELECT count(*) FROM (SELECT ... GROUP BY ... HAVING ...)\<close>\<close>

definition count_groups :: "('k \<Rightarrow> bool) \<Rightarrow> 'k list \<Rightarrow> int" where
  "count_groups having keys = int (length (filter having (remdups keys)))"

definition by_key :: "int \<times> string \<Rightarrow> db \<Rightarrow> payment_transaction list" where
  "by_key k d = filter (\<lambda>p. (pay_device_id p, pay_idempotency_key p) = k) (payment_transactions d)"

definition duplicate_successful_payment :: "db \<Rightarrow> int" where
  "duplicate_successful_payment d =
     count_groups (\<lambda>k. 1 < length (filter (\<lambda>p. pay_status p = SUCCESS) (by_key k d))) (payment_keys d)"

definition qr_double_redemption :: "db \<Rightarrow> int" where
  "qr_double_redemption d = int (length (filter (\<lambda>q. qr_usage_limit q < qr_usage_count q) (qr_codes d)))"

definition negative_wallet :: "db \<Rightarrow> int" where
  "negative_wallet d = int (length (filter (\<lambda>w. wal_balance_minor w < 0) (rf_wallets d)))"

definition duplicate_ledger_debit :: "db \<Rightarrow> int" where
  "duplicate_ledger_debit d =
     count_groups (\<lambda>k. 1 < length (filter (\<lambda>l. led_payment_id l = k) (payment_debits d)))
       (map led_payment_id (payment_debits d))"

definition idempotency_mismatch :: "db \<Rightarrow> int" where
  "idempotency_mismatch d =
     count_groups (\<lambda>k. 1 < length (remdups (map pay_request_hash (by_key k d)))) (payment_keys d)"

definition illegal_command_state_transition :: "db \<Rightarrow> int" where
  "illegal_command_state_transition d =
     int (length [c. c \<leftarrow> commands d, e \<leftarrow> program_executions d,
        exe_id e = cmd_program_execution_id c \<and> cmd_status c \<in> {SUCCESS, FAILED} \<and>
        exe_status e \<noteq> cmd_status c])"

definition corr_payment :: "payment_transaction \<Rightarrow> bool" where
  "corr_payment p \<longleftrightarrow> startswith ''corr-'' (pay_idempotency_key p)"

definition partial_committed_financial_state :: "db \<Rightarrow> int" where
  "partial_committed_financial_state d =
     int (length (filter (\<lambda>p. corr_payment p \<and>
        (pay_status p = SUCCESS \<and> \<not> (\<exists>r \<in> set (start_rights d). sr_payment_id r = pay_id p) \<or>
         pay_status p = SUCCESS \<and> pay_method p = ''RF_CARD'' \<and>
           \<not> (\<exists>l \<in> set (rf_wallet_ledger d). led_payment_id l = Some (pay_id p) \<and> led_direction l = DEBIT)))
        (payment_transactions d)))"

definition hard_gate :: "db \<Rightarrow> (string \<times> int) list" where
  "hard_gate d =
     [(''duplicate_successful_payment'', duplicate_successful_payment d),
      (''qr_double_redemption'', qr_double_redemption d),
      (''rf_double_spend'', negative_wallet d),
      (''negative_wallet'', negative_wallet d),
      (''duplicate_ledger_debit'', duplicate_ledger_debit d),
      (''idempotency_mismatch'', idempotency_mismatch d),
      (''illegal_command_state_transition'', illegal_command_state_transition d),
      (''partial_committed_financial_state'', partial_committed_financial_state d)]"

section \<open>A good database passes\<close>

lemma filter_key_short: "distinct (map k xs) \<Longrightarrow> length (filter (\<lambda>x. k x = a) xs) \<le> 1"
  by (induction xs) (auto simp: filter_empty_conv image_iff)

lemma count_groups_0: "(\<And>k. \<not> having k) \<Longrightarrow> count_groups having keys = 0"
  by (simp add: count_groups_def)

lemma by_key_short: "distinct (payment_keys d) \<Longrightarrow> length (by_key k d) \<le> 1"
  unfolding by_key_def payment_keys_def by (rule filter_key_short)

lemma hard_gate_zero:
  assumes ok: "system_ok expected d sq" and all: "\<And>p. corr_payment p \<Longrightarrow> must_be_complete expected p"
  shows "\<forall>(name, n) \<in> set (hard_gate d). n = 0"
proof -
  have f: "financial_ok expected d" and c: "commands_ok d" using ok by (simp_all add: system_ok_def)
  have short: "length (by_key k d) \<le> 1" for k
    using f by (intro by_key_short) (simp add: financial_ok_def)
  have 1: "duplicate_successful_payment d = 0"
    unfolding duplicate_successful_payment_def
  proof (rule count_groups_0)
    show "\<not> 1 < length (filter (\<lambda>p. pay_status p = SUCCESS) (by_key k d))" for k
      using short [of k] length_filter_le [of "\<lambda>p. pay_status p = SUCCESS" "by_key k d"] by linarith
  qed
  have 2: "idempotency_mismatch d = 0"
    unfolding idempotency_mismatch_def
  proof (rule count_groups_0)
    show "\<not> 1 < length (remdups (map pay_request_hash (by_key k d)))" for k
      using short [of k] length_remdups_leq [of "map pay_request_hash (by_key k d)"] by simp
  qed
  have 3: "qr_double_redemption d = 0" "negative_wallet d = 0"
    using f by (auto simp: qr_double_redemption_def negative_wallet_def financial_ok_def
        check_qr_code_def check_rf_wallet_def filter_empty_conv)
  have 4: "duplicate_ledger_debit d = 0"
    unfolding duplicate_ledger_debit_def
  proof (rule count_groups_0)
    have "distinct (map led_payment_id (payment_debits d))" using f by (simp add: financial_ok_def)
    from filter_key_short [OF this]
    show "\<not> 1 < length (filter (\<lambda>l. led_payment_id l = k) (payment_debits d))" for k
      by (simp add: not_less)
  qed
  have 5: "illegal_command_state_transition d = 0"
    using c by (auto simp: illegal_command_state_transition_def commands_ok_def command_ok_def terminal_def)
  have 6: "partial_committed_financial_state d = 0"
    using f all by (fastforce simp: partial_committed_financial_state_def financial_ok_def complete_def filter_empty_conv)
  show ?thesis by (simp add: hard_gate_def 1 2 3 4 5 6)
qed

end
