(* ===== verification/Command_Properties.thy ===== *)
theory Command_Properties
  imports Command_Facts Request_Hash Fixture
begin

text \<open>
  The properties of the command endpoints as one request sees them: what a poll returns, the
  two deadlines, retries of acknowledgements and of results, and two weaknesses: the text
  hashed for a result does not determine the result, and a poll that works on rows read
  before another request committed sets a command back.
\<close>

section \<open>Polling\<close>

definition command_before :: "command \<Rightarrow> command \<Rightarrow> bool" where
  "command_before a b \<longleftrightarrow> cmd_created_at a < cmd_created_at b \<or>
     cmd_created_at a = cmd_created_at b \<and> cmd_id a \<le> cmd_id b"

lemma lex_sorted:
  fixes f g :: "'a \<Rightarrow> int"
  assumes "sorted (map f ys)" "\<And>k. sorted (map g (filter (\<lambda>y. f y = k) ys))"
  shows "sorted_wrt (\<lambda>a b. f a < f b \<or> f a = f b \<and> g a \<le> g b) ys"
  using assms
proof (induction ys)
  case (Cons y ys)
  have g: "g y \<le> g z" if "z \<in> set ys" "f z = f y" for z
    using Cons.prems(2) [of "f y"] that by auto
  have "sorted (map g (filter (\<lambda>y. f y = k) ys))" for k
    using Cons.prems(2) [of k] by (simp split: if_splits)
  with Cons have "sorted_wrt (\<lambda>a b. f a < f b \<or> f a = f b \<and> g a \<le> g b) ys" by simp
  moreover have "f y < f z \<or> f y = f z \<and> g y \<le> g z" if "z \<in> set ys" for z
    using Cons.prems(1) g [OF that] that by fastforce
  ultimately show ?case by simp
qed simp

lemma sort_before:
  "sorted_wrt command_before
     (sort_key cmd_created_at (sort_key cmd_id (filter (pollable device_id) (commands d))))"
proof -
  let ?xs = "sort_key cmd_id (filter (pollable device_id) (commands d))"
  have "sorted (map cmd_id (filter (\<lambda>y. cmd_created_at y = k) (sort_key cmd_created_at ?xs)))" for k
    by (simp add: sort_key_stable sorted_filter)
  then show ?thesis
    unfolding command_before_def [abs_def] by (intro lex_sorted) simp_all
qed

lemma select_pending_sorted: "sorted_wrt command_before (select_pending device_id limit d)"
  unfolding select_pending_def by (rule sorted_wrt_take [OF sort_before])

lemma select_pending_length:
  "length (select_pending device_id limit d) = min (nat limit) (length (filter (pollable device_id) (commands d)))"
  by (simp add: select_pending_def)

definition poll :: "timestamp \<Rightarrow> int \<Rightarrow> int \<Rightarrow> command_item list op" where
  "poll now device_id limit = with_session (pending_commands now device_id limit)"

lemma poll_eq:
  "poll now device_id limit s =
     (let rows = select_pending device_id limit (committed s); d = fold (mark_db now) rows (committed s)
      in (Inr (map (command_item \<circ> sent_row now) rows), s\<lparr>committed := d, working := d\<rparr>))"
proof -
  have "wp (pending_commands now device_id limit)
      (\<lambda>r t. r = map (command_item \<circ> sent_row now) (select_pending device_id limit (committed s)) \<and>
         t = (let d = fold (mark_db now) (select_pending device_id limit (committed s)) (committed s)
              in s\<lparr>committed := d, working := d\<rparr>)) (\<lambda>_ _. False) (s\<lparr>working := committed s\<rparr>)"
    by (simp add: wp_pending_commands Let_def)
  then show ?thesis
    by (auto simp: poll_def with_session_def wp_def Let_def split: prod.splits sum.splits)
qed

lemma mark_db_row:
  assumes "distinct (map cmd_id (commands d))" "c \<in> set (commands d)"
  shows "sent_row now c \<in> set (commands (mark_db now c d))"
  using assms by (force simp: mark_db_def sent_row_def update_where_def)

lemma mark_all_other:
  "c \<in> set (commands d) \<Longrightarrow> cmd_id c \<notin> cmd_id ` set rows \<Longrightarrow> c \<in> set (commands (fold (mark_db now) rows d))"
  by (induction rows arbitrary: d) (auto simp: mark_db_keeps_row)

lemma mark_all_rows:
  assumes "distinct (map cmd_id (commands d))" "set rows \<subseteq> set (commands d)" "distinct (map cmd_id rows)"
    and "c \<in> set rows"
  shows "sent_row now c \<in> set (commands (fold (mark_db now) rows d))"
  using assms
proof (induction rows arbitrary: d)
  case (Cons row rows)
  have ids: "map cmd_id (commands (mark_db now row d)) = map cmd_id (commands d)" by (simp add: mark_db_def)
  have rest: "set rows \<subseteq> set (commands (mark_db now row d))"
    using Cons.prems by (auto intro!: mark_db_keeps_row simp: image_iff)
  show ?case
  proof (cases "c = row")
    case True
    have "sent_row now row \<in> set (commands (mark_db now row d))" using Cons.prems by (intro mark_db_row) auto
    moreover have "cmd_id (sent_row now row) \<notin> cmd_id ` set rows"
      using Cons.prems(3) by (simp add: sent_row_def mark_sent_def)
    ultimately show ?thesis using True mark_all_other by simp
  next
    case False
    with Cons.prems rest ids Cons.IH [of "mark_db now row d"] show ?thesis by simp
  qed
qed simp

lemma sorted_wrt_take_before:
  "sorted_wrt R xs \<Longrightarrow> r \<in> set (take n xs) \<Longrightarrow> c \<in> set xs \<Longrightarrow> c \<notin> set (take n xs) \<Longrightarrow> R r c"
  by (metis Un_iff append_take_drop_id set_append sorted_wrt_append)

lemma select_pending_before:
  assumes "c \<in> set (commands d)" "pollable device_id c" "c \<notin> set (select_pending device_id limit d)"
    and "r \<in> set (select_pending device_id limit d)"
  shows "command_before r c"
  by (rule sorted_wrt_take_before [OF sort_before [of device_id d]])
    (use assms in \<open>simp_all add: select_pending_def\<close>)

text \<open>
  C24. A poll answers with the oldest open commands of the device, at most \<open>limit\<close> of them:
  they come in order of creation (ties by id), none is left out while a younger one is
  returned, each is marked as sent exactly if it was pending, and no other command changes.
\<close>

theorem poll_returns_oldest:
  assumes "distinct (map cmd_id (commands (committed s)))" "0 \<le> limit" "poll now device_id limit s = (r, t)"
  shows "\<exists>rows. r = Inr (map (command_item \<circ> sent_row now) rows) \<and>
    distinct (map cmd_id rows) \<and> sorted_wrt command_before rows \<and>
    (\<forall>c \<in> set rows. c \<in> set (commands (committed s)) \<and> pollable device_id c) \<and>
    int (length rows) = min limit (int (length (filter (pollable device_id) (commands (committed s))))) \<and>
    (\<forall>c \<in> set (commands (committed s)). if c \<in> set rows then sent_row now c \<in> set (commands (committed t))
       else c \<in> set (commands (committed t)) \<and>
         (pollable device_id c \<longrightarrow> (\<forall>row \<in> set rows. command_before row c)))"
proof -
  let ?d = "committed s" and ?rows = "select_pending device_id limit (committed s)"
  have r: "r = Inr (map (command_item \<circ> sent_row now) ?rows)"
    and t: "committed t = fold (mark_db now) ?rows ?d"
    using assms(3) by (auto simp: poll_eq Let_def)
  have dist: "distinct (map cmd_id ?rows)" by (rule distinct_select_pending [OF assms(1)])
  have rows: "\<forall>c \<in> set ?rows. c \<in> set (commands ?d) \<and> pollable device_id c"
    using select_pending_rows by blast
  have other: "c \<in> set (commands (committed t))" if "c \<in> set (commands ?d)" "c \<notin> set ?rows" for c
  proof -
    have "cmd_id c \<notin> cmd_id ` set ?rows"
      using that rows distinct_key_eq [OF assms(1)] by blast
    then show ?thesis unfolding t by (rule mark_all_other [OF that(1)])
  qed
  have "sent_row now c \<in> set (commands (committed t))" if "c \<in> set ?rows" for c
    unfolding t using assms(1) rows dist that by (intro mark_all_rows) auto
  moreover have "int (length ?rows) = min limit (int (length (filter (pollable device_id) (commands ?d))))"
    using assms(2) by (simp add: select_pending_length)
  ultimately show ?thesis
    using r dist rows other select_pending_sorted select_pending_before by (intro exI [of _ ?rows]) auto
qed

lemma poll_returns_oldest_witness:
  "\<exists>items t. poll 5 1 20 demo = (Inr items, t) \<and>
     (\<exists>rows. items = map (command_item \<circ> sent_row 5) rows \<and> int (length rows) = 1)"
proof -
  obtain r t where rt: "poll 5 1 20 demo = (r, t)" by (cases "poll 5 1 20 demo")
  have "distinct (map cmd_id (commands (committed demo)))"
    and "filter (pollable 1) (commands (committed demo)) = [demo_command]" by code_simp+
  with poll_returns_oldest [OF _ _ rt] rt show ?thesis by auto
qed

section \<open>Acknowledgements\<close>

definition ack_request :: "timestamp \<Rightarrow> int \<Rightarrow> int \<Rightarrow> (string \<times> status) op" where
  "ack_request now device_id command_id = with_session (acknowledge_command now device_id command_id)"

lemma with_session_wp:
  assumes "wp m (\<lambda>a t. R (Inr a) (t\<lparr>working := committed t\<rparr>)) (\<lambda>e t. R (Inl e) (rollback t)) (s\<lparr>working := committed s\<rparr>)"
    and "with_session m s = (r, t)"
  shows "R r t"
  using assms by (auto simp: with_session_def wp_def split: prod.splits sum.splits)

lemma ack_cases:
  assumes "ack_request now device_id command_id s = (r, t)"
  shows "case find_command device_id command_id (committed s) of
      None \<Rightarrow> r = Inl COMMAND_NOT_FOUND \<and> committed t = committed s
    | Some c \<Rightarrow>
        if cmd_status c \<in> {PENDING, SENT}
        then (if cmd_created_at c \<le> now - seconds 30
              then r = Inl (conflict ''COMMAND_EXPIRED'') \<and> committed t = committed s
              else r = Inr (int_dec command_id, ACKNOWLEDGED) \<and> committed t = ack_db now c (committed s))
        else if cmd_status c \<in> {ACKNOWLEDGED, SUCCESS, FAILED}
        then r = Inr (int_dec command_id, cmd_status c) \<and> committed t = committed s
        else r = Inl (conflict ''COMMAND_NOT_ACKNOWLEDGEABLE'') \<and> committed t = committed s"
  by (rule with_session_wp [OF _ assms [unfolded ack_request_def]])
    (simp add: wp_acknowledge_command Let_def rollback_def split: option.splits)

lemma find_command_ack:
  assumes "find_command device_id command_id d = Some c"
  shows "find_command device_id command_id (ack_db now c d) = Some (acknowledge now c)"
proof -
  note c = find_commandD [OF assms]
  have "find_command device_id command_id (ack_db now c d) =
      map_option (\<lambda>r. if cmd_id r = cmd_id c then acknowledge now r else r) (find_command device_id command_id d)"
    unfolding find_command_def ack_db_def by (simp add: find_update_where acknowledge_def)
  with assms show ?thesis by simp
qed

lemma start_running_all:
  "\<forall>e \<in> set (program_executions (ack_db now c d)). exe_id e = cmd_program_execution_id c \<longrightarrow>
     exe_status e = RUNNING \<and> exe_started_at e = Some now"
  by (auto simp: ack_db_def start_running_def elim!: update_whereE)

text \<open>
  C25. The acknowledgement deadline is 30 seconds after the command was created, exactly: an
  open command is acknowledged before it, with its execution running, and refused from
  then on without any change.
\<close>

theorem acknowledge_deadline:
  assumes "find_command device_id command_id (committed s) = Some c" "cmd_status c \<in> {PENDING, SENT}"
    and "ack_request now device_id command_id s = (r, t)"
  shows "if now < cmd_created_at c + seconds 30
    then r = Inr (int_dec command_id, ACKNOWLEDGED) \<and>
      find_command device_id command_id (committed t) =
        Some (c\<lparr>cmd_status := ACKNOWLEDGED, cmd_acknowledged_at := Some now\<rparr>) \<and>
      (\<forall>e \<in> set (program_executions (committed t)). exe_id e = cmd_program_execution_id c \<longrightarrow>
         exe_status e = RUNNING \<and> exe_started_at e = Some now)
    else r = Inl (conflict ''COMMAND_EXPIRED'') \<and> committed t = committed s"
proof (cases "now < cmd_created_at c + seconds 30")
  case True
  then have "\<not> cmd_created_at c \<le> now - seconds 30" by simp
  then have "r = Inr (int_dec command_id, ACKNOWLEDGED)" "committed t = ack_db now c (committed s)"
    using ack_cases [OF assms(3)] assms(1,2) by (auto split: if_splits)
  with True find_command_ack [OF assms(1)] start_running_all show ?thesis
    by (simp add: acknowledge_def)
next
  case False
  then show ?thesis using ack_cases [OF assms(3)] assms(1,2) by (auto split: if_splits)
qed

lemma acknowledge_deadline_witness:
  "fst (ack_request (seconds 30 - 1) 1 1 demo) = Inr (''1'', ACKNOWLEDGED) \<and>
   fst (ack_request (seconds 30) 1 1 demo) = Inl (conflict ''COMMAND_EXPIRED'')"
proof -
  have c: "find_command 1 1 (committed demo) = Some demo_command" "cmd_created_at demo_command = 0"
    "cmd_status demo_command \<in> {PENDING, SENT}" "int_dec 1 = ''1''" by code_simp+
  show ?thesis
    using acknowledge_deadline [OF c(1,3) prod.collapse [symmetric], of "seconds 30 - 1"]
      acknowledge_deadline [OF c(1,3) prod.collapse [symmetric], of "seconds 30"] c(2,4) by simp
qed

text \<open>
  Acknowledging is idempotent: once it succeeded, repeating it at any time, even after
  the deadline, gives the same answer and changes nothing.
\<close>

theorem acknowledge_retry:
  assumes "ack_request now device_id command_id s = (Inr a, t)"
  shows "fst (ack_request now' device_id command_id t) = Inr a \<and>
    committed (snd (ack_request now' device_id command_id t)) = committed t"
proof -
  obtain c where c: "find_command device_id command_id (committed s) = Some c"
    using ack_cases [OF assms] by (cases "find_command device_id command_id (committed s)") auto
  obtain r u where ru: "ack_request now' device_id command_id t = (r, u)"
    by (cases "ack_request now' device_id command_id t")
  show ?thesis
    using ack_cases [OF assms] ack_cases [OF ru] find_command_ack [OF c] c ru
    by (auto simp: acknowledge_def split: if_splits)
qed

lemma acknowledge_retry_witness:
  "\<exists>t. ack_request 0 1 1 demo = (Inr (''1'', ACKNOWLEDGED), t) \<and>
     fst (ack_request (days 1) 1 1 t) = Inr (''1'', ACKNOWLEDGED)"
proof -
  have "fst (ack_request 0 1 1 demo) = Inr (''1'', ACKNOWLEDGED)" by code_simp
  then obtain t where "ack_request 0 1 1 demo = (Inr (''1'', ACKNOWLEDGED), t)"
    by (cases "ack_request 0 1 1 demo") simp
  with acknowledge_retry [OF this] show ?thesis by blast
qed

section \<open>Results\<close>

definition result_request ::
  "digests \<Rightarrow> timestamp \<Rightarrow> int \<Rightarrow> int \<Rightarrow> string \<Rightarrow> string option \<Rightarrow> string option \<Rightarrow> string \<Rightarrow> result_payload op" where
  "result_request dg now device_id command_id result code message key =
     with_session (apply_command_result dg now device_id command_id result code message key)"

definition stored_result :: "int \<Rightarrow> db \<Rightarrow> command_result option" where
  "stored_result command_id d = List.find (\<lambda>r. res_command_id r = command_id) (command_results d)"

lemma wp_result_replay:
  assumes "result_status result = Some st" "find_command device_id command_id (working s) = Some c"
    and "stored_result command_id (working s) = Some r"
  shows "wp (apply_command_result dg now device_id command_id result code message key) Q E s =
    (if res_result_key r = key \<and> res_request_hash r = result_hash dg result code message
     then Q \<lparr>rp_id = int_dec command_id, rp_status = res_status r, rp_result_code = res_code r\<rparr> s
     else E (conflict ''IDEMPOTENCY_CONFLICT'') s)"
  using assms find_commandD(2) [OF assms(2)]
  by (simp add: apply_command_result_def wp_rules Let_def stored_result_def)

text \<open>What a successful report leaves behind.\<close>

lemma wp_result_success:
  assumes post: "\<And>st c. result_status result = Some st \<Longrightarrow> find_command device_id command_id (working s) = Some c \<Longrightarrow>
      stored_result command_id (working s) = None \<Longrightarrow> cmd_status c = ACKNOWLEDGED \<Longrightarrow> \<not> result_expired now c \<Longrightarrow>
      Q \<lparr>rp_id = int_dec command_id, rp_status = st, rp_result_code = code\<rparr>
        (let d = result_db now device_id c result st code message key (result_hash dg result code message)
               (seqs s) (working s)
         in s\<lparr>working := d, committed := d, seqs := bump EventSeq (bump ResultSeq (seqs s))\<rparr>)"
    and replay: "\<And>st c r. result_status result = Some st \<Longrightarrow> find_command device_id command_id (working s) = Some c \<Longrightarrow>
      stored_result command_id (working s) = Some r \<Longrightarrow> res_result_key r = key \<Longrightarrow>
      res_request_hash r = result_hash dg result code message \<Longrightarrow>
      Q \<lparr>rp_id = int_dec command_id, rp_status = res_status r, rp_result_code = res_code r\<rparr> s"
    and err: "\<And>e t. committed t = committed s \<Longrightarrow> E e t"
  shows "wp (apply_command_result dg now device_id command_id result code message key) Q E s"
proof (cases "result_status result")
  case None
  then show ?thesis using err by (simp add: apply_command_result_def wp_rules)
next
  case st: (Some st)
  show ?thesis
  proof (cases "find_command device_id command_id (working s)")
    case None
    then show ?thesis using err st by (simp add: apply_command_result_def wp_rules)
  next
    case c: (Some c)
    show ?thesis
    proof (cases "stored_result command_id (working s)")
      case None
      have "wp (store_result now device_id c result st code message key (result_hash dg result code message)) Q E s"
        if "cmd_status c = ACKNOWLEDGED" "\<not> result_expired now c"
        by (rule store_result_wpI)
          (use result_status_iff [OF st] post [OF st c None that] find_commandD(2) [OF c] err in auto)
      with None st c err show ?thesis
        by (simp add: apply_command_result_def wp_control Let_def stored_result_def)
    next
      case (Some r)
      with st c replay err show ?thesis by (simp add: wp_result_replay)
    qed
  qed
qed

text \<open>A request on a command that already has its result.\<close>

lemma result_again:
  assumes "result_status result = Some st" "find_command device_id command_id (committed s) = Some c"
    and "stored_result command_id (committed s) = Some row"
    and "result_request dg now device_id command_id result code message key s = (r, t)"
  shows "committed t = committed s \<and>
    r = (if res_result_key row = key \<and> res_request_hash row = result_hash dg result code message
         then Inr \<lparr>rp_id = int_dec command_id, rp_status = res_status row, rp_result_code = res_code row\<rparr>
         else Inl (conflict ''IDEMPOTENCY_CONFLICT''))"
  by (rule with_session_wp [OF _ assms(4) [unfolded result_request_def]])
    (use assms(1-3) in \<open>simp add: wp_result_replay rollback_def\<close>)

text \<open>After a successful report the command has its result, whichever request stored it.\<close>

lemma result_leaves_row:
  assumes "result_request dg now device_id command_id result code message key s = (Inr v, t)"
  shows "\<exists>c row. find_command device_id command_id (committed t) = Some c \<and>
    stored_result command_id (committed t) = Some row \<and> res_result_key row = key \<and>
    res_request_hash row = result_hash dg result code message \<and>
    v = \<lparr>rp_id = int_dec command_id, rp_status = res_status row, rp_result_code = res_code row\<rparr>"
proof -
  have "\<forall>w. Inr v = (Inr w :: exn + result_payload) \<longrightarrow> (\<exists>c row. find_command device_id command_id (committed t) = Some c \<and>
    stored_result command_id (committed t) = Some row \<and> res_result_key row = key \<and>
    res_request_hash row = result_hash dg result code message \<and>
    w = \<lparr>rp_id = int_dec command_id, rp_status = res_status row, rp_result_code = res_code row\<rparr>)"
  proof (rule with_session_wp [OF _ assms [unfolded result_request_def]], rule wp_result_success, goal_cases)
    case (1 st c)
    let ?d = "result_db now device_id c result st code message key (result_hash dg result code message)
        (seqs s) (committed s)"
    have id: "cmd_id c = command_id" using 1(2) by (simp add: find_commandD(2))
    have "find_command device_id command_id ?d =
        map_option (\<lambda>r. if cmd_id r = cmd_id c then complete_command now st code r else r)
          (find_command device_id command_id (committed s))"
      unfolding find_command_def result_db_def by (simp add: find_update_where complete_command_def)
    moreover have "stored_result command_id ?d =
        Some (result_row now (cmd_id c) key (result_hash dg result code message) result st code message
          (seqs s ResultSeq))"
      using 1(3) id by (simp add: stored_result_def result_db_def find_append result_row_def)
    ultimately show ?case
      using 1(2) by (simp add: Let_def result_row_def)
  next
    case (2 st c r)
    then show ?case by auto
  qed simp
  then show ?thesis by simp
qed

text \<open>
  C26. What a second report of a command's result is answered: the first answer again if key
  and hashed text are the same, a conflict otherwise, and nothing changes, at any time.
\<close>

theorem result_replay:
  assumes "result_request dg now device_id command_id result code message key s = (Inr v, t)"
    and "inj (hmac_sha256_hex dg (encode CSRF_SECRET))" "result_status result' \<noteq> None"
    and "result_request dg now' device_id command_id result' code' message' key' t = (r, u)"
  shows "committed u = committed t \<and>
    r = (if key' = key \<and> result_text result' code' message' = result_text result code message then Inr v
         else Inl (conflict ''IDEMPOTENCY_CONFLICT''))"
proof -
  obtain c row where t: "find_command device_id command_id (committed t) = Some c"
      "stored_result command_id (committed t) = Some row"
    and row: "res_result_key row = key" "res_request_hash row = result_hash dg result code message"
    and v: "v = \<lparr>rp_id = int_dec command_id, rp_status = res_status row, rp_result_code = res_code row\<rparr>"
    using result_leaves_row [OF assms(1)] by blast
  have hash: "result_hash dg result code message = result_hash dg result' code' message' \<longleftrightarrow>
      result_text result' code' message' = result_text result code message"
    by (auto simp: result_hash_def inj_eq [OF assms(2)])
  obtain st where "result_status result' = Some st" using assms(3) by blast
  from result_again [OF this t assms(4)] show ?thesis
    unfolding row v hash by (simp add: eq_commute [of key'])
qed

text \<open>An acknowledged command, and two reports that differ and are taken for the same.\<close>

definition demo_acked :: session where
  "demo_acked = snd (ack_request 0 1 1 demo)"

lemma demo_reports:
  "fst (result_request demo_digests 1 1 1 ''SUCCESS'' None None demo_key demo_acked) =
     Inr \<lparr>rp_id = ''1'', rp_status = SUCCESS, rp_result_code = None\<rparr>"
  by code_simp

lemma inj_demo_digests: "inj (hmac_sha256_hex demo_digests k)"
  by (simp add: demo_digests_def)

lemma result_replay_witness:
  "\<exists>t. result_request demo_digests 1 1 1 ''SUCCESS'' None None demo_key demo_acked =
     (Inr \<lparr>rp_id = ''1'', rp_status = SUCCESS, rp_result_code = None\<rparr>, t) \<and>
   fst (result_request demo_digests 2 1 1 ''FAILED'' None None demo_key t) =
     Inl (conflict ''IDEMPOTENCY_CONFLICT'')"
proof -
  obtain t where t: "result_request demo_digests 1 1 1 ''SUCCESS'' None None demo_key demo_acked =
      (Inr \<lparr>rp_id = ''1'', rp_status = SUCCESS, rp_result_code = None\<rparr>, t)"
    using demo_reports by (metis prod.collapse)
  have "result_text ''FAILED'' None None \<noteq> result_text ''SUCCESS'' None None" "result_status ''FAILED'' \<noteq> None"
    by code_simp+
  with result_replay [OF t inj_demo_digests _ prod.collapse [symmetric], of "''FAILED''"] t
  show ?thesis by simp
qed

section \<open>The text of a result\<close>

lemma py_str_opt_inject:
  "a \<noteq> Some ''None'' \<Longrightarrow> b \<noteq> Some ''None'' \<Longrightarrow> py_str_opt a = py_str_opt b \<longleftrightarrow> a = b"
  by (auto simp: py_str_opt_def split: option.splits)

lemma colon_split:
  assumes "CHR '':'' \<notin> set a" "CHR '':'' \<notin> set b"
  shows "a @ CHR '':'' # x = b @ CHR '':'' # y \<longleftrightarrow> a = b \<and> x = y"
  using assms
proof (induction a arbitrary: b)
  case Nil
  then show ?case by (cases b) auto
next
  case (Cons c a)
  then show ?case by (cases b) auto
qed

text \<open>
  C27. The text hashed for a result determines the result as long as no code contains a
  colon and no code or message is the word \<open>None\<close>.
\<close>

theorem result_text_faithful:
  assumes "result_status result \<noteq> None" "result_status result' \<noteq> None"
    and "\<forall>x \<in> {code, code'}. x \<noteq> Some ''None'' \<and> CHR '':'' \<notin> set (py_str_opt x)"
    and "\<forall>x \<in> {message, message'}. x \<noteq> Some ''None''"
  shows "result_text result code message = result_text result' code' message' \<longleftrightarrow>
    result = result' \<and> code = code' \<and> message = message'"
proof -
  have "CHR '':'' \<notin> set r" if "result_status r \<noteq> None" for r
    using that by (auto simp: result_status_def split: if_splits)
  then have "result_text result code message = result_text result' code' message' \<longleftrightarrow>
      result = result' \<and> py_str_opt code = py_str_opt code' \<and> py_str_opt message = py_str_opt message'"
    using assms(1-3) by (simp add: result_text_def colon_split)
  then show ?thesis
    using assms(3,4) by (simp add: py_str_opt_inject)
qed

lemma result_text_faithful_witness:
  "result_text ''FAILED'' (Some ''HW'') None \<noteq> result_text ''FAILED'' None (Some ''HW'')"
  using result_text_faithful [of "''FAILED''" "''FAILED''" "Some ''HW''" None None "Some ''HW''"]
  by (simp add: result_status_def py_str_opt_def)

text \<open>
  C28. Outside those bounds the text is ambiguous, and a different report is answered as a
  repetition: a code moved over a colon into the message, or the word \<open>None\<close> for an absent
  code, is accepted under the same key and the answer carries the code of the first report.
\<close>

theorem result_ambiguity:
  assumes "result_request dg now device_id command_id result code message key s = (Inr v, t)"
    and "(code, message) = (Some (a @ '':'' @ b), Some m) \<and> (code', message') = (Some a, Some (b @ '':'' @ m)) \<or>
      (code, message) = (None, message') \<and> code' = Some ''None''"
  shows "fst (result_request dg now' device_id command_id result code' message' key t) = Inr v"
proof -
  have same: "result_text result code' message' = result_text result code message"
    using assms(2) by (auto simp: result_text_def py_str_opt_def)
  obtain st where st: "result_status result = Some st"
    using assms(1) by (cases "result_status result")
      (auto simp: result_request_def with_session_def apply_command_result_def raise_def)
  obtain c row where t: "find_command device_id command_id (committed t) = Some c"
      "stored_result command_id (committed t) = Some row"
    and row: "res_result_key row = key" "res_request_hash row = result_hash dg result code message"
    and v: "v = \<lparr>rp_id = int_dec command_id, rp_status = res_status row, rp_result_code = res_code row\<rparr>"
    using result_leaves_row [OF assms(1)] by blast
  show ?thesis
    using result_again [OF st t prod.collapse [symmetric]] row v same by (simp add: result_hash_def)
qed

lemma result_ambiguity_witness:
  "\<exists>t. result_request demo_digests 1 1 1 ''SUCCESS'' None None demo_key demo_acked =
     (Inr \<lparr>rp_id = ''1'', rp_status = SUCCESS, rp_result_code = None\<rparr>, t) \<and>
   fst (result_request demo_digests 2 1 1 ''SUCCESS'' (Some ''None'') None demo_key t) =
     Inr \<lparr>rp_id = ''1'', rp_status = SUCCESS, rp_result_code = None\<rparr>"
proof -
  obtain t where t: "result_request demo_digests 1 1 1 ''SUCCESS'' None None demo_key demo_acked =
      (Inr \<lparr>rp_id = ''1'', rp_status = SUCCESS, rp_result_code = None\<rparr>, t)"
    using demo_reports by (metis prod.collapse)
  with result_ambiguity [OF t] show ?thesis by blast
qed

section \<open>A poll that overlaps an acknowledgement\<close>

text \<open>
  What a poll does after its SELECT, on whatever the tables hold by then: the SELECT takes
  no lock, and the UPDATEs are guarded by the status the SELECT saw, not by the current one.
\<close>

definition poll_writes :: "timestamp \<Rightarrow> command list \<Rightarrow> command_item list op" where
  "poll_writes now rows =
     bind_op (fold_op (mark_pending now) rows []) (\<lambda>rows'. then_op commit (ret (map command_item rows')))"

lemma pending_commands_split:
  "pending_commands now device_id limit = bind_op (sql_select (select_pending device_id limit)) (poll_writes now)"
  by (simp add: pending_commands_def poll_writes_def [abs_def])

lemma wp_poll_writes:
  "wp (poll_writes now rows) Q E s =
     (let d = fold (mark_db now) rows (working s)
      in Q (map (command_item \<circ> sent_row now) rows) (s\<lparr>working := d, committed := d\<rparr>))"
  by (simp add: poll_writes_def wp_rules wp_mark_all Let_def)

lemma mark_all_marks:
  assumes "c \<in> set rows" "cmd_status c = PENDING" "distinct (map cmd_id rows)"
    and "r \<in> set (commands d)" "cmd_id r = cmd_id c"
  shows "r\<lparr>cmd_status := SENT, cmd_sent_at := Some now\<rparr> \<in> set (commands (fold (mark_db now) rows d))"
  using assms
proof (induction rows arbitrary: d)
  case (Cons row rows)
  show ?case
  proof (cases "row = c")
    case True
    have "r\<lparr>cmd_status := SENT, cmd_sent_at := Some now\<rparr> \<in> set (commands (mark_db now row d))"
      using Cons.prems True by (force simp: mark_db_def update_where_def mark_sent_def)
    moreover have "cmd_id r \<notin> cmd_id ` set rows" using Cons.prems True by auto
    ultimately show ?thesis using mark_all_other [of _ _ rows] by simp
  next
    case False
    then have "cmd_id r \<noteq> cmd_id row" using Cons.prems by (auto simp: image_iff)
    then have "r \<in> set (commands (mark_db now row d))" using Cons.prems by (intro mark_db_keeps_row) auto
    with Cons False show ?thesis by simp
  qed
qed simp

text \<open>
  C29. A poll whose SELECT ran before an acknowledgement committed takes the acknowledgement
  back: its UPDATE sets the command to SENT although it had been acknowledged, and the
  result of the running program is refused from then on.
\<close>

theorem stale_poll_regresses:
  assumes "distinct (map cmd_id (commands (committed s)))"
    and "rows = select_pending device_id limit (committed s)" "c \<in> set rows" "cmd_status c = PENDING"
    and "ack_request now device_id (cmd_id c) s = (Inr a, t)"
    and "with_session (poll_writes now' rows) t = (r, u)"
  shows "find_command device_id (cmd_id c) (committed t) = Some (acknowledge now c) \<and>
    find_command device_id (cmd_id c) (committed u) =
      Some ((acknowledge now c)\<lparr>cmd_status := SENT, cmd_sent_at := Some now'\<rparr>)"
proof -
  have c: "c \<in> set (commands (committed s))" "pollable device_id c"
    using assms(2,3) select_pending_rows by auto
  have find: "find_command device_id (cmd_id x) d = Some x"
    if "distinct (map cmd_id (commands d))" "x \<in> set (commands d)" "cmd_device_id x = device_id" for x d
  proof -
    have "List.find (\<lambda>y. cmd_id y = cmd_id x \<and> cmd_device_id y = device_id) (commands d) =
        List.find (\<lambda>y. cmd_id y = cmd_id x) (commands d)"
      using that distinct_key_eq [OF that(1)] by (intro find_cong_set) blast
    then show ?thesis using find_unique_key [OF that(1,2)] by (simp add: find_command_def)
  qed
  have cs: "find_command device_id (cmd_id c) (committed s) = Some c"
    using assms(1) c by (intro find) (simp_all add: pollable_def)
  then have t: "committed t = ack_db now c (committed s)"
    using ack_cases [OF assms(5)] assms(4) by (auto split: if_splits)
  have u: "committed u = fold (mark_db now') rows (committed t)"
    by (rule with_session_wp [OF _ assms(6)]) (simp_all add: wp_poll_writes Let_def)
  have ids: "map cmd_id (commands (fold (mark_db now') rows d)) = map cmd_id (commands d)" for d
    by (induction rows arbitrary: d) (simp_all add: mark_db_def)
  have dist: "distinct (map cmd_id rows)" unfolding assms(2) by (rule distinct_select_pending [OF assms(1)])
  have ack: "find_command device_id (cmd_id c) (committed t) = Some (acknowledge now c)"
    unfolding t by (rule find_command_ack [OF cs])
  let ?r = "(acknowledge now c)\<lparr>cmd_status := SENT, cmd_sent_at := Some now'\<rparr>"
  have "?r \<in> set (commands (committed u))"
    unfolding u using find_commandD(1) [OF ack]
    by (intro mark_all_marks [OF assms(3,4) dist]) (simp_all add: acknowledge_def)
  moreover have "distinct (map cmd_id (commands (committed u)))"
    using assms(1) by (simp add: u ids t ack_db_def)
  ultimately have "find_command device_id (cmd_id ?r) (committed u) = Some ?r"
    using c(2) by (intro find) (simp_all add: acknowledge_def pollable_def)
  with ack show ?thesis by (simp add: acknowledge_def)
qed

lemma stale_poll_regresses_witness:
  "\<exists>u. snd (with_session (poll_writes 1 [demo_command]) demo_acked) = u \<and>
     map_option cmd_status (find_command 1 1 (committed u)) = Some SENT"
proof -
  have facts: "fst (ack_request 0 1 1 demo) = Inr (''1'', ACKNOWLEDGED)"
    "select_pending 1 20 (committed demo) = [demo_command]"
    "distinct (map cmd_id (commands (committed demo)))" "cmd_id demo_command = 1" "cmd_status demo_command = PENDING"
    by code_simp+
  have ack: "ack_request 0 1 (cmd_id demo_command) demo = (Inr (''1'', ACKNOWLEDGED), demo_acked)"
    using facts(1) unfolding facts(4) by (metis demo_acked_def prod.collapse)
  show ?thesis
    using stale_poll_regresses [OF facts(3) facts(2) [symmetric] _ facts(5) ack prod.collapse [symmetric]]
    by (simp add: facts(4))
qed

end
