(* ===== verification/Integrity.thy ===== *)
theory Integrity
  imports Invariants
begin

text \<open>
  Why no constraint of the database ever fails.  \<open>integrity\<close> says that every stored id is
  below its sequence, that the rows of a payment refer to payments that exist, and that the
  catalog is sane (positive prices, one published configuration per device).  Every operation keeps it, and
  under it the inserts of a payment are all accepted, so that an exception is an
  \<open>AppError\<close> of the code itself.
\<close>

section \<open>The invariant\<close>

definition below :: "('r \<Rightarrow> int) \<Rightarrow> int \<Rightarrow> 'r list \<Rightarrow> bool" where
  "below k n rows \<longleftrightarrow> (\<forall>r \<in> set rows. k r < n)"

lemma below_simps [simp]:
  "below k n []" "below k n (r # rows) \<longleftrightarrow> k r < n \<and> below k n rows"
  "below k n (rows @ rows') \<longleftrightarrow> below k n rows \<and> below k n rows'"
  by (auto simp: below_def)

lemma below_mono: "below k n rows \<Longrightarrow> n \<le> m \<Longrightarrow> below k m rows"
  by (fastforce simp: below_def)

lemma below_fresh: "below k n rows \<Longrightarrow> \<not> has_key k rows n"
  by (auto simp: below_def has_key_def)

definition ids_fresh :: "(seq \<Rightarrow> int) \<Rightarrow> db \<Rightarrow> bool" where
  "ids_fresh sq d \<longleftrightarrow>
     below pay_id (sq PaymentSeq) (payment_transactions d) \<and>
     below att_id (sq AttemptSeq) (payment_attempts d) \<and>
     below prov_id (sq ProviderSeq) (provider_transactions d) \<and>
     below sr_id (sq StartRightSeq) (start_rights d) \<and>
     below led_id (sq LedgerSeq) (rf_wallet_ledger d) \<and>
     below ev_id (sq EventSeq) (events d) \<and>
     below aud_id (sq AuditSeq) (audit_entries d) \<and>
     below res_id (sq ResultSeq) (command_results d) \<and>
     below hb_id (sq HeartbeatSeq) (device_heartbeats d)"

definition links_ok :: "db \<Rightarrow> bool" where
  "links_ok d \<longleftrightarrow>
     (\<forall>a \<in> set (payment_attempts d). has_key pay_id (payment_transactions d) (att_payment_id a)) \<and>
     (\<forall>t \<in> set (provider_transactions d). has_key pay_id (payment_transactions d) (prov_payment_id t) \<and>
        prov_provider_ref t = ''MOCK-'' @ int_dec (prov_payment_id t)) \<and>
     (\<forall>r \<in> set (start_rights d). has_key pay_id (payment_transactions d) (sr_payment_id r)) \<and>
     (\<forall>l \<in> set (rf_wallet_ledger d). has_key_opt pay_id (payment_transactions d) (led_payment_id l))"

definition catalog_ok :: "db \<Rightarrow> bool" where
  "catalog_ok d \<longleftrightarrow>
     (\<forall>p \<in> set (programs d). 0 < prog_price_minor p) \<and>
     distinct (map cfg_device_id (filter (\<lambda>c. cfg_status c = PUBLISHED) (device_configurations d)))"

definition integrity :: "(seq \<Rightarrow> int) \<Rightarrow> db \<Rightarrow> bool" where
  "integrity sq d \<longleftrightarrow> ids_fresh sq d \<and> links_ok d \<and> catalog_ok d"

lemma integrity_seqs_le: "integrity sq d \<Longrightarrow> seqs_le sq sq' \<Longrightarrow> integrity sq' d"
  unfolding integrity_def ids_fresh_def seqs_le_def by (meson below_mono)

definition same_ledgers :: "db \<Rightarrow> db \<Rightarrow> bool" where
  "same_ledgers d d' \<longleftrightarrow>
     payment_transactions d' = payment_transactions d \<and> payment_attempts d' = payment_attempts d \<and>
     provider_transactions d' = provider_transactions d \<and> start_rights d' = start_rights d \<and>
     rf_wallet_ledger d' = rf_wallet_ledger d \<and> events d' = events d \<and>
     audit_entries d' = audit_entries d \<and> command_results d' = command_results d \<and>
     device_heartbeats d' = device_heartbeats d \<and> programs d' = programs d \<and>
     device_configurations d' = device_configurations d"

lemma integrity_same: "integrity sq d \<Longrightarrow> same_ledgers d d' \<Longrightarrow> integrity sq d'"
  by (simp add: integrity_def ids_fresh_def links_ok_def catalog_ok_def same_ledgers_def)

lemma same_ledgers_mark: "same_ledgers d (fold (mark_db now) rows d)"
  by (induction rows arbitrary: d) (simp_all add: same_ledgers_def mark_db_def)

section \<open>Every operation keeps it\<close>

lemma has_key_opt_append [simp]:
  "has_key_opt k xs i \<Longrightarrow> has_key_opt k (xs @ ys) i"
  by (auto simp: has_key_opt_def row_simps split: option.splits)

lemma posted_seqs_values:
  "posted_seqs m stl sq PaymentSeq = sq PaymentSeq + 1"
  "posted_seqs m stl sq AttemptSeq = sq AttemptSeq + 1"
  "posted_seqs m stl sq EventSeq = sq EventSeq + 1"
  "posted_seqs m stl sq AuditSeq = sq AuditSeq + 1"
  "posted_seqs m stl sq ProviderSeq = sq ProviderSeq + (if m = ''CARD'' then 1 else 0)"
  "posted_seqs m stl sq StartRightSeq = sq StartRightSeq + (if stl_status stl = SUCCESS then 1 else 0)"
  "posted_seqs m stl sq LedgerSeq = sq LedgerSeq +
     (if m = ''RF_CARD'' \<and> stl_status stl = SUCCESS \<and> stl_rf_wallet_id stl \<noteq> None then 1 else 0)"
  by (auto simp: posted_seqs_def Let_def bump_def)

lemma integrity_pays:
  assumes ok: "integrity sq d" and pays: "pays dg now device body key sq d i stl sq' d'"
  shows "integrity sq' d'"
  using pays
proof cases
  case (pays company bay program price d1)
  obtain qs ws where d1: "d1 = d\<lparr>qr_codes := qs, rf_wallets := ws\<rparr>"
    using settles_frame [OF pays(6)] by blast
  have ids: "ids_fresh sq d" and links: "links_ok d" and cat: "catalog_ok d"
    using ok by (simp_all add: integrity_def)
  have "ids_fresh sq' d"
    using ids posted_seqs_le [of sq] unfolding pays(2) ids_fresh_def seqs_le_def by (meson below_mono)
  then have "ids_fresh sq' d'"
    unfolding pays(2,3)
    by (simp add: ids_fresh_def d1 posted_seqs_values payment_row_def attempt_row_def provider_row_def
        start_right_row_def ledger_row_def payment_event_def payment_audit_def)
  moreover have "links_ok d'"
    using links unfolding pays(3)
    by (auto simp: links_ok_def d1 row_simps payment_row_def attempt_row_def provider_row_def
        start_right_row_def ledger_row_def has_key_opt_def split: option.splits)
  moreover have "catalog_ok d'" using cat by (simp add: catalog_ok_def pays(3) d1)
  ultimately show ?thesis by (simp add: integrity_def)
qed

lemma integrity_result:
  assumes "integrity sq d"
  shows "integrity (bump EventSeq (bump ResultSeq sq)) (result_db now device_id c result st code message key hash sq d)"
    (is "integrity ?sq ?d")
proof -
  have "ids_fresh ?sq d"
    using assms unfolding integrity_def ids_fresh_def by (auto simp: bump_def intro: below_mono)
  then show ?thesis
    using assms by (simp add: integrity_def ids_fresh_def links_ok_def catalog_ok_def result_db_def
        result_row_def execution_event_def bump_def)
qed

text \<open>The working conditions of the service: the two invariants together.\<close>

definition healthy :: "expectation \<Rightarrow> db \<Rightarrow> (seq \<Rightarrow> int) \<Rightarrow> bool" where
  "healthy expected d sq \<longleftrightarrow> system_ok expected d sq \<and> integrity sq d"

lemma wp_conj:
  "wp m Q E s \<Longrightarrow> wp m Q' E' s \<Longrightarrow> wp m (\<lambda>a t. Q a t \<and> Q' a t) (\<lambda>e t. E e t \<and> E' e t) s"
  by (auto simp: wp_def split: prod.splits sum.splits)

lemma keeps_healthyI:
  assumes "keeps (system_ok expected) m"
    and "\<And>s. working s = committed s \<Longrightarrow> healthy expected (committed s) (seqs s) \<Longrightarrow>
      wp m (\<lambda>_ t. integrity (seqs t) (committed t)) (\<lambda>_ t. integrity (seqs t) (committed t)) s"
  shows "keeps (healthy expected) m"
proof (rule keepsI)
  fix s :: session
  assume s: "working s = committed s" "healthy expected (committed s) (seqs s)"
  show "wp m (\<lambda>_ t. healthy expected (committed t) (seqs t)) (\<lambda>_ t. healthy expected (committed t) (seqs t)) s"
    using wp_conj [OF keepsD [OF assms(1) s(1)] assms(2) [OF s]] s(2) by (simp add: healthy_def)
qed

lemma evaluate_seqs_le: "seqs_le (fst x) (fst (evaluate now kvs x))"
proof (induction kvs arbitrary: x)
  case (Cons kv kvs)
  obtain k v where kv: "kv = (k, v)" by (cases kv)
  have "seqs_le (fst x) (fst (decide (raise_alarm now) (clear_alarm now) kv x))"
    unfolding kv by (cases v) (auto simp: raise_alarm_def clear_alarm_def fst_insert_when split: option.splits)
  from seqs_le_trans [OF this Cons.IH] show ?case by (simp add: evaluate_def)
qed (simp add: evaluate_def)

lemma healthy_create_payment: "keeps (healthy expected) (create_payment dg now device body key)"
proof (rule keeps_healthyI [OF keeps_create_payment], rule create_payment_wpI)
  fix s :: session and e and t :: session
  assume "healthy expected (committed s) (seqs s)" "committed t = committed s" "seqs_le (seqs s) (seqs t)"
  then show "integrity (seqs t) (committed t)" by (auto simp: healthy_def intro: integrity_seqs_le)
qed (auto simp: healthy_def integrity_pays)

lemma healthy_pending_commands: "keeps (healthy expected) (pending_commands now device_id limit)"
  by (rule keeps_healthyI [OF keeps_pending_commands])
    (auto simp: wp_pending_commands Let_def healthy_def intro: integrity_same same_ledgers_mark)

lemma healthy_acknowledge_command: "keeps (healthy expected) (acknowledge_command now device_id command_id)"
  by (rule keeps_healthyI [OF keeps_acknowledge_command])
    (auto simp: wp_acknowledge_command Let_def healthy_def same_ledgers_def ack_db_def
      intro: integrity_same split: option.splits)

lemma healthy_command_result:
  "keeps (healthy expected) (apply_command_result dg now device_id command_id result code message key)"
proof (rule keeps_healthyI [OF keeps_command_result])
  fix s :: session
  assume s: "working s = committed s" "healthy expected (committed s) (seqs s)"
  let ?I = "\<lambda>t :: session. integrity (seqs t) (committed t)"
  have "wp (store_result now device_id c result st code message key hash) (\<lambda>_. ?I) (\<lambda>_. ?I) s"
    if "st \<in> {SUCCESS, FAILED}" for c st hash
    by (rule store_result_wpI [OF that])
      (use s in \<open>auto simp: Let_def healthy_def integrity_result intro: integrity_seqs_le\<close>)
  with s show "wp (apply_command_result dg now device_id command_id result code message key) (\<lambda>_. ?I) (\<lambda>_. ?I) s"
    by (auto simp: apply_command_result_def wp_control Let_def healthy_def split: option.splits
        dest: result_status_iff)
qed

lemma healthy_record_heartbeat: "keeps (healthy expected) (record_heartbeat now device_id sequence app_version state)"
proof (rule keeps_healthyI [OF keeps_record_heartbeat])
  fix s :: session
  assume s: "working s = committed s" "healthy expected (committed s) (seqs s)"
  let ?sq = "(seqs s)(HeartbeatSeq := seqs s HeartbeatSeq + 1)"
  have "integrity ?sq ((committed s)\<lparr>device_heartbeats := device_heartbeats (committed s) @ hs,
      device_current_states := cs\<rparr>)" if "below hb_id (seqs s HeartbeatSeq + 1) hs" for hs cs
    using s that by (auto simp: healthy_def integrity_def ids_fresh_def links_ok_def catalog_ok_def intro: below_mono)
  note this [of "[h]" for h, simplified]
  moreover have "integrity ?sq (committed s)"
    by (rule integrity_seqs_le [of "seqs s"]) (use s in \<open>simp_all add: healthy_def seqs_le_def\<close>)
  ultimately show "wp (record_heartbeat now device_id sequence app_version state)
      (\<lambda>_ t. integrity (seqs t) (committed t)) (\<lambda>_ t. integrity (seqs t) (committed t)) s"
    using s by (auto simp: record_heartbeat_def Let_def wp_rules)
qed

lemma healthy_sweep: "keeps (healthy expected) (sweep_target_runtime now)"
proof (rule keeps_healthyI [OF keeps_sweep])
  fix s :: session
  assume s: "working s = committed s" "healthy expected (committed s) (seqs s)"
  then have sw: "sweepable (seqs s) (working s)" by (simp add: healthy_def system_ok_def)
  let ?x = "swept now (seqs s, committed s)"
  obtain as where d: "snd ?x = (maintain now (committed s))\<lparr>alarms := as\<rparr>"
    using swept_rest [of now "(seqs s, committed s)"] by auto
  have "seqs_le (seqs s) (fst ?x)"
    using evaluate_seqs_le [of "(seqs s, maintain now (committed s))"] by (simp add: swept_def)
  moreover have "same_ledgers (committed s) (snd ?x)" by (simp add: d same_ledgers_def maintain_def)
  ultimately have "integrity (fst ?x) (snd ?x)"
    using s(2) integrity_seqs_le integrity_same unfolding healthy_def by blast
  then show "wp (sweep_target_runtime now) (\<lambda>_ t. integrity (seqs t) (committed t))
      (\<lambda>_ t. integrity (seqs t) (committed t)) s"
    using s(1) by (simp add: wp_sweep [OF sw] Let_def)
qed

interpretation healthy: service_invariant "healthy expected" for expected
  by unfold_locales
    (rule healthy_create_payment healthy_pending_commands healthy_acknowledge_command healthy_command_result
      healthy_record_heartbeat healthy_sweep)+

end
