(* ===== verification/No_Fault.thy ===== *)
theory No_Fault
  imports Integrity Hard_Gate
begin

text \<open>
  Progress: in a healthy database every request is answered by the code itself, with a
  success or with an \<open>AppError\<close>; no constraint fails and no query finds too many rows.  In
  particular a payment whose preconditions hold is recorded.
\<close>

fun app_error :: "exn \<Rightarrow> bool" where
  "app_error (AppError _ _ _) = True"
| "app_error _ = False"

section \<open>The inserts of a payment\<close>

lemma insert_put_okI:
  "chk (snd x) (mk (fst x q)) \<Longrightarrow> Q (fst x q) (put s (insert_when True q rows upd mk x)) \<Longrightarrow>
   wp (sql_insert name q rows upd chk mk) Q E (put s x)"
  by (simp add: wp_insert insert_when_def put_def bump_def)

lemma when_insert_put_okI:
  assumes "c \<Longrightarrow> chk (snd x) (mk (fst x q))" "Q () (put s (insert_when c q rows upd mk x))"
  shows "wp (when_op c (bind_op (sql_insert name q rows upd chk mk) (\<lambda>_. ret ()))) Q E (put s x)"
proof (cases c)
  case True
  then have "wp (sql_insert name q rows upd chk mk) (\<lambda>_. Q ()) E (put s x)"
    using assms by (intro insert_put_okI) simp_all
  with True show ?thesis by (simp only: when_op_def if_True wp_bind wp_ret_fun)
next
  case False
  then show ?thesis using assms(2) by (simp add: wp_rules insert_when_def)
qed

text \<open>What the constraints ask beyond \<open>accepted\<close>.\<close>

definition recordable :: "device \<Rightarrow> int \<Rightarrow> int \<Rightarrow> settlement \<Rightarrow> (seq \<Rightarrow> int) \<Rightarrow> db \<Rightarrow> bool" where
  "recordable device wash_bay_id program_id stl sq d \<longleftrightarrow>
     ids_fresh sq d \<and> links_ok d \<and> stl_status stl \<in> payment_statuses \<and>
     has_key dev_id (devices d) (dev_id device) \<and> has_key bay_id (wash_bays d) wash_bay_id \<and>
     has_key prog_id (programs d) program_id"

lemma mock_refs_fresh:
  assumes "ids_fresh sq d" "links_ok d"
  shows "''MOCK-'' @ int_dec (sq PaymentSeq) \<notin> prov_provider_ref ` set (provider_transactions d)"
proof
  assume "''MOCK-'' @ int_dec (sq PaymentSeq) \<in> prov_provider_ref ` set (provider_transactions d)"
  then obtain t where t: "t \<in> set (provider_transactions d)" "prov_payment_id t = sq PaymentSeq"
    using assms(2) by (force simp: links_ok_def)
  then have "has_key pay_id (payment_transactions d) (sq PaymentSeq)"
    using assms(2) by (auto simp: links_ok_def)
  moreover have "\<not> has_key pay_id (payment_transactions d) (sq PaymentSeq)"
    using assms(1) by (intro below_fresh) (simp add: ids_fresh_def)
  ultimately show False by simp
qed

lemma record_payment_total:
  assumes acc: "accepted now device key body_hash method wash_bay_id program_id price stl (seqs s) (working s)"
    and rec: "recordable device wash_bay_id program_id stl (seqs s) (working s)"
    and post: "Q (seqs s PaymentSeq)
        (s\<lparr>seqs := posted_seqs method stl (seqs s),
           working := posted now device key body_hash method wash_bay_id program_id price stl
             (seqs s) (working s)\<rparr>)"
  shows "wp (record_payment now device key body_hash method wash_bay_id program_id price stl) Q E s"
proof -
  let ?i = "seqs s PaymentSeq" and ?d = "working s"
  have fresh: "\<not> has_key pay_id (payment_transactions ?d) (seqs s PaymentSeq)"
    "\<not> has_key att_id (payment_attempts ?d) (seqs s AttemptSeq)"
    "\<not> has_key prov_id (provider_transactions ?d) (seqs s ProviderSeq)"
    "\<not> has_key sr_id (start_rights ?d) (seqs s StartRightSeq)"
    "\<not> has_key led_id (rf_wallet_ledger ?d) (seqs s LedgerSeq)"
    "\<not> has_key ev_id (events ?d) (seqs s EventSeq)" "\<not> has_key aud_id (audit_entries ?d) (seqs s AuditSeq)"
    using rec by (auto simp: recordable_def ids_fresh_def dest: below_fresh)
  note mock = mock_refs_fresh [of "seqs s" ?d]
  note stage = fst_insert_when snd_insert_when bump_def
  have stored: "Q ?i (put s (post_store now device key body_hash method wash_bay_id program_id price stl (seqs s, ?d)))"
    using post by (simp add: post_store_eq put_def)
  have "wp (record_payment now device key body_hash method wash_bay_id program_id price stl) Q E
      (put s (seqs s, ?d))"
    unfolding record_payment_def wp_bind wp_then wp_ret
    apply (rule insert_put_okI)
    subgoal using acc by (simp add: accepted_def Let_def)
    apply (rule insert_put_okI)
    subgoal
      using acc fresh rec
      by (simp add: stage insertable_attempt_def attempt_row_def accepted_def Let_def recordable_def row_simps
          payment_row_def)
    apply (rule when_insert_put_okI)
    subgoal
      using acc fresh rec mock
      by (simp add: stage insertable_provider_def provider_row_def accepted_def Let_def recordable_def row_simps
          payment_row_def)
    apply (rule when_insert_put_okI)
    subgoal
      using acc fresh rec
      by (auto simp: stage insertable_ledger_def ledger_row_def accepted_def Let_def recordable_def row_simps
          payment_row_def has_key_opt_def)
    apply (rule when_insert_put_okI)
    subgoal
      using acc fresh rec
      by (simp add: stage insertable_start_right_def start_right_row_def accepted_def Let_def recordable_def row_simps
          payment_row_def)
    apply (rule insert_put_okI)
    subgoal
      using fresh rec
      by (simp add: stage insertable_event_def payment_event_def recordable_def row_simps payment_row_def
          has_key_opt_def)
    apply (rule insert_put_okI)
    subgoal
      using fresh rec
      by (simp add: stage insertable_audit_def payment_audit_def row_simps payment_row_def)
    subgoal using stored by (simp add: post_store_def Let_def)
    done
  then show ?thesis by simp
qed

text \<open>The constraints of the payment's own rows, from the health of the database.\<close>

lemma settles_rows:
  assumes "settles dg now device company_id program_id body price d stl d1" "system_ok expected d sq" "0 < price"
  shows "payment_method body \<in> set payment_methods \<and> 0 \<le> stl_amount_minor stl \<and>
    stl_status stl \<in> payment_statuses \<and> has_key_opt qr_id (qr_codes d1) (stl_qr_code_id stl) \<and>
    has_key_opt wal_id (rf_wallets d1) (stl_rf_wallet_id stl)"
  using assms(1)
proof cases
  case (by_card st code)
  then show ?thesis
    using assms(3) by (auto simp: payment_methods_def settled_def payment_statuses_def card_scenarios_def has_key_opt_def)
next
  case (by_qr q)
  then have q: "q \<in> set (qr_codes d)" by (auto simp: find_qr_def dest: find_SomeD)
  then have "check_qr_code q" using assms(2) by (simp add: system_ok_def financial_ok_def)
  moreover have "has_key qr_id (update_where (\<lambda>r. qr_id r = qr_id q) (redeem q) (qr_codes d)) (qr_id q)"
    using has_key_memI [OF q] by (simp add: has_key_update_where redeem_def Let_def)
  ultimately show ?thesis
    using by_qr by (simp add: payment_methods_def settled_def payment_statuses_def has_key_opt_def check_qr_code_def)
next
  case (by_rf uid c w)
  then have "w \<in> set (rf_wallets d)" by (auto dest: find_SomeD)
  then have "has_key wal_id (update_where (\<lambda>r. wal_id r = wal_id w) (debit_wallet now price) (rf_wallets d)) (wal_id w)"
    using has_key_memI [of w "rf_wallets d" wal_id] by (simp add: has_key_update_where debit_wallet_def)
  then show ?thesis
    using by_rf assms(3) by (simp add: payment_methods_def settled_def payment_statuses_def has_key_opt_def)
qed (use assms(3) in \<open>auto simp: payment_methods_def settled_def failed_with_def payment_statuses_def has_key_opt_def\<close>)

lemma program_resolved_price:
  assumes "program_resolved dg device company_id body d program_id price" "catalog_ok d"
  shows "0 < price \<and> has_key prog_id (programs d) program_id"
  using assms by (auto simp: program_resolved_def catalog_ok_def has_key_def dest!: find_Some_iff_mem)

lemma guards_pass_keys:
  assumes "guards_pass now device body d company_id wash_bay_id"
  shows "has_key st_id (stations d) (dev_station_id device) \<and> has_key bay_id (wash_bays d) wash_bay_id"
  using assms by (auto simp: guards_pass_def intro: has_key_find has_key_memI dest: find_SomeD)

lemma accepted_total:
  assumes h: "healthy expected d sq" and dev: "has_key dev_id (devices d) (dev_id device)"
    and unused: "find_by_key (dev_id device) key d = None"
    and g: "guards_pass now device body d company_id wash_bay_id"
    and p: "program_resolved dg device company_id body d program_id price"
    and stl: "settles dg now device company_id program_id body price d stl d1"
  shows "accepted now device key (request_hash dg body) (payment_method body) wash_bay_id program_id price stl sq d1"
    "recordable device wash_bay_id program_id stl sq d1"
proof -
  obtain qs ws where d1: "d1 = d\<lparr>qr_codes := qs, rf_wallets := ws\<rparr>"
    using settles_frame [OF stl] by blast
  have ids: "ids_fresh sq d" and links: "links_ok d" and cat: "catalog_ok d" and ok: "system_ok expected d sq"
    using h by (simp_all add: healthy_def integrity_def)
  note price = program_resolved_price [OF p cat] and keys = guards_pass_keys [OF g]
  note rows = settles_rows [OF stl ok conjunct1 [OF price]]
  have new: "\<not> has_key pay_id (payment_transactions d) (sq PaymentSeq)"
    using ids by (intro below_fresh) (simp add: ids_fresh_def)
  have unpaid: "(sq PaymentSeq, 1) \<notin> (\<lambda>r. (att_payment_id r, att_attempt_no r)) ` set (payment_attempts d)"
    "\<not> has_key prov_payment_id (provider_transactions d) (sq PaymentSeq)"
    "\<not> has_key sr_payment_id (start_rights d) (sq PaymentSeq)"
    "(Some (sq PaymentSeq), DEBIT) \<notin> (\<lambda>r. (led_payment_id r, led_direction r)) ` set (rf_wallet_ledger d)"
    using new links by (auto simp: links_ok_def has_key_opt_def has_key_def [of prov_payment_id]
        has_key_def [of sr_payment_id] split: option.splits)
  have key: "(dev_id device, key) \<notin> (\<lambda>r. (pay_device_id r, pay_idempotency_key r)) ` set (payment_transactions d)"
    using unused by (auto simp: find_by_key_def find_None_set)
  have "insertable_payment d1 (payment_row now device key (request_hash dg body) (payment_method body) program_id stl
      (sq PaymentSeq))"
    using new key rows price keys dev by (simp add: insertable_payment_def payment_row_def d1 has_key_opt_def)
  then show "accepted now device key (request_hash dg body) (payment_method body) wash_bay_id program_id price stl sq d1"
    using unpaid price rows by (auto simp: accepted_def Let_def d1 has_key_opt_def)
  show "recordable device wash_bay_id program_id stl sq d1"
    using ids links rows dev keys price by (simp add: recordable_def d1 ids_fresh_def links_ok_def)
qed

section \<open>A payment that is admissible is recorded\<close>

lemma operational_guards_total:
  "guards_pass now device body (working s) c b \<Longrightarrow> Q (c, b) s \<Longrightarrow> wp (operational_guards now device body) Q E s"
  by (auto simp: operational_guards_def guards_pass_def Let_def wp_rules)

lemma resolve_program_total:
  "program_resolved dg device company_id body (working s) p price \<Longrightarrow> Q (p, price) s \<Longrightarrow>
   wp (resolve_program dg device company_id body) Q E s"
  by (auto simp: resolve_program_def requested_program_def program_resolved_def wp_rules)

lemma healthy_books: "healthy expected d sq \<Longrightarrow> books_checked d"
  by (simp add: healthy_def system_ok_def financial_ok_def books_checked_def)

text \<open>The database and the sequences after a recorded payment.\<close>

definition paid_db ::
  "digests \<Rightarrow> timestamp \<Rightarrow> device \<Rightarrow> payment_request \<Rightarrow> string \<Rightarrow> int \<Rightarrow> int \<Rightarrow> int \<Rightarrow> settlement \<Rightarrow>
   session \<Rightarrow> db \<Rightarrow> db" where
  "paid_db dg now device body key wash_bay_id program_id price stl s d1 =
     posted now device key (request_hash dg body) (payment_method body) wash_bay_id program_id price stl (seqs s) d1"

abbreviation paid_state ::
  "digests \<Rightarrow> timestamp \<Rightarrow> device \<Rightarrow> payment_request \<Rightarrow> string \<Rightarrow> int \<Rightarrow> int \<Rightarrow> int \<Rightarrow> settlement \<Rightarrow>
   session \<Rightarrow> db \<Rightarrow> session" where
  "paid_state dg now device body key wash_bay_id program_id price stl s d1 \<equiv>
     s\<lparr>committed := paid_db dg now device body key wash_bay_id program_id price stl s d1,
       working := paid_db dg now device body key wash_bay_id program_id price stl s d1,
       seqs := posted_seqs (payment_method body) stl (seqs s)\<rparr>"

lemma create_payment_exact:
  assumes h: "healthy expected (working s) (seqs s)" and dev: "has_key dev_id (devices (working s)) (dev_id device)"
    and unused: "find_by_key (dev_id device) key (working s) = None"
    and g: "guards_pass now device body (working s) company_id wash_bay_id"
    and p: "program_resolved dg device company_id body (working s) program_id price"
    and stl: "settles dg now device company_id program_id body price (working s) stl d1"
    and post: "\<And>v. lookup_view (paid_db dg now device body key wash_bay_id program_id price stl s d1) (seqs s PaymentSeq) = Some v \<Longrightarrow>
      Q v (paid_state dg now device body key wash_bay_id program_id price stl s d1)"
  shows "wp (create_payment dg now device body key) Q E s"
proof -
  let ?d = "paid_db dg now device body key wash_bay_id program_id price stl s d1"
  note ok = accepted_total [OF h dev unused g p stl]
  have pays: "pays dg now device body key (seqs s) (working s) (seqs s PaymentSeq) stl
      (posted_seqs (payment_method body) stl (seqs s)) ?d"
    unfolding paid_db_def by (rule pays.pays [OF g p stl ok(1)])
  obtain v where v: "lookup_view ?d (seqs s PaymentSeq) = Some v" using pays_view [OF pays] by blast
  note checks = healthy_books [OF h]
  have "wp (record_payment now device key (request_hash dg body) (payment_method body) wash_bay_id program_id price stl)
      (\<lambda>i. wp (then_op commit (read_payment i)) Q E) E (s\<lparr>working := d1\<rparr>)"
    by (rule record_payment_total) (use ok post [OF v] v in \<open>simp_all add: wp_rules wp_read_payment paid_db_def\<close>)
  then have "wp (settle dg now device company_id program_id body price)
      (\<lambda>stl. wp (record_payment now device key (request_hash dg body) (payment_method body) wash_bay_id program_id price stl)
         (\<lambda>i. wp (then_op commit (read_payment i)) Q E) E) E s"
    by (rule settle_total [OF stl checks])
  then have "wp (new_payment dg now device body key) (\<lambda>i. wp (then_op commit (read_payment i)) Q E) E s"
    unfolding new_payment_def wp_bind
    by (intro operational_guards_total [OF g]) (simp add: wp_bind resolve_program_total [OF p])
  with unused show ?thesis by (simp add: create_payment_def check_replay_def wp_rules)
qed

lemma create_payment_total:
  assumes h: "healthy expected (working s) (seqs s)" and dev: "has_key dev_id (devices (working s)) (dev_id device)"
    and unused: "find_by_key (dev_id device) key (working s) = None"
    and g: "guards_pass now device body (working s) company_id wash_bay_id"
    and p: "program_resolved dg device company_id body (working s) program_id price"
    and stl: "settles dg now device company_id program_id body price (working s) stl d1"
    and post: "\<And>i sq' d' v. pays dg now device body key (seqs s) (working s) i stl sq' d' \<Longrightarrow>
      lookup_view d' i = Some v \<Longrightarrow> Q v (s\<lparr>committed := d', working := d', seqs := sq'\<rparr>)"
  shows "wp (create_payment dg now device body key) Q E s"
  by (rule create_payment_exact [OF h dev unused g p stl])
    (rule post [OF pays.pays [OF g p stl accepted_total(1) [OF h dev unused g p stl], folded paid_db_def]])

section \<open>Only errors of the code itself\<close>

definition safe_op :: "expectation \<Rightarrow> 'a op \<Rightarrow> bool" where
  "safe_op expected m \<longleftrightarrow>
     (\<forall>s. working s = committed s \<longrightarrow> healthy expected (committed s) (seqs s) \<longrightarrow>
        wp m (\<lambda>_ _. True) (\<lambda>e _. app_error e) s)"

lemma safe_opI:
  "(\<And>s. working s = committed s \<Longrightarrow> healthy expected (committed s) (seqs s) \<Longrightarrow>
      wp m (\<lambda>_ _. True) (\<lambda>e _. app_error e) s) \<Longrightarrow> safe_op expected m"
  by (simp add: safe_op_def)

lemma unsettled_app: "unsettled body e \<Longrightarrow> app_error e"
  by (induction rule: unsettled.induct) (auto simp: normalize_uid_def INVALID_RF_UID_def Let_def split: if_splits)

lemma guards_answer:
  assumes "\<And>c b. guards_pass now device body (working s) c b \<Longrightarrow> Q (c, b) s" "\<And>e. app_error e \<Longrightarrow> E e s"
  shows "wp (operational_guards now device body) Q E s"
  by (rule operational_guards_wpI) (use assms in \<open>auto simp: guard_error_def\<close>)

lemma resolve_answers:
  assumes "\<And>p price. program_resolved dg device company_id body (working s) p price \<Longrightarrow> Q (p, price) s"
    and "\<And>e. app_error e \<Longrightarrow> E e s"
  shows "wp (resolve_program dg device company_id body) Q E s"
proof -
  have "wp (resolve_program dg device company_id body) (\<lambda>_ _. True) (\<lambda>e t. app_error e \<and> t = s) s"
    by (simp add: resolve_program_def requested_program_def wp_rules guard_error_def split: option.splits)
  moreover have "wp (resolve_program dg device company_id body)
      (\<lambda>(p, price) t. program_resolved dg device company_id body (working s) p price \<and> t = s) (\<lambda>_ _. True) s"
    by (rule resolve_program_wpI) auto
  ultimately have "wp (resolve_program dg device company_id body)
      (\<lambda>a t. True \<and> (case a of (p, price) \<Rightarrow> \<lambda>t. program_resolved dg device company_id body (working s) p price \<and> t = s) t)
      (\<lambda>e t. (app_error e \<and> t = s) \<and> True) s" by (rule wp_conj)
  then show ?thesis by (rule wp_mono) (use assms in auto)
qed

lemma safe_create_payment:
  assumes "working s = committed s" "healthy expected (committed s) (seqs s)"
    and dev: "has_key dev_id (devices (committed s)) (dev_id device)"
  shows "wp (create_payment dg now device body key) (\<lambda>_ _. True) (\<lambda>e _. app_error e) s"
proof (cases "find_by_key (dev_id device) key (working s)")
  case None
  have total: "wp (create_payment dg now device body key) (\<lambda>_ _. True) (\<lambda>e _. app_error e) s"
    if "guards_pass now device body (working s) c b" "program_resolved dg device c body (working s) p price"
      "settles dg now device c p body price (working s) stl d1" for c b p price stl d1
    by (rule create_payment_total [OF _ _ None that]) (use assms in simp_all)
  show ?thesis
  proof (cases "\<exists>c b p price stl d1. guards_pass now device body (working s) c b \<and>
      program_resolved dg device c body (working s) p price \<and> settles dg now device c p body price (working s) stl d1")
    case True
    then show ?thesis using total by blast
  next
    case False
    have "wp (new_payment dg now device body key) (\<lambda>_ _. False) (\<lambda>e _. app_error e) s"
      unfolding new_payment_def wp_bind
    proof (rule guards_answer, unfold wp_case_prod prod.case wp_bind, rule resolve_answers, unfold wp_case_prod prod.case wp_bind)
      fix c b p price
      assume "guards_pass now device body (working s) c b" "program_resolved dg device c body (working s) p price"
      with False have "\<nexists>stl d1. settles dg now device c p body price (working s) stl d1" by blast
      with settles_or_unsettled [of dg now device c p body price "working s"]
      obtain e where e: "unsettled body e" by blast
      then show "wp (settle dg now device c p body price)
          (\<lambda>a. wp (record_payment now device key (request_hash dg body) (payment_method body) b p price a)
            (\<lambda>_ _. False) (\<lambda>e _. app_error e)) (\<lambda>e _. app_error e) s"
        by (rule settle_unsettled) (rule unsettled_app [OF e])
    qed
    then have "wp (new_payment dg now device body key) (\<lambda>i. wp (then_op commit (read_payment i)) (\<lambda>_ _. True) (\<lambda>e _. app_error e))
        (\<lambda>e _. app_error e) s" by (rule wp_mono) auto
    with None show ?thesis by (simp add: create_payment_def check_replay_def wp_rules)
  qed
next
  case (Some p)
  then show ?thesis
    by (simp add: create_payment_def check_replay_def wp_rules wp_read_payment IDEMPOTENCY_CONFLICT_def
        PAYMENT_NOT_FOUND_def split: option.splits)
qed

lemma safe_with_device:
  assumes "\<And>v s. working s = committed s \<Longrightarrow> healthy expected (committed s) (seqs s) \<Longrightarrow>
      has_key dev_id (devices (committed s)) (dev_id v) \<Longrightarrow> wp (k v) (\<lambda>_ _. True) (\<lambda>e _. app_error e) s"
  shows "safe_op expected (with_device dg h k)"
proof (rule safe_opI)
  fix s :: session
  assume s: "working s = committed s" "healthy expected (committed s) (seqs s)"
  have "has_key dev_id (devices (committed s)) (dev_id v)"
    if "device_authentic dg (working s) (x_device_id h) (device_token (authorization h)) v" for v
    using that s(1) by (auto simp: device_authentic_def intro: has_key_memI dest: find_SomeD)
  then show "wp (with_device dg h k) (\<lambda>_ _. True) (\<lambda>e _. app_error e) s"
    using assms [OF s] by (auto simp: with_device_def wp_rules INVALID_DEVICE_CREDENTIAL_def)
qed

lemma wp_bind_safe:
  assumes "wp m (\<lambda>_ _. True) (\<lambda>e _. app_error e) s" "\<And>a t. wp (k a) (\<lambda>_ _. True) (\<lambda>e _. app_error e) t"
  shows "wp (bind_op m k) (\<lambda>_ _. True) (\<lambda>e _. app_error e) s"
  unfolding wp_bind by (rule wp_mono [OF assms(1)]) (use assms(2) in auto)

lemma safe_result:
  assumes s: "working s = committed s" "healthy expected (committed s) (seqs s)"
    and dev: "has_key dev_id (devices (committed s)) device_id"
  shows "wp (apply_command_result dg now device_id command_id result code message key) (\<lambda>_ _. True) (\<lambda>e _. app_error e) s"
proof -
  have ids: "ids_fresh (seqs s) (committed s)" using s(2) by (simp add: healthy_def integrity_def)
  have store: "wp (store_result now device_id c result st code message key hash) (\<lambda>_ _. True) (\<lambda>e _. app_error e) s"
    if c: "find_command device_id command_id (committed s) = Some c"
      and none: "List.find (\<lambda>r. res_command_id r = command_id) (command_results (committed s)) = None"
      and st: "st \<in> {SUCCESS, FAILED}" for c st hash
  proof -
    have "has_key cmd_id (commands (committed s)) (cmd_id c)"
      using find_commandD(1) [OF c] by (rule has_key_memI)
    moreover have "\<not> has_key res_command_id (command_results (committed s)) (cmd_id c)"
      using none find_commandD(2) [OF c] by (auto simp: find_None_set has_key_def)
    moreover have "\<not> has_key res_id (command_results (committed s)) (seqs s ResultSeq)"
      "\<not> has_key ev_id (events (committed s)) (seqs s EventSeq)"
      using ids by (auto simp: ids_fresh_def dest: below_fresh)
    ultimately show ?thesis
      using st s dev
      by (auto simp: store_result_def wp_rules insertable_result_def result_row_def check_command_def
          complete_command_def check_execution_def complete_execution_def insertable_event_def
          execution_event_def has_key_opt_def)
  qed
  show ?thesis
    using s store
    by (auto simp: apply_command_result_def wp_control Let_def COMMAND_NOT_FOUND_def conflict_def
        split: option.splits dest: result_status_iff)
qed

lemma safe_heartbeat:
  assumes "working s = committed s" "healthy expected (committed s) (seqs s)"
    and dev: "has_key dev_id (devices (committed s)) device_id"
  shows "wp (record_heartbeat now device_id sequence app_version state) (\<lambda>_ _. True) (\<lambda>e _. app_error e) s"
proof -
  have "\<not> has_key hb_id (device_heartbeats (working s)) (seqs s HeartbeatSeq)"
    using assms by (intro below_fresh) (simp add: healthy_def integrity_def ids_fresh_def)
  with assms show ?thesis by (simp add: record_heartbeat_wp Let_def)
qed

lemma published_single:
  assumes "catalog_ok d"
  shows "length (filter (published i) (device_configurations d)) \<le> 1"
proof -
  let ?cs = "filter (\<lambda>c. cfg_status c = PUBLISHED) (device_configurations d)"
  have "filter (published i) (device_configurations d) = filter (\<lambda>c. cfg_device_id c = i) ?cs"
    by (auto simp: published_def intro: filter_cong)
  moreover have "distinct (map cfg_device_id ?cs)" using assms by (simp add: catalog_ok_def)
  ultimately show ?thesis using filter_key_short by metis
qed

lemma safe_configuration:
  assumes "working s = committed s" "healthy expected (committed s) (seqs s)"
  shows "wp (get_configuration i v) (\<lambda>_ _. True) (\<lambda>e _. app_error e) s"
  using published_single [of "committed s" i] assms
  by (auto simp: wp_get_configuration healthy_def integrity_def CONFIGURATION_NOT_FOUND_def split: list.splits)

lemma safe_handle: "safe_op expected (handle dg now now' h req)"
proof (cases req)
  case (DashboardOverview p)
  have "app_error e" if "period_bounds now q = Inl e" for q e
    using that by (auto simp: period_bounds_def INVALID_PERIOD_def Let_def split: if_splits)
  then show ?thesis
    using DashboardOverview
    by (auto simp: safe_op_def dashboard_overview_def authenticate_panel_def Let_def wp_rules
        INVALID_PANEL_CREDENTIAL_def COMPANY_NOT_FOUND_def split: option.splits sum.splits prod.splits)
next
  case (Heartbeat body)
  then show ?thesis
    by (auto simp: heartbeat_def then_op_def wp_ret intro!: safe_with_device wp_bind_safe safe_heartbeat)
next
  case (GetConfiguration v)
  then show ?thesis
    by (auto simp: configuration_def wp_ret intro!: safe_with_device wp_bind_safe safe_configuration)
next
  case (Payment body key)
  then show ?thesis
    by (auto simp: payment_def wp_rules payment_error_def intro!: safe_with_device wp_bind_safe safe_create_payment)
next
  case (CommandsPending limit)
  then show ?thesis
    by (auto simp: commands_pending_def wp_ret wp_pending_commands Let_def intro!: safe_with_device wp_bind_safe)
next
  case (CommandAcknowledge i)
  then show ?thesis
    by (auto simp: command_acknowledge_def wp_rules wp_acknowledge_command Let_def COMMAND_NOT_FOUND_def conflict_def
        intro!: safe_with_device wp_bind_safe split: option.splits prod.splits)
next
  case (CommandResult i body key)
  then show ?thesis
    by (auto simp: command_result_handler_def wp_ret intro!: safe_with_device wp_bind_safe safe_result)
qed

end
