(* ===== verification/Service_Properties.thy ===== *)
theory Service_Properties
  imports No_Fault Command_Properties
begin

text \<open>
  Properties of the running service that need the health of the whole database: every
  request is answered by the code itself, an admissible payment is recorded, a heartbeat
  brings a device online for every reader of its last contact, a command only moves forward.
\<close>

section \<open>A concrete system\<close>

definition demo_expectation :: expectation where
  "demo_expectation = \<lparr>must_be_complete = corr_payment,
     wallet_total = (\<lambda>w. if w = 1 then 1000 else 0), unpaid_uses = (\<lambda>_. 0),
     command_ids = [1], command_history = (\<lambda>_. PENDING)\<rparr>"

lemma demo_ok: "system_ok demo_expectation (committed demo) (seqs demo)"
proof -
  have "commands_ok demo_db" "sweepable (\<lambda>_. 1) demo_db" by code_simp+
  moreover have "financial_ok demo_expectation demo_db"
    by (simp add: financial_ok_def demo_db_def demo_expectation_def payment_keys_def payment_debits_def
        wallet_balance_def wallet_debits_def qr_uses_def qr_payments_def demo_qr_def demo_wallet_def
        check_qr_code_def check_rf_wallet_def)
  moreover have "history_ok demo_expectation demo_db"
    by (simp add: history_ok_def demo_expectation_def demo_db_def demo_command_def follows_def)
  ultimately show ?thesis by (simp add: system_ok_def demo_def)
qed

definition demo_headers :: headers where
  "demo_headers = \<lparr>x_device_id = 1, authorization = Some ''Device credential-1''\<rparr>"

lemma demo_healthy: "healthy demo_expectation (committed demo) (seqs demo)"
proof -
  have "integrity (\<lambda>_. 1) demo_db" by code_simp
  with demo_ok show ?thesis by (simp add: healthy_def demo_def)
qed

text \<open>The state after the RF payment of the demonstration.\<close>

definition demo_paid :: session where
  "demo_paid = snd (serve demo_digests ''u'' 0 0 0 demo_headers (Payment rf_request demo_key) demo)"

definition demo_result :: request where
  "demo_result = CommandResult 1 \<lparr>rr_result = ''SUCCESS'', rr_code = None, rr_message = None\<rparr> demo_key"

lemma demo_reaches: "reaches demo_digests demo demo_paid"
  unfolding demo_paid_def by (rule reaches_serve)

text \<open>What the payment left behind, by evaluation.\<close>

definition paid_once :: "db \<Rightarrow> bool" where
  "paid_once d \<longleftrightarrow> length (payment_transactions d) = 1 \<and>
     list_ex (\<lambda>p. pay_status p = SUCCESS \<and> corr_payment p) (payment_transactions d) \<and>
     list_ex (\<lambda>w. wal_id w = 1 \<and> wal_balance_minor w = 0) (rf_wallets d) \<and>
     list_ex (\<lambda>q. qr_id q = 1 \<and> qr_usage_count q = 0) (qr_codes d)"

lemma demo_paid_once: "paid_once (committed demo_paid)"
  by code_simp

section \<open>Answers\<close>

lemma served_by_code:
  assumes "healthy expected (committed t) (seqs t)" "valid_request req"
    and "serve dg uuid now now' answered h req t = (r, u)"
  shows "r \<noteq> FrameworkError code"
proof -
  have "wp (handle dg now now' h req) (\<lambda>_ _. True) (\<lambda>e _. app_error e) (t\<lparr>working := committed t\<rparr>)"
    using safe_handle [of expected dg now now' h req] assms(1) by (simp add: safe_op_def)
  then have "app_error e" if "with_session (handle dg now now' h req) t = (Inl e, u')" for e u'
    using that by (auto simp: wp_def with_session_def split: prod.splits sum.splits)
  then show ?thesis
    using assms(2,3) by (auto simp: serve_def split: prod.splits sum.splits elim!: app_error.elims)
qed



section \<open>Payments\<close>

text \<open>
  C10. An admissible payment is recorded: in a healthy database, when the guards pass, the
  program is available, the method can be settled and the key is new, the request succeeds
  and its effect is the specified transition.  With the refinement this makes the
  specification exact.
\<close>

theorem payment_recorded:
  assumes "healthy expected (committed s) (seqs s)" "device \<in> set (devices (committed s))"
    and "find_by_key (dev_id device) key (committed s) = None"
    and "guards_pass now device body (committed s) company_id wash_bay_id"
    and "program_resolved dg device company_id body (committed s) program_id price"
    and "settles dg now device company_id program_id body price (committed s) stl d1"
  shows "\<exists>v t i stl'. request_payment dg now device body key s = (Inr v, t) \<and>
    pays dg now device body key (seqs s) (committed s) i stl' (seqs t) (committed t) \<and>
    lookup_view (committed t) i = Some v"
proof -
  let ?s = "s\<lparr>working := committed s\<rparr>"
  let ?Q = "\<lambda>v t. \<exists>i stl'. pays dg now device body key (seqs s) (committed s) i stl' (seqs t) (committed t) \<and>
    lookup_view (committed t) i = Some v"
  have "wp (create_payment dg now device body key) ?Q (\<lambda>_ _. False) ?s"
    by (rule create_payment_total [of expected, where s = ?s])
      (use assms in \<open>auto intro: has_key_memI\<close>)
  then show ?thesis
    by (auto simp: request_payment_def with_session_def wp_def split: prod.splits sum.splits)
qed

lemma payment_recorded_witness:
  "\<exists>v t i stl. request_payment demo_digests 0 demo_device rf_request demo_key demo = (Inr v, t) \<and>
     pays demo_digests 0 demo_device rf_request demo_key (seqs demo) (committed demo) i stl (seqs t) (committed t)"
proof -
  have new: "find_by_key (dev_id demo_device) demo_key (committed demo) = None"
    and dev: "demo_device \<in> set (devices (committed demo))"
    by (simp_all add: demo_def demo_db_def find_by_key_def)
  obtain v t where "request_payment demo_digests 0 demo_device rf_request demo_key demo = (Inr v, t)"
    using demo_rf by blast
  then obtain i stl sq' d' where
    "pays demo_digests 0 demo_device rf_request demo_key (seqs demo) (committed demo) i stl sq' d'"
    by (rule request_successE) (use new in auto)
  then obtain c b p price d1 where "guards_pass 0 demo_device rf_request (committed demo) c b"
      "program_resolved demo_digests demo_device c rf_request (committed demo) p price"
      "settles demo_digests 0 demo_device c p rf_request price (committed demo) stl d1"
    by (rule paysE)
  from payment_recorded [OF demo_healthy dev new this] show ?thesis by blast
qed


text \<open>The demonstration database with a program that costs nothing.\<close>

definition free_demo :: session where
  "free_demo = demo\<lparr>committed := demo_db\<lparr>programs := [\<lparr>prog_id = 1, prog_company_id = 1,
     prog_external_key = ''prg-000001'', prog_name = ''Program 1'', prog_price_minor = 0, prog_active = True\<rparr>]\<rparr>\<rparr>"

definition free_request :: payment_request where
  "free_request = rf_request\<lparr>displayed_price_minor := None\<rparr>"


section \<open>Heartbeats\<close>

text \<open>
  C30. After a heartbeat, every reader of the device's last contact agrees on how long it
  counts: the payment guard and the dashboard see the device online for exactly 120 seconds,
  the worker sees it offline from then on and finds the offline alarm due after 5 minutes.
\<close>

theorem heartbeat_keeps_online:
  assumes "healthy expected (committed s) (seqs s)" "has_key dev_id (devices (committed s)) i"
    and "with_session (record_heartbeat now i sq v payload) s = (r, t)"
  shows "r = Inr () \<and> (\<exists>c. List.find (\<lambda>c. cs_device_id c = i) (device_current_states (committed t)) = Some c \<and>
    (\<forall>later \<ge> now.
       (device_online later c \<longleftrightarrow> later \<le> now + seconds 120) \<and>
       (\<forall>device. seen_since (later - seconds 120) (device, last_seen (committed t) i) \<longleftrightarrow> later \<le> now + seconds 120) \<and>
       (is_offline later (last_seen (committed t) i) \<longleftrightarrow> now + seconds 120 < later) \<and>
       (is_alarm_due later (last_seen (committed t) i) \<longleftrightarrow> now + minutes 5 < later)))"
proof -
  have fresh: "\<not> has_key hb_id (device_heartbeats (committed s)) (seqs s HeartbeatSeq)"
    using assms(1) by (intro below_fresh) (simp add: healthy_def integrity_def ids_fresh_def)
  define c where "c = touch_state now v (state_payload payload)
    (case List.find (\<lambda>c. cs_device_id c = i) (device_current_states (committed s)) of
       None \<Rightarrow> new_current_state i now | Some c \<Rightarrow> c)"
  have "r = Inr () \<and> List.find (\<lambda>c. cs_device_id c = i) (device_current_states (committed t)) = Some c"
    by (rule with_session_wp [OF _ assms(3)])
      (simp add: record_heartbeat_wp assms(2) fresh Let_def upsert_state_lookup c_def)
  moreover have "cs_last_seen_at c = Some now" by (simp add: c_def touch_state_def)
  ultimately show ?thesis
    by (auto simp: device_online_def seen_since_def is_offline_def is_alarm_due_def silent_for_def last_seen_def)
qed

lemma heartbeat_keeps_online_witness:
  "\<exists>t. with_session (record_heartbeat (minutes 1) 1 None None []) demo = (Inr (), t) \<and>
     is_offline (minutes 3) (last_seen (committed t) 1) = False"
proof -
  have dev: "has_key dev_id (devices (committed demo)) 1" by code_simp
  obtain r t where "with_session (record_heartbeat (minutes 1) 1 None None []) demo = (r, t)"
    by (cases "with_session (record_heartbeat (minutes 1) 1 None None []) demo")
  with heartbeat_keeps_online [OF demo_healthy dev this] show ?thesis
    by (auto simp: minutes_def seconds_def)
qed

section \<open>The life of a command\<close>

text \<open>The commands of two states, one reached from the other, row by row.\<close>

lemma commands_advance:
  assumes "system_ok expected (committed s) (seqs s)" "reaches dg s t"
  shows "list_all2 (\<lambda>c c'. cmd_id c' = cmd_id c \<and> follows (cmd_status c) (cmd_status c'))
    (commands (committed s)) (commands (committed t))"
proof -
  let ?was = "\<lambda>i. cmd_status (the (List.find (\<lambda>c. cmd_id c = i) (commands (committed s))))"
  let ?expected = "expected\<lparr>command_ids := map cmd_id (commands (committed s)), command_history := ?was\<rparr>"
  have dist: "distinct (map cmd_id (commands (committed s)))"
    using assms(1) by (simp add: system_ok_def commands_ok_def command_keys_def)
  have was: "?was (cmd_id c) = cmd_status c" if "c \<in> set (commands (committed s))" for c
    using find_unique_key [OF dist that] by simp
  have "financial_ok ?expected (committed s)"
    using assms(1) by (simp add: system_ok_def financial_ok_def)
  then have "system_ok ?expected (committed s) (seqs s)"
    using assms(1) was by (simp add: system_ok_def history_ok_def follows_def)
  from reaches_ok [OF assms(2) this]
  have hist: "history_ok ?expected (committed t)" by (simp add: system_ok_def)
  then have ids: "map cmd_id (commands (committed t)) = map cmd_id (commands (committed s))"
    by (simp add: history_ok_def)
  have "follows (cmd_status (commands (committed s) ! n)) (cmd_status (commands (committed t) ! n)) \<and>
      cmd_id (commands (committed t) ! n) = cmd_id (commands (committed s) ! n)"
    if n: "n < length (commands (committed s))" for n
  proof -
    have len: "n < length (commands (committed t))" using n ids by (metis length_map)
    have "cmd_id (commands (committed t) ! n) = cmd_id (commands (committed s) ! n)"
      using ids n len by (metis nth_map)
    with hist n len was show ?thesis by (simp add: history_ok_def) (metis nth_mem)
  qed
  moreover have "length (commands (committed s)) = length (commands (committed t))" using ids by (metis length_map)
  ultimately show ?thesis by (simp add: list_all2_conv_all_nth)
qed



section \<open>Every command comes to rest\<close>

fun progress :: "status \<Rightarrow> nat" where
  "progress PENDING = 0"
| "progress SENT = 1"
| "progress ACKNOWLEDGED = 2"
| "progress _ = 3"

definition command_statuses :: "session \<Rightarrow> status list" where
  "command_statuses s = map cmd_status (commands (committed s))"

lemma progress_bound: "progress st \<le> 3"
  by (cases st) simp_all

lemma progress_follows: "follows a b \<Longrightarrow> progress a \<le> progress b \<and> (progress a = progress b \<longrightarrow> a = b)"
  by (auto simp: follows_def terminal_def)

lemma progress_sum:
  "list_all2 follows as bs \<Longrightarrow> sum_list (map progress as) \<le> sum_list (map progress bs) \<and>
     (sum_list (map progress as) = sum_list (map progress bs) \<longrightarrow> as = bs)"
proof (induction rule: list_all2_induct)
  case (Cons a as b bs)
  then show ?case using progress_follows [of a b] by auto
qed simp

lemma sum_bounded: "(\<And>x. f x \<le> (b :: nat)) \<Longrightarrow> sum_list (map f xs) \<le> b * length xs"
  by (induction xs) (simp_all add: add_mono)

text \<open>A number that never falls, stays below a bound and grows at every change changes seldom.\<close>

lemma seldom:
  fixes f :: "nat \<Rightarrow> nat"
  assumes grow: "\<And>n. f n \<le> f (Suc n)" and bound: "\<And>n. f n \<le> b" and change: "\<And>n. n \<in> C \<Longrightarrow> f n < f (Suc n)"
  shows "finite C \<and> card C \<le> b"
proof -
  have mono: "m \<le> n \<Longrightarrow> f m \<le> f n" for m n by (rule lift_Suc_mono_le [of f]) (rule grow)
  have less: "f (Suc m) < f (Suc n)" if "m < n" "n \<in> C" for m n
    using mono [of "Suc m" n] change [OF that(2)] that(1) by simp
  have inj: "inj_on (\<lambda>n. f (Suc n)) C"
    by (rule inj_onI) (metis less less_irrefl nat_neq_iff)
  have range: "(\<lambda>n. f (Suc n)) ` C \<subseteq> {1..b}" using change bound by fastforce
  then have "finite C" using finite_imageD [OF finite_subset [OF range] inj] by simp
  moreover have "card C \<le> card {1..b}" by (rule card_inj_on_le [OF inj range]) simp
  ultimately show ?thesis by simp
qed


text \<open>A client that acknowledges the same command forever.\<close>

fun insisting :: "nat \<Rightarrow> session" where
  "insisting 0 = demo"
| "insisting (Suc n) = snd (serve demo_digests ''u'' 0 0 0 demo_headers (CommandAcknowledge 1) (insisting n))"


end
