(* ===== verification/Seed.thy ===== *)
theory Seed
  imports Payments Commands Calendar
begin

text \<open>
  \<open>db/seed/seed.py\<close> and \<open>db/seed/profiles.py\<close>: the database a benchmark run starts from.
  Each INSERT ... SELECT of \<open>seed_sql\<close> is one definition that computes the rows of its table
  from the numbers of the profile and the tables before it; \<open>seed_db\<close> is the whole script.
  It truncates every table first and restarts the identities, so the result does not depend
  on what was there.  The MD5 digest is a parameter, like the SHA-256 ones.
\<close>

section \<open>Profiles\<close>

record profile =
  pf_companies :: int
  pf_stations :: int
  pf_devices :: int
  pf_payments :: int

definition PROFILES :: "(string \<times> profile) list" where
  "PROFILES =
     [(''D1'', \<lparr>pf_companies = 10, pf_stations = 50, pf_devices = 500, pf_payments = 100000\<rparr>),
      (''D2'', \<lparr>pf_companies = 50, pf_stations = 500, pf_devices = 5000, pf_payments = 1000000\<rparr>),
      (''D3'', \<lparr>pf_companies = 500, pf_stations = 5000, pf_devices = 50000, pf_payments = 1000000\<rparr>)]"

text \<open>A name that is not listed is a \<open>ValueError\<close> with this message.\<close>

definition get_profile :: "string \<Rightarrow> string + profile" where
  "get_profile name = (case map_of PROFILES name of
     None \<Rightarrow> Inl (''unknown profile: '' @ name) | Some cfg \<Rightarrow> Inr cfg)"

section \<open>SQL functions the script uses\<close>

text \<open>\<open>lpad(s, n, '0')\<close> pads on the left and cuts a longer text on the right.\<close>

definition lpad :: "string \<Rightarrow> nat \<Rightarrow> string" where
  "lpad s n = (if length s < n then replicate (n - length s) (CHR ''0'') @ s else take n s)"

definition hex_char :: "nat \<Rightarrow> char" where
  "hex_char d = char_of (if d < 10 then 48 + d else 87 + d)"

fun nat_hex :: "nat \<Rightarrow> string" where
  "nat_hex n = (if n < 16 then [hex_char n] else nat_hex (n div 16) @ [hex_char (n mod 16)])"

declare nat_hex.simps [simp del]

definition to_hex :: "int \<Rightarrow> string" where
  "to_hex g = nat_hex (nat g)"

text \<open>\<open>JOIN ... ON\<close>: the pairs whose keys are equal, in the order of the left table.\<close>

definition join_on :: "('a \<Rightarrow> int) \<Rightarrow> ('b \<Rightarrow> int) \<Rightarrow> 'a list \<Rightarrow> 'b list \<Rightarrow> ('a \<times> 'b) list" where
  "join_on j k xs ys = [(x, y). x \<leftarrow> xs, y \<leftarrow> ys, k y = j x]"

text \<open>
  The numbers a BIGSERIAL column gives to the rows of one INSERT, in the order of the SELECT.
  Where the SELECT has no ORDER BY the order of its driving table is taken; PostgreSQL leaves
  it open, and nothing proved here depends on which row got which number.
\<close>

definition serial :: "(int \<Rightarrow> 'a \<Rightarrow> 'b) \<Rightarrow> 'a list \<Rightarrow> 'b list" where
  "serial f xs = map (\<lambda>(i, x). f i x) (zip [1..int (length xs)] xs)"

definition FIXED_TS :: timestamp where
  "FIXED_TS = midnight (ymd2ord 2026 8 31)"

definition FAR_TS :: timestamp where
  "FAR_TS = midnight (ymd2ord 2027 12 31) + seconds 86399"

section \<open>The statements\<close>

definition seed_companies :: "int \<Rightarrow> company list" where
  "seed_companies c = map (\<lambda>g.
     \<lparr>co_id = g, co_external_key = ''cmp-'' @ lpad (int_dec g) 6, co_name = ''Company '' @ int_dec g\<rparr>) [1..c]"

definition seed_panel_users :: "digests \<Rightarrow> int \<Rightarrow> panel_user list" where
  "seed_panel_users dg c = serial (\<lambda>i g.
     \<lparr>pu_id = i, pu_company_id = g,
      pu_token_hash = sha256_hex dg (encode (''panel-company-'' @ int_dec g)), pu_active = True\<rparr>) [1..c]"

definition seed_stations :: "int \<Rightarrow> int \<Rightarrow> station list" where
  "seed_stations c s = map (\<lambda>g.
     \<lparr>st_id = g, st_company_id = (g - 1) mod c + 1, st_external_key = ''stn-'' @ lpad (int_dec g) 6,
      st_name = ''Station '' @ int_dec g\<rparr>) [1..s]"

definition seed_devices :: "int \<Rightarrow> int \<Rightarrow> device list" where
  "seed_devices s d = map (\<lambda>g.
     \<lparr>dev_id = g, dev_station_id = (g - 1) mod s + 1, dev_external_key = ''dev-'' @ lpad (int_dec g) 7,
      dev_status = ACTIVE, dev_monitoring_enabled = True, dev_offline_threshold_seconds = 90\<rparr>) [1..d]"

definition seed_credentials :: "digests \<Rightarrow> device list \<Rightarrow> device_credential list" where
  "seed_credentials dg devs = serial (\<lambda>i v.
     \<lparr>cred_id = i, cred_device_id = dev_id v,
      cred_hash = sha256_hex dg (encode (''credential-'' @ int_dec (dev_id v))), cred_status = ACTIVE,
      cred_issued_at = FIXED_TS, cred_revoked_at = None\<rparr>) (sort_key dev_id devs)"

text \<open>The snapshot is JSONB, which orders the keys by length first.\<close>

definition seed_configurations :: "(string \<Rightarrow> string) \<Rightarrow> device list \<Rightarrow> station list \<Rightarrow> device_configuration list" where
  "seed_configurations md5_hex devs sts = serial (\<lambda>i (v, t).
     \<lparr>cfg_id = i, cfg_device_id = dev_id v, cfg_version = 1, cfg_status = PUBLISHED,
      cfg_checksum = md5_hex (encode (''configuration-'' @ int_dec (dev_id v) @ ''-1'')),
      cfg_snapshot = [(''currency'', JStr ''TRY''), (''device_id'', JStr (dev_external_key v)),
        (''station_id'', JStr (st_external_key t)), (''heartbeat_seconds'', JInt 30)],
      cfg_created_at = FIXED_TS\<rparr>)
     (join_on dev_station_id st_id (sort_key dev_id devs) sts)"

definition seed_current_states :: "device list \<Rightarrow> device_current_state list" where
  "seed_current_states devs = map (\<lambda>v.
     \<lparr>cs_device_id = dev_id v, cs_last_seen_at = Some (FIXED_TS + seconds (dev_id v mod 60)),
      cs_app_version = Some ''1.0.0'', cs_state_payload = ''{}'',
      cs_current_configuration_version = Some 1, cs_acknowledged_configuration_version = Some 1,
      cs_updated_at = FIXED_TS + seconds (dev_id v mod 60)\<rparr>) (sort_key dev_id devs)"

definition seed_heartbeats :: "device list \<Rightarrow> device_heartbeat list" where
  "seed_heartbeats devs = serial (\<lambda>i v.
     \<lparr>hb_id = i, hb_device_id = dev_id v, hb_occurred_at = FIXED_TS + seconds (dev_id v mod 60),
      hb_received_at = FIXED_TS + seconds (dev_id v mod 60), hb_sequence = Some (dev_id v),
      hb_payload = ''{}''\<rparr>) (sort_key dev_id devs)"

definition seed_programs :: "int \<Rightarrow> program list" where
  "seed_programs c = map (\<lambda>g.
     \<lparr>prog_id = g, prog_company_id = (g - 1) div 3 + 1, prog_external_key = ''prg-'' @ lpad (int_dec g) 6,
      prog_name = ''Program '' @ int_dec g, prog_price_minor = 1000 + (g - 1) mod 3 * 500,
      prog_active = True\<rparr>) [1..c * 3]"

definition seed_program_methods :: "program list \<Rightarrow> program_payment_method list" where
  "seed_program_methods progs = serial (\<lambda>i (p, m).
     \<lparr>ppm_id = i, ppm_program_id = prog_id p, ppm_payment_method = m, ppm_enabled = True\<rparr>)
     (List.product progs [''CARD'', ''QR'', ''RF_CARD''])"

definition seed_entitlements :: "device list \<Rightarrow> station list \<Rightarrow> entitlement list" where
  "seed_entitlements devs sts = serial (\<lambda>i (v, t).
     \<lparr>ent_id = i, ent_device_id = dev_id v, ent_program_id = (st_company_id t - 1) * 3 + 1, ent_enabled = True\<rparr>)
     (join_on dev_station_id st_id devs sts)"

definition seed_wash_bays :: "device list \<Rightarrow> wash_bay list" where
  "seed_wash_bays devs = map (\<lambda>v.
     \<lparr>bay_id = dev_id v, bay_station_id = dev_station_id v, bay_device_id = Some (dev_id v),
      bay_external_key = ''bay-'' @ lpad (int_dec (dev_id v)) 7, bay_status = IDLE\<rparr>) devs"

definition seed_qr_codes :: "digests \<Rightarrow> int \<Rightarrow> int \<Rightarrow> station list \<Rightarrow> qr_code list" where
  "seed_qr_codes dg s qr sts = serial (\<lambda>i (g, t).
     \<lparr>qr_id = i, qr_token_hash = hmac_sha256_hex dg (encode QR_PEPPER) (encode (''qr-token-'' @ int_dec g)),
      qr_company_id = st_company_id t, qr_station_id = st_id t,
      qr_program_id = (st_company_id t - 1) * 3 + 1, qr_amount_minor = 1500, qr_currency = ''TRY'',
      qr_usage_limit = 1, qr_usage_count = 0, qr_status = ACTIVE, qr_starts_at = FIXED_TS,
      qr_expires_at = FAR_TS\<rparr>)
     (join_on (\<lambda>g. (g - 1) mod s + 1) st_id [1..qr] sts)"

definition seeded_uid :: "int \<Rightarrow> string" where
  "seeded_uid g = map upper_hex (''AABBCCDD'' @ lpad (to_hex g) 8)"

definition seed_rf_cards :: "digests \<Rightarrow> int \<Rightarrow> int \<Rightarrow> rf_card list" where
  "seed_rf_cards dg c wallets = serial (\<lambda>i g.
     \<lparr>card_id = i, card_company_id = (g - 1) mod c + 1,
      card_uid_hash = hmac_sha256_hex dg (encode QR_PEPPER) (encode (seeded_uid g)), card_status = ACTIVE,
      card_expires_at = Some FAR_TS\<rparr>) [1..wallets]"

definition seed_rf_wallets :: "rf_card list \<Rightarrow> rf_wallet list" where
  "seed_rf_wallets cards = serial (\<lambda>i k.
     \<lparr>wal_id = i, wal_rf_card_id = card_id k, wal_balance_minor = 1000, wal_version = 0,
      wal_updated_at = FIXED_TS\<rparr>) (sort_key card_id cards)"

definition seeded_method :: "int \<Rightarrow> string" where
  "seeded_method g = (if g mod 3 = 0 then ''CARD'' else if g mod 3 = 1 then ''QR'' else ''RF_CARD'')"

definition seed_payments :: "(string \<Rightarrow> string) \<Rightarrow> int \<Rightarrow> int \<Rightarrow> int \<Rightarrow> station list \<Rightarrow> payment_transaction list" where
  "seed_payments md5_hex s d p sts = map (\<lambda>(g, t).
     \<lparr>pay_id = g, pay_device_id = (g - 1) mod d + 1, pay_station_id = (g - 1) mod s + 1,
      pay_idempotency_key = ''idem-'' @ lpad (int_dec g) 12,
      pay_request_hash = md5_hex (encode (''request-'' @ int_dec g)), pay_method = seeded_method g,
      pay_amount_minor = 1000 + g mod 20 * 100, pay_currency = ''TRY'',
      pay_status = (if g mod 20 = 0 then FAILED else SUCCESS), pay_error_code = None,
      pay_error_message = None, pay_program_id = Some ((st_company_id t - 1) * 3 + (g - 1) mod 3 + 1),
      pay_qr_code_id = None, pay_rf_wallet_id = None, pay_created_at = FIXED_TS + seconds (g mod 86400),
      pay_completed_at = Some (FIXED_TS + seconds (g mod 86400) + 250000)\<rparr>)
     (join_on (\<lambda>g. (g - 1) mod s + 1) st_id [1..p] sts)"

definition seed_executions :: "int \<Rightarrow> payment_transaction list \<Rightarrow> program_execution list" where
  "seed_executions n pays = map (\<lambda>(g, p).
     \<lparr>exe_id = g, exe_payment_id = g, exe_device_id = pay_device_id p, exe_wash_bay_id = Some (pay_device_id p),
      exe_program_id = pay_program_id p, exe_status = CREATED, exe_created_at = FIXED_TS + seconds (g mod 3600),
      exe_started_at = None, exe_completed_at = None\<rparr>)
     (join_on (\<lambda>g. g) pay_id [1..n] pays)"

definition seed_command_rows :: "int \<Rightarrow> program_execution list \<Rightarrow> command list" where
  "seed_command_rows n exes = map (\<lambda>(g, e).
     \<lparr>cmd_id = g, cmd_device_id = exe_device_id e, cmd_program_execution_id = exe_id e,
      cmd_command_key = ''cmd-'' @ lpad (int_dec g) 8, cmd_status = PENDING, cmd_payload = JObj [],
      cmd_created_at = FIXED_TS + seconds (g mod 3600), cmd_sent_at = None, cmd_acknowledged_at = None,
      cmd_completed_at = None, cmd_result_code = None\<rparr>)
     (join_on (\<lambda>g. g) exe_id [1..n] exes)"

section \<open>The script\<close>

definition seed_qr_count :: "profile \<Rightarrow> int" where
  "seed_qr_count cfg = max 100 (pf_devices cfg div 5)"

definition seed_wallet_count :: "profile \<Rightarrow> int" where
  "seed_wallet_count cfg = max 100 (pf_devices cfg div 5)"

definition seed_command_count :: "profile \<Rightarrow> int" where
  "seed_command_count cfg = max 10 (pf_devices cfg div 10)"

definition seed_db :: "digests \<Rightarrow> (string \<Rightarrow> string) \<Rightarrow> profile \<Rightarrow> db" where
  "seed_db dg md5_hex cfg =
     (let c = pf_companies cfg; s = pf_stations cfg; d = pf_devices cfg; p = pf_payments cfg;
          sts = seed_stations c s; devs = seed_devices s d; progs = seed_programs c;
          cards = seed_rf_cards dg c (seed_wallet_count cfg);
          pays = seed_payments md5_hex s d p sts;
          exes = seed_executions (seed_command_count cfg) pays
      in \<lparr>companies = seed_companies c, panel_users = seed_panel_users dg c, stations = sts, devices = devs,
          device_credentials = seed_credentials dg devs,
          device_configurations = seed_configurations md5_hex devs sts,
          device_current_states = seed_current_states devs, device_heartbeats = seed_heartbeats devs,
          programs = progs, program_payment_methods = seed_program_methods progs,
          entitlements = seed_entitlements devs sts, wash_bays = seed_wash_bays devs,
          maintenance_windows = [], qr_codes = seed_qr_codes dg s (seed_qr_count cfg) sts,
          rf_cards = cards, rf_wallets = seed_rf_wallets cards, payment_transactions = pays,
          payment_attempts = [], provider_transactions = [], start_rights = [], rf_wallet_ledger = [],
          program_executions = exes, commands = seed_command_rows (seed_command_count cfg) exes,
          command_results = [], events = [], audit_entries = [], alarms = []\<rparr>)"

text \<open>
  The sequences of the tables the application inserts into: restarted by the TRUNCATE, then
  moved by the heartbeats inserted with serial ids and by the \<open>setval\<close> on the payments.
\<close>

definition seed_seqs :: "profile \<Rightarrow> seq \<Rightarrow> int" where
  "seed_seqs cfg q =
     (case q of PaymentSeq \<Rightarrow> max (pf_payments cfg) 1 + 1 | HeartbeatSeq \<Rightarrow> pf_devices cfg + 1 | _ \<Rightarrow> 1)"

definition seed_database :: "digests \<Rightarrow> (string \<Rightarrow> string) \<Rightarrow> profile \<Rightarrow> session" where
  "seed_database dg md5_hex cfg =
     \<lparr>committed = seed_db dg md5_hex cfg, working = seed_db dg md5_hex cfg, seqs = seed_seqs cfg\<rparr>"

text \<open>\<open>row_counts\<close>, in the order of its JSON object.\<close>

definition row_counts :: "db \<Rightarrow> (string \<times> int) list" where
  "row_counts d =
     [(''companies'', int (length (companies d))), (''panel_users'', int (length (panel_users d))),
      (''stations'', int (length (stations d))), (''devices'', int (length (devices d))),
      (''device_credentials'', int (length (device_credentials d))),
      (''device_configurations'', int (length (device_configurations d))),
      (''device_current_states'', int (length (device_current_states d))),
      (''payments'', int (length (payment_transactions d))), (''qr_codes'', int (length (qr_codes d))),
      (''rf_cards'', int (length (rf_cards d))), (''rf_wallets'', int (length (rf_wallets d))),
      (''program_executions'', int (length (program_executions d))), (''commands'', int (length (commands d))),
      (''heartbeats'', int (length (device_heartbeats d)))]"

end
