(* ===== verification/Seed_Facts.thy ===== *)
theory Seed_Facts
  imports Seed Integrity Hard_Gate
begin

text \<open>
  The seeded tables in closed form (one row per number, every join resolved), the numbers of
  the three profiles, and the health of the seeded database.
\<close>

section \<open>Ranges and joins\<close>

lemma filter_range: "a \<le> i \<Longrightarrow> i \<le> b \<Longrightarrow> filter (\<lambda>g. g = i) [a..b] = [i :: int]"
  using filter_unique_key [of "\<lambda>g. g" "[a..b]" i] by simp

lemma serial_map: "serial f (map h [1..n]) = map (\<lambda>g. f g (h g)) [1..n]"
proof -
  have "zip [1..n] (map h [1..n]) = map (\<lambda>g. (g, h g)) [1..n]"
    by (simp add: zip_map2 zip_same_conv_map)
  then show ?thesis by (cases "1 \<le> n") (simp_all add: serial_def)
qed

lemma serial_range: "serial f [1..n] = map (\<lambda>g. f g g) [1..n]"
  using serial_map [of f "\<lambda>g. g" n] by simp

lemma join_range:
  assumes "\<And>x. x \<in> set xs \<Longrightarrow> 1 \<le> j x \<and> j x \<le> n" "\<And>g. k (h g) = g"
  shows "join_on j k xs (map h [1..n]) = map (\<lambda>x. (x, h (j x))) xs"
proof -
  have one: "[(x, y). y \<leftarrow> map h [1..n], k y = j x] = [(x, h (j x))]" if "1 \<le> j x" "j x \<le> n" for x
  proof -
    have "[(x, y). y \<leftarrow> map h zs, k y = j x] = map (\<lambda>g. (x, h g)) (filter (\<lambda>g. g = j x) zs)" for zs
      using assms(2) by (induction zs) auto
    with filter_range [OF that] show ?thesis by simp
  qed
  have "[(x, y). x \<leftarrow> ys, y \<leftarrow> map h [1..n], k y = j x] = map (\<lambda>x. (x, h (j x))) ys" if "set ys \<subseteq> set xs" for ys
    using that
  proof (induction ys)
    case (Cons x ys)
    then show ?case using one [of x] assms(1) [of x] by simp
  qed simp
  then show ?thesis by (simp add: join_on_def)
qed

lemma round_robin: "0 < (n :: int) \<Longrightarrow> 1 \<le> (g - 1) mod n + 1 \<and> (g - 1) mod n + 1 \<le> n"
  using pos_mod_bound [of n "g - 1"] pos_mod_sign [of n "g - 1"] by linarith

lemma sort_range: "(\<And>g. k (h g) = g) \<Longrightarrow> sort_key k (map h [1..n]) = map h [1..(n :: int)]"
  by (rule sort_key_id_if_sorted) (simp add: comp_def)

section \<open>The tables in closed form\<close>

definition sized :: "profile \<Rightarrow> bool" where
  "sized cfg \<longleftrightarrow> 0 < pf_companies cfg \<and> 0 < pf_stations cfg \<and> 0 < pf_devices cfg \<and>
     seed_command_count cfg \<le> pf_payments cfg \<and> pf_payments cfg < 10 ^ 12"

lemma PROFILES_sized: "get_profile name = Inr cfg \<Longrightarrow> sized cfg"
  by (auto simp: get_profile_def PROFILES_def sized_def seed_command_count_def split: if_splits)

definition station_company :: "profile \<Rightarrow> int \<Rightarrow> int" where
  "station_company cfg i = (i - 1) mod pf_companies cfg + 1"

definition payment_station :: "profile \<Rightarrow> int \<Rightarrow> int" where
  "payment_station cfg g = (g - 1) mod pf_stations cfg + 1"

definition payment_device :: "profile \<Rightarrow> int \<Rightarrow> int" where
  "payment_device cfg g = (g - 1) mod pf_devices cfg + 1"

definition seeded_payment :: "(string \<Rightarrow> string) \<Rightarrow> profile \<Rightarrow> int \<Rightarrow> payment_transaction" where
  "seeded_payment md5_hex cfg g =
     \<lparr>pay_id = g, pay_device_id = payment_device cfg g, pay_station_id = payment_station cfg g,
      pay_idempotency_key = ''idem-'' @ lpad (int_dec g) 12,
      pay_request_hash = md5_hex (encode (''request-'' @ int_dec g)), pay_method = seeded_method g,
      pay_amount_minor = 1000 + g mod 20 * 100, pay_currency = ''TRY'',
      pay_status = (if g mod 20 = 0 then FAILED else SUCCESS), pay_error_code = None,
      pay_error_message = None,
      pay_program_id = Some ((station_company cfg (payment_station cfg g) - 1) * 3 + (g - 1) mod 3 + 1),
      pay_qr_code_id = None, pay_rf_wallet_id = None, pay_created_at = FIXED_TS + seconds (g mod 86400),
      pay_completed_at = Some (FIXED_TS + seconds (g mod 86400) + 250000)\<rparr>"

lemma seed_payments_eq:
  assumes "0 < pf_stations cfg"
  shows "seed_payments md5_hex (pf_stations cfg) (pf_devices cfg) p (seed_stations (pf_companies cfg) (pf_stations cfg)) =
    map (seeded_payment md5_hex cfg) [1..p]"
  unfolding seed_payments_def seed_stations_def
  by (subst join_range)
    (use round_robin [OF assms] in \<open>auto simp: seeded_payment_def payment_device_def payment_station_def station_company_def\<close>)

definition seeded_execution :: "(string \<Rightarrow> string) \<Rightarrow> profile \<Rightarrow> int \<Rightarrow> program_execution" where
  "seeded_execution md5_hex cfg g =
     \<lparr>exe_id = g, exe_payment_id = g, exe_device_id = payment_device cfg g,
      exe_wash_bay_id = Some (payment_device cfg g), exe_program_id = pay_program_id (seeded_payment md5_hex cfg g),
      exe_status = CREATED, exe_created_at = FIXED_TS + seconds (g mod 3600), exe_started_at = None,
      exe_completed_at = None\<rparr>"

lemma seed_executions_eq:
  assumes "n \<le> p"
  shows "seed_executions n (map (seeded_payment md5_hex cfg) [1..p]) = map (seeded_execution md5_hex cfg) [1..n]"
  unfolding seed_executions_def
  by (subst join_range) (use assms in \<open>auto simp: seeded_execution_def seeded_payment_def\<close>)

definition seeded_command :: "profile \<Rightarrow> int \<Rightarrow> command" where
  "seeded_command cfg g =
     \<lparr>cmd_id = g, cmd_device_id = payment_device cfg g, cmd_program_execution_id = g,
      cmd_command_key = ''cmd-'' @ lpad (int_dec g) 8, cmd_status = PENDING, cmd_payload = JObj [],
      cmd_created_at = FIXED_TS + seconds (g mod 3600), cmd_sent_at = None, cmd_acknowledged_at = None,
      cmd_completed_at = None, cmd_result_code = None\<rparr>"

lemma seed_commands_eq:
  "seed_command_rows n (map (seeded_execution md5_hex cfg) [1..n]) = map (seeded_command cfg) [1..n]"
  unfolding seed_command_rows_def
  by (subst join_range) (auto simp: seeded_execution_def seeded_command_def)

lemma seed_tables:
  assumes "sized cfg"
  shows "payment_transactions (seed_db dg md5_hex cfg) = map (seeded_payment md5_hex cfg) [1..pf_payments cfg]"
    "program_executions (seed_db dg md5_hex cfg) = map (seeded_execution md5_hex cfg) [1..seed_command_count cfg]"
    "commands (seed_db dg md5_hex cfg) = map (seeded_command cfg) [1..seed_command_count cfg]"
  using assms by (simp_all add: seed_db_def Let_def sized_def seed_payments_eq seed_executions_eq seed_commands_eq)

definition seeded_station :: "profile \<Rightarrow> int \<Rightarrow> station" where
  "seeded_station cfg g =
     \<lparr>st_id = g, st_company_id = station_company cfg g, st_external_key = ''stn-'' @ lpad (int_dec g) 6,
      st_name = ''Station '' @ int_dec g\<rparr>"

definition seeded_device :: "profile \<Rightarrow> int \<Rightarrow> device" where
  "seeded_device cfg g =
     \<lparr>dev_id = g, dev_station_id = payment_station cfg g, dev_external_key = ''dev-'' @ lpad (int_dec g) 7,
      dev_status = ACTIVE, dev_monitoring_enabled = True, dev_offline_threshold_seconds = 90\<rparr>"

definition seeded_qr :: "digests \<Rightarrow> profile \<Rightarrow> int \<Rightarrow> qr_code" where
  "seeded_qr dg cfg g =
     (let t = payment_station cfg g; c = station_company cfg t in
     \<lparr>qr_id = g, qr_token_hash = hmac_sha256_hex dg (encode QR_PEPPER) (encode (''qr-token-'' @ int_dec g)),
      qr_company_id = c, qr_station_id = t, qr_program_id = (c - 1) * 3 + 1, qr_amount_minor = 1500,
      qr_currency = ''TRY'', qr_usage_limit = 1, qr_usage_count = 0, qr_status = ACTIVE,
      qr_starts_at = FIXED_TS, qr_expires_at = FAR_TS\<rparr>)"

definition seeded_card :: "digests \<Rightarrow> profile \<Rightarrow> int \<Rightarrow> rf_card" where
  "seeded_card dg cfg g =
     \<lparr>card_id = g, card_company_id = (g - 1) mod pf_companies cfg + 1,
      card_uid_hash = hmac_sha256_hex dg (encode QR_PEPPER) (encode (seeded_uid g)), card_status = ACTIVE,
      card_expires_at = Some FAR_TS\<rparr>"

definition seeded_wallet :: "int \<Rightarrow> rf_wallet" where
  "seeded_wallet g = \<lparr>wal_id = g, wal_rf_card_id = g, wal_balance_minor = 1000, wal_version = 0,
     wal_updated_at = FIXED_TS\<rparr>"

definition seeded_configuration :: "(string \<Rightarrow> string) \<Rightarrow> profile \<Rightarrow> int \<Rightarrow> device_configuration" where
  "seeded_configuration md5_hex cfg g =
     \<lparr>cfg_id = g, cfg_device_id = g, cfg_version = 1, cfg_status = PUBLISHED,
      cfg_checksum = md5_hex (encode (''configuration-'' @ int_dec g @ ''-1'')),
      cfg_snapshot = [(''currency'', JStr ''TRY''), (''device_id'', JStr (''dev-'' @ lpad (int_dec g) 7)),
        (''station_id'', JStr (''stn-'' @ lpad (int_dec (payment_station cfg g)) 6)), (''heartbeat_seconds'', JInt 30)],
      cfg_created_at = FIXED_TS\<rparr>"

lemma seed_stations_eq: "seed_stations (pf_companies cfg) n = map (seeded_station cfg) [1..n]"
  by (simp add: seed_stations_def seeded_station_def station_company_def)

lemma seed_devices_eq: "seed_devices (pf_stations cfg) n = map (seeded_device cfg) [1..n]"
  by (simp add: seed_devices_def seeded_device_def payment_station_def)

lemma seed_qr_codes_eq:
  assumes "0 < pf_stations cfg"
  shows "seed_qr_codes dg (pf_stations cfg) n (map (seeded_station cfg) [1..pf_stations cfg]) =
    map (seeded_qr dg cfg) [1..n]"
  unfolding seed_qr_codes_def
  by (subst join_range)
    (use round_robin [OF assms] in \<open>auto simp: seeded_station_def serial_map seeded_qr_def payment_station_def Let_def\<close>)

lemma seed_rf_cards_eq: "seed_rf_cards dg (pf_companies cfg) n = map (seeded_card dg cfg) [1..n]"
  by (simp add: seed_rf_cards_def serial_range seeded_card_def)

lemma seed_rf_wallets_eq: "seed_rf_wallets (map (seeded_card dg cfg) [1..n]) = map seeded_wallet [1..n]"
proof -
  have "sort_key card_id (map (seeded_card dg cfg) [1..n]) = map (seeded_card dg cfg) [1..n]"
    by (rule sort_range) (simp add: seeded_card_def)
  then show ?thesis by (simp add: seed_rf_wallets_def serial_map) (simp add: seeded_card_def seeded_wallet_def)
qed

lemma seed_configurations_eq:
  assumes "0 < pf_stations cfg"
  shows "seed_configurations md5_hex (map (seeded_device cfg) [1..n]) (map (seeded_station cfg) [1..pf_stations cfg]) =
    map (seeded_configuration md5_hex cfg) [1..n]"
proof -
  have "sort_key dev_id (map (seeded_device cfg) [1..n]) = map (seeded_device cfg) [1..n]"
    by (rule sort_range) (simp add: seeded_device_def)
  moreover have "join_on dev_station_id st_id (map (seeded_device cfg) [1..n]) (map (seeded_station cfg) [1..pf_stations cfg]) =
      map (\<lambda>g. (seeded_device cfg g, seeded_station cfg (payment_station cfg g))) [1..n]"
    by (subst join_range)
      (use round_robin [OF assms] in \<open>auto simp: seeded_device_def seeded_station_def payment_station_def\<close>)
  ultimately show ?thesis
    by (simp add: seed_configurations_def serial_map) (simp add: seeded_configuration_def seeded_device_def seeded_station_def)
qed

lemma seed_static_tables:
  assumes "sized cfg"
  shows "stations (seed_db dg md5_hex cfg) = map (seeded_station cfg) [1..pf_stations cfg]"
    "devices (seed_db dg md5_hex cfg) = map (seeded_device cfg) [1..pf_devices cfg]"
    "qr_codes (seed_db dg md5_hex cfg) = map (seeded_qr dg cfg) [1..seed_qr_count cfg]"
    "rf_cards (seed_db dg md5_hex cfg) = map (seeded_card dg cfg) [1..seed_wallet_count cfg]"
    "rf_wallets (seed_db dg md5_hex cfg) = map seeded_wallet [1..seed_wallet_count cfg]"
    "device_configurations (seed_db dg md5_hex cfg) = map (seeded_configuration md5_hex cfg) [1..pf_devices cfg]"
    "programs (seed_db dg md5_hex cfg) = seed_programs (pf_companies cfg)"
    "device_heartbeats (seed_db dg md5_hex cfg) = seed_heartbeats (map (seeded_device cfg) [1..pf_devices cfg])"
    "device_credentials (seed_db dg md5_hex cfg) = seed_credentials dg (map (seeded_device cfg) [1..pf_devices cfg])"
    "panel_users (seed_db dg md5_hex cfg) = seed_panel_users dg (pf_companies cfg)"
    "companies (seed_db dg md5_hex cfg) = seed_companies (pf_companies cfg)"
  using assms
  by (simp_all add: seed_db_def Let_def sized_def seed_stations_eq seed_devices_eq seed_qr_codes_eq seed_rf_cards_eq
      seed_rf_wallets_eq seed_configurations_eq)

lemma seed_empty_tables:
  "payment_attempts (seed_db dg md5_hex cfg) = []" "provider_transactions (seed_db dg md5_hex cfg) = []"
  "start_rights (seed_db dg md5_hex cfg) = []" "rf_wallet_ledger (seed_db dg md5_hex cfg) = []"
  "command_results (seed_db dg md5_hex cfg) = []" "events (seed_db dg md5_hex cfg) = []"
  "audit_entries (seed_db dg md5_hex cfg) = []" "alarms (seed_db dg md5_hex cfg) = []"
  "maintenance_windows (seed_db dg md5_hex cfg) = []"
  by (simp_all add: seed_db_def Let_def)

section \<open>Padded numbers\<close>

lemma lpad_zpad: "length s \<le> n \<Longrightarrow> lpad s n = zpad n s"
  by (auto simp: lpad_def zpad_def)

lemma lpad_inject:
  assumes "0 \<le> g" "g < 10 ^ k" "0 \<le> h" "h < 10 ^ k" "0 < k"
  shows "lpad (int_dec g) k = lpad (int_dec h) k \<longleftrightarrow> g = h"
proof -
  have "length (int_dec i) \<le> k" if "0 \<le> i" "i < 10 ^ k" for i
  proof -
    have "nat i < 10 ^ k" using that by (simp add: nat_less_iff)
    then show ?thesis using length_nat_dec [OF assms(5)] that by (simp add: int_dec_def)
  qed
  then have "lpad (int_dec g) k = lpad (int_dec h) k \<longleftrightarrow> zpad k (nat_dec (nat g)) = zpad k (nat_dec (nat h))"
    using assms by (simp add: lpad_zpad int_dec_def)
  then show ?thesis using assms(1,3) by (simp add: eq_nat_nat_iff)
qed

section \<open>Health\<close>

text \<open>What the books of the seeded database are held against.\<close>

definition seed_expectation :: "profile \<Rightarrow> expectation" where
  "seed_expectation cfg =
     \<lparr>must_be_complete = corr_payment,
      wallet_total = (\<lambda>w. if 1 \<le> w \<and> w \<le> seed_wallet_count cfg then 1000 else 0), unpaid_uses = (\<lambda>_. 0),
      command_ids = [1..seed_command_count cfg], command_history = (\<lambda>_. PENDING)\<rparr>"

lemma seeded_not_corr: "\<not> corr_payment (seeded_payment md5_hex cfg g)"
  by (simp add: corr_payment_def seeded_payment_def startswith_def)

lemma seed_financial_ok:
  assumes "sized cfg"
  shows "financial_ok (seed_expectation cfg) (seed_db dg md5_hex cfg)"
proof -
  let ?d = "seed_db dg md5_hex cfg"
  note tables = seed_tables [OF assms] seed_static_tables [OF assms] seed_empty_tables
  have p: "pf_payments cfg < 10 ^ 12" using assms by (simp add: sized_def)
  have "inj_on (\<lambda>g. lpad (int_dec g) 12) {1..pf_payments cfg}"
    using p by (intro inj_onI) (simp add: lpad_inject)
  then have keys: "distinct (payment_keys ?d)"
    by (auto simp: payment_keys_def tables distinct_map inj_on_def seeded_payment_def)
  have ids: "distinct (map pay_id (payment_transactions ?d))" "distinct (map qr_id (qr_codes ?d))"
    "distinct (map wal_id (rf_wallets ?d))"
    by (simp_all add: tables comp_def seeded_payment_def seeded_qr_def seeded_wallet_def Let_def)
  have complete: "\<not> must_be_complete (seed_expectation cfg) p" if "p \<in> set (payment_transactions ?d)" for p
    using that seeded_not_corr by (auto simp: tables seed_expectation_def)
  have wallets: "wallet_balance ?d w + wallet_debits ?d w = wallet_total (seed_expectation cfg) w" for w
  proof (cases "1 \<le> w \<and> w \<le> seed_wallet_count cfg")
    case True
    then have "seeded_wallet w \<in> set (rf_wallets ?d)" by (simp add: tables)
    from filter_unique_key [OF ids(3) this] have "filter (\<lambda>r. wal_id r = w) (rf_wallets ?d) = [seeded_wallet w]"
      by (simp add: seeded_wallet_def)
    with True show ?thesis
      by (simp add: wallet_balance_def wallet_debits_def tables seed_expectation_def seeded_wallet_def)
  next
    case False
    then have "filter (\<lambda>r. wal_id r = w) (rf_wallets ?d) = []"
      by (auto simp: tables filter_empty_conv seeded_wallet_def)
    with False show ?thesis by (simp add: wallet_balance_def wallet_debits_def tables seed_expectation_def)
  qed
  have "qr_usage_count q = 0" if "q \<in> set (qr_codes ?d)" for q
    using that by (auto simp: tables seeded_qr_def Let_def)
  then have uses: "qr_uses ?d q - qr_payments ?d q = unpaid_uses (seed_expectation cfg) q" for q
  proof -
    assume zero: "\<And>q. q \<in> set (qr_codes ?d) \<Longrightarrow> qr_usage_count q = 0"
    have "qr_uses ?d q = sum_list (map (\<lambda>_. 0) (filter (\<lambda>r. qr_id r = q) (qr_codes ?d)))"
      unfolding qr_uses_def by (rule arg_cong [of _ _ sum_list], rule map_cong) (use zero in auto)
    then have "qr_uses ?d q = 0" by (simp add: sum_list_triv)
    moreover have "filter (\<lambda>p. pay_qr_code_id p = Some q) (payment_transactions ?d) = []"
      by (auto simp: tables filter_empty_conv seeded_payment_def)
    ultimately show ?thesis by (simp add: qr_payments_def seed_expectation_def)
  qed
  have checks: "\<forall>q \<in> set (qr_codes ?d). check_qr_code q" "\<forall>w \<in> set (rf_wallets ?d). check_rf_wallet w"
    by (auto simp: tables seeded_qr_def seeded_wallet_def check_qr_code_def check_rf_wallet_def Let_def)
  show ?thesis
    unfolding financial_ok_def using keys ids complete wallets uses checks
    by (simp add: seed_empty_tables payment_debits_def)
qed

lemma seed_commands_ok:
  assumes "sized cfg"
  shows "commands_ok (seed_db dg md5_hex cfg)"
proof -
  note tables = seed_tables [OF assms] seed_empty_tables
  have "command_keys (seed_db dg md5_hex cfg)"
    by (simp add: command_keys_def tables comp_def seeded_command_def seeded_execution_def)
  moreover have "\<forall>c \<in> set (commands (seed_db dg md5_hex cfg)). command_ok (seed_db dg md5_hex cfg) c"
    by (auto simp: tables command_ok_def seeded_command_def check_command_def terminal_def)
  ultimately show ?thesis by (simp add: commands_ok_def)
qed

lemma seed_healthy:
  assumes "sized cfg"
  shows "healthy (seed_expectation cfg) (seed_db dg md5_hex cfg) (seed_seqs cfg)"
proof -
  let ?d = "seed_db dg md5_hex cfg"
  note tables = seed_tables [OF assms] seed_static_tables [OF assms] seed_empty_tables
  have "history_ok (seed_expectation cfg) ?d"
    by (simp add: history_ok_def tables seed_expectation_def comp_def seeded_command_def follows_def)
  moreover have "sweepable (seed_seqs cfg) ?d"
    using assms round_robin [of "pf_devices cfg"]
    by (auto simp: sweepable_def alarms_ok_def tables comp_def seeded_device_def seeded_execution_def
        has_key_def image_iff payment_device_def sized_def)
  moreover have "ids_fresh (seed_seqs cfg) ?d"
  proof -
    have "sort_key dev_id (map (seeded_device cfg) [1..pf_devices cfg]) = map (seeded_device cfg) [1..pf_devices cfg]"
      by (rule sort_range) (simp add: seeded_device_def)
    then show ?thesis
      by (auto simp: ids_fresh_def tables below_def seed_seqs_def seeded_payment_def seed_heartbeats_def serial_map)
  qed
  moreover have "catalog_ok ?d"
  proof -
    have "0 < prog_price_minor p" if "p \<in> set (programs ?d)" for p
      using that by (auto simp: tables seed_programs_def)
    moreover have "distinct (map cfg_device_id (filter (\<lambda>c. cfg_status c = PUBLISHED) (device_configurations ?d)))"
      by (simp add: tables filter_map comp_def seeded_configuration_def)
    ultimately show ?thesis by (simp add: catalog_ok_def)
  qed
  moreover have "links_ok ?d" by (simp add: links_ok_def seed_empty_tables)
  ultimately show ?thesis
    using seed_financial_ok [OF assms] seed_commands_ok [OF assms]
    by (simp add: healthy_def system_ok_def integrity_def)
qed

end
