(* ===== verification/Driver.thy ===== *)
theory Driver
  imports Seed Api Worker Hard_Gate
begin

text \<open>
  \<open>scripts/correctness_driver.py\<close>: the run that checks the service against a seeded
  database.  Each case prepares the database with statements of its own, sends requests, and
  asserts what it reads back; \<open>None\<close> is a failed assertion.  Requests that the driver sends
  from a thread pool arrive in an order of their own, which is an argument of the case, as
  are all clock readings.  The statistics of the SQL statements are not modelled.
\<close>

section \<open>Requests\<close>

text \<open>What the service reads while it serves one request: a fresh UUID and its clock.\<close>

record reading =
  rd_uuid :: string
  rd_now :: timestamp
  rd_now2 :: timestamp
  rd_answered :: timestamp

definition send :: "digests \<Rightarrow> headers \<Rightarrow> request \<Rightarrow> reading \<Rightarrow> session \<Rightarrow> api_data response \<times> session" where
  "send dg h req c s = serve dg (rd_uuid c) (rd_now c) (rd_now2 c) (rd_answered c) h req s"

fun send_all ::
  "digests \<Rightarrow> headers \<Rightarrow> (request \<times> reading) list \<Rightarrow> session \<Rightarrow> api_data response list \<times> session" where
  "send_all dg h [] s = ([], s)"
| "send_all dg h ((req, c) # qs) s =
     (case send dg h req c s of (r, t) \<Rightarrow> case send_all dg h qs t of (rs, u) \<Rightarrow> (r # rs, u))"

definition device_headers :: headers where
  "device_headers = \<lparr>x_device_id = 1, authorization = Some ''Device credential-1''\<rparr>"

text \<open>\<open>status == 200 and payload.get("success") is True\<close>\<close>

fun succeeded :: "'a response \<Rightarrow> bool" where
  "succeeded (SuccessResponse code _ _) = (code = 200)"
| "succeeded _ = False"

definition require :: "bool \<Rightarrow> 's \<Rightarrow> 's option" where
  "require c t = (if c then Some t else None)"

section \<open>Statements on the database\<close>

text \<open>\<open>psql\<close> runs its statements in one transaction.\<close>

definition psql :: "(db \<Rightarrow> db) \<Rightarrow> session \<Rightarrow> session" where
  "psql f s = s\<lparr>committed := f (committed s), working := f (committed s)\<rparr>"

definition prepare_device :: "timestamp \<Rightarrow> db \<Rightarrow> db" where
  "prepare_device now d = d\<lparr>
     device_current_states := update_where (\<lambda>c. cs_device_id c = 1)
       (\<lambda>c. c\<lparr>cs_last_seen_at := Some now, cs_current_configuration_version := Some 1,
              cs_acknowledged_configuration_version := Some 1, cs_updated_at := now\<rparr>)
       (device_current_states d),
     devices := update_where (\<lambda>v. dev_id v = 1) (\<lambda>v. v\<lparr>dev_status := ACTIVE\<rparr>) (devices d),
     wash_bays := update_where (\<lambda>w. bay_device_id w = Some 1) (\<lambda>w. w\<lparr>bay_status := IDLE\<rparr>) (wash_bays d),
     maintenance_windows := filter (\<lambda>m. mw_device_id m \<noteq> Some 1) (maintenance_windows d),
     entitlements := update_where (\<lambda>e. ent_device_id e = 1 \<and> ent_program_id e = 1)
       (\<lambda>e. e\<lparr>ent_enabled := True\<rparr>) (entitlements d),
     program_payment_methods := update_where (\<lambda>m. ppm_program_id m = 1)
       (\<lambda>m. m\<lparr>ppm_enabled := True\<rparr>) (program_payment_methods d),
     program_executions := update_where
       (\<lambda>e. exe_wash_bay_id e = Some 1 \<and> exe_status e \<in> {CREATED, COMMAND_SENT, RUNNING})
       (\<lambda>e. e\<lparr>exe_status := SUCCESS, exe_completed_at := Some now\<rparr>) (program_executions d)\<rparr>"

text \<open>\<open>DELETE FROM payment_transactions\<close> with every \<open>ON DELETE CASCADE\<close> of the schema.\<close>

definition delete_payments :: "(payment_transaction \<Rightarrow> bool) \<Rightarrow> db \<Rightarrow> db" where
  "delete_payments P d =
     (let gone = map pay_id (filter P (payment_transactions d));
          kept = (\<lambda>i. case i of None \<Rightarrow> True | Some i \<Rightarrow> i \<notin> set gone);
          exes = map exe_id (filter (\<lambda>e. exe_payment_id e \<in> set gone) (program_executions d));
          cmds = map cmd_id (filter (\<lambda>c. cmd_program_execution_id c \<in> set exes) (commands d))
      in d\<lparr>payment_transactions := filter (\<lambda>p. \<not> P p) (payment_transactions d),
           payment_attempts := filter (\<lambda>a. att_payment_id a \<notin> set gone) (payment_attempts d),
           provider_transactions := filter (\<lambda>t. prov_payment_id t \<notin> set gone) (provider_transactions d),
           start_rights := filter (\<lambda>r. sr_payment_id r \<notin> set gone) (start_rights d),
           rf_wallet_ledger := filter (\<lambda>l. kept (led_payment_id l)) (rf_wallet_ledger d),
           program_executions := filter (\<lambda>e. exe_payment_id e \<notin> set gone) (program_executions d),
           commands := filter (\<lambda>c. cmd_program_execution_id c \<notin> set exes) (commands d),
           command_results := filter (\<lambda>r. res_command_id r \<notin> set cmds) (command_results d),
           events := filter (\<lambda>e. kept (ev_payment_id e)) (events d),
           audit_entries := filter (\<lambda>a. aud_payment_id a \<notin> set gone) (audit_entries d)\<rparr>)"

text \<open>\<open>idempotency_key LIKE 'prefix%'\<close>\<close>

definition like_prefix :: "string \<Rightarrow> payment_transaction \<Rightarrow> bool" where
  "like_prefix prefix p = startswith prefix (pay_idempotency_key p)"

definition reset_qr :: "db \<Rightarrow> db" where
  "reset_qr d = d\<lparr>qr_codes := update_where (\<lambda>q. qr_id q = 1)
     (\<lambda>q. q\<lparr>qr_usage_count := 0, qr_status := ACTIVE\<rparr>) (qr_codes d)\<rparr>"

definition reset_wallet :: "timestamp \<Rightarrow> db \<Rightarrow> db" where
  "reset_wallet now d = d\<lparr>rf_wallets := update_where (\<lambda>w. wal_id w = 1)
     (\<lambda>w. w\<lparr>wal_balance_minor := 1000, wal_version := 0, wal_updated_at := now\<rparr>) (rf_wallets d)\<rparr>"

section \<open>Heartbeat and configuration\<close>

definition heartbeat_body :: heartbeat_request where
  "heartbeat_body = \<lparr>hr_sequence = Some 909090, hr_app_version = Some ''correctness'',
     hr_state = [(''health'', JStr ''OK''), (''signal'', JInt 77)]\<rparr>"

definition heartbeats_of :: "int \<Rightarrow> db \<Rightarrow> nat" where
  "heartbeats_of i d = length (filter (\<lambda>h. hb_device_id h = i) (device_heartbeats d))"

definition heartbeat_case :: "digests \<Rightarrow> reading \<Rightarrow> session \<Rightarrow> session option" where
  "heartbeat_case dg c s =
     (let before = heartbeats_of 1 (committed s);
          (r, t) = send dg device_headers (Heartbeat heartbeat_body) c s
      in require (succeeded r \<and> heartbeats_of 1 (committed t) = before + 1 \<and>
           map cs_app_version (filter (\<lambda>c. cs_device_id c = 1) (device_current_states (committed t))) =
             [Some ''correctness'']) t)"

fun configuration_data :: "api_data response \<Rightarrow> (string \<times> json) list" where
  "configuration_data (SuccessResponse _ (ConfigurationData kvs) _) = kvs"
| "configuration_data _ = []"

definition configuration_case :: "digests \<Rightarrow> reading \<Rightarrow> session \<Rightarrow> session option" where
  "configuration_case dg c s =
     (let (r, t) = send dg device_headers (GetConfiguration (Some 1)) c s; d = configuration_data r
      in require (status_code r = 200 \<and> map_of d ''version'' = Some (JInt 1) \<and>
           map_of d ''update_available'' = Some (JBool False) \<and>
           map_of d ''device_id'' = Some (JStr ''dev-0000001'') \<and>
           map_of d ''station_id'' = Some (JStr ''stn-000001'')) t)"

section \<open>Card payments\<close>

definition card_body :: "string \<Rightarrow> payment_request" where
  "card_body scenario = \<lparr>station_program_id = Some 1, payment_method = ''CARD'', configuration_version = 1,
     displayed_price_minor = Some 1000, qr_token = None, rf_uid = None, test_scenario = Some scenario\<rparr>"

text \<open>\<open>SELECT status FROM payment_transactions WHERE idempotency_key = key\<close>\<close>

definition statuses_of_key :: "string \<Rightarrow> db \<Rightarrow> status list" where
  "statuses_of_key key d = map pay_status (filter (\<lambda>p. pay_idempotency_key p = key) (payment_transactions d))"

definition card_step :: "digests \<Rightarrow> string \<times> string \<times> int \<times> status \<Rightarrow> reading \<Rightarrow> session \<Rightarrow> session option" where
  "card_step dg x c s =
     (case x of (key, scenario, expected_http, expected_db) \<Rightarrow>
      let (r, t) = send dg device_headers (Payment (card_body scenario) key) c s
      in require (status_code r = expected_http \<and> statuses_of_key key (committed t) = [expected_db]) t)"

definition card_cases :: "(string \<times> string \<times> int \<times> status) list" where
  "card_cases =
     [(''corr-card-success'', ''TEST_SUCCESS'', 200, SUCCESS),
      (''corr-card-failed'', ''TEST_FAILED'', 409, FAILED),
      (''corr-card-pending'', ''TEST_TIMEOUT'', 202, PENDING)]"

fun card_run :: "digests \<Rightarrow> ((string \<times> string \<times> int \<times> status) \<times> reading) list \<Rightarrow> session \<Rightarrow> session option" where
  "card_run dg [] s = Some s"
| "card_run dg ((x, c) # xs) s = Option.bind (card_step dg x c s) (card_run dg xs)"

definition card_case :: "digests \<Rightarrow> (nat \<Rightarrow> reading) \<Rightarrow> session \<Rightarrow> session option" where
  "card_case dg rd = card_run dg (zip card_cases (map rd [0..<3]))"

fun payment_data_id :: "api_data response \<Rightarrow> string" where
  "payment_data_id (SuccessResponse _ (PaymentData v) _) = pp_id v"
| "payment_data_id _ = ''''"

text \<open>Ten requests under one key, in whatever order: they are all the same.\<close>

definition same_key_case :: "digests \<Rightarrow> (nat \<Rightarrow> reading) \<Rightarrow> session \<Rightarrow> session option" where
  "same_key_case dg rd s =
     (let (rs, t) = send_all dg device_headers
            (map (\<lambda>i. (Payment (card_body ''TEST_SUCCESS'') ''corr-same-key'', rd i)) [0..<10]) s
      in require ((\<forall>r \<in> set rs. status_code r = 200) \<and> card (set (map payment_data_id rs)) = 1 \<and>
           length (statuses_of_key ''corr-same-key'' (committed t)) = 1) t)"

section \<open>Races for one QR code and for one wallet\<close>

definition race_prefix :: "string \<Rightarrow> nat \<Rightarrow> string" where
  "race_prefix kind n = ''corr-'' @ kind @ ''-'' @ nat_dec n @ ''-''"

definition race_key :: "string \<Rightarrow> nat \<Rightarrow> nat \<Rightarrow> string" where
  "race_key kind n i = race_prefix kind n @ zpad 3 (nat_dec i)"

definition qr_body :: payment_request where
  "qr_body = \<lparr>station_program_id = None, payment_method = ''QR'', configuration_version = 1,
     displayed_price_minor = None, qr_token = Some ''qr-token-1'', rf_uid = None, test_scenario = None\<rparr>"

definition rf_body :: payment_request where
  "rf_body = \<lparr>station_program_id = Some 1, payment_method = ''RF_CARD'', configuration_version = 1,
     displayed_price_minor = Some 1000, qr_token = None, rf_uid = Some ''AABBCCDD00000001'',
     test_scenario = None\<rparr>"

text \<open>Request \<open>i\<close> of the \<open>n\<close>, with its clock; \<open>order\<close> is the order of arrival.\<close>

definition race_requests ::
  "string \<Rightarrow> payment_request \<Rightarrow> nat \<Rightarrow> nat list \<Rightarrow> (nat \<Rightarrow> reading) \<Rightarrow> (request \<times> reading) list" where
  "race_requests kind body n order rd = map (\<lambda>i. (Payment body (race_key kind n i), rd i)) order"

definition one_winner :: "nat \<Rightarrow> api_data response list \<Rightarrow> bool" where
  "one_winner n rs \<longleftrightarrow> count_list (map status_code rs) 200 = 1 \<and> count_list (map status_code rs) 409 = n - 1"

definition qr_case :: "digests \<Rightarrow> nat \<Rightarrow> nat list \<Rightarrow> (nat \<Rightarrow> reading) \<Rightarrow> session \<Rightarrow> session option" where
  "qr_case dg n order rd s =
     (let (rs, t) = send_all dg device_headers (race_requests ''qr'' qr_body n order rd) s; d = committed t
      in require (one_winner n rs \<and> map qr_usage_count (filter (\<lambda>q. qr_id q = 1) (qr_codes d)) = [1] \<and>
           length (filter (\<lambda>p. like_prefix (race_prefix ''qr'' n) p \<and> pay_status p = SUCCESS)
             (payment_transactions d)) = 1) t)"

definition race_debits :: "string \<Rightarrow> db \<Rightarrow> (ledger_entry \<times> payment_transaction) list" where
  "race_debits prefix d = [(l, p). l \<leftarrow> rf_wallet_ledger d, p \<leftarrow> payment_transactions d,
     led_payment_id l = Some (pay_id p) \<and> like_prefix prefix p \<and> led_direction l = DEBIT]"

definition rf_case :: "digests \<Rightarrow> nat \<Rightarrow> nat list \<Rightarrow> (nat \<Rightarrow> reading) \<Rightarrow> session \<Rightarrow> session option" where
  "rf_case dg n order rd s =
     (let (rs, t) = send_all dg device_headers (race_requests ''rf'' rf_body n order rd) s; d = committed t
      in require (one_winner n rs \<and> map wal_balance_minor (filter (\<lambda>w. wal_id w = 1) (rf_wallets d)) = [0] \<and>
           length (race_debits (race_prefix ''rf'' n) d) = 1) t)"

section \<open>Commands\<close>

definition reset_command :: "timestamp \<Rightarrow> db \<Rightarrow> db" where
  "reset_command now d =
     (let exes = map cmd_program_execution_id (filter (\<lambda>c. cmd_id c = 1) (commands d))
      in d\<lparr>command_results := filter (\<lambda>r. res_command_id r \<noteq> 1) (command_results d),
           commands := update_where (\<lambda>c. cmd_id c = 1)
             (\<lambda>c. c\<lparr>cmd_device_id := 1, cmd_status := PENDING, cmd_sent_at := None, cmd_acknowledged_at := None,
                    cmd_completed_at := None, cmd_result_code := None, cmd_created_at := now\<rparr>) (commands d),
           program_executions := update_where (\<lambda>e. exe_id e \<in> set exes)
             (\<lambda>e. e\<lparr>exe_device_id := 1, exe_wash_bay_id := Some 1, exe_status := CREATED,
                    exe_started_at := None, exe_completed_at := None\<rparr>) (program_executions d)\<rparr>)"

definition report :: "string \<Rightarrow> string option \<Rightarrow> string option \<Rightarrow> request" where
  "report result code message =
     CommandResult 1 \<lparr>rr_result = result, rr_code = code, rr_message = message\<rparr> ''corr-command-result''"

definition command_requests :: "(nat \<Rightarrow> reading) \<Rightarrow> (request \<times> reading) list" where
  "command_requests rd = zip
     [CommandsPending None, CommandAcknowledge 1, report ''SUCCESS'' None None, report ''SUCCESS'' None None,
      report ''FAILED'' (Some ''HW'') (Some ''different'')] (map rd [0..<5])"

definition command_case :: "digests \<Rightarrow> (nat \<Rightarrow> reading) \<Rightarrow> session \<Rightarrow> session option" where
  "command_case dg rd s =
     (let (rs, t) = send_all dg device_headers (command_requests rd) s
      in require (map status_code rs = [200, 200, 200, 200, 409] \<and>
           length (filter (\<lambda>r. res_command_id r = 1) (command_results (committed t))) = 1) t)"

section \<open>Dashboard\<close>

fun dashboard_companies :: "api_data response \<Rightarrow> int option" where
  "dashboard_companies (SuccessResponse _ (OverviewData v) _) = Some (ov_company_count v)"
| "dashboard_companies _ = None"

definition panel_headers :: headers where
  "panel_headers = \<lparr>x_device_id = 1, authorization = Some ''Bearer panel-company-1''\<rparr>"

definition dashboard_case :: "digests \<Rightarrow> reading \<Rightarrow> session \<Rightarrow> session option" where
  "dashboard_case dg c s =
     (let (r, t) = send dg panel_headers (DashboardOverview (Some ''TODAY'')) c s
      in require (status_code r = 200 \<and> dashboard_companies r = Some 1) t)"

section \<open>The worker\<close>

text \<open>\<open>alarm_key LIKE 'device%offline'\<close>\<close>

definition like_offline :: "string \<Rightarrow> bool" where
  "like_offline k \<longleftrightarrow> startswith ''device'' k \<and>
     (let r = drop 6 k in 7 \<le> length r \<and> drop (length r - 7) r = ''offline'')"

definition silence_device :: "timestamp \<Rightarrow> db \<Rightarrow> db" where
  "silence_device now d = d\<lparr>
     maintenance_windows := [],
     device_current_states := map (\<lambda>c. c\<lparr>cs_last_seen_at := Some (if cs_device_id c = 1 then now - minutes 10 else now),
       cs_updated_at := now\<rparr>) (device_current_states d),
     alarms := filter (\<lambda>a. \<not> like_offline (al_alarm_key a)) (alarms d)\<rparr>"

definition revive_device :: "timestamp \<Rightarrow> db \<Rightarrow> db" where
  "revive_device now d = d\<lparr>device_current_states := update_where (\<lambda>c. cs_device_id c = 1)
     (\<lambda>c. c\<lparr>cs_last_seen_at := Some now, cs_updated_at := now\<rparr>) (device_current_states d)\<rparr>"

definition offline_alarms :: "status \<Rightarrow> db \<Rightarrow> nat" where
  "offline_alarms st d = length (filter (\<lambda>a. al_device_id a = 1 \<and> al_alarm_key a = ''device:1:offline'' \<and>
     al_status a = st) (alarms d))"

definition run_worker :: "timestamp \<Rightarrow> session \<Rightarrow> session option" where
  "run_worker now s = (case worker_run now s of (Inr _, t) \<Rightarrow> Some t | (Inl _, t) \<Rightarrow> None)"

definition worker_case :: "timestamp \<Rightarrow> (nat \<Rightarrow> timestamp) \<Rightarrow> session \<Rightarrow> session option" where
  "worker_case revived sweep s =
     Option.bind (run_worker (sweep 0) s) (\<lambda>t.
     Option.bind (require (offline_alarms OPEN (committed t) = 1) t) (\<lambda>t.
     Option.bind (run_worker (sweep 1) t) (\<lambda>t.
     Option.bind (require (offline_alarms OPEN (committed t) = 1) t) (\<lambda>t.
     Option.bind (run_worker (sweep 2) (psql (revive_device revived) t)) (\<lambda>t.
     require (1 \<le> offline_alarms RESOLVED (committed t)) t)))))"

section \<open>The run\<close>

text \<open>
  The clocks and the orders of arrival of a run: per case the time of its own statements, the
  readings of its requests and, for a race, the order in which they are served.
\<close>

record schedule =
  sch_at :: "string \<Rightarrow> timestamp"
  sch_reading :: "string \<Rightarrow> nat \<Rightarrow> reading"
  sch_order :: "string \<Rightarrow> nat list"
  sch_sweep :: "nat \<Rightarrow> timestamp"

definition qr_phase :: "digests \<Rightarrow> schedule \<Rightarrow> nat \<Rightarrow> session \<Rightarrow> session option" where
  "qr_phase dg sch n s =
     (let name = ''qr_'' @ nat_dec n;
          s1 = psql (prepare_device (sch_at sch name)) s;
          s2 = psql (reset_qr \<circ> delete_payments (like_prefix (race_prefix ''qr'' n))) s1
      in qr_case dg n (sch_order sch name) (sch_reading sch name) s2)"

definition rf_phase :: "digests \<Rightarrow> schedule \<Rightarrow> nat \<Rightarrow> session \<Rightarrow> session option" where
  "rf_phase dg sch n s =
     (let name = ''rf_'' @ nat_dec n;
          s1 = psql (prepare_device (sch_at sch name)) s;
          s2 = psql (reset_wallet (sch_at sch name) \<circ> delete_payments (like_prefix (race_prefix ''rf'' n))) s1
      in rf_case dg n (sch_order sch name) (sch_reading sch name) s2)"

definition driver_cases :: "digests \<Rightarrow> schedule \<Rightarrow> session \<Rightarrow> session option" where
  "driver_cases dg sch s =
     (let at = sch_at sch; rd = sch_reading sch in
     Option.bind (heartbeat_case dg (rd ''heartbeat'' 0) (psql (prepare_device (at ''heartbeat'')) s)) (\<lambda>s.
     Option.bind (configuration_case dg (rd ''configuration'' 0) s) (\<lambda>s.
     Option.bind (card_case dg (rd ''card'') (psql (delete_payments (like_prefix ''corr-card-''))
       (psql (prepare_device (at ''card'')) s))) (\<lambda>s.
     Option.bind (same_key_case dg (rd ''same_key'')
       (psql (delete_payments (\<lambda>p. pay_idempotency_key p = ''corr-same-key''))
         (psql (prepare_device (at ''same_key'')) s))) (\<lambda>s.
     Option.bind (qr_phase dg sch 2 s) (\<lambda>s.
     Option.bind (qr_phase dg sch 10 s) (\<lambda>s.
     Option.bind (qr_phase dg sch 100 s) (\<lambda>s.
     Option.bind (rf_phase dg sch 2 s) (\<lambda>s.
     Option.bind (rf_phase dg sch 10 s) (\<lambda>s.
     Option.bind (rf_phase dg sch 100 s) (\<lambda>s.
     Option.bind (command_case dg (rd ''command'') (psql (reset_command (at ''command'')) s)) (\<lambda>s.
     Option.bind (dashboard_case dg (rd ''dashboard'' 0) s) (\<lambda>s.
     worker_case (at ''revived'') (sch_sweep sch) (psql (silence_device (at ''worker'')) s))))))))))))))"

text \<open>The exit code: 2 for a failed assertion, 1 for a gate that counts something.\<close>

definition driver_main :: "digests \<Rightarrow> schedule \<Rightarrow> session \<Rightarrow> int" where
  "driver_main dg sch s =
     (case driver_cases dg sch s of
        None \<Rightarrow> 2
      | Some t \<Rightarrow> if list_ex (\<lambda>(query, n). n \<noteq> 0) (hard_gate (committed t)) then 1 else 0)"

end
