(* ===== verification/Race.thy ===== *)
theory Race
  imports No_Fault Driver
begin

text \<open>
  Several payments from one limited resource, in any order of arrival: a QR code with its
  remaining uses, a wallet with its balance.  The locale \<open>budget\<close> says what one request does
  to the resource and concludes how many of a sequence succeed; both methods of payment
  provide it.
\<close>

section \<open>A limited resource\<close>

text \<open>
  \<open>act\<close> serves one request and returns its HTTP status; \<open>ready\<close> holds in a state from which
  the listed requests are admissible; \<open>recorded\<close> counts what the successful ones leave behind.
\<close>

fun act_all :: "('r \<Rightarrow> 's \<Rightarrow> int \<times> 's) \<Rightarrow> 'r list \<Rightarrow> 's \<Rightarrow> int list \<times> 's" where
  "act_all act [] s = ([], s)"
| "act_all act (r # rs) s = (case act r s of (code, t) \<Rightarrow> case act_all act rs t of (codes, u) \<Rightarrow> (code # codes, u))"

locale budget =
  fixes ready :: "'s \<Rightarrow> 'r list \<Rightarrow> bool" and act :: "'r \<Rightarrow> 's \<Rightarrow> int \<times> 's"
    and remaining :: "'s \<Rightarrow> int" and cost :: int and recorded :: "'s \<Rightarrow> nat"
  assumes ready_next: "ready s (r # rs) \<Longrightarrow> act r s = (code, t) \<Longrightarrow> ready t rs"
    and granted: "ready s (r # rs) \<Longrightarrow> act r s = (code, t) \<Longrightarrow> cost \<le> remaining s \<Longrightarrow>
      code = 200 \<and> remaining t = remaining s - cost \<and> recorded t = Suc (recorded s)"
    and refused: "ready s (r # rs) \<Longrightarrow> act r s = (code, t) \<Longrightarrow> remaining s < cost \<Longrightarrow>
      code = 409 \<and> remaining t = remaining s \<and> recorded t = recorded s"
    and cost_pos: "ready s rs \<Longrightarrow> 0 < cost"
begin

definition share :: "'s \<Rightarrow> 'r list \<Rightarrow> nat" where
  "share s rs = min (length rs) (nat (remaining s div cost))"

lemma share_granted:
  assumes "0 < cost" "cost \<le> remaining s" "remaining t = remaining s - cost"
  shows "share s (r # rs) = Suc (share t rs)"
proof -
  have "remaining s div cost = remaining t div cost + 1"
    using assms div_add_self2 [of cost "remaining t"] by simp
  moreover have "0 \<le> remaining t div cost" using assms by (simp add: pos_imp_zdiv_nonneg_iff)
  ultimately show ?thesis by (simp add: share_def nat_add_distrib)
qed

lemma share_refused: "0 \<le> remaining s \<Longrightarrow> remaining s < cost \<Longrightarrow> share s rs = 0"
  by (simp add: share_def)

theorem all_served:
  assumes "ready s rs" "0 \<le> remaining s" "act_all act rs s = (codes, t)"
  shows "count_list codes 200 = share s rs \<and> count_list codes 409 = length rs - share s rs \<and>
    remaining t = remaining s - cost * int (share s rs) \<and> recorded t = recorded s + share s rs \<and> ready t []"
  using assms
proof (induction rs arbitrary: s codes)
  case Nil
  then show ?case by (simp add: share_def)
next
  case (Cons r rs)
  obtain code u where act: "act r s = (code, u)" by fastforce
  obtain codes' where rest: "act_all act rs u = (codes', t)" and codes: "codes = code # codes'"
    using Cons.prems(3) act by (auto split: prod.splits)
  have ready: "ready u rs" by (rule ready_next [OF Cons.prems(1) act])
  have pos: "0 < cost" by (rule cost_pos [OF Cons.prems(1)])
  show ?case
  proof (cases "cost \<le> remaining s")
    case True
    from granted [OF Cons.prems(1) act True] have u: "code = 200" "remaining u = remaining s - cost" "recorded u = Suc (recorded s)" by simp_all
    with True have "0 \<le> remaining u" by simp
    from Cons.IH [OF ready this rest] share_granted [OF pos True u(2), of r rs] show ?thesis
      by (simp add: codes u algebra_simps)
  next
    case False
    then have less: "remaining s < cost" by simp
    from refused [OF Cons.prems(1) act less] have u: "code = 409" "remaining u = remaining s" "recorded u = recorded s" by simp_all
    from Cons.IH [OF ready _ rest] share_refused [OF _ less, of "r # rs"] share_refused [of u rs] less
    show ?thesis using Cons.prems(2) by (simp add: codes u)
  qed
qed

end

section \<open>One payment over HTTP\<close>

definition http_status :: "status \<Rightarrow> int" where
  "http_status st = (if st \<in> {FAILED, CANCELLED} then 409 else if st = PENDING then 202 else 200)"

definition payment_answer :: "string \<Rightarrow> timestamp \<Rightarrow> payment_payload \<Rightarrow> api_data response" where
  "payment_answer uuid answered v =
     (if pp_status v \<in> {FAILED, CANCELLED} then error_response uuid answered (payment_error v)
      else SuccessResponse (http_status (pp_status v)) (PaymentData v) (make_meta uuid answered))"

lemma status_payment_answer [simp]: "status_code (payment_answer uuid answered v) = http_status (pp_status v)"
  by (simp add: payment_answer_def http_status_def payment_error_def)

lemma with_device_total:
  "device_authentic dg (working s) (x_device_id h) (device_token (authorization h)) v \<Longrightarrow> wp (k v) Q E s \<Longrightarrow>
   wp (with_device dg h k) Q E s"
  by (auto simp: with_device_def wp_rules)

lemma serve_payment_wp:
  assumes "device_authentic dg (committed s) (x_device_id h) (device_token (authorization h)) v"
    and "valid_request (Payment body key)"
    and "wp (create_payment dg now v body key) (\<lambda>p u. p = w \<and> u = t) (\<lambda>_ _. False) (s\<lparr>working := committed s\<rparr>)"
    and "working t = committed t"
  shows "serve dg uuid now now' answered h (Payment body key) s = (payment_answer uuid answered w, t)"
proof -
  let ?Q = "\<lambda>r u. pp_status w \<notin> {FAILED, CANCELLED} \<and> r = (http_status (pp_status w), PaymentData w) \<and> u = t"
  let ?E = "\<lambda>e u. pp_status w \<in> {FAILED, CANCELLED} \<and> e = payment_error w \<and> u = t"
  have "wp (payment dg now h body key) ?Q ?E (s\<lparr>working := committed s\<rparr>)"
    unfolding payment_def
  proof (rule with_device_total)
    show "wp (bind_op (create_payment dg now v body key) (\<lambda>v. if pp_status v \<in> {FAILED, CANCELLED} then raise (payment_error v)
        else ret (if pp_status v = PENDING then 202 else 200, PaymentData v))) ?Q ?E (s\<lparr>working := committed s\<rparr>)"
      unfolding wp_bind by (rule wp_mono [OF assms(3)]) (auto simp: wp_rules http_status_def)
  qed (use assms(1) in simp)
  moreover have "t\<lparr>working := committed t\<rparr> = t"
    using assms(4) by (metis session.surjective session.update_convs(2))
  ultimately show ?thesis
    using assms(2)
    by (auto simp: serve_def with_session_def wp_def rollback_def payment_answer_def split: prod.splits sum.splits)
qed

text \<open>What the response of a new payment shows.\<close>

lemma lookup_view_new:
  assumes "\<not> has_key pay_id (payment_transactions d) (pay_id p)" "payment_transactions d' = payment_transactions d @ [p]"
    and "lookup_view d' (pay_id p) = Some v"
  shows "pp_status v = pay_status p"
proof -
  have "List.find (\<lambda>r. pay_id r = pay_id p) (payment_transactions d) = None"
    using assms(1) by (simp add: find_None_set has_key_def image_iff) metis
  with assms(2,3) show ?thesis by (auto simp: lookup_view_def payment_view_def row_simps)
qed

lemma serve_payment:
  assumes h: "healthy expected (committed s) (seqs s)"
    and dev: "device_authentic dg (committed s) (x_device_id hs) (device_token (authorization hs)) v"
    and req: "valid_request (Payment body key)"
    and unused: "find_by_key (dev_id v) key (committed s) = None"
    and g: "guards_pass now v body (committed s) company_id wash_bay_id"
    and p: "program_resolved dg v company_id body (committed s) program_id price"
    and stl: "settles dg now v company_id program_id body price (committed s) stl d1"
  shows "\<exists>w. serve dg uuid now now' answered hs (Payment body key) s =
      (payment_answer uuid answered w, paid_state dg now v body key wash_bay_id program_id price stl s d1) \<and>
    pp_status w = stl_status stl \<and>
    lookup_view (paid_db dg now v body key wash_bay_id program_id price stl s d1) (seqs s PaymentSeq) = Some w"
proof -
  let ?s = "s\<lparr>working := committed s\<rparr>"
  let ?d = "paid_db dg now v body key wash_bay_id program_id price stl s d1"
  let ?t = "paid_state dg now v body key wash_bay_id program_id price stl s d1"
  have key: "has_key dev_id (devices (committed s)) (dev_id v)"
    using dev by (auto simp: device_authentic_def intro: has_key_memI dest: find_SomeD)
  have "wp (create_payment dg now v body key)
      (\<lambda>w u. lookup_view ?d (seqs s PaymentSeq) = Some w \<and> u = ?t) (\<lambda>_ _. False) ?s"
    by (rule create_payment_exact [where s = ?s and expected = expected])
      (use h key unused g p stl in \<open>simp_all add: paid_db_def\<close>)
  then obtain w where w: "lookup_view ?d (seqs s PaymentSeq) = Some w"
    and run: "create_payment dg now v body key ?s = (Inr w, ?t)"
    by (auto simp: wp_def split: prod.splits sum.splits)
  have "serve dg uuid now now' answered hs (Payment body key) s = (payment_answer uuid answered w, ?t)"
    by (rule serve_payment_wp [OF dev req]) (simp_all add: wp_def run)
  moreover have "pp_status w = stl_status stl"
  proof -
    obtain qs ws where d1: "d1 = (committed s)\<lparr>qr_codes := qs, rf_wallets := ws\<rparr>"
      using settles_frame [OF stl] by blast
    let ?p = "payment_row now v key (request_hash dg body) (payment_method body) program_id stl (seqs s PaymentSeq)"
    have "\<not> has_key pay_id (payment_transactions d1) (pay_id ?p)"
      using h by (simp add: d1 payment_row_def healthy_def integrity_def ids_fresh_def below_fresh)
    moreover have "payment_transactions ?d = payment_transactions d1 @ [?p]" by (simp add: paid_db_def)
    ultimately have "pp_status w = pay_status ?p"
      using w by (intro lookup_view_new) (simp_all add: payment_row_def)
    then show ?thesis by (simp add: payment_row_def)
  qed
  ultimately show ?thesis using w by blast
qed

lemma serve_replay:
  assumes dev: "device_authentic dg (committed s) (x_device_id hs) (device_token (authorization hs)) v"
    and req: "valid_request (Payment body key)"
    and old: "find_by_key (dev_id v) key (committed s) = Some p" "pay_request_hash p = request_hash dg body"
      "lookup_view (committed s) (pay_id p) = Some w"
    and "working s = committed s"
  shows "serve dg uuid now now' answered hs (Payment body key) s = (payment_answer uuid answered w, s)"
proof -
  have same: "s\<lparr>working := committed s\<rparr> = s" using assms(6) by (metis session.surjective session.update_convs(2))
  have "wp (create_payment dg now v body key) (\<lambda>a u. a = w \<and> u = s) (\<lambda>_ _. False) (s\<lparr>working := committed s\<rparr>)"
    using old assms(6) unfolding same by (simp add: create_payment_def check_replay_def wp_rules wp_read_payment)
  from serve_payment_wp [OF dev req this assms(6)] show ?thesis .
qed

section \<open>Requests that compete\<close>

text \<open>One of them: its idempotency key and what the service reads while it serves it.\<close>

definition compete ::
  "digests \<Rightarrow> headers \<Rightarrow> payment_request \<Rightarrow> string \<times> reading \<Rightarrow> session \<Rightarrow> int \<times> session" where
  "compete dg h body x s = (case send dg h (Payment body (fst x)) (snd x) s of (r, t) \<Rightarrow> (status_code r, t))"

definition race_ready ::
  "digests \<Rightarrow> headers \<Rightarrow> device \<Rightarrow> payment_request \<Rightarrow> int \<Rightarrow> int \<Rightarrow> int \<Rightarrow> int \<Rightarrow> string \<Rightarrow> session \<Rightarrow>
   (string \<times> reading) list \<Rightarrow> bool" where
  "race_ready dg h v body company_id wash_bay_id program_id price prefix s xs \<longleftrightarrow>
     (\<exists>expected. healthy expected (committed s) (seqs s)) \<and>
     device_authentic dg (committed s) (x_device_id h) (device_token (authorization h)) v \<and>
     program_resolved dg v company_id body (committed s) program_id price \<and> distinct (map fst xs) \<and>
     (\<forall>(key, r) \<in> set xs. startswith prefix key \<and> valid_request (Payment body key) \<and> find_by_key (dev_id v) key (committed s) = None \<and>
        guards_pass (rd_now r) v body (committed s) company_id wash_bay_id)"

lemma guards_pass_paid [simp]:
  "guards_pass now v body (posted now' dev key h m bay pid price stl sq d) c b \<longleftrightarrow> guards_pass now v body d c b"
  "guards_pass now v body (d\<lparr>qr_codes := qs, rf_wallets := ws\<rparr>) c b \<longleftrightarrow> guards_pass now v body d c b"
  by (simp_all add: guards_pass_def)

lemma authentic_paid [simp]:
  "device_authentic dg (posted now' dev key h m bay pid price stl sq d) i tok v \<longleftrightarrow> device_authentic dg d i tok v"
  "device_authentic dg (d\<lparr>qr_codes := qs, rf_wallets := ws\<rparr>) i tok v \<longleftrightarrow> device_authentic dg d i tok v"
  by (simp_all add: device_authentic_def)

lemma find_by_key_paid:
  "find_by_key i k (posted now dev key h m bay pid price stl sq d) = None \<longleftrightarrow>
     find_by_key i k d = None \<and> (i, k) \<noteq> (dev_id dev, key)"
  by (auto simp: find_by_key_def row_simps payment_row_def split: option.splits)

lemma find_by_key_frame [simp]:
  "find_by_key i k (d\<lparr>qr_codes := qs, rf_wallets := ws\<rparr>) = find_by_key i k d"
  by (simp add: find_by_key_def)

lemma find_qr_posted [simp]: "find_qr h (posted now dev key h' m bay pid price stl sq d) = find_qr h d"
  by (simp add: find_qr_def)

text \<open>The program a QR code names is the same as long as the code keeps its company, station and program.\<close>

lemma program_resolved_frame:
  assumes "program_resolved dg v c body d p price"
    and "payment_method body = ''QR'' \<Longrightarrow> find_qr (qr_hash dg body) d = Some q \<Longrightarrow>
      \<exists>q'. find_qr (qr_hash dg body) d' = Some q' \<and> qr_company_id q' = qr_company_id q \<and>
        qr_station_id q' = qr_station_id q \<and> qr_program_id q' = qr_program_id q"
    and "find_qr (qr_hash dg body) d = Some q \<or> payment_method body \<noteq> ''QR''"
    and "programs d' = programs d" "entitlements d' = entitlements d"
      "program_payment_methods d' = program_payment_methods d"
  shows "program_resolved dg v c body d' p price"
  using assms by (auto simp: program_resolved_def)

text \<open>One of the requests is served: what it answers, what it leaves, and that the others stay admissible.\<close>

lemma race_step:
  assumes race: "race_ready dg h v body c b p price pre s ((key, r) # xs)"
    and stl: "settles dg (rd_now r) v c p body price (committed s) stl d1"
    and run: "compete dg h body (key, r) s = (code, t)"
  shows "code = http_status (stl_status stl)"
    "committed t = paid_db dg (rd_now r) v body key b p price stl s d1"
    "startswith pre key \<and> \<not> has_key pay_id (payment_transactions (committed s)) (seqs s PaymentSeq) \<and>
       (\<forall>l \<in> set (rf_wallet_ledger (committed s)). led_payment_id l \<noteq> Some (seqs s PaymentSeq))"
    "program_resolved dg v c body (committed t) p price \<Longrightarrow> race_ready dg h v body c b p price pre t xs"
proof -
  obtain expected where h: "healthy expected (committed s) (seqs s)" using race by (auto simp: race_ready_def)
  have pre: "device_authentic dg (committed s) (x_device_id h) (device_token (authorization h)) v"
    "valid_request (Payment body key)" "find_by_key (dev_id v) key (committed s) = None"
    "guards_pass (rd_now r) v body (committed s) c b" "program_resolved dg v c body (committed s) p price"
    using race by (auto simp: race_ready_def)
  obtain w where served: "serve dg (rd_uuid r) (rd_now r) (rd_now2 r) (rd_answered r) h (Payment body key) s =
      (payment_answer (rd_uuid r) (rd_answered r) w, paid_state dg (rd_now r) v body key b p price stl s d1)"
    and w: "pp_status w = stl_status stl"
    using serve_payment [OF h pre stl, of "rd_uuid r" "rd_now2 r" "rd_answered r"] by blast
  then have t: "t = paid_state dg (rd_now r) v body key b p price stl s d1"
    using run by (simp add: compete_def send_def)
  show "code = http_status (stl_status stl)" using run served w by (simp add: compete_def send_def)
  show ct: "committed t = paid_db dg (rd_now r) v body key b p price stl s d1" by (simp add: t)
  have "\<not> has_key pay_id (payment_transactions (committed s)) (seqs s PaymentSeq)"
    using h by (simp add: healthy_def integrity_def ids_fresh_def below_fresh)
  moreover from this have "led_payment_id l \<noteq> Some (seqs s PaymentSeq)" if "l \<in> set (rf_wallet_ledger (committed s))" for l
    using h that by (auto simp: healthy_def integrity_def links_ok_def has_key_opt_def split: option.splits)
  ultimately show "startswith pre key \<and> \<not> has_key pay_id (payment_transactions (committed s)) (seqs s PaymentSeq) \<and>
      (\<forall>l \<in> set (rf_wallet_ledger (committed s)). led_payment_id l \<noteq> Some (seqs s PaymentSeq))"
    using race by (auto simp: race_ready_def)
  assume res: "program_resolved dg v c body (committed t) p price"
  obtain qs ws where d1: "d1 = (committed s)\<lparr>qr_codes := qs, rf_wallets := ws\<rparr>" using settles_frame [OF stl] by blast
  have "healthy expected (committed t) (seqs t)"
    by (rule healthy.serve_invariant [OF h]) (use served t in simp)
  moreover have "find_by_key (dev_id v) k (committed t) = None" if "(k, r') \<in> set xs" for k r'
  proof -
    have "k \<noteq> key" using race that by (force simp: race_ready_def)
    moreover have "find_by_key (dev_id v) k (committed s) = None" using race that by (auto simp: race_ready_def)
    ultimately show ?thesis by (simp add: ct paid_db_def find_by_key_paid d1)
  qed
  ultimately show "race_ready dg h v body c b p price pre t xs"
    using race res by (auto simp: race_ready_def ct paid_db_def d1 split: prod.splits)
qed

subsection \<open>A QR code\<close>

definition qr_window :: "qr_code \<Rightarrow> timestamp \<Rightarrow> bool" where
  "qr_window q now \<longleftrightarrow> qr_starts_at q \<le> now \<and> now < qr_expires_at q"

definition qr_ready ::
  "digests \<Rightarrow> headers \<Rightarrow> device \<Rightarrow> payment_request \<Rightarrow> int \<Rightarrow> int \<Rightarrow> int \<Rightarrow> int \<Rightarrow> string \<Rightarrow> session \<Rightarrow>
   (string \<times> reading) list \<Rightarrow> bool" where
  "qr_ready dg h v body company_id wash_bay_id program_id price prefix s xs \<longleftrightarrow>
     race_ready dg h v body company_id wash_bay_id program_id price prefix s xs \<and> payment_method body = ''QR'' \<and>
     (\<exists>q. find_qr (qr_hash dg body) (committed s) = Some q \<and>
        qr_status q = (if qr_usage_limit q \<le> qr_usage_count q then USED else ACTIVE) \<and>
        (\<forall>x \<in> set xs. qr_window q (rd_now (snd x))))"

definition qr_left :: "digests \<Rightarrow> payment_request \<Rightarrow> session \<Rightarrow> int" where
  "qr_left dg body s = (case find_qr (qr_hash dg body) (committed s) of None \<Rightarrow> 0
     | Some q \<Rightarrow> qr_usage_limit q - qr_usage_count q)"

text \<open>The successful payments of the race.\<close>

definition race_payments :: "string \<Rightarrow> session \<Rightarrow> nat" where
  "race_payments prefix s = length (filter (\<lambda>p. like_prefix prefix p \<and> pay_status p = SUCCESS)
     (payment_transactions (committed s)))"

lemma race_payments_step:
  assumes "committed t = paid_db dg now v body key b p price stl s d1" "startswith pre key"
    and "payment_transactions d1 = payment_transactions (committed s)"
  shows "race_payments pre t = race_payments pre s + (if stl_status stl = SUCCESS then 1 else 0)"
  using assms by (simp add: race_payments_def paid_db_def like_prefix_def payment_row_def)

lemma find_qr_redeemed:
  assumes "find_qr h d = Some q"
  shows "find_qr h (d\<lparr>qr_codes := update_where (\<lambda>r. qr_id r = qr_id q) (redeem q) (qr_codes d)\<rparr>) = Some (redeem q q)"
proof -
  have "List.find (\<lambda>q. qr_token_hash q = h) (update_where (\<lambda>r. qr_id r = qr_id q) (redeem q) (qr_codes d)) =
    map_option (\<lambda>r. if qr_id r = qr_id q then redeem q r else r) (List.find (\<lambda>q. qr_token_hash q = h) (qr_codes d))"
    by (rule find_update_where) (simp add: redeem_def Let_def)
  then show ?thesis using assms by (simp add: find_qr_def)
qed

lemma redeem_keeps:
  "qr_usage_limit (redeem q r) = qr_usage_limit r" "qr_usage_count (redeem q r) = qr_usage_count q + 1"
  "qr_window (redeem q r) now = qr_window r now" "qr_company_id (redeem q r) = qr_company_id r"
  "qr_station_id (redeem q r) = qr_station_id r" "qr_program_id (redeem q r) = qr_program_id r"
  "qr_status (redeem q r) = (if qr_usage_limit q \<le> qr_usage_count q + 1 then USED else ACTIVE)"
  by (simp_all add: redeem_def Let_def qr_window_def)

lemma qr_step:
  assumes ready: "qr_ready dg h v body c b p price pre s ((key, r) # xs)"
    and run: "compete dg h body (key, r) s = (code, t)"
  shows "qr_ready dg h v body c b p price pre t xs \<and>
    code = (if 1 \<le> qr_left dg body s then 200 else 409) \<and>
    qr_left dg body t = qr_left dg body s - (if 1 \<le> qr_left dg body s then 1 else 0) \<and>
    race_payments pre t = race_payments pre s + (if 1 \<le> qr_left dg body s then 1 else 0)"
proof -
  obtain q where q: "find_qr (qr_hash dg body) (committed s) = Some q"
    "qr_status q = (if qr_usage_limit q \<le> qr_usage_count q then USED else ACTIVE)"
    "\<forall>x \<in> set ((key, r) # xs). qr_window q (rd_now (snd x))" and meth: "payment_method body = ''QR''"
    and race: "race_ready dg h v body c b p price pre s ((key, r) # xs)"
    using ready by (auto simp: qr_ready_def)
  have res: "program_resolved dg v c body (committed s) p price" using race by (simp add: race_ready_def)
  then have scope: "qr_company_id q = c" "qr_station_id q = dev_station_id v" "qr_program_id q = p"
    using meth q(1) by (auto simp: program_resolved_def)
  have left: "qr_left dg body s = qr_usage_limit q - qr_usage_count q" by (simp add: qr_left_def q)
  show ?thesis
  proof (cases "1 \<le> qr_left dg body s")
    case True
    then have "redeemable (rd_now r) v c p q" using q(2,3) scope left by (simp add: redeemable_def qr_window_def)
    note step = race_step [OF race settles.by_qr [OF meth q(1) this] run]
    have found: "find_qr (qr_hash dg body) (committed t) = Some (redeem q q)"
      using find_qr_redeemed [OF q(1)] by (simp add: step(2) paid_db_def)
    have "program_resolved dg v c body (committed t) p price"
      by (rule program_resolved_frame [OF res, where q = q])
        (use found q(1) in \<open>simp_all add: redeem_keeps step(2) paid_db_def\<close>)
    from step(4) [OF this] have "qr_ready dg h v body c b p price pre t xs"
      using meth found q(3) by (simp add: qr_ready_def redeem_keeps)
    then show ?thesis using True step(1) q(1) race_payments_step [OF step(2) conjunct1 [OF step(3)]]
      by (simp add: qr_left_def found redeem_keeps http_status_def settled_def)
  next
    case False
    then have "settles dg (rd_now r) v c p body price (committed s) (failed_with ''QR_INVALID'' price) (committed s)"
      by (intro settles.qr_rejected [OF meth]) (use q(1) left in \<open>simp add: redeemable_def\<close>)
    note step = race_step [OF race this run]
    have found: "find_qr (qr_hash dg body) (committed t) = Some q" using q(1) by (simp add: step(2) paid_db_def)
    have "program_resolved dg v c body (committed t) p price"
      by (rule program_resolved_frame [OF res, where q = q]) (use found q(1) in \<open>simp_all add: step(2) paid_db_def\<close>)
    from step(4) [OF this] have "qr_ready dg h v body c b p price pre t xs"
      using meth found q(2,3) by (simp add: qr_ready_def)
    then show ?thesis using False step(1) q(1) race_payments_step [OF step(2) conjunct1 [OF step(3)]]
      by (simp add: qr_left_def found http_status_def failed_with_def)
  qed
qed

interpretation qr_race: budget "qr_ready dg h v body c b p price pre" "compete dg h body" "qr_left dg body" 1
  "race_payments pre"
  for dg h v body c b p price pre
proof (unfold_locales, goal_cases)
  case (1 s x xs code t)
  then show ?case using qr_step [of dg h v body c b p price pre s "fst x" "snd x" xs code t] by simp
next
  case (2 s x xs code t)
  then show ?case using qr_step [of dg h v body c b p price pre s "fst x" "snd x" xs code t] by simp
next
  case (3 s x xs code t)
  then show ?case using qr_step [of dg h v body c b p price pre s "fst x" "snd x" xs code t] by simp
qed simp

subsection \<open>A wallet\<close>

definition find_wallet :: "int \<Rightarrow> db \<Rightarrow> rf_wallet option" where
  "find_wallet crd d = List.find (\<lambda>w. wal_rf_card_id w = crd) (rf_wallets d)"

definition rf_ready ::
  "digests \<Rightarrow> headers \<Rightarrow> device \<Rightarrow> payment_request \<Rightarrow> int \<Rightarrow> int \<Rightarrow> int \<Rightarrow> int \<Rightarrow> string \<Rightarrow> string \<Rightarrow> rf_card \<Rightarrow>
   session \<Rightarrow> (string \<times> reading) list \<Rightarrow> bool" where
  "rf_ready dg h v body company_id wash_bay_id program_id price prefix uid crd s xs \<longleftrightarrow>
     race_ready dg h v body company_id wash_bay_id program_id price prefix s xs \<and> payment_method body = ''RF_CARD'' \<and>
     0 < price \<and> normalize_uid (or_empty (rf_uid body)) = Inr uid \<and>
     List.find (\<lambda>c. card_uid_hash c = secret_hash dg uid QR_PEPPER) (rf_cards (committed s)) = Some crd \<and>
     find_wallet (card_id crd) (committed s) \<noteq> None \<and>
     (\<forall>x \<in> set xs. card_usable (rd_now (snd x)) company_id crd)"

definition rf_left :: "rf_card \<Rightarrow> session \<Rightarrow> int" where
  "rf_left crd s = (case find_wallet (card_id crd) (committed s) of None \<Rightarrow> 0 | Some w \<Rightarrow> wal_balance_minor w)"

text \<open>The debits of the race: a new payment is joined with its own ledger entry only.\<close>

definition debit_pairs :: "string \<Rightarrow> ledger_entry list \<Rightarrow> payment_transaction list \<Rightarrow> (ledger_entry \<times> payment_transaction) list" where
  "debit_pairs pre ls ps =
     [(l, p). l \<leftarrow> ls, p \<leftarrow> ps, led_payment_id l = Some (pay_id p) \<and> like_prefix pre p \<and> led_direction l = DEBIT]"

lemma debit_pairs_payment:
  "\<forall>l \<in> set ls. led_payment_id l \<noteq> Some (pay_id p) \<Longrightarrow> debit_pairs pre ls (ps @ [p]) = debit_pairs pre ls ps"
  by (induction ls) (simp_all add: debit_pairs_def)

lemma debit_pairs_entry:
  "debit_pairs pre (ls @ (if c then [l] else [])) ps = debit_pairs pre ls ps @ (if c then debit_pairs pre [l] ps else [])"
  by (simp add: debit_pairs_def)

lemma debit_pairs_own:
  assumes "\<not> has_key pay_id ps (pay_id p)" "led_payment_id l = Some (pay_id p)" "like_prefix pre p" "led_direction l = DEBIT"
  shows "debit_pairs pre [l] (ps @ [p]) = [(l, p)]"
  using assms by (auto simp: debit_pairs_def has_key_def)

lemma race_debits_posted:
  assumes "startswith pre key" "\<not> has_key pay_id (payment_transactions d) (sq PaymentSeq)"
    and "\<forall>l \<in> set (rf_wallet_ledger d). led_payment_id l \<noteq> Some (sq PaymentSeq)"
  shows "length (race_debits pre (posted now v key h m b p price stl sq d)) = length (race_debits pre d) +
    (if m = ''RF_CARD'' \<and> stl_status stl = SUCCESS \<and> stl_rf_wallet_id stl \<noteq> None then 1 else 0)"
proof -
  let ?p = "payment_row now v key h m p stl (sq PaymentSeq)"
  let ?l = "ledger_row now (sq PaymentSeq) (the (stl_rf_wallet_id stl)) price (sq LedgerSeq)"
  have p: "pay_id ?p = sq PaymentSeq" "like_prefix pre ?p" using assms(1) by (simp_all add: payment_row_def like_prefix_def)
  have l: "led_payment_id ?l = Some (pay_id ?p)" "led_direction ?l = DEBIT" by (simp_all add: ledger_row_def p)
  have pairs: "race_debits pre d' = debit_pairs pre (rf_wallet_ledger d') (payment_transactions d')" for d'
    by (simp add: race_debits_def debit_pairs_def)
  have old: "debit_pairs pre (rf_wallet_ledger d) (payment_transactions d @ [?p]) = race_debits pre d"
    unfolding pairs using assms(3) p by (intro debit_pairs_payment) simp
  have new: "debit_pairs pre [?l] (payment_transactions d @ [?p]) = [(?l, ?p)]"
    using assms(2) p l by (intro debit_pairs_own) simp_all
  let ?c = "m = ''RF_CARD'' \<and> stl_status stl = SUCCESS \<and> stl_rf_wallet_id stl \<noteq> None"
  have "race_debits pre (posted now v key h m b p price stl sq d) =
      debit_pairs pre (rf_wallet_ledger d @ (if ?c then [?l] else [])) (payment_transactions d @ [?p])"
    unfolding pairs [of "posted now v key h m b p price stl sq d"] posted_tables ..
  also have "\<dots> = race_debits pre d @ (if ?c then [(?l, ?p)] else [])"
    unfolding debit_pairs_entry old new ..
  finally show ?thesis by (simp split del: if_split) (simp add: if_distrib)
qed

lemma find_wallet_debited:
  assumes "find_wallet i d = Some w"
  shows "find_wallet i (d\<lparr>rf_wallets := update_where (\<lambda>r. wal_id r = wal_id w) (debit_wallet now price) (rf_wallets d)\<rparr>) =
    Some (debit_wallet now price w)"
proof -
  have "List.find (\<lambda>w. wal_rf_card_id w = i)
      (update_where (\<lambda>r. wal_id r = wal_id w) (debit_wallet now price) (rf_wallets d)) =
    map_option (\<lambda>r. if wal_id r = wal_id w then debit_wallet now price r else r)
      (List.find (\<lambda>w. wal_rf_card_id w = i) (rf_wallets d))"
    by (rule find_update_where) (simp add: debit_wallet_def)
  then show ?thesis using assms by (simp add: find_wallet_def)
qed

lemma rf_step:
  assumes ready: "rf_ready dg h v body c b p price pre uid crd s ((key, r) # xs)"
    and run: "compete dg h body (key, r) s = (code, t)"
  shows "rf_ready dg h v body c b p price pre uid crd t xs \<and>
    code = (if price \<le> rf_left crd s then 200 else 409) \<and>
    rf_left crd t = rf_left crd s - (if price \<le> rf_left crd s then price else 0) \<and>
    length (race_debits pre (committed t)) = length (race_debits pre (committed s)) + (if price \<le> rf_left crd s then 1 else 0)"
proof -
  let ?crd = "\<lambda>c. card_uid_hash c = secret_hash dg uid QR_PEPPER"
  obtain w where w: "find_wallet (card_id crd) (committed s) = Some w" and meth: "payment_method body = ''RF_CARD''"
    and uid: "normalize_uid (or_empty (rf_uid body)) = Inr uid"
    and crd: "List.find ?crd (rf_cards (committed s)) = Some crd" "card_usable (rd_now r) c crd"
    and race: "race_ready dg h v body c b p price pre s ((key, r) # xs)"
    using ready by (auto simp: rf_ready_def)
  have res: "program_resolved dg v c body (committed s) p price" using race by (simp add: race_ready_def)
  have left: "rf_left crd s = wal_balance_minor w" by (simp add: rf_left_def w)
  have next_ready: "rf_ready dg h v body c b p price pre uid crd t xs"
    if "committed t = paid_db dg (rd_now r) v body key b p price stl s d1" "rf_cards d1 = rf_cards (committed s)"
      "find_wallet (card_id crd) (committed t) \<noteq> None"
      "programs d1 = programs (committed s)" "entitlements d1 = entitlements (committed s)"
      "program_payment_methods d1 = program_payment_methods (committed s)"
      "program_resolved dg v c body (committed t) p price \<Longrightarrow> race_ready dg h v body c b p price pre t xs" for stl d1
  proof -
    have "program_resolved dg v c body (committed t) p price"
      by (rule program_resolved_frame [OF res]) (use meth that in \<open>simp_all add: paid_db_def\<close>)
    from that(7) [OF this] show ?thesis
      using ready that by (simp add: rf_ready_def paid_db_def)
  qed
  show ?thesis
  proof (cases "price \<le> rf_left crd s")
    case True
    note step = race_step [OF race settles.by_rf [OF meth uid crd w [unfolded find_wallet_def] True [unfolded left]] run]
    have found: "find_wallet (card_id crd) (committed t) = Some (debit_wallet (rd_now r) price w)"
      using find_wallet_debited [OF w, of "rd_now r" price] by (simp add: step(2) paid_db_def find_wallet_def)
    have "rf_ready dg h v body c b p price pre uid crd t xs"
      by (rule next_ready [OF step(2) _ _ _ _ _ step(4)]) (simp_all add: found)
    moreover have "length (race_debits pre (committed t)) = length (race_debits pre (committed s)) + 1"
      unfolding step(2) paid_db_def by (subst race_debits_posted) (use step(3) meth in \<open>simp_all add: settled_def race_debits_def\<close>)
    ultimately show ?thesis
      using True step(1) w by (simp add: rf_left_def found debit_wallet_def http_status_def settled_def)
  next
    case False
    then have "settles dg (rd_now r) v c p body price (committed s) (failed_with ''RF_INSUFFICIENT_BALANCE'' price) (committed s)"
      by (intro settles.rf_insufficient [OF meth uid crd]) (use w left in \<open>simp add: find_wallet_def\<close>)
    note step = race_step [OF race this run]
    have found: "find_wallet (card_id crd) (committed t) = Some w"
      using w by (simp add: step(2) paid_db_def find_wallet_def)
    have "rf_ready dg h v body c b p price pre uid crd t xs"
      by (rule next_ready [OF step(2) _ _ _ _ _ step(4)]) (simp_all add: found)
    moreover have "length (race_debits pre (committed t)) = length (race_debits pre (committed s))"
      unfolding step(2) paid_db_def by (subst race_debits_posted) (use step(3) in \<open>simp_all add: failed_with_def\<close>)
    ultimately show ?thesis
      using False step(1) w by (simp add: rf_left_def found http_status_def failed_with_def)
  qed
qed

interpretation rf_race: budget "rf_ready dg h v body c b p price pre uid crd" "compete dg h body" "rf_left crd" price
  "\<lambda>s. length (race_debits pre (committed s))"
  for dg h v body c b p price pre uid crd
proof (unfold_locales, goal_cases)
  case (1 s x xs code t)
  then show ?case using rf_step [of dg h v body c b p price pre uid crd s "fst x" "snd x" xs code t] by simp
next
  case (2 s x xs code t)
  then show ?case using rf_step [of dg h v body c b p price pre uid crd s "fst x" "snd x" xs code t] by simp
next
  case (3 s x xs code t)
  then show ?case using rf_step [of dg h v body c b p price pre uid crd s "fst x" "snd x" xs code t] by simp
next
  case (4 s xs)
  then show ?case by (simp add: rf_ready_def)
qed

end
