(* ===== verification/Scene.thy ===== *)
theory Scene
  imports Race Seed_Facts
begin

text \<open>
  The database during a correctness run.  \<open>steady d\<^sub>0 d\<close> says what of \<open>d\<^sub>0\<close> never changes: the
  catalog tables, the identities of codes, wallets, commands, executions and device states.
  Every operation of the service keeps it together with the health of the database, and so
  does every statement of the driver.
\<close>

section \<open>What stays\<close>

definition qr_fixed :: "qr_code \<Rightarrow> qr_code" where
  "qr_fixed q = q\<lparr>qr_usage_count := 0, qr_status := ACTIVE\<rparr>"

definition wal_fixed :: "rf_wallet \<Rightarrow> int \<times> int" where
  "wal_fixed w = (wal_id w, wal_rf_card_id w)"

definition cmd_fixed :: "command \<Rightarrow> int \<times> int \<times> int" where
  "cmd_fixed c = (cmd_id c, cmd_device_id c, cmd_program_execution_id c)"

definition exe_fixed :: "program_execution \<Rightarrow> int \<times> int \<times> int \<times> int option" where
  "exe_fixed e = (exe_id e, exe_payment_id e, exe_device_id e, exe_wash_bay_id e)"

definition cs_fixed :: "device_current_state \<Rightarrow> int \<times> int option \<times> int option" where
  "cs_fixed c = (cs_device_id c, cs_current_configuration_version c, cs_acknowledged_configuration_version c)"

lemmas fixed_defs = qr_fixed_def wal_fixed_def cmd_fixed_def exe_fixed_def cs_fixed_def

definition same_catalog :: "db \<Rightarrow> db \<Rightarrow> bool" where
  "same_catalog d0 d \<longleftrightarrow>
     companies d = companies d0 \<and> panel_users d = panel_users d0 \<and> stations d = stations d0 \<and>
     devices d = devices d0 \<and> device_credentials d = device_credentials d0 \<and>
     device_configurations d = device_configurations d0 \<and> programs d = programs d0 \<and>
     program_payment_methods d = program_payment_methods d0 \<and> entitlements d = entitlements d0 \<and>
     wash_bays d = wash_bays d0 \<and> rf_cards d = rf_cards d0"

definition same_identities :: "db \<Rightarrow> db \<Rightarrow> bool" where
  "same_identities d0 d \<longleftrightarrow>
     map qr_fixed (qr_codes d) = map qr_fixed (qr_codes d0) \<and> map wal_fixed (rf_wallets d) = map wal_fixed (rf_wallets d0) \<and>
     map cmd_fixed (commands d) = map cmd_fixed (commands d0) \<and>
     map exe_fixed (program_executions d) = map exe_fixed (program_executions d0) \<and>
     map cs_fixed (device_current_states d) = map cs_fixed (device_current_states d0)"

text \<open>The executions belong to payments that no correctness run has made.\<close>

definition backed :: "db \<Rightarrow> bool" where
  "backed d \<longleftrightarrow> (\<forall>e \<in> set (program_executions d). \<exists>p \<in> set (payment_transactions d).
     pay_id p = exe_payment_id e \<and> \<not> corr_payment p)"

definition covered :: "db \<Rightarrow> bool" where
  "covered d \<longleftrightarrow> (\<forall>v \<in> set (devices d). has_key cs_device_id (device_current_states d) (dev_id v))"

definition steady :: "db \<Rightarrow> db \<Rightarrow> bool" where
  "steady d0 d \<longleftrightarrow> same_catalog d0 d \<and> same_identities d0 d \<and> maintenance_windows d = [] \<and> backed d \<and> covered d"

definition same_backing :: "db \<Rightarrow> db \<Rightarrow> bool" where
  "same_backing d d' \<longleftrightarrow> maintenance_windows d' = maintenance_windows d \<and>
     set (payment_transactions d) \<subseteq> set (payment_transactions d')"

lemma map_eq_mem:
  assumes "map k xs = map k ys" "x \<in> set xs"
  shows "\<exists>y \<in> set ys. k y = k x"
proof -
  have "k x \<in> set (map k xs)" using assms(2) by simp
  then have "k x \<in> set (map k ys)" unfolding assms(1) .
  then show ?thesis by auto
qed

lemma exe_payment_fixed:
  "map exe_fixed es = map exe_fixed es' \<Longrightarrow> e \<in> set es \<Longrightarrow> \<exists>e' \<in> set es'. exe_payment_id e' = exe_payment_id e"
  using map_eq_mem [of exe_fixed es es' e] by (auto simp: exe_fixed_def)

lemma cs_device_fixed:
  assumes "map cs_fixed cs = map cs_fixed cs'"
  shows "has_key cs_device_id cs i \<longleftrightarrow> has_key cs_device_id cs' i"
proof -
  have "map cs_device_id cs = map cs_device_id cs'"
    using arg_cong [OF assms, of "map fst"] by (simp add: cs_fixed_def comp_def)
  then show ?thesis unfolding has_key_def by (metis list.set_map)
qed

lemma steady_step:
  assumes "steady d0 d" "same_catalog d d'" "same_identities d d'" "same_backing d d'"
  shows "steady d0 d'"
proof -
  have "backed d'"
    unfolding backed_def
  proof
    fix e
    assume "e \<in> set (program_executions d')"
    then obtain e' where "e' \<in> set (program_executions d)" "exe_payment_id e' = exe_payment_id e"
      using assms(3) exe_payment_fixed unfolding same_identities_def by metis
    then show "\<exists>p \<in> set (payment_transactions d'). pay_id p = exe_payment_id e \<and> \<not> corr_payment p"
      using assms(1,4) unfolding steady_def backed_def same_backing_def by (metis subset_eq)
  qed
  moreover have "has_key cs_device_id (device_current_states d') i \<longleftrightarrow> has_key cs_device_id (device_current_states d) i" for i
    using assms(3) by (intro cs_device_fixed) (simp add: same_identities_def)
  then have "covered d'" using assms(1,2) by (simp add: steady_def covered_def same_catalog_def)
  ultimately show ?thesis
    using assms by (simp add: steady_def same_catalog_def same_identities_def same_backing_def)
qed

lemma same_catalog_refl [simp]: "same_catalog d d"
  and same_identities_refl [simp]: "same_identities d d"
  and same_backing_refl [simp]: "same_backing d d"
  by (simp_all add: same_catalog_def same_identities_def same_backing_def)

text \<open>One step of the service, as far as the frame is concerned.\<close>

definition frame :: "db \<Rightarrow> db \<Rightarrow> bool" where
  "frame d d' \<longleftrightarrow> same_catalog d d' \<and> same_identities d d' \<and> same_backing d d'"

lemma frame_refl [simp]: "frame d d"
  by (simp add: frame_def)

lemma frame_trans: "frame a b \<Longrightarrow> frame b c \<Longrightarrow> frame a c"
  by (auto simp: frame_def same_catalog_def same_identities_def same_backing_def)

lemma steady_frame: "steady d0 d \<Longrightarrow> frame d d' \<Longrightarrow> steady d0 d'"
  by (auto simp: frame_def intro: steady_step)

lemmas frame_defs = frame_def same_catalog_def same_identities_def same_backing_def

section \<open>Every operation keeps it\<close>

lemma fixed_updates [simp]:
  "map qr_fixed (update_where P (redeem q) qs) = map qr_fixed qs"
  "map wal_fixed (update_where R (debit_wallet now n) ws) = map wal_fixed ws"
  "map cmd_fixed (update_where C (mark_sent now) cs) = map cmd_fixed cs"
  "map cmd_fixed (update_where C (acknowledge now) cs) = map cmd_fixed cs"
  "map cmd_fixed (update_where C (complete_command now st code) cs) = map cmd_fixed cs"
  "map exe_fixed (update_where E (set_exe_status st) es) = map exe_fixed es"
  "map exe_fixed (update_where E (start_running now) es) = map exe_fixed es"
  "map exe_fixed (update_where E (complete_execution now st) es) = map exe_fixed es"
  "map cs_fixed (update_where S (touch_state now v payload) ss) = map cs_fixed ss"
  by (simp_all add: map_update_where fixed_defs redeem_def debit_wallet_def mark_sent_def acknowledge_def
      complete_command_def set_exe_status_def start_running_def complete_execution_def touch_state_def Let_def)

lemma frame_pays:
  assumes "pays dg now device body key sq d i stl sq' d'"
  shows "frame d d'"
  using assms
proof cases
  case (pays c b p price d1)
  have "frame d d1" using pays(6) by cases (simp_all add: frame_defs)
  moreover have "frame d1 d'" by (simp add: pays(3) frame_defs) blast
  ultimately show ?thesis by (rule frame_trans)
qed

lemma frame_mark_all: "frame d (fold (mark_db now) rows d)"
proof (induction rows arbitrary: d)
  case (Cons row rows)
  have "frame d (mark_db now row d)" by (simp add: mark_db_def frame_defs)
  then show ?case using Cons.IH by (auto intro: frame_trans)
qed simp

definition scene :: "expectation \<Rightarrow> db \<Rightarrow> db \<Rightarrow> (seq \<Rightarrow> int) \<Rightarrow> bool" where
  "scene expected d0 d sq \<longleftrightarrow> healthy expected d sq \<and> steady d0 d"

lemma keeps_sceneI:
  assumes "keeps (healthy expected) m"
    and "\<And>s. working s = committed s \<Longrightarrow> healthy expected (committed s) (seqs s) \<Longrightarrow> covered (committed s) \<Longrightarrow>
      wp m (\<lambda>_ t. frame (committed s) (committed t)) (\<lambda>_ t. frame (committed s) (committed t)) s"
  shows "keeps (scene expected d0) m"
proof (rule keepsI)
  fix s :: session
  assume s: "working s = committed s" "scene expected d0 (committed s) (seqs s)"
  then have "healthy expected (committed s) (seqs s)" "covered (committed s)" by (simp_all add: scene_def steady_def)
  note wp_conj [OF keepsD [OF assms(1) s(1) this(1)] assms(2) [OF s(1) this]]
  then show "wp m (\<lambda>_ t. scene expected d0 (committed t) (seqs t)) (\<lambda>_ t. scene expected d0 (committed t) (seqs t)) s"
    by (rule wp_mono) (use s(2) in \<open>auto simp: scene_def intro: steady_frame\<close>)
qed

lemma scene_create_payment: "keeps (scene expected d0) (create_payment dg now device body key)"
  by (rule keeps_sceneI [OF healthy_create_payment], rule create_payment_wpI) (auto dest: frame_pays)

lemma scene_pending_commands: "keeps (scene expected d0) (pending_commands now device_id limit)"
  by (rule keeps_sceneI [OF healthy_pending_commands]) (simp add: wp_pending_commands Let_def frame_mark_all)

lemma scene_acknowledge_command: "keeps (scene expected d0) (acknowledge_command now device_id command_id)"
  by (rule keeps_sceneI [OF healthy_acknowledge_command])
    (auto simp: wp_acknowledge_command Let_def ack_db_def frame_defs split: option.splits)

lemma scene_command_result:
  "keeps (scene expected d0) (apply_command_result dg now device_id command_id result code message key)"
proof (rule keeps_sceneI [OF healthy_command_result])
  fix s :: session
  assume s: "working s = committed s"
  let ?I = "\<lambda>t :: session. frame (committed s) (committed t)"
  have "wp (store_result now device_id c result st code message key hash) (\<lambda>_. ?I) (\<lambda>_. ?I) s"
    if "st \<in> {SUCCESS, FAILED}" for c st hash
    by (rule store_result_wpI [OF that]) (use s in \<open>simp_all add: Let_def result_db_def frame_defs\<close>)
  with s show "wp (apply_command_result dg now device_id command_id result code message key) (\<lambda>_. ?I) (\<lambda>_. ?I) s"
    by (auto simp: apply_command_result_def wp_control Let_def split: option.splits dest: result_status_iff)
qed

lemma scene_record_heartbeat: "keeps (scene expected d0) (record_heartbeat now device_id sequence app_version state)"
proof (rule keeps_sceneI [OF healthy_record_heartbeat])
  fix s :: session
  assume s: "working s = committed s" "covered (committed s)"
  then have "has_key cs_device_id (device_current_states (committed s)) device_id"
    if "has_key dev_id (devices (committed s)) device_id"
    using that by (auto simp: covered_def has_key_def)
  with s(1) show "wp (record_heartbeat now device_id sequence app_version state)
      (\<lambda>_ t. frame (committed s) (committed t)) (\<lambda>_ t. frame (committed s) (committed t)) s"
    by (auto simp: record_heartbeat_def Let_def wp_rules insertable_current_state_def new_current_state_def
        find_None_has_key frame_defs)
qed

lemma scene_sweep: "keeps (scene expected d0) (sweep_target_runtime now)"
proof (rule keepsI)
  fix s :: session
  assume s: "working s = committed s" "scene expected d0 (committed s) (seqs s)"
  then have sw: "sweepable (seqs s) (working s)" and none: "maintenance_windows (committed s) = []"
    and h: "healthy expected (committed s) (seqs s)"
    by (simp_all add: scene_def healthy_def system_ok_def steady_def)
  obtain as where d: "snd (swept now (seqs s, committed s)) = (maintain now (committed s))\<lparr>alarms := as\<rparr>"
    using swept_rest [of now "(seqs s, committed s)"] by auto
  have "frame (committed s) (snd (swept now (seqs s, committed s)))"
    unfolding d using none by (simp add: maintain_def frame_defs row_simps)
  then have "steady d0 (snd (swept now (seqs s, committed s)))"
    using s(2) unfolding scene_def by (blast intro: steady_frame)
  then show "wp (sweep_target_runtime now) (\<lambda>_ t. scene expected d0 (committed t) (seqs t))
      (\<lambda>_ t. scene expected d0 (committed t) (seqs t)) s"
    using keepsD [OF healthy_sweep s(1) h, of now] s(1) by (simp add: scene_def wp_sweep [OF sw] Let_def)
qed

interpretation scene: service_invariant "scene expected d0" for expected d0
  by unfold_locales
    (rule scene_create_payment scene_pending_commands scene_acknowledge_command scene_command_result
      scene_record_heartbeat scene_sweep)+

end
