(* ===== verification/Driver_Facts.thy ===== *)
theory Driver_Facts
  imports Scene
begin

text \<open>
  What the statements of the correctness driver do to a database that is in order: they keep
  it in order.  The books start afresh with every statement, so the expectation they are
  held against is any that counts the payments of a correctness run as complete.
\<close>

section \<open>A database in order\<close>

definition sound :: "db \<Rightarrow> (seq \<Rightarrow> int) \<Rightarrow> bool" where
  "sound d sq \<longleftrightarrow> (\<exists>expected. must_be_complete expected = corr_payment \<and> healthy expected d sq)"

text \<open>The same without the expectation.\<close>

definition booked :: "db \<Rightarrow> bool" where
  "booked d \<longleftrightarrow>
     distinct (payment_keys d) \<and> distinct (map pay_id (payment_transactions d)) \<and>
     distinct (map sr_payment_id (start_rights d)) \<and>
     (\<forall>r \<in> set (start_rights d). \<exists>p \<in> set (payment_transactions d).
        pay_id p = sr_payment_id r \<and> pay_status p = SUCCESS) \<and>
     distinct (map led_payment_id (payment_debits d)) \<and>
     (\<forall>p \<in> set (payment_transactions d). corr_payment p \<longrightarrow> complete d p) \<and>
     distinct (map qr_id (qr_codes d)) \<and> (\<forall>q \<in> set (qr_codes d). check_qr_code q) \<and>
     distinct (map wal_id (rf_wallets d)) \<and> (\<forall>w \<in> set (rf_wallets d). check_rf_wallet w)"

lemma sound_iff: "sound d sq \<longleftrightarrow> booked d \<and> commands_ok d \<and> sweepable sq d \<and> integrity sq d"
proof
  assume "sound d sq"
  then show "booked d \<and> commands_ok d \<and> sweepable sq d \<and> integrity sq d"
    by (auto simp: sound_def booked_def healthy_def system_ok_def financial_ok_def)
next
  assume ok: "booked d \<and> commands_ok d \<and> sweepable sq d \<and> integrity sq d"
  define expected where "expected = \<lparr>must_be_complete = corr_payment,
    wallet_total = (\<lambda>w. wallet_balance d w + wallet_debits d w), unpaid_uses = (\<lambda>q. qr_uses d q - qr_payments d q),
    command_ids = map cmd_id (commands d),
    command_history = (\<lambda>i. cmd_status (the (List.find (\<lambda>c. cmd_id c = i) (commands d))))\<rparr>"
  have "financial_ok expected d" using ok by (simp add: financial_ok_def booked_def expected_def)
  moreover have "history_ok expected d"
    using ok find_unique_key [of cmd_id "commands d"]
    by (auto simp: history_ok_def expected_def commands_ok_def command_keys_def follows_def)
  ultimately have "healthy expected d sq" using ok by (simp add: healthy_def system_ok_def)
  then show "sound d sq" unfolding sound_def by (intro exI [of _ expected]) (simp add: expected_def)
qed

lemma booked_same:
  assumes "booked d" "payment_transactions d' = payment_transactions d" "payment_attempts d' = payment_attempts d"
    "provider_transactions d' = provider_transactions d" "start_rights d' = start_rights d"
    "rf_wallet_ledger d' = rf_wallet_ledger d" "events d' = events d" "audit_entries d' = audit_entries d"
    "distinct (map qr_id (qr_codes d')) \<and> (\<forall>q \<in> set (qr_codes d'). check_qr_code q)"
    "distinct (map wal_id (rf_wallets d')) \<and> (\<forall>w \<in> set (rf_wallets d'). check_rf_wallet w)"
  shows "booked d'"
  using assms by (simp add: booked_def payment_keys_def payment_debits_def complete_def)

text \<open>What the driver relies on in the database it starts from: everything of device 1 is switched on.\<close>

definition switched_on :: "db \<Rightarrow> bool" where
  "switched_on d \<longleftrightarrow> (\<forall>v \<in> set (devices d). dev_status v = ACTIVE) \<and> (\<forall>w \<in> set (wash_bays d). bay_status w = IDLE) \<and>
     (\<forall>e \<in> set (entitlements d). ent_enabled e) \<and> (\<forall>m \<in> set (program_payment_methods d). ppm_enabled m) \<and>
     (\<forall>c \<in> set (device_current_states d). cs_current_configuration_version c = Some 1 \<and>
        cs_acknowledged_configuration_version c = Some 1)"

lemma steady_versions:
  assumes "steady d0 d" "switched_on d0" "c \<in> set (device_current_states d)"
  shows "cs_current_configuration_version c = Some 1 \<and> cs_acknowledged_configuration_version c = Some 1"
proof -
  have "cs_fixed c \<in> set (map cs_fixed (device_current_states d))" using assms(3) by simp
  then have "cs_fixed c \<in> set (map cs_fixed (device_current_states d0))"
    using assms(1) by (simp only: steady_def same_identities_def)
  then show ?thesis using assms(2) by (auto simp: cs_fixed_def switched_on_def)
qed

section \<open>Preparing the device\<close>

definition contact :: "timestamp \<Rightarrow> device_current_state \<Rightarrow> device_current_state" where
  "contact now c = c\<lparr>cs_last_seen_at := Some now, cs_current_configuration_version := Some 1,
     cs_acknowledged_configuration_version := Some 1, cs_updated_at := now\<rparr>"

definition free_bay :: "timestamp \<Rightarrow> program_execution \<Rightarrow> program_execution" where
  "free_bay now e = e\<lparr>exe_status := SUCCESS, exe_completed_at := Some now\<rparr>"

lemma prepare_device_eq:
  assumes "steady d0 d" "switched_on d0"
  shows "prepare_device now d = d\<lparr>
    device_current_states := update_where (\<lambda>c. cs_device_id c = 1) (contact now) (device_current_states d),
    program_executions := update_where (occupies_bay 1) (free_bay now) (program_executions d)\<rparr>"
proof -
  have "update_where (\<lambda>v. dev_id v = 1) (\<lambda>v. v\<lparr>dev_status := ACTIVE\<rparr>) (devices d) = devices d"
    "update_where (\<lambda>w. bay_device_id w = Some 1) (\<lambda>w. w\<lparr>bay_status := IDLE\<rparr>) (wash_bays d) = wash_bays d"
    "update_where (\<lambda>e. ent_device_id e = 1 \<and> ent_program_id e = 1) (\<lambda>e. e\<lparr>ent_enabled := True\<rparr>) (entitlements d) =
      entitlements d"
    "update_where (\<lambda>m. ppm_program_id m = 1) (\<lambda>m. m\<lparr>ppm_enabled := True\<rparr>) (program_payment_methods d) =
      program_payment_methods d"
    using assms by (auto simp: steady_def same_catalog_def switched_on_def intro!: update_where_id)
  moreover have "maintenance_windows d = []" using assms by (simp add: steady_def)
  moreover have "contact now = (\<lambda>c. c\<lparr>cs_last_seen_at := Some now, cs_current_configuration_version := Some 1,
     cs_acknowledged_configuration_version := Some 1, cs_updated_at := now\<rparr>)"
    "free_bay now = (\<lambda>e. e\<lparr>exe_status := SUCCESS, exe_completed_at := Some now\<rparr>)"
    "occupies_bay 1 = (\<lambda>e. exe_wash_bay_id e = Some 1 \<and> exe_status e \<in> {CREATED, COMMAND_SENT, RUNNING})"
    by (simp_all add: fun_eq_iff contact_def free_bay_def occupies_bay_def)
  ultimately show ?thesis by (simp add: prepare_device_def)
qed

text \<open>An update of executions that leaves the finished ones alone.\<close>

lemma commands_ok_executions:
  assumes "commands_ok d" "commands d' = commands d" "command_results d' = command_results d"
    "program_executions d' = update_where P f (program_executions d)"
    "\<And>e. exe_id (f e) = exe_id e" "\<And>e. P e \<Longrightarrow> \<not> terminal (exe_status e)"
  shows "commands_ok d'"
proof -
  have "command_ok d' c" if "c \<in> set (commands d)" for c
  proof -
    have c: "command_ok d c" using assms(1) that by (simp add: commands_ok_def)
    have "exe_status e = cmd_status c" if "terminal (cmd_status c)" "e \<in> set (program_executions d')"
      "exe_id e = cmd_program_execution_id c" for e
    proof -
      obtain x where x: "x \<in> set (program_executions d)" "e = (if P x then f x else x)"
        using \<open>e \<in> set (program_executions d')\<close> unfolding assms(4) by (rule update_whereE)
      then have "exe_id x = cmd_program_execution_id c" using that(3) assms(5) by (auto split: if_splits)
      then have "exe_status x = cmd_status c" using c x(1) that(1) by (simp add: command_ok_def)
      then show ?thesis using assms(6) [of x] that(1) x(2) by (auto split: if_splits)
    qed
    with c show ?thesis by (auto simp: command_ok_def assms(3))
  qed
  moreover have "map exe_id (program_executions d') = map exe_id (program_executions d)"
    using assms(4,5) by (simp add: map_update_where)
  ultimately show ?thesis using assms(1-3) by (simp add: commands_ok_def command_keys_def)
qed

lemma sweepable_executions:
  assumes "sweepable sq d" "alarms d' = alarms d" "devices d' = devices d" "maintenance_windows d' = maintenance_windows d"
    "map exe_device_id (program_executions d') = map exe_device_id (program_executions d)"
  shows "sweepable sq d'"
proof (rule sweepable_same [OF assms(1-4)])
  fix e
  assume "e \<in> set (program_executions d')"
  then have "exe_device_id e \<in> set (map exe_device_id (program_executions d'))" by simp
  then show "exe_device_id e \<in> exe_device_id ` set (program_executions d)" unfolding assms(5) by simp
qed

lemma prepare_device_ok:
  assumes "sound d sq" "steady d0 d" "switched_on d0"
  shows "sound (prepare_device now d) sq \<and> steady d0 (prepare_device now d)"
proof -
  let ?d = "prepare_device now d"
  note eq = prepare_device_eq [OF assms(2,3), of now]
  have ok: "booked d" "commands_ok d" "sweepable sq d" "integrity sq d" using assms(1) by (simp_all add: sound_iff)
  have "booked ?d" by (rule booked_same [OF ok(1)]) (use ok(1) in \<open>simp_all add: eq booked_def\<close>)
  moreover have "commands_ok ?d"
    by (rule commands_ok_executions [OF ok(2), where P = "occupies_bay 1" and f = "free_bay now"])
      (auto simp: eq free_bay_def occupies_bay_def terminal_def)
  moreover have "sweepable sq ?d"
    by (rule sweepable_executions [OF ok(3)]) (simp_all add: eq map_update_where free_bay_def)
  moreover have "integrity sq ?d" by (rule integrity_same [OF ok(4)]) (simp add: eq same_ledgers_def)
  moreover have "map cs_fixed (update_where (\<lambda>c. cs_device_id c = 1) (contact now) (device_current_states d)) =
      map cs_fixed (device_current_states d)"
    using steady_versions [OF assms(2,3)] by (intro map_update_where) (simp add: cs_fixed_def contact_def)
  then have "frame d ?d" by (simp add: eq frame_defs map_update_where exe_fixed_def free_bay_def)
  ultimately show ?thesis using steady_frame [OF assms(2)] by (simp add: sound_iff)
qed

section \<open>Deleting payments of a correctness run\<close>

lemma distinct_map_filter: "distinct (map k xs) \<Longrightarrow> distinct (map k (filter P xs))"
  by (induction xs) auto

lemma below_filter: "below k n xs \<Longrightarrow> below k n (filter P xs)"
  by (simp add: below_def)

text \<open>A payment is gone if its id is; rows of other payments stay.\<close>

definition gone_ids :: "(payment_transaction \<Rightarrow> bool) \<Rightarrow> db \<Rightarrow> int set" where
  "gone_ids P d = pay_id ` {p \<in> set (payment_transactions d). P p}"

definition not_gone :: "int set \<Rightarrow> int option \<Rightarrow> bool" where
  "not_gone gone i \<longleftrightarrow> (case i of None \<Rightarrow> True | Some i \<Rightarrow> i \<notin> gone)"

lemma delete_payments_eq:
  assumes "backed d" "distinct (map pay_id (payment_transactions d))" "\<And>p. P p \<Longrightarrow> corr_payment p"
  shows "delete_payments P d = d\<lparr>payment_transactions := filter (\<lambda>p. \<not> P p) (payment_transactions d),
    payment_attempts := filter (\<lambda>a. att_payment_id a \<notin> gone_ids P d) (payment_attempts d),
    provider_transactions := filter (\<lambda>t. prov_payment_id t \<notin> gone_ids P d) (provider_transactions d),
    start_rights := filter (\<lambda>r. sr_payment_id r \<notin> gone_ids P d) (start_rights d),
    rf_wallet_ledger := filter (\<lambda>l. not_gone (gone_ids P d) (led_payment_id l)) (rf_wallet_ledger d),
    events := filter (\<lambda>e. not_gone (gone_ids P d) (ev_payment_id e)) (events d),
    audit_entries := filter (\<lambda>a. aud_payment_id a \<notin> gone_ids P d) (audit_entries d)\<rparr>"
proof -
  let ?gone = "map pay_id (filter P (payment_transactions d))"
  have gone: "set ?gone = gone_ids P d" by (auto simp: gone_ids_def)
  have keep: "exe_payment_id e \<notin> gone_ids P d" if e: "e \<in> set (program_executions d)" for e
  proof
    assume "exe_payment_id e \<in> gone_ids P d"
    then obtain p where p: "p \<in> set (payment_transactions d)" "P p" "pay_id p = exe_payment_id e"
      by (auto simp: gone_ids_def)
    obtain p' where p': "p' \<in> set (payment_transactions d)" "pay_id p' = exe_payment_id e" "\<not> corr_payment p'"
      using assms(1) e unfolding backed_def by blast
    then have "p' = p" using p distinct_key_eq [OF assms(2)] by simp
    with p' assms(3) p(2) show False by simp
  qed
  have exes: "filter (\<lambda>e. exe_payment_id e \<in> gone_ids P d) (program_executions d) = []"
    "filter (\<lambda>e. exe_payment_id e \<notin> gone_ids P d) (program_executions d) = program_executions d"
    using keep by (simp_all add: filter_empty_conv)
  show ?thesis unfolding delete_payments_def Let_def gone not_gone_def by (simp add: exes)
qed

lemma delete_payments_ok:
  assumes "sound d sq" "steady d0 d" and corr: "\<And>p. P p \<Longrightarrow> corr_payment p"
  shows "sound (delete_payments P d) sq \<and> steady d0 (delete_payments P d)"
proof -
  let ?d = "delete_payments P d" and ?gone = "gone_ids P d"
  have ok: "booked d" "commands_ok d" "sweepable sq d" "integrity sq d" using assms(1) by (simp_all add: sound_iff)
  have ids: "distinct (map pay_id (payment_transactions d))" using ok(1) by (simp add: booked_def)
  have "backed d" using assms(2) by (simp add: steady_def)
  note eq = delete_payments_eq [OF this ids corr]
  have stays: "pay_id p \<notin> ?gone" if "p \<in> set (payment_transactions d)" "\<not> P p" for p
    using that distinct_key_eq [OF ids] by (auto simp: gone_ids_def)
  have kept: "p \<in> set (payment_transactions ?d)" if "p \<in> set (payment_transactions d)" "pay_id p \<notin> ?gone" for p
    using that by (auto simp: eq gone_ids_def)
  have has: "has_key pay_id (payment_transactions ?d) i"
    if "has_key pay_id (payment_transactions d) i" "i \<notin> ?gone" for i
    using that kept by (auto simp: has_key_def)
  have "complete ?d p" if "p \<in> set (payment_transactions ?d)" "corr_payment p" for p
  proof -
    have p: "p \<in> set (payment_transactions d)" "pay_id p \<notin> ?gone" using that(1) stays by (auto simp: eq)
    then have "complete d p" using ok(1) that(2) by (simp add: booked_def)
    then show ?thesis using p(2) unfolding complete_def by (auto simp: eq not_gone_def)
  qed
  moreover have "\<exists>p \<in> set (payment_transactions ?d). pay_id p = sr_payment_id r \<and> pay_status p = SUCCESS"
    if r: "r \<in> set (start_rights ?d)" for r
  proof -
    have "r \<in> set (start_rights d)" "sr_payment_id r \<notin> ?gone" using r by (auto simp: eq)
    then obtain p where "p \<in> set (payment_transactions d)" "pay_id p = sr_payment_id r" "pay_status p = SUCCESS"
      using ok(1) unfolding booked_def by blast
    with kept \<open>sr_payment_id r \<notin> ?gone\<close> show ?thesis by metis
  qed
  moreover have "distinct (payment_keys ?d)" "distinct (map pay_id (payment_transactions ?d))"
    "distinct (map sr_payment_id (start_rights ?d))"
    using ok(1) by (simp_all add: eq booked_def payment_keys_def distinct_map_filter)
  moreover have "distinct (map led_payment_id (payment_debits ?d))"
  proof -
    have "payment_debits ?d = filter (\<lambda>l. not_gone ?gone (led_payment_id l)) (payment_debits d)"
      by (simp add: eq payment_debits_def conj_ac)
    then show ?thesis using ok(1) by (simp add: booked_def distinct_map_filter)
  qed
  ultimately have "booked ?d" using ok(1) unfolding booked_def by (simp add: eq)
  moreover have "commands_ok ?d" by (rule commands_ok_same [OF ok(2)]) (simp_all add: eq)
  moreover have "sweepable sq ?d" by (rule sweepable_executions [OF ok(3)]) (simp_all add: eq)
  moreover have "integrity sq ?d"
  proof -
    have "ids_fresh sq ?d" using ok(4) by (simp add: integrity_def ids_fresh_def eq below_filter)
    moreover have "links_ok ?d"
      using ok(4) has unfolding integrity_def links_ok_def
      by (auto simp: eq has_key_opt_def not_gone_def split: option.splits)
    moreover have "catalog_ok ?d" using ok(4) by (simp add: integrity_def catalog_ok_def eq)
    ultimately show ?thesis by (simp add: integrity_def)
  qed
  moreover have "backed ?d"
    using assms(2) corr unfolding steady_def backed_def by (fastforce simp: eq)
  then have "steady d0 ?d"
    using assms(2) by (simp add: steady_def same_catalog_def same_identities_def covered_def eq)
  ultimately show ?thesis by (simp add: sound_iff)
qed

section \<open>Resets\<close>

lemma reset_qr_ok:
  assumes "sound d sq" "steady d0 d"
  shows "sound (reset_qr d) sq \<and> steady d0 (reset_qr d)"
proof -
  let ?f = "\<lambda>q. q\<lparr>qr_usage_count := 0, qr_status := ACTIVE\<rparr>"
  let ?d = "reset_qr d"
  have ok: "booked d" "commands_ok d" "sweepable sq d" "integrity sq d" using assms(1) by (simp_all add: sound_iff)
  have "check_qr_code (?f q)" if "check_qr_code q" for q using that by (auto simp: check_qr_code_def)
  then have "\<forall>q \<in> set (qr_codes ?d). check_qr_code q"
    using ok(1) by (auto simp: reset_qr_def booked_def elim!: update_whereE)
  then have "booked ?d"
    by (intro booked_same [OF ok(1)]) (use ok(1) in \<open>simp_all add: reset_qr_def booked_def map_update_where\<close>)
  moreover have "commands_ok ?d" by (rule commands_ok_same [OF ok(2)]) (simp_all add: reset_qr_def)
  moreover have "sweepable sq ?d" by (rule sweepable_executions [OF ok(3)]) (simp_all add: reset_qr_def)
  moreover have "integrity sq ?d" by (rule integrity_same [OF ok(4)]) (simp add: reset_qr_def same_ledgers_def)
  moreover have "frame d ?d" by (simp add: reset_qr_def frame_defs map_update_where qr_fixed_def)
  ultimately show ?thesis using steady_frame [OF assms(2)] by (simp add: sound_iff)
qed

lemma reset_wallet_ok:
  assumes "sound d sq" "steady d0 d"
  shows "sound (reset_wallet now d) sq \<and> steady d0 (reset_wallet now d)"
proof -
  let ?f = "\<lambda>w. w\<lparr>wal_balance_minor := 1000, wal_version := 0, wal_updated_at := now\<rparr>"
  let ?d = "reset_wallet now d"
  have ok: "booked d" "commands_ok d" "sweepable sq d" "integrity sq d" using assms(1) by (simp_all add: sound_iff)
  have "check_rf_wallet (?f w)" if "check_rf_wallet w" for w using that by (auto simp: check_rf_wallet_def)
  then have "\<forall>w \<in> set (rf_wallets ?d). check_rf_wallet w"
    using ok(1) by (auto simp: reset_wallet_def booked_def elim!: update_whereE)
  then have "booked ?d"
    by (intro booked_same [OF ok(1)]) (use ok(1) in \<open>simp_all add: reset_wallet_def booked_def map_update_where\<close>)
  moreover have "commands_ok ?d" by (rule commands_ok_same [OF ok(2)]) (simp_all add: reset_wallet_def)
  moreover have "sweepable sq ?d" by (rule sweepable_executions [OF ok(3)]) (simp_all add: reset_wallet_def)
  moreover have "integrity sq ?d" by (rule integrity_same [OF ok(4)]) (simp add: reset_wallet_def same_ledgers_def)
  moreover have "frame d ?d" by (simp add: reset_wallet_def frame_defs map_update_where wal_fixed_def)
  ultimately show ?thesis using steady_frame [OF assms(2)] by (simp add: sound_iff)
qed

text \<open>Only the times of contact and the alarms change.\<close>

lemma contacts_ok:
  assumes "sound d sq" "steady d0 d" "map cs_fixed cs = map cs_fixed (device_current_states d)"
  shows "sound (d\<lparr>device_current_states := cs, alarms := filter P (alarms d)\<rparr>) sq \<and>
    steady d0 (d\<lparr>device_current_states := cs, alarms := filter P (alarms d)\<rparr>)"
proof -
  let ?d = "d\<lparr>device_current_states := cs, alarms := filter P (alarms d)\<rparr>"
  have ok: "booked d" "commands_ok d" "sweepable sq d" "integrity sq d" using assms(1) by (simp_all add: sound_iff)
  have "booked ?d" by (rule booked_same [OF ok(1)]) (use ok(1) in \<open>simp_all add: booked_def\<close>)
  moreover have "commands_ok ?d" by (rule commands_ok_same [OF ok(2)]) simp_all
  moreover have "alarms_ok sq ?d"
  proof -
    have "filter (\<lambda>a. al_status a = OPEN) (filter P (alarms d)) = filter P (filter (\<lambda>a. al_status a = OPEN) (alarms d))"
      by (simp add: conj_commute)
    then show ?thesis
      using ok(3) unfolding sweepable_def alarms_ok_def by (simp add: distinct_map_filter del: filter_filter)
  qed
  then have "sweepable sq ?d" using ok(3) by (simp add: sweepable_def)
  moreover have "integrity sq ?d" by (rule integrity_same [OF ok(4)]) (simp add: same_ledgers_def)
  moreover have "frame d ?d" using assms(3) by (simp add: frame_defs)
  ultimately show ?thesis using steady_frame [OF assms(2)] by (simp add: sound_iff)
qed

lemma silence_device_ok:
  assumes "sound d sq" "steady d0 d"
  shows "sound (silence_device now d) sq \<and> steady d0 (silence_device now d)"
proof -
  let ?f = "\<lambda>c. c\<lparr>cs_last_seen_at := Some (if cs_device_id c = 1 then now - minutes 10 else now), cs_updated_at := now\<rparr>"
  have "silence_device now d = d\<lparr>device_current_states := map ?f (device_current_states d),
      alarms := filter (\<lambda>a. \<not> like_offline (al_alarm_key a)) (alarms d)\<rparr>"
    using assms(2) by (simp add: silence_device_def steady_def)
  then show ?thesis
    using contacts_ok [OF assms, of "map ?f (device_current_states d)"] by (simp add: cs_fixed_def comp_def)
qed

lemma revive_device_ok:
  assumes "sound d sq" "steady d0 d"
  shows "sound (revive_device now d) sq \<and> steady d0 (revive_device now d)"
proof -
  let ?cs = "update_where (\<lambda>c. cs_device_id c = 1) (\<lambda>c. c\<lparr>cs_last_seen_at := Some now, cs_updated_at := now\<rparr>)
    (device_current_states d)"
  have "map cs_fixed ?cs = map cs_fixed (device_current_states d)" by (simp add: map_update_where cs_fixed_def)
  from contacts_ok [OF assms this, of "\<lambda>_. True"] show ?thesis by (simp add: revive_device_def)
qed

text \<open>Command 1 is a command of device 1 for an execution in bay 1.\<close>

definition crewed :: "db \<Rightarrow> bool" where
  "crewed d \<longleftrightarrow> (\<forall>c \<in> set (commands d). cmd_id c = 1 \<longrightarrow> cmd_device_id c = 1 \<and>
     (\<forall>e \<in> set (program_executions d). exe_id e = cmd_program_execution_id c \<longrightarrow>
        exe_device_id e = 1 \<and> exe_wash_bay_id e = Some 1))"

lemma crewed_steady:
  assumes "crewed d0" "steady d0 d"
  shows "crewed d"
  unfolding crewed_def
proof (intro ballI impI)
  fix c assume c: "c \<in> set (commands d)" "cmd_id c = 1"
  have same: "map cmd_fixed (commands d) = map cmd_fixed (commands d0)"
    "map exe_fixed (program_executions d) = map exe_fixed (program_executions d0)"
    using assms(2) by (simp_all add: steady_def same_identities_def)
  obtain c0 where c0: "c0 \<in> set (commands d0)" "cmd_fixed c0 = cmd_fixed c" using map_eq_mem [OF same(1) c(1)] by blast
  have "exe_device_id e = 1 \<and> exe_wash_bay_id e = Some 1"
    if e: "e \<in> set (program_executions d)" "exe_id e = cmd_program_execution_id c" for e
  proof -
    obtain e0 where "e0 \<in> set (program_executions d0)" "exe_fixed e0 = exe_fixed e"
      using map_eq_mem [OF same(2) e(1)] by blast
    then show ?thesis using assms(1) c0 c(2) e(2) unfolding crewed_def by (auto simp: cmd_fixed_def exe_fixed_def)
  qed
  then show "cmd_device_id c = 1 \<and> (\<forall>e \<in> set (program_executions d). exe_id e = cmd_program_execution_id c \<longrightarrow>
      exe_device_id e = 1 \<and> exe_wash_bay_id e = Some 1)"
    using assms(1) c0 c(2) unfolding crewed_def by (auto simp: cmd_fixed_def)
qed

definition fresh_command :: "timestamp \<Rightarrow> command \<Rightarrow> command" where
  "fresh_command now c = c\<lparr>cmd_device_id := 1, cmd_status := PENDING, cmd_sent_at := None, cmd_acknowledged_at := None,
     cmd_completed_at := None, cmd_result_code := None, cmd_created_at := now\<rparr>"

definition fresh_execution :: "program_execution \<Rightarrow> program_execution" where
  "fresh_execution e = e\<lparr>exe_device_id := 1, exe_wash_bay_id := Some 1, exe_status := CREATED,
     exe_started_at := None, exe_completed_at := None\<rparr>"

definition executed_by :: "int \<Rightarrow> db \<Rightarrow> int list" where
  "executed_by i d = map cmd_program_execution_id (filter (\<lambda>c. cmd_id c = i) (commands d))"

lemma reset_command_eq:
  "reset_command now d = d\<lparr>command_results := filter (\<lambda>r. res_command_id r \<noteq> 1) (command_results d),
     commands := update_where (\<lambda>c. cmd_id c = 1) (fresh_command now) (commands d),
     program_executions := update_where (\<lambda>e. exe_id e \<in> set (executed_by 1 d)) fresh_execution (program_executions d)\<rparr>"
proof -
  have "fresh_command now = (\<lambda>c. c\<lparr>cmd_device_id := 1, cmd_status := PENDING, cmd_sent_at := None,
      cmd_acknowledged_at := None, cmd_completed_at := None, cmd_result_code := None, cmd_created_at := now\<rparr>)"
    "fresh_execution = (\<lambda>e. e\<lparr>exe_device_id := 1, exe_wash_bay_id := Some 1, exe_status := CREATED,
      exe_started_at := None, exe_completed_at := None\<rparr>)"
    by (simp_all add: fun_eq_iff fresh_command_def fresh_execution_def)
  then show ?thesis by (simp add: reset_command_def executed_by_def Let_def)
qed

lemma reset_command_ok:
  assumes "sound d sq" "steady d0 d" "crewed d0" "has_key dev_id (devices d) 1"
  shows "sound (reset_command now d) sq \<and> steady d0 (reset_command now d)"
proof -
  let ?d = "reset_command now d" and ?mine = "\<lambda>e. exe_id e \<in> set (executed_by 1 d)"
  note eq = reset_command_eq [of now d]
  have ok: "booked d" "commands_ok d" "sweepable sq d" "integrity sq d" using assms(1) by (simp_all add: sound_iff)
  have keys: "command_keys d" using ok(2) by (simp add: commands_ok_def)
  have crew: "crewed d" by (rule crewed_steady [OF assms(3,2)])
  then have device: "cmd_device_id c = 1" if "c \<in> set (commands d)" "cmd_id c = 1" for c
    using that by (simp add: crewed_def)
  from crew have bay: "exe_device_id e = 1 \<and> exe_wash_bay_id e = Some 1" if "e \<in> set (program_executions d)" "?mine e" for e
    using that unfolding crewed_def executed_by_def by auto
  have "booked ?d" by (rule booked_same [OF ok(1)]) (use ok(1) in \<open>simp_all add: eq booked_def\<close>)
  moreover have "command_ok ?d c" if c: "c \<in> set (commands ?d)" for c
  proof -
    have "c \<in> set (update_where (\<lambda>c. cmd_id c = 1) (fresh_command now) (commands d))" using c by (simp add: eq)
    then obtain x where x: "x \<in> set (commands d)" "c = (if cmd_id x = 1 then fresh_command now x else x)"
      by (rule update_whereE)
    have old: "command_ok d x" using ok(2) x(1) by (simp add: commands_ok_def)
    show ?thesis
    proof (cases "cmd_id x = 1")
      case True
      then show ?thesis
        using x(2) by (auto simp: command_ok_def check_command_def fresh_command_def terminal_def eq)
    next
      case False
      have "cmd_program_execution_id x \<notin> set (executed_by 1 d)"
        using keys x(1) False distinct_key_eq [of cmd_program_execution_id "commands d" x]
        by (auto simp: executed_by_def command_keys_def)
      then have "exe_status e = cmd_status x"
        if "e \<in> set (program_executions ?d)" "exe_id e = cmd_program_execution_id x" "terminal (cmd_status x)" for e
        using that old by (auto simp: eq command_ok_def fresh_execution_def elim!: update_whereE split: if_splits)
      then show ?thesis using False old x(2) by (auto simp: command_ok_def eq)
    qed
  qed
  moreover have "command_keys ?d"
    using keys by (simp add: command_keys_def eq map_update_where fresh_command_def fresh_execution_def distinct_map_filter)
  ultimately have "booked ?d \<and> commands_ok ?d" by (simp add: commands_ok_def)
  moreover have "map exe_device_id (program_executions ?d) = map exe_device_id (program_executions d)"
    using bay by (simp add: eq map_update_where fresh_execution_def)
  then have "sweepable sq ?d" by (intro sweepable_executions [OF ok(3)]) (simp_all add: eq)
  moreover have "integrity sq ?d"
  proof -
    have "ids_fresh sq ?d" using ok(4) by (simp add: integrity_def ids_fresh_def eq below_filter)
    then show ?thesis using ok(4) by (simp add: integrity_def links_ok_def catalog_ok_def eq)
  qed
  moreover have "frame d ?d"
    using device bay by (simp add: eq frame_defs map_update_where cmd_fixed_def exe_fixed_def fresh_command_def fresh_execution_def)
  ultimately show ?thesis using steady_frame [OF assms(2)] by (simp add: sound_iff)
qed

end
