(* ===== verification/Driver_Stage.thy ===== *)
theory Driver_Stage
  imports Driver_Facts
begin

text \<open>
  The rows a correctness run acts on: device 1 with everything it needs to pay, the first QR
  code, card and wallet, the first command.  The seeded databases have them, and they stay
  through the run.
\<close>

section \<open>The cast\<close>

definition cast_device :: "digests \<Rightarrow> device \<Rightarrow> db \<Rightarrow> bool" where
  "cast_device dg v d \<longleftrightarrow>
     dev_id v = 1 \<and> dev_station_id v = 1 \<and> dev_status v = ACTIVE \<and> device_authentic dg d 1 ''credential-1'' v \<and>
     (\<exists>t. List.find (\<lambda>t. st_id t = 1) (stations d) = Some t \<and> st_company_id t = 1) \<and>
     (\<exists>w. List.find (\<lambda>w. bay_device_id w = Some 1) (wash_bays d) = Some w \<and> bay_id w = 1)"

definition cast_configuration :: "db \<Rightarrow> bool" where
  "cast_configuration d \<longleftrightarrow> (\<exists>c. filter (published 1) (device_configurations d) = [c] \<and> cfg_version c = 1 \<and>
     map fst (cfg_snapshot c) = [''currency'', ''device_id'', ''station_id'', ''heartbeat_seconds''] \<and>
     map_of (cfg_snapshot c) ''device_id'' = Some (JStr ''dev-0000001'') \<and>
     map_of (cfg_snapshot c) ''station_id'' = Some (JStr ''stn-000001''))"

definition cast_program :: "db \<Rightarrow> bool" where
  "cast_program d \<longleftrightarrow>
     (\<exists>p. List.find (\<lambda>p. prog_id p = 1 \<and> prog_company_id p = 1 \<and> prog_active p) (programs d) = Some p \<and>
        prog_price_minor p = 1000) \<and>
     List.find (\<lambda>e. ent_device_id e = 1 \<and> ent_program_id e = 1 \<and> ent_enabled e) (entitlements d) \<noteq> None \<and>
     (\<forall>m \<in> {''CARD'', ''QR'', ''RF_CARD''}.
        List.find (\<lambda>x. ppm_program_id x = 1 \<and> ppm_payment_method x = m \<and> ppm_enabled x) (program_payment_methods d) \<noteq> None)"

definition cast_panel :: "digests \<Rightarrow> db \<Rightarrow> bool" where
  "cast_panel dg d \<longleftrightarrow>
     (\<exists>u. List.find (\<lambda>u. pu_token_hash u = sha256_hex dg (encode ''panel-company-1'') \<and> pu_active u) (panel_users d) = Some u \<and>
        pu_company_id u = 1) \<and>
     (\<exists>c. List.find (\<lambda>c. co_id c = 1) (companies d) = Some c)"

definition cast_code :: "digests \<Rightarrow> db \<Rightarrow> bool" where
  "cast_code dg d \<longleftrightarrow> (\<exists>q. find_qr (qr_hash dg qr_body) d = Some q \<and> qr_id q = 1 \<and> qr_company_id q = 1 \<and>
     qr_station_id q = 1 \<and> qr_program_id q = 1 \<and> qr_usage_limit q = 1 \<and> qr_starts_at q = FIXED_TS \<and>
     qr_expires_at q = FAR_TS)"

definition first_uid :: string where
  "first_uid = ''AABBCCDD00000001''"

definition cast_wallet :: "digests \<Rightarrow> rf_card \<Rightarrow> db \<Rightarrow> bool" where
  "cast_wallet dg k d \<longleftrightarrow>
     List.find (\<lambda>c. card_uid_hash c = secret_hash dg first_uid QR_PEPPER) (rf_cards d) = Some k \<and> card_id k = 1 \<and>
     card_status k = ACTIVE \<and> card_company_id k = 1 \<and> card_expires_at k = Some FAR_TS \<and>
     (\<exists>w. find_wallet 1 d = Some w \<and> wal_id w = 1)"

definition cast_command :: "db \<Rightarrow> bool" where
  "cast_command d \<longleftrightarrow> (\<exists>c. find_command 1 1 d = Some c)"

definition cast :: "digests \<Rightarrow> device \<Rightarrow> rf_card \<Rightarrow> db \<Rightarrow> bool" where
  "cast dg v k d \<longleftrightarrow> cast_device dg v d \<and> cast_configuration d \<and> cast_program d \<and> cast_panel dg d \<and> cast_code dg d \<and>
     cast_wallet dg k d \<and> cast_command d \<and> switched_on d \<and> crewed d \<and> distinct (map cs_device_id (device_current_states d)) \<and>
     covered d"

section \<open>It stays\<close>

lemma find_fixed:
  assumes "map k xs = map k ys" "\<And>x y. k x = k y \<Longrightarrow> P x \<longleftrightarrow> P y" "List.find P ys = Some y"
  shows "\<exists>x. List.find P xs = Some x \<and> k x = k y"
  using assms(1,3)
proof (induction ys arbitrary: xs)
  case (Cons y' ys)
  obtain x xs' where xs: "xs = x # xs'" using Cons.prems(1) by (cases xs) auto
  then have kx: "k x = k y'" and rest: "map k xs' = map k ys" using Cons.prems(1) by simp_all
  from kx have "P x \<longleftrightarrow> P y'" by (rule assms(2))
  then show ?case using Cons.IH [OF rest] Cons.prems(2) kx by (cases "P y'") (simp_all add: xs)
qed simp

lemma cast_code_steady:
  assumes "cast_code dg d0" "map qr_fixed (qr_codes d) = map qr_fixed (qr_codes d0)"
  shows "cast_code dg d"
proof -
  obtain q0 where q0: "find_qr (qr_hash dg qr_body) d0 = Some q0" "qr_id q0 = 1 \<and> qr_company_id q0 = 1 \<and>
     qr_station_id q0 = 1 \<and> qr_program_id q0 = 1 \<and> qr_usage_limit q0 = 1 \<and> qr_starts_at q0 = FIXED_TS \<and>
     qr_expires_at q0 = FAR_TS"
    using assms(1) unfolding cast_code_def by blast
  have fields: "qr_id x = qr_id y \<and> qr_token_hash x = qr_token_hash y \<and> qr_company_id x = qr_company_id y \<and>
      qr_station_id x = qr_station_id y \<and> qr_program_id x = qr_program_id y \<and> qr_usage_limit x = qr_usage_limit y \<and>
      qr_starts_at x = qr_starts_at y \<and> qr_expires_at x = qr_expires_at y" if "qr_fixed x = qr_fixed y" for x y
    using arg_cong [OF that, of qr_id] arg_cong [OF that, of qr_token_hash] arg_cong [OF that, of qr_company_id]
      arg_cong [OF that, of qr_station_id] arg_cong [OF that, of qr_program_id] arg_cong [OF that, of qr_usage_limit]
      arg_cong [OF that, of qr_starts_at] arg_cong [OF that, of qr_expires_at] by (simp add: qr_fixed_def)
  have "qr_token_hash x = qr_hash dg qr_body \<longleftrightarrow> qr_token_hash y = qr_hash dg qr_body" if "qr_fixed x = qr_fixed y" for x y
    using fields [OF that] by simp
  from find_fixed [OF assms(2) this q0(1) [unfolded find_qr_def]]
  obtain q where q: "find_qr (qr_hash dg qr_body) d = Some q" "qr_fixed q = qr_fixed q0" unfolding find_qr_def by blast
  show ?thesis unfolding cast_code_def using q0(2) fields [OF q(2)] by (intro exI [of _ q]) (simp add: q(1))
qed

lemma cast_steady:
  assumes "cast dg v k d0" "steady d0 d"
  shows "cast dg v k d"
proof -
  have cat: "same_catalog d0 d" and ids: "same_identities d0 d" using assms(2) by (simp_all add: steady_def)
  have "cast_device dg v d" "cast_configuration d" "cast_program d" "cast_panel dg d"
    using assms(1) cat
    by (simp_all add: cast_def same_catalog_def cast_device_def cast_configuration_def cast_program_def cast_panel_def
        device_authentic_def)
  moreover have "cast_code dg d" using assms(1) ids cast_code_steady unfolding cast_def same_identities_def by blast
  moreover have "cast_wallet dg k d"
  proof -
    obtain w0 where w0: "find_wallet 1 d0 = Some w0" "wal_id w0 = 1" using assms(1) by (auto simp: cast_def cast_wallet_def)
    have "map wal_fixed (rf_wallets d) = map wal_fixed (rf_wallets d0)" using ids by (simp add: same_identities_def)
    from find_fixed [OF this, of "\<lambda>w. wal_rf_card_id w = 1" w0] w0
    obtain w where "find_wallet 1 d = Some w" "wal_id w = 1" by (auto simp: find_wallet_def wal_fixed_def)
    then show ?thesis using assms(1) cat by (simp add: cast_def cast_wallet_def same_catalog_def)
  qed
  moreover have "cast_command d"
  proof -
    obtain c0 where c0: "find_command 1 1 d0 = Some c0" using assms(1) by (auto simp: cast_def cast_command_def)
    have "map cmd_fixed (commands d) = map cmd_fixed (commands d0)" using ids by (simp add: same_identities_def)
    from find_fixed [OF this, of "\<lambda>c. cmd_id c = 1 \<and> cmd_device_id c = 1" c0] c0
    show ?thesis by (auto simp: cast_command_def find_command_def cmd_fixed_def)
  qed
  moreover have "switched_on d"
  proof -
    have on: "switched_on d0" using assms(1) by (simp add: cast_def)
    note steady_versions [OF assms(2) on]
    moreover have "devices d = devices d0" "wash_bays d = wash_bays d0" "entitlements d = entitlements d0"
      "program_payment_methods d = program_payment_methods d0" using cat by (simp_all add: same_catalog_def)
    ultimately show ?thesis using on by (simp add: switched_on_def)
  qed
  moreover have "crewed d" by (rule crewed_steady [OF _ assms(2)]) (use assms(1) in \<open>simp add: cast_def\<close>)
  moreover have "map cs_device_id (device_current_states d) = map cs_device_id (device_current_states d0)"
  proof -
    have "map cs_fixed (device_current_states d) = map cs_fixed (device_current_states d0)"
      using ids by (simp add: same_identities_def)
    from arg_cong [OF this, of "map fst"] show ?thesis by (simp add: comp_def cs_fixed_def)
  qed
  moreover have "covered d" using assms(2) by (simp add: steady_def)
  ultimately show ?thesis using assms(1) by (simp add: cast_def)
qed

section \<open>The seeded databases have it\<close>

lemma upto_first: "1 \<le> n \<Longrightarrow> [1..n] = 1 # [2..n :: int]"
  by (simp add: upto_rec1)

lemma int_dec_1: "int_dec 1 = ''1''"
  by code_simp

lemma seed_counts: "sized cfg \<Longrightarrow> 1 \<le> pf_companies cfg \<and> 1 \<le> pf_stations cfg \<and> 1 \<le> pf_devices cfg \<and>
    1 \<le> seed_qr_count cfg \<and> 1 \<le> seed_wallet_count cfg \<and> 1 \<le> seed_command_count cfg"
  by (auto simp: sized_def seed_qr_count_def seed_wallet_count_def seed_command_count_def)

lemma first_homes: "sized cfg \<Longrightarrow> station_company cfg 1 = 1 \<and> payment_station cfg 1 = 1 \<and> payment_device cfg 1 = 1"
  by (simp add: station_company_def payment_station_def payment_device_def)

lemma seed_cast_code:
  assumes "sized cfg"
  shows "cast_code dg (seed_db dg md5_hex cfg)"
  using seed_counts [OF assms] first_homes [OF assms]
  by (simp add: cast_code_def find_qr_def seed_static_tables [OF assms] upto_first seeded_qr_def Let_def qr_hash_def
      qr_body_def secret_hash_def int_dec_1 or_empty_def del: encode_Cons)

lemma first_seeded_uid: "seeded_uid 1 = first_uid"
  by code_simp

lemma seed_cast_wallet:
  assumes "sized cfg"
  shows "cast_wallet dg (seeded_card dg cfg 1) (seed_db dg md5_hex cfg)"
  using seed_counts [OF assms]
  by (simp add: cast_wallet_def find_wallet_def seed_static_tables [OF assms] upto_first seeded_card_def seeded_wallet_def
      secret_hash_def first_seeded_uid del: encode_Cons)

lemma seed_cast_command:
  assumes "sized cfg"
  shows "cast_command (seed_db dg md5_hex cfg) \<and> crewed (seed_db dg md5_hex cfg)"
  using seed_counts [OF assms] first_homes [OF assms]
  by (auto simp: cast_command_def crewed_def find_command_def seed_tables [OF assms] upto_first seeded_command_def
      seeded_execution_def)

lemma seed_cast_program:
  assumes "sized cfg"
  shows "cast_program (seed_db dg md5_hex cfg)"
proof -
  note n = seed_counts [OF assms] and homes = first_homes [OF assms]
  have "1 \<le> pf_companies cfg * 3" using n by simp
  then have progs: "seed_programs (pf_companies cfg) = \<lparr>prog_id = 1, prog_company_id = 1,
      prog_external_key = ''prg-'' @ lpad (int_dec 1) 6, prog_name = ''Program '' @ int_dec 1, prog_price_minor = 1000,
      prog_active = True\<rparr> # tl (seed_programs (pf_companies cfg))"
    by (simp add: seed_programs_def upto_first)
  have sts: "seed_stations (pf_companies cfg) (pf_stations cfg) = seeded_station cfg 1 # tl (seed_stations (pf_companies cfg) (pf_stations cfg))"
    and devs: "seed_devices (pf_stations cfg) (pf_devices cfg) = seeded_device cfg 1 # tl (seed_devices (pf_stations cfg) (pf_devices cfg))"
    using n by (simp_all add: seed_stations_eq seed_devices_eq upto_first)
  have "\<exists>e es. seed_entitlements (seed_devices (pf_stations cfg) (pf_devices cfg)) (seed_stations (pf_companies cfg) (pf_stations cfg)) = e # es \<and>
      ent_device_id e = 1 \<and> ent_program_id e = 1 \<and> ent_enabled e"
    unfolding seed_entitlements_def
    by (subst devs, subst sts)
      (use homes in \<open>simp add: join_on_def serial_def seeded_device_def seeded_station_def upto_first\<close>)
  moreover have "\<exists>ms. seed_program_methods (seed_programs (pf_companies cfg)) =
      [\<lparr>ppm_id = 1, ppm_program_id = 1, ppm_payment_method = ''CARD'', ppm_enabled = True\<rparr>,
       \<lparr>ppm_id = 2, ppm_program_id = 1, ppm_payment_method = ''QR'', ppm_enabled = True\<rparr>,
       \<lparr>ppm_id = 3, ppm_program_id = 1, ppm_payment_method = ''RF_CARD'', ppm_enabled = True\<rparr>] @ ms"
    unfolding seed_program_methods_def by (subst progs) (simp add: serial_def upto_rec1)
  moreover have "List.find (\<lambda>p. prog_id p = 1 \<and> prog_company_id p = 1 \<and> prog_active p) (seed_programs (pf_companies cfg)) =
      Some \<lparr>prog_id = 1, prog_company_id = 1, prog_external_key = ''prg-'' @ lpad (int_dec 1) 6,
        prog_name = ''Program '' @ int_dec 1, prog_price_minor = 1000, prog_active = True\<rparr>"
    by (subst progs) simp
  ultimately show ?thesis by (auto simp: cast_program_def seed_db_def Let_def)
qed

lemma seed_cast_device:
  assumes "sized cfg"
  shows "cast_device dg (seeded_device cfg 1) (seed_db dg md5_hex cfg)"
proof -
  note n = seed_counts [OF assms] and homes = first_homes [OF assms] and tables = seed_static_tables [OF assms]
  let ?d = "seed_db dg md5_hex cfg" and ?devs = "map (seeded_device cfg) [1..pf_devices cfg]"
  have sorted: "sort_key dev_id ?devs = ?devs" by (rule sort_range) (simp add: seeded_device_def)
  have "device_credentials ?d = map (\<lambda>g. \<lparr>cred_id = g, cred_device_id = g,
      cred_hash = sha256_hex dg (encode (''credential-'' @ int_dec g)), cred_status = ACTIVE,
      cred_issued_at = FIXED_TS, cred_revoked_at = None\<rparr>) [1..pf_devices cfg]"
    unfolding tables seed_credentials_def sorted serial_map by (simp add: seeded_device_def del: encode_Cons)
  then have "\<exists>c \<in> set (device_credentials ?d). cred_device_id c = 1 \<and>
      cred_hash c = sha256_hex dg (encode ''credential-1'') \<and> cred_status c = ACTIVE"
    using n by (simp add: upto_first int_dec_1 del: encode_Cons)
  moreover have "List.find (\<lambda>v. dev_id v = 1) (devices ?d) = Some (seeded_device cfg 1)"
    using n by (simp add: tables upto_first seeded_device_def)
  ultimately have auth: "device_authentic dg ?d 1 ''credential-1'' (seeded_device cfg 1)"
    by (simp add: device_authentic_def seeded_device_def del: encode_Cons)
  have "\<exists>t. List.find (\<lambda>t. st_id t = 1) (stations ?d) = Some t \<and> st_company_id t = 1"
    using n homes by (simp add: tables upto_first seeded_station_def)
  moreover have "wash_bays ?d = seed_wash_bays ?devs"
    using assms by (simp add: seed_db_def Let_def seed_devices_eq)
  then have "\<exists>w. List.find (\<lambda>w. bay_device_id w = Some 1) (wash_bays ?d) = Some w \<and> bay_id w = 1"
    using n by (simp add: seed_wash_bays_def upto_first seeded_device_def)
  ultimately show ?thesis using auth homes by (simp add: cast_device_def) (simp add: seeded_device_def)
qed

lemma seed_cast_configuration:
  assumes "sized cfg"
  shows "cast_configuration (seed_db dg md5_hex cfg)"
proof -
  note n = seed_counts [OF assms] and homes = first_homes [OF assms]
  have "filter (published 1) (device_configurations (seed_db dg md5_hex cfg)) = [seeded_configuration md5_hex cfg 1]"
  proof -
    have "filter (published 1 \<circ> seeded_configuration md5_hex cfg) [1..pf_devices cfg] = filter (\<lambda>g. g = 1) [1..pf_devices cfg]"
      by (rule filter_cong) (auto simp: published_def seeded_configuration_def)
    then show ?thesis using n by (simp add: seed_static_tables [OF assms] filter_map filter_range)
  qed
  moreover have "lpad ''1'' 7 = ''0000001''" "lpad ''1'' 6 = ''000001''" by code_simp+
  ultimately show ?thesis
    using homes by (simp add: cast_configuration_def) (simp add: seeded_configuration_def int_dec_1)
qed

lemma seed_cast_panel:
  assumes "sized cfg"
  shows "cast_panel dg (seed_db dg md5_hex cfg)"
proof -
  note n = seed_counts [OF assms] and tables = seed_static_tables [OF assms]
  have "panel_users (seed_db dg md5_hex cfg) = map (\<lambda>g. \<lparr>pu_id = g, pu_company_id = g,
      pu_token_hash = sha256_hex dg (encode (''panel-company-'' @ int_dec g)), pu_active = True\<rparr>) [1..pf_companies cfg]"
    unfolding tables seed_panel_users_def serial_range ..
  then show ?thesis
    using n by (simp add: cast_panel_def upto_first int_dec_1 tables seed_companies_def del: encode_Cons)
qed

lemma seed_current_states_eq:
  assumes "sized cfg"
  shows "map cs_device_id (device_current_states (seed_db dg md5_hex cfg)) = [1..pf_devices cfg]"
    and "switched_on (seed_db dg md5_hex cfg)"
proof -
  let ?devs = "map (seeded_device cfg) [1..pf_devices cfg]"
  have sorted: "sort_key dev_id ?devs = ?devs" by (rule sort_range) (simp add: seeded_device_def)
  have states: "device_current_states (seed_db dg md5_hex cfg) = seed_current_states ?devs"
    and bays: "wash_bays (seed_db dg md5_hex cfg) = seed_wash_bays ?devs"
    by (simp_all add: seed_db_def Let_def seed_devices_eq)
  show "map cs_device_id (device_current_states (seed_db dg md5_hex cfg)) = [1..pf_devices cfg]"
    by (simp add: states seed_current_states_def sorted comp_def seeded_device_def)
  have "\<forall>e \<in> set (entitlements (seed_db dg md5_hex cfg)). ent_enabled e"
    "\<forall>m \<in> set (program_payment_methods (seed_db dg md5_hex cfg)). ppm_enabled m"
    by (auto simp: seed_db_def Let_def seed_entitlements_def seed_program_methods_def serial_def)
  then show "switched_on (seed_db dg md5_hex cfg)"
    by (auto simp: switched_on_def seed_static_tables [OF assms] seeded_device_def bays seed_wash_bays_def states
        seed_current_states_def)
qed

lemma seed_cast:
  assumes "sized cfg"
  shows "cast dg (seeded_device cfg 1) (seeded_card dg cfg 1) (seed_db dg md5_hex cfg)"
proof -
  have "covered (seed_db dg md5_hex cfg)"
    unfolding covered_def has_key_def set_map [symmetric] seed_current_states_eq(1) [OF assms]
    by (auto simp: seed_static_tables [OF assms] seeded_device_def)
  then show ?thesis
    using seed_cast_device seed_cast_configuration seed_cast_program seed_cast_panel seed_cast_code seed_cast_wallet
      seed_cast_command seed_current_states_eq assms
    by (simp add: cast_def)
qed

text \<open>And they are in order.\<close>

lemma seed_sound: "sized cfg \<Longrightarrow> sound (seed_db dg md5_hex cfg) (seed_seqs cfg)"
  unfolding sound_def using seed_healthy by (intro exI [of _ "seed_expectation cfg"]) (simp add: seed_expectation_def)

lemma seed_steady:
  assumes "sized cfg"
  shows "steady (seed_db dg md5_hex cfg) (seed_db dg md5_hex cfg)"
proof -
  have "backed (seed_db dg md5_hex cfg)"
    using assms seeded_not_corr
    by (fastforce simp: backed_def seed_tables [OF assms] seeded_execution_def seeded_payment_def sized_def)
  moreover have "covered (seed_db dg md5_hex cfg)" using seed_cast [OF assms] by (simp add: cast_def)
  ultimately show ?thesis by (simp add: steady_def seed_empty_tables)
qed

end
