(* ===== verification/Driver_Cases.thy ===== *)
theory Driver_Cases
  imports Driver_Stage
begin

text \<open>
  The cases of the correctness driver, one lemma each: from a database in order with the cast
  on stage, every assertion of the case holds, and the stage is kept for the next case.
\<close>

section \<open>The stage\<close>

definition on_stage :: "digests \<Rightarrow> device \<Rightarrow> rf_card \<Rightarrow> db \<Rightarrow> session \<Rightarrow> bool" where
  "on_stage dg v k d0 s \<longleftrightarrow> working s = committed s \<and> sound (committed s) (seqs s) \<and> steady d0 (committed s) \<and>
     cast dg v k d0"

lemma on_stageD:
  assumes "on_stage dg v k d0 s"
  shows "working s = committed s" "sound (committed s) (seqs s)" "steady d0 (committed s)" "cast dg v k d0"
    "cast dg v k (committed s)" "switched_on d0" "maintenance_windows (committed s) = []"
    "\<exists>expected. must_be_complete expected = corr_payment \<and> scene expected d0 (committed s) (seqs s)"
  using assms cast_steady [of dg v k d0 "committed s"]
  by (auto simp: on_stage_def cast_def steady_def sound_def scene_def)

lemma sceneD:
  "must_be_complete expected = corr_payment \<Longrightarrow> scene expected d0 d sq \<Longrightarrow> sound d sq \<and> steady d0 d"
  by (auto simp: scene_def sound_def)

lemma serve_closes: "serve dg uuid now now' answered h req s = (r, t) \<Longrightarrow> working s = committed s \<Longrightarrow> working t = committed t"
  by (auto simp: serve_def with_session_def rollback_def split: if_splits prod.splits sum.splits)

lemma on_stage_send:
  assumes "on_stage dg v k d0 s" "send dg h req c s = (r, t)"
  shows "on_stage dg v k d0 t"
proof -
  obtain expected where e: "must_be_complete expected = corr_payment" "scene expected d0 (committed s) (seqs s)"
    using on_stageD(8) [OF assms(1)] by blast
  have "scene expected d0 (committed t) (seqs t)"
    by (rule scene.serve_invariant [OF e(2)]) (use assms(2) in \<open>simp add: send_def\<close>)
  with sceneD [OF e(1)] show ?thesis
    using on_stageD [OF assms(1)] serve_closes assms(2) unfolding on_stage_def send_def by blast
qed

lemma on_stage_send_all:
  "on_stage dg v k d0 s \<Longrightarrow> send_all dg h qs s = (rs, t) \<Longrightarrow> on_stage dg v k d0 t"
proof (induction qs arbitrary: s rs)
  case (Cons q qs)
  then show ?case by (cases q) (auto split: prod.splits dest: on_stage_send)
qed simp

lemma on_stage_psql:
  "on_stage dg v k d0 s \<Longrightarrow> sound (f (committed s)) (seqs s) \<and> steady d0 (f (committed s)) \<Longrightarrow> on_stage dg v k d0 (psql f s)"
  by (simp add: on_stage_def psql_def)

lemma psql_parts [simp]:
  "committed (psql f s) = f (committed s)" "working (psql f s) = f (committed s)" "seqs (psql f s) = seqs s"
  by (simp_all add: psql_def)

lemma on_stage_prepare: "on_stage dg v k d0 s \<Longrightarrow> on_stage dg v k d0 (psql (prepare_device now) s)"
  by (rule on_stage_psql, assumption, rule prepare_device_ok) (simp_all add: on_stageD)

lemma on_stage_delete:
  "on_stage dg v k d0 s \<Longrightarrow> (\<And>p. P p \<Longrightarrow> corr_payment p) \<Longrightarrow> on_stage dg v k d0 (psql (delete_payments P) s)"
  by (rule on_stage_psql, assumption, rule delete_payments_ok) (simp_all add: on_stageD)

lemma psql_comp: "psql (f \<circ> g) s = psql f (psql g s)"
  by (simp add: psql_def)

section \<open>Contact\<close>

definition in_contact :: "timestamp \<Rightarrow> db \<Rightarrow> bool" where
  "in_contact at d \<longleftrightarrow>
     (\<exists>c. List.find (\<lambda>c. cs_device_id c = 1) (device_current_states d) = Some c \<and> cs_last_seen_at c = Some at) \<and>
     List.find (occupies_bay 1) (program_executions d) = None"

lemma in_contact_frame:
  "in_contact at d \<Longrightarrow> device_current_states d' = device_current_states d \<Longrightarrow> program_executions d' = program_executions d \<Longrightarrow>
   in_contact at d'"
  by (simp add: in_contact_def)

lemma state_of_device:
  assumes "cast dg v k d"
  shows "\<exists>c. List.find (\<lambda>c. cs_device_id c = 1) (device_current_states d) = Some c"
proof -
  have "v \<in> set (devices d)" "dev_id v = 1" "covered d"
    using assms by (auto simp: cast_def cast_device_def device_authentic_def dest: find_SomeD)
  then have "has_key cs_device_id (device_current_states d) 1" unfolding covered_def by metis
  then show ?thesis
    by (cases "List.find (\<lambda>c. cs_device_id c = 1) (device_current_states d)") (auto simp: find_None_has_key)
qed

lemma prepare_contact:
  assumes "on_stage dg v k d0 s"
  shows "in_contact at (committed (psql (prepare_device at) s))"
proof -
  note st = on_stageD [OF assms]
  obtain c where c: "List.find (\<lambda>c. cs_device_id c = 1) (device_current_states (committed s)) = Some c"
    using state_of_device [OF st(5)] by blast
  have "List.find (\<lambda>c. cs_device_id c = 1) (update_where (\<lambda>c. cs_device_id c = 1) (contact at) (device_current_states (committed s))) =
      Some (contact at c)"
    using c find_SomeD_prop [OF c] by (subst find_update_where) (simp_all add: contact_def)
  moreover have "\<not> occupies_bay 1 (free_bay at e)" for e by (simp add: occupies_bay_def free_bay_def)
  then have "\<not> occupies_bay 1 e" if "e \<in> set (update_where (occupies_bay 1) (free_bay at) (program_executions (committed s)))" for e
    using that by (auto elim!: update_whereE split: if_splits)
  ultimately show ?thesis
    by (simp add: in_contact_def prepare_device_eq [OF st(3,6)] find_None_set) (simp add: contact_def)
qed

lemma guards_in_contact:
  assumes "cast dg v k d" "in_contact at d" "maintenance_windows d = []" "now \<le> at + seconds 120"
    and "configuration_version body = 1"
  shows "guards_pass now v body d 1 1"
proof -
  obtain t w where dev: "dev_id v = 1" "dev_station_id v = 1" "dev_status v = ACTIVE"
    "List.find (\<lambda>t. st_id t = 1) (stations d) = Some t" "st_company_id t = 1"
    "List.find (\<lambda>w. bay_device_id w = Some 1) (wash_bays d) = Some w" "bay_id w = 1"
    using assms(1) unfolding cast_def cast_device_def by blast
  obtain c where c: "List.find (\<lambda>c. cs_device_id c = 1) (device_current_states d) = Some c" "cs_last_seen_at c = Some at"
    and free: "List.find (occupies_bay 1) (program_executions d) = None"
    using assms(2) unfolding in_contact_def by blast
  have "cs_acknowledged_configuration_version c = Some 1"
    using assms(1) find_SomeD [OF c(1)] by (simp add: cast_def switched_on_def)
  moreover obtain g where g: "filter (published 1) (device_configurations d) = [g]" "cfg_version g = 1"
    using assms(1) unfolding cast_def cast_configuration_def by blast
  have "List.find (published 1) xs = Some g" if "filter (published 1) xs = [g]" for xs
    using that by (induction xs) (auto split: if_splits)
  then have "List.find (\<lambda>c. cfg_device_id c = 1 \<and> cfg_status c = PUBLISHED) (device_configurations d) = Some g"
    using g(1) by (simp add: published_def [abs_def])
  ultimately show ?thesis
    using dev c free g(2) assms(3-5) by (simp add: guards_pass_def device_online_def configuration_acknowledged_def)
qed

lemma resolves:
  assumes "cast dg v k d"
    and "body = qr_body \<or> payment_method body \<in> {''CARD'', ''RF_CARD''} \<and> station_program_id body = Some 1 \<and>
      displayed_price_minor body = Some 1000"
  shows "program_resolved dg v 1 body d 1 1000"
proof -
  have v: "dev_id v = 1" "dev_station_id v = 1" using assms(1) by (simp_all add: cast_def cast_device_def)
  have m: "payment_method body \<in> {''CARD'', ''QR'', ''RF_CARD''}" using assms(2) by (auto simp: qr_body_def)
  have prog: "\<exists>p. List.find (\<lambda>p. prog_id p = 1 \<and> prog_company_id p = 1 \<and> prog_active p) (programs d) = Some p \<and>
      prog_price_minor p = 1000"
    "List.find (\<lambda>e. ent_device_id e = 1 \<and> ent_program_id e = 1 \<and> ent_enabled e) (entitlements d) \<noteq> None"
    "List.find (\<lambda>x. ppm_program_id x = 1 \<and> ppm_payment_method x = payment_method body \<and> ppm_enabled x)
      (program_payment_methods d) \<noteq> None"
    using assms(1) m unfolding cast_def cast_program_def by blast+
  have "if payment_method body = ''QR''
      then \<exists>q. find_qr (qr_hash dg body) d = Some q \<and> qr_company_id q = 1 \<and> qr_station_id q = 1 \<and> qr_program_id q = 1
      else station_program_id body = Some 1"
  proof (cases "body = qr_body")
    case True
    then show ?thesis using assms(1) by (auto simp: cast_def cast_code_def) (simp_all add: qr_body_def)
  next
    case False
    then show ?thesis using assms(2) by auto
  qed
  moreover have "payment_method body \<in> {''CARD'', ''RF_CARD''} \<longrightarrow> or_zero (displayed_price_minor body) = 1000"
    using assms(2) by (auto simp: qr_body_def or_zero_def)
  ultimately show ?thesis unfolding program_resolved_def v using prog by auto
qed

lemma token_of_device: "device_token (authorization device_headers) = ''credential-1'' \<and> x_device_id device_headers = 1"
  by code_simp

lemma authentic_on_stage:
  "cast dg v k d \<Longrightarrow> device_authentic dg d (x_device_id device_headers) (device_token (authorization device_headers)) v"
  unfolding conjunct1 [OF token_of_device] conjunct2 [OF token_of_device] by (simp add: cast_def cast_device_def)

section \<open>Races\<close>

lemma send_all_compete:
  assumes "send_all dg h (map (\<lambda>i. (Payment body (key i), rd i)) order) s = (rs, t)"
  shows "act_all (compete dg h body) (map (\<lambda>i. (key i, rd i)) order) s = (map status_code rs, t)"
  using assms
proof (induction order arbitrary: s rs)
  case (Cons i order)
  obtain r u where r: "send dg h (Payment body (key i)) (rd i) s = (r, u)" by fastforce
  obtain rs' where rs: "send_all dg h (map (\<lambda>i. (Payment body (key i), rd i)) order) u = (rs', t)" "rs = r # rs'"
    using Cons.prems r by (auto split: prod.splits)
  show ?case using Cons.IH [OF rs(1)] r by (simp add: compete_def rs(2))
qed simp

text \<open>When a race is scheduled: who arrives, and at what times.\<close>

definition race_schedule :: "timestamp \<Rightarrow> nat \<Rightarrow> nat list \<Rightarrow> (nat \<Rightarrow> reading) \<Rightarrow> bool" where
  "race_schedule at n order rd \<longleftrightarrow> 0 < n \<and> n < 10 ^ 9 \<and> distinct order \<and> set order = {0..<n} \<and>
     (\<forall>i. FIXED_TS \<le> rd_now (rd i) \<and> rd_now (rd i) < FAR_TS \<and> rd_now (rd i) \<le> at + seconds 120)"

lemma race_schedule_order:
  assumes "race_schedule at n order rd"
  shows "distinct order \<and> set order = {0..<n} \<and> length order = n"
  using assms distinct_card [of order] by (simp add: race_schedule_def)

lemma race_key_valid:
  assumes "length kind = 2" "n < 10 ^ 9" "i < n"
  shows "valid_key (race_key kind n i)" "startswith (race_prefix kind n) (race_key kind n i)"
proof -
  have "length (nat_dec m) \<le> 9" if "m < 10 ^ 9" for m using length_nat_dec [of 9 m] that by simp
  from this [of n] this [of i] assms show "valid_key (race_key kind n i)"
    by (simp add: valid_key_def race_key_def race_prefix_def length_zpad)
  show "startswith (race_prefix kind n) (race_key kind n i)" by (simp add: race_key_def)
qed

lemma race_key_inject: "race_key kind n i = race_key kind n j \<longleftrightarrow> i = j"
  by (simp add: race_key_def)

lemma prefix_corr: "like_prefix (''corr-'' @ p) q \<Longrightarrow> corr_payment q"
  by (auto simp: like_prefix_def corr_payment_def startswith_iff)

lemma no_prefix_after_delete: "filter (like_prefix pre) (payment_transactions (delete_payments (like_prefix pre) d)) = []"
  by (simp add: delete_payments_def Let_def)

lemma deleted_key_unused:
  assumes "\<And>p. p \<in> set (payment_transactions d) \<Longrightarrow> \<not> like_prefix pre p" "startswith pre key"
  shows "find_by_key i key d = None"
  using assms by (auto simp: find_by_key_def find_None_set like_prefix_def)

text \<open>Before a race: the device is in contact and no payment has a key of the race.\<close>

definition race_start :: "timestamp \<Rightarrow> string \<Rightarrow> db \<Rightarrow> bool" where
  "race_start at pre d \<longleftrightarrow> in_contact at d \<and> (\<forall>p \<in> set (payment_transactions d). \<not> like_prefix pre p)"

lemma race_start_ready:
  assumes stage: "on_stage dg v k d0 s" and start: "race_start at (race_prefix kind n) (committed s)"
    and sched: "race_schedule at n order rd" and kind: "length kind = 2"
    and body: "body = qr_body \<or> body = rf_body"
  shows "race_ready dg device_headers v body 1 1 1 1000 (race_prefix kind n) s (map (\<lambda>i. (race_key kind n i, rd i)) order)"
proof -
  note st = on_stageD [OF stage]
  have valid: "valid_payment body" "configuration_version body = 1"
    using body by (auto simp: valid_payment_def at_least_def qr_body_def rf_body_def)
  have "startswith (race_prefix kind n) (race_key kind n i) \<and> valid_request (Payment body (race_key kind n i)) \<and>
      find_by_key (dev_id v) (race_key kind n i) (committed s) = None \<and> guards_pass (rd_now (rd i)) v body (committed s) 1 1"
    if "i \<in> set order" for i
  proof -
    have i: "i < n" "n < 10 ^ 9" using that race_schedule_order [OF sched] sched by (auto simp: race_schedule_def)
    have "find_by_key (dev_id v) (race_key kind n i) (committed s) = None"
      by (rule deleted_key_unused [of _ "race_prefix kind n"]) (use start race_key_valid(2) [OF kind i(2,1)] in \<open>auto simp: race_start_def\<close>)
    moreover have "guards_pass (rd_now (rd i)) v body (committed s) 1 1"
      by (rule guards_in_contact [OF st(5) _ st(7), of at])
        (use start sched valid in \<open>simp_all add: race_start_def race_schedule_def\<close>)
    ultimately show ?thesis using race_key_valid [OF kind i(2,1)] valid by simp
  qed
  moreover have "program_resolved dg v 1 body (committed s) 1 1000"
    by (rule resolves [OF st(5)]) (use body in \<open>auto simp: rf_body_def\<close>)
  moreover have "distinct (map fst (map (\<lambda>i. (race_key kind n i, rd i)) order))"
    using race_schedule_order [OF sched] by (auto simp: comp_def distinct_map inj_on_def race_key_inject)
  ultimately show ?thesis
    using authentic_on_stage [OF st(5)] st(2) by (auto simp: race_ready_def sound_def)
qed

lemma race_start_psql:
  assumes "on_stage dg v k d0 s"
  shows "race_start at (''corr-'' @ p)
    (committed (psql (delete_payments (like_prefix (''corr-'' @ p))) (psql (prepare_device at) s)))"
proof -
  let ?s = "psql (prepare_device at) s" and ?P = "like_prefix (''corr-'' @ p)"
  have stage: "on_stage dg v k d0 ?s" by (rule on_stage_prepare [OF assms])
  have "backed (committed ?s)" "distinct (map pay_id (payment_transactions (committed ?s)))"
    using on_stageD(2,3) [OF stage] by (simp_all add: steady_def sound_iff booked_def)
  note eq = delete_payments_eq [OF this, of ?P, OF prefix_corr]
  have "in_contact at (committed (psql (delete_payments ?P) ?s))"
    by (rule in_contact_frame [OF prepare_contact [OF assms, of at]])
      (use eq in \<open>simp_all del: append_Cons append_Nil\<close>)
  then show ?thesis using no_prefix_after_delete [of "''corr-'' @ p"] by (auto simp: race_start_def filter_empty_conv)
qed

lemma race_payments_none:
  "\<forall>p \<in> set (payment_transactions (committed s)). \<not> like_prefix pre p \<Longrightarrow> race_payments pre s = 0"
  by (simp add: race_payments_def filter_empty_conv)

lemma race_debits_none:
  "\<forall>p \<in> set (payment_transactions d). \<not> like_prefix pre p \<Longrightarrow> race_debits pre d = []"
  by (simp add: race_debits_def)

lemma race_start_frame:
  "race_start at pre d \<Longrightarrow> device_current_states d' = device_current_states d \<Longrightarrow>
   program_executions d' = program_executions d \<Longrightarrow> payment_transactions d' = payment_transactions d \<Longrightarrow> race_start at pre d'"
  by (simp add: race_start_def in_contact_def)

lemma phase_start:
  fixes at :: timestamp and kind :: string and n :: nat
  assumes "on_stage dg v k d0 s" "f = reset_qr \<or> f = reset_wallet at'"
  defines "u \<equiv> psql (f \<circ> delete_payments (like_prefix (race_prefix kind n))) (psql (prepare_device at) s)"
  shows "on_stage dg v k d0 u \<and> race_start at (race_prefix kind n) (committed u)"
proof -
  let ?t = "psql (delete_payments (like_prefix (race_prefix kind n))) (psql (prepare_device at) s)"
  have pre: "race_prefix kind n = ''corr-'' @ (kind @ ''-'' @ nat_dec n @ ''-'')" by (simp add: race_prefix_def)
  have t: "on_stage dg v k d0 ?t"
    unfolding pre by (rule on_stage_delete [OF on_stage_prepare [OF assms(1)] prefix_corr])
  have "sound (f (committed ?t)) (seqs ?t) \<and> steady d0 (f (committed ?t))"
    using assms(2) reset_qr_ok [OF on_stageD(2,3) [OF t]] reset_wallet_ok [OF on_stageD(2,3) [OF t]] by blast
  from on_stage_psql [where f = f, OF t this] have "on_stage dg v k d0 u" by (simp add: u_def psql_comp)
  moreover have "race_start at (race_prefix kind n) (committed u)"
    by (rule race_start_frame [OF race_start_psql [OF assms(1), of at "kind @ ''-'' @ nat_dec n @ ''-''", folded pre]])
      (use assms(2) in \<open>auto simp: u_def reset_qr_def reset_wallet_def\<close>)
  ultimately show ?thesis ..
qed

lemma reset_qr_first:
  assumes "cast_code dg d"
  shows "\<exists>q. find_qr (qr_hash dg qr_body) (reset_qr d) = Some q \<and> qr_id q = 1 \<and> qr_usage_limit q = 1 \<and> qr_usage_count q = 0 \<and>
    qr_status q = ACTIVE \<and> qr_starts_at q = FIXED_TS \<and> qr_expires_at q = FAR_TS"
proof -
  obtain q where q: "find_qr (qr_hash dg qr_body) d = Some q" "qr_id q = 1" "qr_usage_limit q = 1"
    "qr_starts_at q = FIXED_TS" "qr_expires_at q = FAR_TS" using assms unfolding cast_code_def by blast
  have "List.find (\<lambda>q. qr_token_hash q = qr_hash dg qr_body)
      (update_where (\<lambda>q. qr_id q = 1) (\<lambda>q. q\<lparr>qr_usage_count := 0, qr_status := ACTIVE\<rparr>) (qr_codes d)) =
    map_option (\<lambda>q. if qr_id q = 1 then q\<lparr>qr_usage_count := 0, qr_status := ACTIVE\<rparr> else q)
      (List.find (\<lambda>q. qr_token_hash q = qr_hash dg qr_body) (qr_codes d))"
    by (rule find_update_where) simp
  also have "\<dots> = Some (q\<lparr>qr_usage_count := 0, qr_status := ACTIVE\<rparr>)" using q(1,2) by (simp add: find_qr_def)
  finally have "find_qr (qr_hash dg qr_body) (reset_qr d) = Some (q\<lparr>qr_usage_count := 0, qr_status := ACTIVE\<rparr>)"
    by (simp add: find_qr_def reset_qr_def)
  with q show ?thesis by simp
qed

lemma qr_phase_passes:
  assumes stage: "on_stage dg v k d0 s"
    and sched: "race_schedule (sch_at sch name) n (sch_order sch name) (sch_reading sch name)"
    and name: "name = ''qr_'' @ nat_dec n"
  shows "\<exists>t. qr_phase dg sch n s = Some t \<and> on_stage dg v k d0 t"
proof -
  let ?at = "sch_at sch name" and ?pre = "race_prefix ''qr'' n"
  let ?xs = "map (\<lambda>i. (race_key ''qr'' n i, sch_reading sch name i)) (sch_order sch name)"
  define u where "u = psql (reset_qr \<circ> delete_payments (like_prefix ?pre)) (psql (prepare_device ?at) s)"
  have u: "on_stage dg v k d0 u" "race_start ?at ?pre (committed u)"
    unfolding u_def using phase_start [OF stage, of reset_qr] by auto
  note st = on_stageD [OF u(1)]
  obtain rs t where run: "send_all dg device_headers (race_requests ''qr'' qr_body n (sch_order sch name) (sch_reading sch name)) u = (rs, t)"
    by fastforce
  have t: "on_stage dg v k d0 t" by (rule on_stage_send_all [OF u(1) run])
  have cu: "committed u = reset_qr (delete_payments (like_prefix ?pre) (prepare_device ?at (committed s)))" by (simp add: u_def)
  have "cast_code dg (delete_payments (like_prefix ?pre) (prepare_device ?at (committed s)))"
    by (rule cast_code_steady [of dg "committed u"])
      (use st(5) in \<open>simp_all add: cast_def cu reset_qr_def map_update_where qr_fixed_def\<close>)
  from reset_qr_first [OF this]
  obtain q where q: "find_qr (qr_hash dg qr_body) (committed u) = Some q" "qr_id q = 1" "qr_usage_limit q = 1"
    "qr_usage_count q = 0" "qr_status q = ACTIVE" "qr_starts_at q = FIXED_TS" "qr_expires_at q = FAR_TS"
    unfolding cu by blast
  have meth: "payment_method qr_body = ''QR''" by (simp add: qr_body_def)
  have "race_ready dg device_headers v qr_body 1 1 1 1000 ?pre u ?xs"
    by (rule race_start_ready [OF u sched]) simp_all
  then have ready: "qr_ready dg device_headers v qr_body 1 1 1 1000 ?pre u ?xs"
    using q meth sched by (auto simp: qr_ready_def qr_window_def race_schedule_def)
  have left: "qr_left dg qr_body u = 1" by (simp add: qr_left_def q)
  have act: "act_all (compete dg device_headers qr_body) ?xs u = (map status_code rs, t)"
    by (rule send_all_compete) (use run in \<open>simp add: race_requests_def\<close>)
  have n: "0 < n" "length ?xs = n" using race_schedule_order [OF sched] sched by (simp_all add: race_schedule_def)
  then have "qr_race.share dg qr_body u ?xs = 1" by (simp add: qr_race.share_def left)
  with qr_race.all_served [OF ready _ act] left n
  have won: "count_list (map status_code rs) 200 = 1" "count_list (map status_code rs) 409 = n - 1"
    "qr_left dg qr_body t = 0" "race_payments ?pre t = race_payments ?pre u + 1"
    by simp_all
  obtain q' where q': "find_qr (qr_hash dg qr_body) (committed t) = Some q'" "qr_id q' = 1" "qr_usage_limit q' = 1"
    using on_stageD(5) [OF t] unfolding cast_def cast_code_def by blast
  then have "qr_usage_count q' = 1" using won(3) by (simp add: qr_left_def)
  moreover have "filter (\<lambda>q. qr_id q = 1) (qr_codes (committed t)) = [q']"
  proof -
    have "distinct (map qr_id (qr_codes (committed t)))" using on_stageD(2) [OF t] by (simp add: sound_iff booked_def)
    moreover have "q' \<in> set (qr_codes (committed t))" using q'(1) by (auto simp: find_qr_def dest: find_SomeD)
    ultimately show ?thesis using filter_unique_key [of qr_id _ q'] q'(2) by simp
  qed
  moreover have "race_payments ?pre u = 0"
    by (rule race_payments_none) (use u(2) in \<open>simp add: race_start_def\<close>)
  ultimately have "qr_phase dg sch n s = Some t"
    using won run unfolding qr_phase_def Let_def name [symmetric] u_def [symmetric]
    by (simp add: qr_case_def Let_def one_winner_def require_def race_payments_def)
  with t show ?thesis by blast
qed

lemma reset_wallet_first:
  assumes "find_wallet i d = Some w" "wal_id w = 1"
  shows "find_wallet i (reset_wallet at d) = Some (w\<lparr>wal_balance_minor := 1000, wal_version := 0, wal_updated_at := at\<rparr>)"
proof -
  have "List.find (\<lambda>w. wal_rf_card_id w = i) (update_where (\<lambda>w. wal_id w = 1)
      (\<lambda>w. w\<lparr>wal_balance_minor := 1000, wal_version := 0, wal_updated_at := at\<rparr>) (rf_wallets d)) =
    map_option (\<lambda>w. if wal_id w = 1 then w\<lparr>wal_balance_minor := 1000, wal_version := 0, wal_updated_at := at\<rparr> else w)
      (List.find (\<lambda>w. wal_rf_card_id w = i) (rf_wallets d))"
    by (rule find_update_where) simp
  then show ?thesis using assms by (simp add: find_wallet_def reset_wallet_def)
qed

lemma first_uid_read: "normalize_uid (or_empty (rf_uid rf_body)) = Inr first_uid"
  by code_simp

lemma rf_phase_passes:
  assumes stage: "on_stage dg v k d0 s"
    and sched: "race_schedule (sch_at sch name) n (sch_order sch name) (sch_reading sch name)"
    and name: "name = ''rf_'' @ nat_dec n"
  shows "\<exists>t. rf_phase dg sch n s = Some t \<and> on_stage dg v k d0 t"
proof -
  let ?at = "sch_at sch name" and ?pre = "race_prefix ''rf'' n"
  let ?xs = "map (\<lambda>i. (race_key ''rf'' n i, sch_reading sch name i)) (sch_order sch name)"
  define u where "u = psql (reset_wallet ?at \<circ> delete_payments (like_prefix ?pre)) (psql (prepare_device ?at) s)"
  have u: "on_stage dg v k d0 u" "race_start ?at ?pre (committed u)"
    unfolding u_def using phase_start [OF stage, of "reset_wallet ?at"] by auto
  note st = on_stageD [OF u(1)]
  obtain rs t where run: "send_all dg device_headers (race_requests ''rf'' rf_body n (sch_order sch name) (sch_reading sch name)) u = (rs, t)"
    by fastforce
  have t: "on_stage dg v k d0 t" by (rule on_stage_send_all [OF u(1) run])
  let ?d = "delete_payments (like_prefix ?pre) (prepare_device ?at (committed s))"
  have cu: "committed u = reset_wallet ?at ?d" by (simp add: u_def)
  obtain w where w: "find_wallet 1 (committed u) = Some w" "wal_id w = 1" "wal_balance_minor w = 1000"
  proof -
    obtain w where "find_wallet 1 (committed s) = Some w" "wal_id w = 1"
      using on_stageD(5) [OF stage] unfolding cast_def cast_wallet_def by blast
    then have "find_wallet 1 ?d = Some w" "wal_id w = 1"
      by (simp_all add: find_wallet_def delete_payments_def prepare_device_def Let_def)
    from that [unfolded cu, OF reset_wallet_first [OF this]] this(2) show thesis by simp
  qed
  have k: "card_id k = 1" "card_status k = ACTIVE" "card_company_id k = 1" "card_expires_at k = Some FAR_TS"
    "List.find (\<lambda>c. card_uid_hash c = secret_hash dg first_uid QR_PEPPER) (rf_cards (committed u)) = Some k"
    using st(5) by (simp_all add: cast_def cast_wallet_def)
  have "race_ready dg device_headers v rf_body 1 1 1 1000 ?pre u ?xs"
    by (rule race_start_ready [OF u sched]) simp_all
  then have ready: "rf_ready dg device_headers v rf_body 1 1 1 1000 ?pre first_uid k u ?xs"
    using w k first_uid_read sched by (auto simp: rf_ready_def card_usable_def race_schedule_def rf_body_def)
  have left: "rf_left k u = 1000" by (simp add: rf_left_def w k)
  have act: "act_all (compete dg device_headers rf_body) ?xs u = (map status_code rs, t)"
    by (rule send_all_compete) (use run in \<open>simp add: race_requests_def\<close>)
  have n: "0 < n" "length ?xs = n" using race_schedule_order [OF sched] sched by (simp_all add: race_schedule_def)
  then have "rf_race.share k 1000 u ?xs = 1" by (simp add: rf_race.share_def left)
  with rf_race.all_served [OF ready _ act] left n
  have won: "count_list (map status_code rs) 200 = 1" "count_list (map status_code rs) 409 = n - 1" "rf_left k t = 0"
    "length (race_debits ?pre (committed t)) = length (race_debits ?pre (committed u)) + 1"
    by simp_all
  obtain w' where w': "find_wallet 1 (committed t) = Some w'" "wal_id w' = 1"
    using on_stageD(5) [OF t] unfolding cast_def cast_wallet_def by blast
  then have "wal_balance_minor w' = 0" using won(3) by (simp add: rf_left_def k)
  moreover have "filter (\<lambda>w. wal_id w = 1) (rf_wallets (committed t)) = [w']"
  proof -
    have "distinct (map wal_id (rf_wallets (committed t)))" using on_stageD(2) [OF t] by (simp add: sound_iff booked_def)
    moreover have "w' \<in> set (rf_wallets (committed t))" using w'(1) by (auto simp: find_wallet_def dest: find_SomeD)
    ultimately show ?thesis using filter_unique_key [of wal_id _ w'] w'(2) by simp
  qed
  moreover have "race_debits ?pre (committed u) = []"
    by (rule race_debits_none) (use u(2) in \<open>simp add: race_start_def\<close>)
  ultimately have "rf_phase dg sch n s = Some t"
    using won run unfolding rf_phase_def Let_def name [symmetric] u_def [symmetric]
    by (simp add: rf_case_def Let_def one_winner_def require_def)
  with t show ?thesis by blast
qed

end
