(* ===== verification/Driver_Steps.thy ===== *)
theory Driver_Steps
  imports Driver_Cases Command_Properties Worker_Properties
begin

text \<open>
  The cases of the correctness driver that do not race: heartbeat, configuration, cards, the
  repeated key, the command, the dashboard and the worker.  Each lemma says that the case
  passes on a database in order with the cast on stage, and that the stage is kept.
\<close>

section \<open>A request of the device\<close>

lemma serve_device:
  assumes "device_authentic dg (committed s) (x_device_id h) (device_token (authorization h)) v"
    and "valid_request req" "handle dg now now' h req = with_device dg h k" "working s = committed s"
    and "wp (k v) Q E s" "serve dg uuid now now' answered h req s = (r, t)"
  shows "(\<exists>code d u. r = SuccessResponse code d (make_meta uuid answered) \<and> t = u\<lparr>working := committed u\<rparr> \<and> Q (code, d) u) \<or>
    (\<exists>e u. r = error_response uuid answered e \<and> t = u\<lparr>working := committed u\<rparr> \<and> E e u)"
proof -
  have same: "s\<lparr>working := committed s\<rparr> = s" using assms(4) by (metis session.surjective session.update_convs(2))
  have "wp (handle dg now now' h req) Q E s"
    unfolding assms(3) by (rule with_device_total) (use assms in simp_all)
  then show ?thesis
    using assms(2,6) unfolding serve_def with_session_def rollback_def same
    by (auto simp: wp_def split: prod.splits sum.splits)
qed

lemma send_device:
  assumes stage: "on_stage dg v k d0 s" and req: "valid_request req"
    and "\<And>now now'. handle dg now now' device_headers req = with_device dg device_headers (act now)"
    and "wp (act (rd_now c) v) Q (\<lambda>_ _. False) s" and "send dg device_headers req c s = (r, t)"
  shows "\<exists>code x u. r = SuccessResponse code x (make_meta (rd_uuid c) (rd_answered c)) \<and>
    t = u\<lparr>working := committed u\<rparr> \<and> Q (code, x) u"
  using serve_device [OF authentic_on_stage [OF on_stageD(5) [OF stage]] req assms(3) on_stageD(1) [OF stage] assms(4)]
    assms(5) unfolding send_def by blast

section \<open>Heartbeat\<close>

lemma heartbeat_passes:
  assumes stage: "on_stage dg v k d0 s"
  shows "\<exists>t. heartbeat_case dg c s = Some t \<and> on_stage dg v k d0 t"
proof -
  note st = on_stageD [OF stage]
  have v: "dev_id v = 1" "v \<in> set (devices (committed s))"
    using st(5) by (auto simp: cast_def cast_device_def device_authentic_def dest: find_SomeD)
  then have key: "has_key dev_id (devices (working s)) 1" using st(1) by (auto simp: has_key_def)
  have fresh: "\<not> has_key hb_id (device_heartbeats (working s)) (seqs s HeartbeatSeq)"
    using st(1,2) by (auto simp: sound_iff integrity_def ids_fresh_def dest: below_fresh)
  let ?row = "\<lambda>now. heartbeat_row (seqs s HeartbeatSeq) now 1 (hr_sequence heartbeat_body) (hr_state heartbeat_body)"
  let ?states = "\<lambda>now. upsert_state now 1 (Some ''correctness'') (state_payload (hr_state heartbeat_body))
    (device_current_states (committed s))"
  let ?Q = "\<lambda>(r :: int \<times> api_data) u. fst r = 200 \<and> device_heartbeats (committed u) = device_heartbeats (committed s) @ [?row (rd_now c)] \<and>
    device_current_states (committed u) = ?states (rd_now c)"
  obtain r t where run: "send dg device_headers (Heartbeat heartbeat_body) c s = (r, t)" by fastforce
  have t: "on_stage dg v k d0 t" by (rule on_stage_send [OF stage run])
  have "hr_app_version heartbeat_body = Some ''correctness''" by (simp add: heartbeat_body_def)
  then have "wp (then_op (record_heartbeat (rd_now c) (dev_id v) (hr_sequence heartbeat_body) (hr_app_version heartbeat_body)
      (hr_state heartbeat_body)) (ret (200, HeartbeatData True DEVICE_HEARTBEAT_SECONDS))) ?Q (\<lambda>_ _. False) s"
    using st(1) by (simp add: wp_rules record_heartbeat_wp [OF key fresh] v Let_def)
  moreover have "valid_request (Heartbeat heartbeat_body)" by (simp add: heartbeat_body_def max_length_def)
  ultimately have "\<exists>code x u. r = SuccessResponse code x (make_meta (rd_uuid c) (rd_answered c)) \<and>
      t = u\<lparr>working := committed u\<rparr> \<and> ?Q (code, x) u"
    by (intro send_device [OF stage _ _ _ run, where act = "\<lambda>now v. then_op (record_heartbeat now (dev_id v)
      (hr_sequence heartbeat_body) (hr_app_version heartbeat_body) (hr_state heartbeat_body))
      (ret (200, HeartbeatData True DEVICE_HEARTBEAT_SECONDS))"]) (simp_all add: heartbeat_def)
  then obtain code x u where r: "r = SuccessResponse code x (make_meta (rd_uuid c) (rd_answered c))"
      "t = u\<lparr>working := committed u\<rparr>" and u: "?Q (code, x) u"
    by blast
  have "heartbeats_of 1 (committed t) = heartbeats_of 1 (committed s) + 1"
    using u by (simp add: r heartbeats_of_def heartbeat_row_def)
  moreover have "map cs_app_version (filter (\<lambda>c. cs_device_id c = 1) (device_current_states (committed t))) = [Some ''correctness'']"
  proof -
    have "distinct (map cs_device_id (device_current_states (committed t)))"
      using on_stageD(5) [OF t] by (simp add: cast_def)
    moreover obtain a where a: "List.find (\<lambda>c. cs_device_id c = 1) (device_current_states (committed t)) = Some a"
        "cs_app_version a = Some ''correctness''"
      using u by (simp add: r upsert_state_lookup touch_state_def)
    then have "a \<in> set (device_current_states (committed t))" "cs_device_id a = 1" by (auto dest: find_SomeD find_SomeD_prop)
    ultimately have "filter (\<lambda>c. cs_device_id c = 1) (device_current_states (committed t)) = [a]"
      using filter_unique_key [of cs_device_id _ a] by simp
    with a(2) show ?thesis by simp
  qed
  ultimately have "heartbeat_case dg c s = Some t"
    using u by (simp add: heartbeat_case_def run r require_def)
  with t show ?thesis by blast
qed

section \<open>Configuration and dashboard\<close>

lemma configuration_passes:
  assumes stage: "on_stage dg v k d0 s"
  shows "\<exists>t. configuration_case dg c s = Some t \<and> on_stage dg v k d0 t"
proof -
  note st = on_stageD [OF stage]
  have v: "dev_id v = 1" using st(5) by (simp add: cast_def cast_device_def)
  obtain g where g: "filter (published 1) (device_configurations (working s)) = [g]" "cfg_version g = 1"
    and keys: "map fst (cfg_snapshot g) = [''currency'', ''device_id'', ''station_id'', ''heartbeat_seconds'']"
    and vals: "map_of (cfg_snapshot g) ''device_id'' = Some (JStr ''dev-0000001'')"
      "map_of (cfg_snapshot g) ''station_id'' = Some (JStr ''stn-000001'')"
    using st(1,5) unfolding cast_def cast_configuration_def by auto
  have "distinct (map fst (cfg_snapshot g))" by (simp add: keys)
  then have rev: "map_of (rev (cfg_snapshot g)) = map_of (cfg_snapshot g)"
    by (subst map_of_inject_set) (simp_all add: rev_map [symmetric])
  have out: "map_of (cfg_snapshot g) ''version'' = None" "map_of (cfg_snapshot g) ''update_available'' = None"
    unfolding map_of_eq_None_iff set_map [symmetric] keys by simp_all
  let ?d = "configuration_payload g (Some 1)"
  have d: "map_of ?d ''version'' = Some (JInt 1)" "map_of ?d ''update_available'' = Some (JBool False)"
    "map_of ?d ''device_id'' = Some (JStr ''dev-0000001'')" "map_of ?d ''station_id'' = Some (JStr ''stn-000001'')"
    unfolding configuration_payload_def map_of_dict_merge rev by (simp_all add: out vals g(2))
  obtain r t where run: "send dg device_headers (GetConfiguration (Some 1)) c s = (r, t)" by fastforce
  let ?Q = "\<lambda>(r :: int \<times> api_data) (u :: session). r = (200, ConfigurationData ?d)"
  have "wp (bind_op (get_configuration (dev_id v) (Some 1)) (\<lambda>d. ret (200, ConfigurationData d))) ?Q (\<lambda>_ _. False) s"
    by (simp add: wp_rules v g)
  then have "\<exists>code x u. r = SuccessResponse code x (make_meta (rd_uuid c) (rd_answered c)) \<and>
      t = u\<lparr>working := committed u\<rparr> \<and> ?Q (code, x) u"
    by (intro send_device [OF stage _ _ _ run, where act = "\<lambda>now v. bind_op (get_configuration (dev_id v) (Some 1))
      (\<lambda>d. ret (200, ConfigurationData d))"]) (simp_all add: configuration_def at_least_def)
  then have "r = SuccessResponse 200 (ConfigurationData ?d) (make_meta (rd_uuid c) (rd_answered c))" by auto
  then have "configuration_case dg c s = Some t"
    by (simp add: configuration_case_def run require_def d)
  with on_stage_send [OF stage run] show ?thesis by blast
qed

lemma dashboard_passes:
  assumes stage: "on_stage dg v k d0 s"
  shows "\<exists>t. dashboard_case dg c s = Some t \<and> on_stage dg v k d0 t"
proof -
  note st = on_stageD [OF stage]
  obtain u co where u: "List.find (\<lambda>u. pu_token_hash u = sha256_hex dg (encode ''panel-company-1'') \<and> pu_active u)
      (panel_users (committed s)) = Some u" "pu_company_id u = 1"
    and co: "List.find (\<lambda>c. co_id c = 1) (companies (committed s)) = Some co"
    using st(5) unfolding cast_def cast_panel_def by blast
  have tok: "bearer_token (authorization panel_headers) = ''panel-company-1''" by code_simp
  obtain r t where run: "send dg panel_headers (DashboardOverview (Some ''TODAY'')) c s = (r, t)" by fastforce
  have same: "s\<lparr>working := committed s\<rparr> = s" using st(1) by (metis session.surjective session.update_convs(2))
  let ?today = "start_of_day (rd_now c)"
  let ?v = "overview_of (rd_now2 c) 1 ''TODAY'' co ?today (?today + days 1) (committed s)"
  have "wp (dashboard_overview dg (rd_now c) (rd_now2 c) panel_headers (Some ''TODAY''))
      (\<lambda>r u. r = (200, OverviewData ?v)) (\<lambda>_ _. False) s"
    unfolding dashboard_overview_def tok authenticate_panel_def Let_def
    by (simp add: wp_rules st(1) u co query_period_def period_bounds_def Let_def del: encode_Cons)
  moreover have "valid_request (DashboardOverview (Some ''TODAY''))" by (simp add: query_period_def)
  ultimately have "r = SuccessResponse 200 (OverviewData ?v) (make_meta (rd_uuid c) (rd_answered c))"
    using run unfolding send_def serve_def with_session_def rollback_def same
    by (auto simp: wp_def split: prod.splits sum.splits)
  then have "dashboard_case dg c s = Some t"
    by (simp add: dashboard_case_def run require_def overview_of_def overview_view_def)
  with on_stage_send [OF stage run] show ?thesis by blast
qed

section \<open>Cards\<close>

lemma card_payment:
  assumes stage: "on_stage dg v k d0 s" and contact: "in_contact at (committed s)"
    and now: "rd_now c \<le> at + seconds 120" and key: "valid_key key"
    and unused: "\<forall>p \<in> set (payment_transactions (committed s)). pay_idempotency_key p \<noteq> key"
    and scen: "(scenario, st, code) \<in> set card_scenarios"
  shows "\<exists>w t p. send dg device_headers (Payment (card_body scenario) key) c s =
      (payment_answer (rd_uuid c) (rd_answered c) w, t) \<and> pp_status w = st \<and> in_contact at (committed t) \<and>
    payment_transactions (committed t) = payment_transactions (committed s) @ [p] \<and> pay_device_id p = 1 \<and>
    pay_idempotency_key p = key \<and> pay_status p = st \<and> pay_request_hash p = request_hash dg (card_body scenario) \<and>
    lookup_view (committed t) (pay_id p) = Some w"
proof -
  note st = on_stageD [OF stage]
  let ?b = "card_body scenario" and ?now = "rd_now c"
  let ?stl = "(settled 1000)\<lparr>stl_status := st, stl_error_code := code, stl_error_message := code\<rparr>"
  have v: "dev_id v = 1" using st(5) by (simp add: cast_def cast_device_def)
  obtain expected where h: "healthy expected (committed s) (seqs s)" using st(2) by (auto simp: sound_def)
  have body: "payment_method ?b = ''CARD''" "configuration_version ?b = 1" "or_empty (test_scenario ?b) = scenario"
    "valid_payment ?b" by (simp_all add: card_body_def or_empty_def valid_payment_def at_least_def)
  have "find_by_key (dev_id v) key (committed s) = None"
    using unused by (auto simp: find_by_key_def find_None_set)
  moreover have "guards_pass ?now v ?b (committed s) 1 1"
    by (rule guards_in_contact [OF st(5) contact st(7) now body(2)])
  moreover have "program_resolved dg v 1 ?b (committed s) 1 1000"
    by (rule resolves [OF st(5)]) (simp add: card_body_def)
  moreover have "settles dg ?now v 1 1 ?b 1000 (committed s) ?stl (committed s)"
    by (rule settles.by_card [OF body(1)]) (simp add: body(3) scen)
  ultimately obtain w where w: "send dg device_headers (Payment ?b key) c s =
      (payment_answer (rd_uuid c) (rd_answered c) w, paid_state dg ?now v ?b key 1 1 1000 ?stl s (committed s))"
    "pp_status w = st" "lookup_view (paid_db dg ?now v ?b key 1 1 1000 ?stl s (committed s)) (seqs s PaymentSeq) = Some w"
    using serve_payment [OF h authentic_on_stage [OF st(5)], of ?b key] body(4) key unfolding send_def by fastforce
  let ?p = "payment_row ?now v key (request_hash dg ?b) ''CARD'' 1 ?stl (seqs s PaymentSeq)"
  have "payment_transactions (paid_db dg ?now v ?b key 1 1 1000 ?stl s (committed s)) =
      payment_transactions (committed s) @ [?p]"
    by (simp add: paid_db_def body(1))
  moreover have "in_contact at (paid_db dg ?now v ?b key 1 1 1000 ?stl s (committed s))"
    by (rule in_contact_frame [OF contact]) (simp_all add: paid_db_def)
  moreover have "pay_id ?p = seqs s PaymentSeq \<and> pay_device_id ?p = 1 \<and> pay_idempotency_key ?p = key \<and> pay_status ?p = st \<and>
      pay_request_hash ?p = request_hash dg ?b"
    by (simp add: payment_row_def v)
  ultimately show ?thesis
    by (intro exI [of _ w] exI [of _ "paid_state dg ?now v ?b key 1 1 1000 ?stl s (committed s)"] exI [of _ ?p])
      (use w in simp)
qed

lemma statuses_new:
  "\<forall>p \<in> set (payment_transactions d). pay_idempotency_key p \<noteq> key \<Longrightarrow> payment_transactions d' = payment_transactions d @ [p] \<Longrightarrow>
   pay_idempotency_key p = key \<Longrightarrow> statuses_of_key key d' = [pay_status p]"
  by (simp add: statuses_of_key_def filter_empty_conv)

lemma card_step_passes:
  assumes "on_stage dg v k d0 s" "in_contact at (committed s)" "rd_now c \<le> at + seconds 120" "valid_key key"
    and unused: "\<forall>p \<in> set (payment_transactions (committed s)). pay_idempotency_key p \<noteq> key"
    and "(scenario, st, code) \<in> set card_scenarios" and http: "expected_http = http_status st"
  shows "\<exists>t p. card_step dg (key, scenario, expected_http, st) c s = Some t \<and> on_stage dg v k d0 t \<and> in_contact at (committed t) \<and>
    payment_transactions (committed t) = payment_transactions (committed s) @ [p] \<and> pay_idempotency_key p = key"
proof -
  obtain w t p where w: "send dg device_headers (Payment (card_body scenario) key) c s =
      (payment_answer (rd_uuid c) (rd_answered c) w, t)" "pp_status w = st" "in_contact at (committed t)"
    "payment_transactions (committed t) = payment_transactions (committed s) @ [p]" "pay_idempotency_key p = key" "pay_status p = st"
    using card_payment [OF assms(1-6)] by blast
  have "card_step dg (key, scenario, expected_http, st) c s = Some t"
    using statuses_new [OF unused w(4,5)] w(1,2,6) by (simp add: card_step_def require_def http)
  with on_stage_send [OF assms(1) w(1)] w(3-5) show ?thesis by blast
qed

lemma card_run_passes:
  assumes "on_stage dg v k d0 s" "in_contact at (committed s)"
    and "\<forall>(x, c) \<in> set xs. rd_now c \<le> at + seconds 120 \<and> valid_key (fst x) \<and>
      (\<exists>code. (fst (snd x), snd (snd (snd x)), code) \<in> set card_scenarios) \<and>
      fst (snd (snd x)) = http_status (snd (snd (snd x)))"
    and "distinct (map (fst \<circ> fst) xs)"
    and "\<forall>p \<in> set (payment_transactions (committed s)). pay_idempotency_key p \<notin> set (map (fst \<circ> fst) xs)"
  shows "\<exists>t. card_run dg xs s = Some t \<and> on_stage dg v k d0 t"
  using assms
proof (induction xs arbitrary: s)
  case (Cons xc xs)
  obtain key scenario http st c where xc: "xc = ((key, scenario, http, st), c)" by (metis prod.exhaust)
  obtain code where x: "rd_now c \<le> at + seconds 120" "valid_key key" "(scenario, st, code) \<in> set card_scenarios" "http = http_status st"
    using Cons.prems(3) by (auto simp: xc)
  have unused: "\<forall>p \<in> set (payment_transactions (committed s)). pay_idempotency_key p \<noteq> key"
    using Cons.prems(5) by (auto simp: xc)
  obtain t p where t: "card_step dg (key, scenario, http, st) c s = Some t" "on_stage dg v k d0 t" "in_contact at (committed t)"
    "payment_transactions (committed t) = payment_transactions (committed s) @ [p]" "pay_idempotency_key p = key"
    using card_step_passes [OF Cons.prems(1,2) x(1,2) unused x(3,4)] by blast
  have "\<exists>u. card_run dg xs t = Some u \<and> on_stage dg v k d0 u"
    by (rule Cons.IH [OF t(2,3)]) (use Cons.prems(3-5) t(4,5) in \<open>auto simp: xc\<close>)
  then show ?case by (simp add: xc t(1))
qed simp

lemma card_passes:
  assumes stage: "on_stage dg v k d0 s" and now: "\<forall>i. rd_now (rd i) \<le> at + seconds 120"
  shows "\<exists>t. card_case dg rd (psql (delete_payments (like_prefix ''corr-card-'')) (psql (prepare_device at) s)) = Some t \<and>
    on_stage dg v k d0 t"
proof -
  let ?u = "psql (delete_payments (like_prefix ''corr-card-'')) (psql (prepare_device at) s)"
  have pre: "''corr-card-'' = ''corr-'' @ ''card-''" by simp
  have u1: "on_stage dg v k d0 ?u"
    unfolding pre by (rule on_stage_delete [OF on_stage_prepare [OF stage]], rule prefix_corr)
  have u2: "race_start at ''corr-card-'' (committed ?u)" unfolding pre by (rule race_start_psql [OF stage])
  let ?xs = "zip card_cases (map rd [0..<3])"
  have keys: "map (fst \<circ> fst) ?xs = map fst card_cases"
    by (simp add: map_map [symmetric] card_cases_def del: map_map)
  have "startswith ''corr-card-'' key" if "key \<in> set (map (fst \<circ> fst) ?xs)" for key
    using that unfolding keys by (auto simp: card_cases_def startswith_iff)
  then have "\<forall>p \<in> set (payment_transactions (committed ?u)). pay_idempotency_key p \<notin> set (map (fst \<circ> fst) ?xs)"
    using u2 unfolding race_start_def like_prefix_def by blast
  moreover have "distinct (map (fst \<circ> fst) ?xs)" unfolding keys by (simp add: card_cases_def)
  moreover have "\<forall>(x, c) \<in> set ?xs. rd_now c \<le> at + seconds 120 \<and> valid_key (fst x) \<and>
      (\<exists>code. (fst (snd x), snd (snd (snd x)), code) \<in> set card_scenarios) \<and>
      fst (snd (snd x)) = http_status (snd (snd (snd x)))"
  proof -
    have cases: "\<forall>x \<in> set card_cases. valid_key (fst x) \<and> (\<exists>code. (fst (snd x), snd (snd (snd x)), code) \<in> set card_scenarios) \<and>
        fst (snd (snd x)) = http_status (snd (snd (snd x)))"
      by (simp add: card_cases_def valid_key_def card_scenarios_def http_status_def)
    have "fst y \<in> set card_cases \<and> snd y \<in> set (map rd [0..<3])" if "y \<in> set ?xs" for y
      by (metis that prod.collapse set_zip_leftD set_zip_rightD)
    then show ?thesis using cases now by (fastforce simp del: upt.simps upt_rec_numeral)
  qed
  ultimately show ?thesis
    using card_run_passes [OF u1, of at ?xs] u2 unfolding card_case_def race_start_def by blast
qed

section \<open>One key, ten times\<close>

lemma replays:
  assumes "on_stage dg v k d0 s" "valid_request (Payment body key)" "find_by_key 1 key (committed s) = Some p"
    "pay_request_hash p = request_hash dg body" "lookup_view (committed s) (pay_id p) = Some w"
  shows "send_all dg device_headers (map (\<lambda>i. (Payment body key, rd i)) is) s =
    (map (\<lambda>i. payment_answer (rd_uuid (rd i)) (rd_answered (rd i)) w) is, s)"
proof (induction "is")
  case (Cons i "is")
  note st = on_stageD [OF assms(1)]
  have "dev_id v = 1" using st(5) by (simp add: cast_def cast_device_def)
  then have "send dg device_headers (Payment body key) (rd i) s = (payment_answer (rd_uuid (rd i)) (rd_answered (rd i)) w, s)"
    unfolding send_def by (intro serve_replay [OF authentic_on_stage [OF st(5)] assms(2) _ assms(4,5) st(1)]) (simp add: assms(3))
  with Cons show ?case by simp
qed simp

lemma same_key_passes:
  assumes stage: "on_stage dg v k d0 s" and now: "rd_now (rd 0) \<le> at + seconds 120"
  shows "\<exists>t. same_key_case dg rd (psql (delete_payments (\<lambda>p. pay_idempotency_key p = ''corr-same-key''))
      (psql (prepare_device at) s)) = Some t \<and> on_stage dg v k d0 t"
proof -
  let ?key = "''corr-same-key''" and ?b = "card_body ''TEST_SUCCESS''"
  let ?P = "\<lambda>p. pay_idempotency_key p = ?key"
  let ?s = "psql (prepare_device at) s"
  let ?u = "psql (delete_payments ?P) ?s"
  have corr: "corr_payment p" if "?P p" for p using that by (simp add: corr_payment_def startswith_iff)
  have s1: "on_stage dg v k d0 ?s" by (rule on_stage_prepare [OF stage])
  have u: "on_stage dg v k d0 ?u" by (rule on_stage_delete [OF s1 corr])
  have "backed (committed ?s)" "distinct (map pay_id (payment_transactions (committed ?s)))"
    using on_stageD(2,3) [OF s1] by (simp_all add: steady_def sound_iff booked_def)
  note eq = delete_payments_eq [OF this, of ?P, OF corr]
  have contact: "in_contact at (committed ?u)"
    by (rule in_contact_frame [OF prepare_contact [OF stage, of at]]) (use eq in \<open>simp_all del: append_Cons append_Nil\<close>)
  have unused: "\<forall>p \<in> set (payment_transactions (committed ?u)). pay_idempotency_key p \<noteq> ?key"
    by (simp add: delete_payments_def Let_def)
  have key: "valid_key ?key" by (simp add: valid_key_def)
  have scen: "(''TEST_SUCCESS'', SUCCESS, None) \<in> set card_scenarios" by (simp add: card_scenarios_def)
  obtain w t p where w: "send dg device_headers (Payment ?b ?key) (rd 0) ?u = (payment_answer (rd_uuid (rd 0)) (rd_answered (rd 0)) w, t)"
    "pp_status w = SUCCESS" "payment_transactions (committed t) = payment_transactions (committed ?u) @ [p]"
    "pay_device_id p = 1" "pay_idempotency_key p = ?key" "pay_status p = SUCCESS" "pay_request_hash p = request_hash dg ?b"
    "lookup_view (committed t) (pay_id p) = Some w"
    using card_payment [OF u contact now key unused scen] by blast
  have t: "on_stage dg v k d0 t" by (rule on_stage_send [OF u w(1)])
  have found: "find_by_key 1 ?key (committed t) = Some p"
  proof -
    have "List.find (\<lambda>p. pay_device_id p = 1 \<and> pay_idempotency_key p = ?key) (payment_transactions (committed ?u)) = None"
      using unused by (auto simp: find_None_set)
    then show ?thesis using w(4,5) by (simp add: find_by_key_def w(3) row_simps)
  qed
  have valid: "valid_request (Payment ?b ?key)" using key by (simp add: card_body_def valid_payment_def at_least_def)
  let ?rs = "map (\<lambda>i. payment_answer (rd_uuid (rd i)) (rd_answered (rd i)) w) [0..<10]"
  have "send_all dg device_headers (map (\<lambda>i. (Payment ?b ?key, rd i)) (0 # [1..<10])) ?u = (map (\<lambda>i. payment_answer (rd_uuid (rd i)) (rd_answered (rd i)) w) (0 # [1..<10]), t)"
    using w(1) replays [OF t valid found w(7,8), of rd "[1..<10]"] by simp
  then have run: "send_all dg device_headers (map (\<lambda>i. (Payment ?b ?key, rd i)) [0..<10]) ?u = (?rs, t)"
    by (subst (1 2) upt_conv_Cons) simp_all
  have answer: "payment_data_id (payment_answer x y w) = pp_id w" "status_code (payment_answer x y w) = 200" for x y
    by (simp_all add: payment_answer_def w(2) http_status_def)
  have "map payment_data_id ?rs = map (\<lambda>_. pp_id w) [0..<10 :: nat]" by (simp add: comp_def answer del: upt.simps)
  then have "set (map payment_data_id ?rs) = (\<lambda>_. pp_id w) ` {0..<10 :: nat}" by (simp only: set_map set_upt)
  then have "set (map payment_data_id ?rs) = {pp_id w}" by (simp add: image_constant_conv)
  moreover have "statuses_of_key ?key (committed t) = [SUCCESS]"
    using statuses_new [OF unused w(3,5)] w(6) by simp
  moreover have "\<forall>r \<in> set ?rs. status_code r = 200" using answer(2) by auto
  ultimately have "same_key_case dg rd ?u = Some t"
    by (simp add: same_key_case_def run require_def del: set_map upt.simps upt_rec_numeral)
  with t show ?thesis by blast
qed

section \<open>The command\<close>

definition waiting :: "timestamp \<Rightarrow> command \<Rightarrow> bool" where
  "waiting at c \<longleftrightarrow> cmd_status c \<in> {PENDING, SENT} \<and> cmd_created_at c = at"

lemma find_command_mark:
  "find_command i j (mark_db now row d) =
    map_option (\<lambda>c. if cmd_status row = PENDING \<and> cmd_id c = cmd_id row then mark_sent now c else c) (find_command i j d)"
proof -
  have "find_command i j (d\<lparr>commands := update_where (\<lambda>c. cmd_id c = cmd_id row) (mark_sent now) (commands d)\<rparr>) =
      map_option (\<lambda>c. if cmd_id c = cmd_id row then mark_sent now c else c) (find_command i j d)"
    unfolding find_command_def by (simp add: find_update_where mark_sent_def)
  then show ?thesis by (simp add: mark_db_def find_command_def option.map_ident)
qed

lemma waiting_mark_all:
  "find_command i j d = Some c \<Longrightarrow> waiting at c \<Longrightarrow> \<exists>c'. find_command i j (fold (mark_db now) rows d) = Some c' \<and> waiting at c'"
proof (induction rows arbitrary: d c)
  case (Cons row rows)
  have "\<exists>c'. find_command i j (mark_db now row d) = Some c' \<and> waiting at c'"
    using Cons.prems by (simp add: find_command_mark waiting_def mark_sent_def)
  then show ?case using Cons.IH by auto
qed auto

lemma command_results_mark_all: "command_results (fold (mark_db now) rows d) = command_results d"
  by (induction rows arbitrary: d) (simp_all add: mark_db_def)

lemma wp_store_result:
  assumes "has_key cmd_id (commands (working s)) (cmd_id c)" "has_key dev_id (devices (working s)) device_id"
    and "\<not> has_key res_command_id (command_results (working s)) (cmd_id c)"
    and "\<not> has_key res_id (command_results (working s)) (seqs s ResultSeq)"
    and "\<not> has_key ev_id (events (working s)) (seqs s EventSeq)" and "st \<in> {SUCCESS, FAILED}"
    and post: "\<And>sq. let d = result_db now device_id c result st code message key hash (seqs s) (working s)
       in Q \<lparr>rp_id = int_dec (cmd_id c), rp_status = st, rp_result_code = code\<rparr> (s\<lparr>working := d, committed := d, seqs := sq\<rparr>)"
  shows "wp (store_result now device_id c result st code message key hash) Q E s"
  using assms(1-6) post
  by (auto simp: store_result_def wp_rules insertable_result_def result_row_def check_command_def result_db_def Let_def
      complete_command_def check_execution_def complete_execution_def insertable_event_def execution_event_def has_key_opt_def)

lemma poll_passes:
  assumes stage: "on_stage dg v k d0 s" and c: "find_command 1 1 (committed s) = Some c" "waiting at c"
    and run: "send dg device_headers (CommandsPending None) rdg s = (r, t)"
  shows "status_code r = 200 \<and> (\<exists>c. find_command 1 1 (committed t) = Some c \<and> waiting at c) \<and>
    command_results (committed t) = command_results (committed s)"
proof -
  let ?rows = "select_pending (dev_id v) (query_limit None) (committed s)"
  let ?Q = "\<lambda>(r :: int \<times> api_data) u. fst r = 200 \<and> committed u = fold (mark_db (rd_now rdg)) ?rows (committed s)"
  have "wp (bind_op (pending_commands (rd_now rdg) (dev_id v) (query_limit None)) (\<lambda>items. ret (200, CommandsData items 5)))
      ?Q (\<lambda>_ _. False) s"
    using on_stageD(1) [OF stage] by (simp add: wp_rules wp_pending_commands Let_def)
  then have "\<exists>code x u. r = SuccessResponse code x (make_meta (rd_uuid rdg) (rd_answered rdg)) \<and>
      t = u\<lparr>working := committed u\<rparr> \<and> ?Q (code, x) u"
    by (intro send_device [OF stage _ _ _ run, where act = "\<lambda>now v. bind_op (pending_commands now (dev_id v) (query_limit None))
      (\<lambda>items. ret (200, CommandsData items 5))"]) (simp_all add: commands_pending_def query_limit_def)
  then have "status_code r = 200 \<and> committed t = fold (mark_db (rd_now rdg)) ?rows (committed s)" by auto
  then show ?thesis using waiting_mark_all [OF c] by (simp add: command_results_mark_all)
qed

lemma ack_passes:
  assumes stage: "on_stage dg v k d0 s" and c: "find_command 1 1 (committed s) = Some c" "waiting at c"
    and now: "rd_now rdg < at + seconds 30"
    and run: "send dg device_headers (CommandAcknowledge 1) rdg s = (r, t)"
  shows "status_code r = 200 \<and> find_command 1 1 (committed t) = Some (acknowledge (rd_now rdg) c) \<and>
    command_results (committed t) = command_results (committed s)"
proof -
  have v: "dev_id v = 1" using on_stageD(5) [OF stage] by (simp add: cast_def cast_device_def)
  let ?Q = "\<lambda>(r :: int \<times> api_data) u. fst r = 200 \<and> committed u = ack_db (rd_now rdg) c (committed s)"
  have "wp (bind_op (acknowledge_command (rd_now rdg) (dev_id v) 1) (\<lambda>(i, st). ret (200, AcknowledgeData i st)))
      ?Q (\<lambda>_ _. False) s"
    using on_stageD(1) [OF stage] c now by (simp add: wp_rules wp_acknowledge_command v waiting_def Let_def)
  then have "\<exists>code x u. r = SuccessResponse code x (make_meta (rd_uuid rdg) (rd_answered rdg)) \<and>
      t = u\<lparr>working := committed u\<rparr> \<and> ?Q (code, x) u"
    by (intro send_device [OF stage _ _ _ run, where act = "\<lambda>now v. bind_op (acknowledge_command now (dev_id v) 1)
      (\<lambda>(i, st). ret (200, AcknowledgeData i st))"]) (simp_all add: command_acknowledge_def)
  then have "status_code r = 200 \<and> committed t = ack_db (rd_now rdg) c (committed s)" by auto
  then show ?thesis using find_command_ack [OF c(1)] by (simp add: ack_db_def)
qed

lemma find_command_result:
  "find_command i j (result_db now dv c result st code message key hash sq d) =
    map_option (\<lambda>r. if cmd_id r = cmd_id c then complete_command now st code r else r) (find_command i j d)"
proof -
  have "find_command i j (d\<lparr>commands := update_where (\<lambda>r. cmd_id r = cmd_id c) (complete_command now st code) (commands d)\<rparr>) =
      map_option (\<lambda>r. if cmd_id r = cmd_id c then complete_command now st code r else r) (find_command i j d)"
    unfolding find_command_def by (simp add: find_update_where complete_command_def)
  then show ?thesis by (simp add: result_db_def find_command_def)
qed

definition the_report :: "digests \<Rightarrow> command_result \<Rightarrow> bool" where
  "the_report dg x \<longleftrightarrow> res_command_id x = 1 \<and> res_result_key x = ''corr-command-result'' \<and>
     res_request_hash x = result_hash dg ''SUCCESS'' None None"

lemma report_handled:
  "handle dg now now' h (report result code message) = with_device dg h (\<lambda>device.
     bind_op (apply_command_result dg now (dev_id device) 1 result code message ''corr-command-result'') (\<lambda>v. ret (200, ResultData v)))"
  by (simp add: report_def command_result_handler_def)

lemma report_valid: "report result code message = r \<Longrightarrow> max_length 64 code \<Longrightarrow> max_length 500 message \<Longrightarrow> valid_request r"
  by (auto simp: report_def valid_key_def)

lemma report_passes:
  assumes stage: "on_stage dg v k d0 s"
    and c: "find_command 1 1 (committed s) = Some c" "cmd_status c = ACKNOWLEDGED" "\<not> result_expired (rd_now rdg) c"
    and none: "\<forall>x \<in> set (command_results (committed s)). res_command_id x \<noteq> 1"
    and run: "send dg device_headers (report ''SUCCESS'' None None) rdg s = (r, t)"
  shows "status_code r = 200 \<and> find_command 1 1 (committed t) \<noteq> None \<and>
    (\<exists>x. filter (\<lambda>x. res_command_id x = 1) (command_results (committed t)) = [x] \<and> the_report dg x)"
proof -
  note st = on_stageD [OF stage]
  have v: "dev_id v = 1" "v \<in> set (devices (committed s))"
    using st(5) by (auto simp: cast_def cast_device_def device_authentic_def dest: find_SomeD)
  note id = find_commandD [OF c(1)]
  let ?key = "''corr-command-result''" and ?h = "result_hash dg ''SUCCESS'' None None" and ?now = "rd_now rdg"
  let ?Q = "\<lambda>(r :: int \<times> api_data) u. fst r = 200 \<and>
    (\<exists>sq. committed u = result_db ?now 1 c ''SUCCESS'' SUCCESS None None ?key ?h sq (committed s))"
  have ids: "ids_fresh (seqs s) (committed s)" using st(2) by (simp add: sound_iff integrity_def)
  have "wp (store_result ?now 1 c ''SUCCESS'' SUCCESS None None ?key ?h)
      (\<lambda>v. wp (ret (200, ResultData v)) ?Q (\<lambda>_ _. False)) (\<lambda>_ _. False) s"
    by (rule wp_store_result)
      (use st(1) v id none ids in \<open>auto simp: wp_rules Let_def has_key_def ids_fresh_def below_def\<close>)
  moreover have "stored_result 1 (committed s) = None" using none by (auto simp: stored_result_def find_None_set)
  moreover have "result_status ''SUCCESS'' = Some SUCCESS" by (simp add: result_status_def)
  ultimately have "wp (bind_op (apply_command_result dg ?now (dev_id v) 1 ''SUCCESS'' None None ?key) (\<lambda>v. ret (200, ResultData v)))
      ?Q (\<lambda>_ _. False) s"
    using st(1) c by (simp add: apply_command_result_def wp_control Let_def v stored_result_def)
  moreover have "valid_request (report ''SUCCESS'' None None)" by (rule report_valid [OF refl]) (simp_all add: max_length_def)
  ultimately have "\<exists>code x u. r = SuccessResponse code x (make_meta (rd_uuid rdg) (rd_answered rdg)) \<and>
      t = u\<lparr>working := committed u\<rparr> \<and> ?Q (code, x) u"
    by (intro send_device [OF stage _ report_handled _ run])
  then obtain sq where r: "status_code r = 200"
    and t: "committed t = result_db ?now 1 c ''SUCCESS'' SUCCESS None None ?key ?h sq (committed s)" by auto
  have "find_command 1 1 (committed t) \<noteq> None"
    by (simp add: t find_command_result c(1))
  moreover have "filter (\<lambda>x. res_command_id x = 1) (command_results (committed t)) =
      [result_row ?now (cmd_id c) ?key ?h ''SUCCESS'' SUCCESS None None (sq ResultSeq)]"
    using none id by (simp add: t result_db_def result_row_def filter_empty_conv)
  moreover have "the_report dg (result_row ?now (cmd_id c) ?key ?h ''SUCCESS'' SUCCESS None None (sq ResultSeq))"
    by (simp add: the_report_def result_row_def id)
  ultimately show ?thesis using r by blast
qed

lemma find_filter: "filter P xs = [x] \<Longrightarrow> List.find P xs = Some x"
  by (induction xs) (auto split: if_splits)

lemma again_passes:
  assumes stage: "on_stage dg v k d0 s" and c: "find_command 1 1 (committed s) \<noteq> None"
    and row: "filter (\<lambda>x. res_command_id x = 1) (command_results (committed s)) = [x]" "the_report dg x"
    and result: "result_status result \<noteq> None" "max_length 64 code" "max_length 500 message"
    and run: "send dg device_headers (report result code message) rdg s = (r, t)"
  shows "status_code r = (if result_hash dg result code message = result_hash dg ''SUCCESS'' None None then 200 else 409) \<and>
    committed t = committed s"
proof -
  note st = on_stageD [OF stage]
  have v: "dev_id v = 1" using st(5) by (simp add: cast_def cast_device_def)
  obtain c where c: "find_command 1 1 (working s) = Some c" using c st(1) by auto
  obtain rs where rs: "result_status result = Some rs" using result by blast
  have stored: "stored_result 1 (working s) = Some x" using find_filter [OF row(1)] st(1) by (simp add: stored_result_def)
  let ?same = "result_hash dg result code message = result_hash dg ''SUCCESS'' None None"
  let ?Q = "\<lambda>(r :: int \<times> api_data) u. ?same \<and> fst r = 200 \<and> u = s"
  let ?E = "\<lambda>e u. \<not> ?same \<and> e = conflict ''IDEMPOTENCY_CONFLICT'' \<and> u = s"
  have "wp (bind_op (apply_command_result dg (rd_now rdg) (dev_id v) 1 result code message ''corr-command-result'')
      (\<lambda>v. ret (200, ResultData v))) ?Q ?E s"
    using row(2) by (simp add: wp_control v wp_result_replay [OF rs c stored] the_report_def)
  from serve_device [OF authentic_on_stage [OF st(5)] report_valid [OF refl result(2,3)] report_handled st(1) this]
  show ?thesis using run unfolding send_def by (fastforce simp: conflict_def)
qed

lemma command_passes:
  assumes stage: "on_stage dg v k d0 s" and crew: "crewed d0"
    and times: "rd_now (rd 1) < at + seconds 30" "rd_now (rd 2) < rd_now (rd 1) + seconds 120"
    and differ: "result_hash dg ''FAILED'' (Some ''HW'') (Some ''different'') \<noteq> result_hash dg ''SUCCESS'' None None"
  shows "\<exists>t. command_case dg rd (psql (reset_command at) s) = Some t \<and> on_stage dg v k d0 t"
proof -
  note st = on_stageD [OF stage]
  let ?u = "psql (reset_command at) s"
  have "has_key dev_id (devices (committed s)) 1"
    using st(5) by (auto simp: cast_def cast_device_def device_authentic_def has_key_def dest: find_SomeD)
  then have u: "on_stage dg v k d0 ?u"
    by (intro on_stage_psql [OF stage] reset_command_ok st(2,3) crew)
  obtain c where c: "find_command 1 1 (committed ?u) = Some c" "waiting at c"
  proof -
    obtain c where c: "find_command 1 1 (committed ?u) = Some c"
      using on_stageD(5) [OF u] unfolding cast_def cast_command_def by blast
    from find_commandD(1,2) [OF c] have "waiting at c"
      by (auto simp: reset_command_eq waiting_def fresh_command_def elim!: update_whereE split: if_splits)
    with that c show thesis .
  qed
  have none: "\<forall>x \<in> set (command_results (committed ?u)). res_command_id x \<noteq> 1" by (simp add: reset_command_def Let_def)
  obtain r0 t0 where r0: "send dg device_headers (CommandsPending None) (rd 0) ?u = (r0, t0)" by fastforce
  have s0: "on_stage dg v k d0 t0" by (rule on_stage_send [OF u r0])
  obtain c0 where c0: "status_code r0 = 200" "find_command 1 1 (committed t0) = Some c0" "waiting at c0"
    "command_results (committed t0) = command_results (committed ?u)" using poll_passes [OF u c r0] by blast
  obtain r1 t1 where r1: "send dg device_headers (CommandAcknowledge 1) (rd 1) t0 = (r1, t1)" by fastforce
  have s1: "on_stage dg v k d0 t1" by (rule on_stage_send [OF s0 r1])
  let ?c1 = "acknowledge (rd_now (rd 1)) c0"
  have c1: "status_code r1 = 200" "find_command 1 1 (committed t1) = Some ?c1"
    "command_results (committed t1) = command_results (committed ?u)"
    using ack_passes [OF s0 c0(2,3) times(1) r1] c0(4) by simp_all
  have acked: "cmd_status ?c1 = ACKNOWLEDGED" "\<not> result_expired (rd_now (rd 2)) ?c1"
    using times(2) by (simp_all add: acknowledge_def result_expired_def)
  obtain r2 t2 where r2: "send dg device_headers (report ''SUCCESS'' None None) (rd 2) t1 = (r2, t2)" by fastforce
  have s2: "on_stage dg v k d0 t2" by (rule on_stage_send [OF s1 r2])
  have "\<forall>x \<in> set (command_results (committed t1)). res_command_id x \<noteq> 1" using none c1(3) by simp
  from report_passes [OF s1 c1(2) acked this r2] obtain x where x: "status_code r2 = 200" "find_command 1 1 (committed t2) \<noteq> None"
    "filter (\<lambda>x. res_command_id x = 1) (command_results (committed t2)) = [x]" "the_report dg x" by blast
  obtain r3 t3 where r3: "send dg device_headers (report ''SUCCESS'' None None) (rd 3) t2 = (r3, t3)" by fastforce
  have s3: "on_stage dg v k d0 t3" by (rule on_stage_send [OF s2 r3])
  have ok: "result_status ''SUCCESS'' \<noteq> None" "result_status ''FAILED'' \<noteq> None" by (simp_all add: result_status_def)
  have c3: "status_code r3 = 200" "committed t3 = committed t2"
    using again_passes [OF s2 x(2-4) ok(1) _ _ r3] by (simp_all add: max_length_def)
  obtain r4 t4 where r4: "send dg device_headers (report ''FAILED'' (Some ''HW'') (Some ''different'')) (rd 4) t3 = (r4, t4)" by fastforce
  have s4: "on_stage dg v k d0 t4" by (rule on_stage_send [OF s3 r4])
  have c4: "status_code r4 = 409" "committed t4 = committed t3"
    using again_passes [OF s3 _ _ x(4) ok(2) _ _ r4] x(2,3) c3(2) differ by (simp_all add: max_length_def)
  have "map rd [0..<5] = [rd 0, rd 1, rd 2, rd 3, rd 4]" by (simp add: upt_rec numeral_2_eq_2 numeral_3_eq_3 eval_nat_numeral)
  then have "send_all dg device_headers (command_requests rd) ?u = ([r0, r1, r2, r3, r4], t4)"
    by (simp add: command_requests_def r0 r1 r2 r3 r4 del: One_nat_def)
  then have "command_case dg rd ?u = Some t4"
    using x(1,3) c0(1) c1(1) c3 c4 by (simp add: command_case_def require_def)
  with s4 show ?thesis by blast
qed

section \<open>The worker\<close>

lemma offline_key_1: "offline_key 1 = ''device:1:offline''"
  by (simp add: offline_key_def int_dec_1)

lemma like_offline_1: "like_offline ''device:1:offline''"
  by (simp add: like_offline_def startswith_iff)

lemma offline_count:
  assumes "alarms_ok sq d"
  shows "offline_alarms OPEN d = (if (1, offline_key 1) \<in> open_keys d then 1 else 0)"
proof -
  let ?k = "\<lambda>a. (al_device_id a, al_alarm_key a)" and ?open = "filter (\<lambda>a. al_status a = OPEN) (alarms d)"
  have count: "offline_alarms OPEN d = length (filter (\<lambda>a. ?k a = (1, offline_key 1)) ?open)"
    by (simp add: offline_alarms_def offline_key_1 conj_ac)
  have dist: "distinct (map ?k ?open)" using assms by (simp add: alarms_ok_def)
  show ?thesis
  proof (cases "(1, offline_key 1) \<in> open_keys d")
    case True
    then obtain a where "a \<in> set ?open" "?k a = (1, offline_key 1)" by (auto simp: open_keys_def)
    then have "filter (\<lambda>b. ?k b = (1, offline_key 1)) ?open = [a]" using filter_unique_key [OF dist, of a] by simp
    with True count show ?thesis by simp
  next
    case False
    then have "filter (\<lambda>a. ?k a = (1, offline_key 1)) ?open = []" unfolding open_keys_def filter_empty_conv by force
    with False count show ?thesis by simp
  qed
qed

text \<open>An alarm is never removed by a sweep, and leaves its status only to be resolved.\<close>

definition outlives :: "alarm \<Rightarrow> db \<Rightarrow> bool" where
  "outlives a d \<longleftrightarrow> (\<exists>b \<in> set (alarms d). al_device_id b = al_device_id a \<and> al_alarm_key b = al_alarm_key a \<and>
     (al_status b = al_status a \<or> al_status b = RESOLVED))"

lemma outlives_decide: "outlives a (snd x) \<Longrightarrow> outlives a (snd (decide (raise_alarm now) (clear_alarm now) kv x))"
proof -
  assume "outlives a (snd x)"
  then obtain b where b: "b \<in> set (alarms (snd x))" "al_device_id b = al_device_id a" "al_alarm_key b = al_alarm_key a"
    "al_status b = al_status a \<or> al_status b = RESOLVED" by (auto simp: outlives_def)
  obtain k w where kv: "kv = (k, w)" by (cases kv)
  have kept: "outlives a (d\<lparr>alarms := update_where P (resolve_row now) (alarms d)\<rparr>)" if "b \<in> set (alarms d)" for P d
  proof -
    let ?b = "if P b then resolve_row now b else b"
    have "?b \<in> set (update_where P (resolve_row now) (alarms d))" using that by (simp add: update_where_def)
    moreover have "al_device_id ?b = al_device_id a \<and> al_alarm_key ?b = al_alarm_key a \<and>
        (al_status ?b = al_status a \<or> al_status ?b = RESOLVED)" using b by (simp add: resolve_row_def)
    ultimately show ?thesis unfolding outlives_def by (intro bexI [of _ ?b]) simp_all
  qed
  have same: "outlives a (snd x)" using b by (auto simp: outlives_def)
  have more: "outlives a ((snd x)\<lparr>alarms := alarms (snd x) @ bs\<rparr>)" for bs using b by (auto simp: outlives_def)
  show ?thesis
    unfolding kv using same more kept [OF b(1)]
    by (cases w) (auto simp: raise_alarm_def clear_alarm_def insert_when_def split: option.splits)
qed

lemma outlives_swept:
  assumes "a \<in> set (alarms (snd x))"
  shows "outlives a (snd (swept now x))"
proof -
  have "outlives a (snd y) \<Longrightarrow> outlives a (snd (evaluate now kvs y))" for kvs y
    by (induction kvs arbitrary: y) (simp_all add: evaluate_def outlives_decide)
  moreover have "outlives a (snd (fst x, maintain now (snd x)))" using assms by (auto simp: outlives_def)
  ultimately show ?thesis unfolding swept_def by blast
qed

text \<open>One run of the worker, seen from device 1.\<close>

lemma worker_sees:
  assumes stage: "on_stage dg v k d0 s"
  shows "\<exists>t. run_worker now s = Some t \<and> on_stage dg v k d0 t \<and> last_seen (committed t) 1 = last_seen (committed s) 1 \<and>
    ((1, offline_key 1) \<in> open_keys (committed t) \<longleftrightarrow>
       is_alarm_due now (last_seen (committed s) 1) \<or>
       (1, offline_key 1) \<in> open_keys (committed s) \<and> is_offline now (last_seen (committed s) 1)) \<and>
    (\<forall>a \<in> set (alarms (committed s)). outlives a (committed t))"
proof -
  note st = on_stageD [OF stage]
  have v: "v \<in> set (devices (committed s))" "dev_status v = ACTIVE" "dev_id v = 1"
    using st(5) by (auto simp: cast_def cast_device_def device_authentic_def dest: find_SomeD)
  have sw: "sweepable (seqs s) (committed s)" using st(2) by (simp add: sound_iff)
  obtain r t where run: "worker_run now s = (Inr r, t)" "committed t = snd (swept now (seqs s, committed s))"
    "working t = committed t"
    by (simp add: worker_run_eq [OF sw] Let_def)
  have "on_stage dg v k d0 t"
  proof -
    obtain expected where e: "must_be_complete expected = corr_payment" "scene expected d0 (committed s) (seqs s)"
      using st(8) by blast
    have "scene expected d0 (committed t) (seqs t)"
      by (rule scene.step_invariant [OF system_step.swept [OF run(1)] e(2)])
    with sceneD [OF e(1)] st(4) run(3) show ?thesis unfolding on_stage_def by blast
  qed
  moreover obtain as where "committed t = (maintain now (committed s))\<lparr>alarms := as\<rparr>"
    using swept_rest [of now "(seqs s, committed s)"] run(2) by auto
  then have "last_seen (committed t) 1 = last_seen (committed s) 1" by (simp add: last_seen_def)
  moreover have "active_maintenance_ids now (maintain now (committed s)) = []"
    using st(7) by (simp add: maintain_def active_maintenance_ids_def row_simps List.map_filter_simps)
  then have "due_unmaintained now (committed s) 1 \<longleftrightarrow> is_alarm_due now (last_seen (committed s) 1)"
    by (simp add: due_unmaintained_def)
  then have "(1, offline_key 1) \<in> open_keys (committed t) \<longleftrightarrow>
       is_alarm_due now (last_seen (committed s) 1) \<or>
       (1, offline_key 1) \<in> open_keys (committed s) \<and> is_offline now (last_seen (committed s) 1)"
    using device_verdict_iff [OF v(1,2), of now] by (simp add: run(2) open_after_sweep [OF sw] v(3)) blast
  moreover have "\<forall>a \<in> set (alarms (committed s)). outlives a (committed t)" using outlives_swept run(2) by simp
  moreover have "run_worker now s = Some t" by (simp add: run_worker_def run(1))
  ultimately show ?thesis by blast
qed

lemma last_seen_contacts:
  "List.find (\<lambda>c. cs_device_id c = 1) (device_current_states d) \<noteq> None \<Longrightarrow> last_seen (silence_device at d) 1 = Some (at - minutes 10)"
  "List.find (\<lambda>c. cs_device_id c = 1) (device_current_states d) \<noteq> None \<Longrightarrow> last_seen (revive_device at d) 1 = Some at"
proof -
  assume "List.find (\<lambda>c. cs_device_id c = 1) (device_current_states d) \<noteq> None"
  then obtain c where c: "List.find (\<lambda>c. cs_device_id c = 1) (device_current_states d) = Some c" by blast
  have "List.find (\<lambda>c. cs_device_id c = 1) (update_where (\<lambda>c. cs_device_id c = 1)
      (\<lambda>c. c\<lparr>cs_last_seen_at := Some at, cs_updated_at := at\<rparr>) (device_current_states d)) =
    Some (c\<lparr>cs_last_seen_at := Some at, cs_updated_at := at\<rparr>)"
    using c find_SomeD_prop [OF c] by (subst find_update_where) simp_all
  then show "last_seen (revive_device at d) 1 = Some at" by (simp add: last_seen_def revive_device_def)
  let ?f = "\<lambda>c. c\<lparr>cs_last_seen_at := Some (if cs_device_id c = 1 then at - minutes 10 else at), cs_updated_at := at\<rparr>"
  have "List.find (\<lambda>c. cs_device_id c = 1) (map ?f cs) = map_option ?f (List.find (\<lambda>c. cs_device_id c = 1) cs)"
    for cs :: "device_current_state list"
    by (induction cs) simp_all
  then show "last_seen (silence_device at d) 1 = Some (at - minutes 10)"
    using c find_SomeD_prop [OF c] by (simp add: last_seen_def silence_device_def)
qed

lemma worker_passes:
  assumes stage: "on_stage dg v k d0 s"
    and times: "at \<le> sweep 0" "at \<le> sweep 1" "sweep 2 \<le> revived + seconds 120"
  shows "\<exists>t. worker_case revived sweep (psql (silence_device at) s) = Some t \<and> on_stage dg v k d0 t"
proof -
  let ?u = "psql (silence_device at) s"
  have u: "on_stage dg v k d0 ?u"
    by (rule on_stage_psql [OF stage], rule silence_device_ok) (simp_all add: on_stageD [OF stage])
  have count: "offline_alarms OPEN (committed t) = (if (1, offline_key 1) \<in> open_keys (committed t) then 1 else 0)"
    if "on_stage dg v k d0 t" for t
    using on_stageD(2) [OF that] by (intro offline_count [of "seqs t"]) (simp add: sound_iff sweepable_def)
  have "last_seen (committed ?u) 1 = Some (at - minutes 10)"
    using last_seen_contacts(1) state_of_device [OF on_stageD(5) [OF stage]] by simp
  moreover have due: "is_alarm_due now (Some (at - minutes 10))" if "at \<le> now" for now
    using that by (simp add: is_alarm_due_def silent_for_def minutes_def seconds_def)
  ultimately obtain t0 where t0: "run_worker (sweep 0) ?u = Some t0" "on_stage dg v k d0 t0"
    "last_seen (committed t0) 1 = Some (at - minutes 10)" "(1, offline_key 1) \<in> open_keys (committed t0)"
    using worker_sees [OF u, of "sweep 0"] times(1) by auto
  obtain t1 where t1: "run_worker (sweep 1) t0 = Some t1" "on_stage dg v k d0 t1"
    "(1, offline_key 1) \<in> open_keys (committed t1)"
    using worker_sees [OF t0(2), of "sweep 1"] times(2) due t0(3) by auto
  let ?w = "psql (revive_device revived) t1"
  have w: "on_stage dg v k d0 ?w"
    by (rule on_stage_psql [OF t1(2)], rule revive_device_ok) (simp_all add: on_stageD [OF t1(2)])
  have "last_seen (committed ?w) 1 = Some revived"
    using last_seen_contacts(2) state_of_device [OF on_stageD(5) [OF t1(2)]] by simp
  moreover have "\<not> is_offline (sweep 2) (Some revived)" "\<not> is_alarm_due (sweep 2) (Some revived)"
    using times(3) by (simp_all add: is_offline_def is_alarm_due_def silent_for_def minutes_def seconds_def)
  ultimately obtain t2 where t2: "run_worker (sweep 2) ?w = Some t2" "on_stage dg v k d0 t2"
    "(1, offline_key 1) \<notin> open_keys (committed t2)" "\<forall>a \<in> set (alarms (committed ?w)). outlives a (committed t2)"
    using worker_sees [OF w, of "sweep 2"] by auto
  obtain a where a: "a \<in> set (alarms (committed ?w))" "al_device_id a = 1" "al_alarm_key a = offline_key 1" "al_status a = OPEN"
    using t1(3) unfolding open_keys_def by (auto simp: revive_device_def)
  then obtain b where b: "b \<in> set (alarms (committed t2))" "al_device_id b = 1" "al_alarm_key b = offline_key 1"
    "al_status b = OPEN \<or> al_status b = RESOLVED" using t2(4) unfolding outlives_def by (metis (no_types, lifting))
  have "(1, offline_key 1) \<in> open_keys (committed t2)" if "al_status b = OPEN"
    unfolding open_keys_def by (rule image_eqI [of _ _ b]) (use b that in simp_all)
  with t2(3) b(4) have "al_status b = RESOLVED" by blast
  with b have "b \<in> set (filter (\<lambda>a. al_device_id a = 1 \<and> al_alarm_key a = offline_key 1 \<and> al_status a = RESOLVED)
      (alarms (committed t2)))" by simp
  from length_pos_if_in_set [OF this] have "1 \<le> offline_alarms RESOLVED (committed t2)"
    unfolding offline_alarms_def offline_key_1 by linarith
  then have "worker_case revived sweep ?u = Some t2"
    using t0(1,4) t1(1,3) t2(1) count [OF t0(2)] count [OF t1(2)] by (simp add: worker_case_def require_def)
  with t2(2) show ?thesis by blast
qed

end
