(* ===== verification/Driver_Properties.thy ===== *)
theory Driver_Properties
  imports Driver_Steps Service_Properties Seed_Properties
begin

text \<open>
  The properties of the correctness run: the driver passes on every seeded database, and its
  races for one QR code and one wallet are fair for any number of competitors.
\<close>

section \<open>A run on a seeded database\<close>

text \<open>
  What the run needs of the clocks and the orders of arrival: every request of a race arrives
  once, all requests reach the service within two minutes of the contact the driver pretends,
  within the validity of the seeded code and card, and the deadlines of the command are kept.
\<close>

definition plausible :: "schedule \<Rightarrow> bool" where
  "plausible sch \<longleftrightarrow>
     (\<forall>kind \<in> {''qr_'', ''rf_''}. \<forall>n \<in> {2, 10, 100}. let name = kind @ nat_dec n in
        race_schedule (sch_at sch name) n (sch_order sch name) (sch_reading sch name)) \<and>
     (\<forall>i. rd_now (sch_reading sch ''card'' i) \<le> sch_at sch ''card'' + seconds 120) \<and>
     rd_now (sch_reading sch ''same_key'' 0) \<le> sch_at sch ''same_key'' + seconds 120 \<and>
     rd_now (sch_reading sch ''command'' 1) < sch_at sch ''command'' + seconds 30 \<and>
     rd_now (sch_reading sch ''command'' 2) < rd_now (sch_reading sch ''command'' 1) + seconds 120 \<and>
     sch_at sch ''worker'' \<le> sch_sweep sch 0 \<and> sch_at sch ''worker'' \<le> sch_sweep sch 1 \<and>
     sch_sweep sch 2 \<le> sch_at sch ''revived'' + seconds 120"

lemma plausible_race:
  assumes "plausible sch" "kind \<in> {''qr_'', ''rf_''}" "n \<in> {2, 10, 100}"
  shows "race_schedule (sch_at sch (kind @ nat_dec n)) n (sch_order sch (kind @ nat_dec n)) (sch_reading sch (kind @ nat_dec n))"
  using assms unfolding plausible_def Let_def by blast

lemma driver_cases_pass:
  assumes stage: "on_stage dg v k d0 s" and crew: "crewed d0" and sch: "plausible sch"
    and differ: "result_hash dg ''FAILED'' (Some ''HW'') (Some ''different'') \<noteq> result_hash dg ''SUCCESS'' None None"
  shows "\<exists>t. driver_cases dg sch s = Some t \<and> on_stage dg v k d0 t"
proof -
  note plain = sch [unfolded plausible_def, THEN conjunct2]
  note race = plausible_race [OF sch]
  obtain s1 where s1: "heartbeat_case dg (sch_reading sch ''heartbeat'' 0) (psql (prepare_device (sch_at sch ''heartbeat'')) s) = Some s1"
    "on_stage dg v k d0 s1" using heartbeat_passes [OF on_stage_prepare [OF stage]] by blast
  obtain s2 where s2: "configuration_case dg (sch_reading sch ''configuration'' 0) s1 = Some s2" "on_stage dg v k d0 s2"
    using configuration_passes [OF s1(2)] by blast
  obtain s3 where s3: "card_case dg (sch_reading sch ''card'') (psql (delete_payments (like_prefix ''corr-card-''))
      (psql (prepare_device (sch_at sch ''card'')) s2)) = Some s3" "on_stage dg v k d0 s3"
    using card_passes [OF s2(2)] plain by blast
  obtain s4 where s4: "same_key_case dg (sch_reading sch ''same_key'')
      (psql (delete_payments (\<lambda>p. pay_idempotency_key p = ''corr-same-key''))
        (psql (prepare_device (sch_at sch ''same_key'')) s3)) = Some s4" "on_stage dg v k d0 s4"
    using same_key_passes [OF s3(2)] plain by blast
  have qr: "\<exists>t. qr_phase dg sch n u = Some t \<and> on_stage dg v k d0 t" if "on_stage dg v k d0 u" "n \<in> {2, 10, 100}" for n u
    using qr_phase_passes [OF that(1) race refl] that(2) by blast
  have rf: "\<exists>t. rf_phase dg sch n u = Some t \<and> on_stage dg v k d0 t" if "on_stage dg v k d0 u" "n \<in> {2, 10, 100}" for n u
    using rf_phase_passes [OF that(1) race refl] that(2) by blast
  obtain s5 where s5: "qr_phase dg sch 2 s4 = Some s5" "on_stage dg v k d0 s5" using qr [OF s4(2)] by blast
  obtain s6 where s6: "qr_phase dg sch 10 s5 = Some s6" "on_stage dg v k d0 s6" using qr [OF s5(2)] by blast
  obtain s7 where s7: "qr_phase dg sch 100 s6 = Some s7" "on_stage dg v k d0 s7" using qr [OF s6(2)] by blast
  obtain s8 where s8: "rf_phase dg sch 2 s7 = Some s8" "on_stage dg v k d0 s8" using rf [OF s7(2)] by blast
  obtain s9 where s9: "rf_phase dg sch 10 s8 = Some s9" "on_stage dg v k d0 s9" using rf [OF s8(2)] by blast
  obtain s10 where s10: "rf_phase dg sch 100 s9 = Some s10" "on_stage dg v k d0 s10" using rf [OF s9(2)] by blast
  obtain s11 where s11: "command_case dg (sch_reading sch ''command'') (psql (reset_command (sch_at sch ''command'')) s10) = Some s11"
    "on_stage dg v k d0 s11"
    using command_passes [OF s10(2) crew _ _ differ, of "sch_reading sch ''command''" "sch_at sch ''command''"] plain by blast
  obtain s12 where s12: "dashboard_case dg (sch_reading sch ''dashboard'' 0) s11 = Some s12" "on_stage dg v k d0 s12"
    using dashboard_passes [OF s11(2)] by blast
  obtain t where t: "worker_case (sch_at sch ''revived'') (sch_sweep sch) (psql (silence_device (sch_at sch ''worker'')) s12) = Some t"
    "on_stage dg v k d0 t"
    using worker_passes [OF s12(2), of "sch_at sch ''worker''" "sch_sweep sch" "sch_at sch ''revived''"] plain by blast
  have "driver_cases dg sch s = Some t"
    unfolding driver_cases_def Let_def
    by (simp only: s1(1) s2(1) s3(1) s4(1) s5(1) s6(1) s7(1) s8(1) s9(1) s10(1) s11(1) s12(1) t(1) bind.simps)
  with t(2) show ?thesis by blast
qed

lemma stage_gate:
  assumes "on_stage dg v k d0 s"
  shows "\<not> list_ex (\<lambda>(query, n). n \<noteq> 0) (hard_gate (committed s))"
proof -
  obtain expected where e: "must_be_complete expected = corr_payment" "system_ok expected (committed s) (seqs s)"
    using on_stageD(2) [OF assms] by (auto simp: sound_def healthy_def)
  have "\<forall>(name, n) \<in> set (hard_gate (committed s)). n = 0" by (rule hard_gate_zero [OF e(2)]) (simp add: e(1))
  then show ?thesis by (auto simp: list_ex_iff)
qed

lemma seed_on_stage:
  assumes "sized cfg"
  shows "on_stage dg (seeded_device cfg 1) (seeded_card dg cfg 1) (seed_db dg md5_hex cfg) (seed_database dg md5_hex cfg)"
  using seed_sound [OF assms] seed_steady [OF assms] seed_cast [OF assms] by (simp add: on_stage_def seed_database_def)

text \<open>
  C2. The correctness driver accepts the service on every seeded database: started on the data
  of any profile, every assertion of \<open>main\<close> holds - heartbeat, configuration, cards, the repeated
  key, the races of 2, 10 and 100 requests for one QR code and for one wallet in any order of
  arrival, the command with its deadlines, the dashboard and the three worker sweeps - every
  query of the hard gate counts zero, and the exit code is 0.  The hypothesis on the digest is
  that the two results the driver reports differ in their hash.
\<close>

theorem driver_passes:
  assumes "get_profile name = Inr cfg" "plausible sch"
    and "result_hash dg ''FAILED'' (Some ''HW'') (Some ''different'') \<noteq> result_hash dg ''SUCCESS'' None None"
  shows "driver_main dg sch (seed_database dg md5_hex cfg) = 0"
proof -
  have sized: "sized cfg" by (rule PROFILES_sized [OF assms(1)])
  then have "crewed (seed_db dg md5_hex cfg)" using seed_cast by (simp add: cast_def)
  with driver_cases_pass [OF seed_on_stage [OF sized] _ assms(2,3)]
  obtain t where "driver_cases dg sch (seed_database dg md5_hex cfg) = Some t"
    "on_stage dg (seeded_device cfg 1) (seeded_card dg cfg 1) (seed_db dg md5_hex cfg) t" by blast
  with stage_gate show ?thesis by (simp add: driver_main_def)
qed

text \<open>A run in which every clock stands still and the requests of a race arrive backwards.\<close>

definition still :: "nat \<Rightarrow> reading" where
  "still i = \<lparr>rd_uuid = ''u'', rd_now = FIXED_TS, rd_now2 = FIXED_TS, rd_answered = FIXED_TS\<rparr>"

definition backwards :: "string \<Rightarrow> nat list" where
  "backwards name =
     (if name \<in> {''qr_2'', ''rf_2''} then rev [0..<2]
      else if name \<in> {''qr_10'', ''rf_10''} then rev [0..<10] else rev [0..<100])"

definition demo_schedule :: schedule where
  "demo_schedule = \<lparr>sch_at = (\<lambda>_. FIXED_TS), sch_reading = (\<lambda>_. still), sch_order = backwards,
     sch_sweep = (\<lambda>_. FIXED_TS)\<rparr>"

lemma demo_plausible: "plausible demo_schedule"
proof -
  have dec: "nat_dec 2 = ''2''" "nat_dec 10 = ''10''" "nat_dec 100 = ''100''" by code_simp+
  have far: "FIXED_TS < FAR_TS" by code_simp
  show ?thesis
    unfolding plausible_def Let_def
    by (simp add: dec demo_schedule_def still_def backwards_def race_schedule_def far seconds_def del: upt_rec_numeral)
qed

lemma driver_passes_witness:
  "driver_main demo_digests demo_schedule
     (seed_database demo_digests (\<lambda>_. '''') \<lparr>pf_companies = 10, pf_stations = 50, pf_devices = 500, pf_payments = 100000\<rparr>) = 0"
proof -
  have "get_profile ''D1'' = Inr \<lparr>pf_companies = 10, pf_stations = 50, pf_devices = 500, pf_payments = 100000\<rparr>"
    by (simp add: get_profile_def PROFILES_def)
  moreover have "result_hash demo_digests ''FAILED'' (Some ''HW'') (Some ''different'') \<noteq> result_hash demo_digests ''SUCCESS'' None None"
    by code_simp
  ultimately show ?thesis using driver_passes demo_plausible by blast
qed

section \<open>Races of any size\<close>

text \<open>
  C3. A race for one QR code, whatever its size and order: of the requests with keys of their
  own that name the same code, exactly as many succeed as the code has uses left, every other
  one is answered 409, the counter moves by the number of winners, and as many successful
  payments are recorded.
\<close>

theorem qr_race_served:
  assumes "qr_ready dg h v body company_id wash_bay_id program_id price pre s xs" "0 \<le> qr_left dg body s"
    and "act_all (compete dg h body) xs s = (codes, t)"
  shows "let n = min (length xs) (nat (qr_left dg body s)) in
    count_list codes 200 = n \<and> count_list codes 409 = length xs - n \<and>
    qr_left dg body t = qr_left dg body s - int n \<and> race_payments pre t = race_payments pre s + n"
  using qr_race.all_served [OF assms] by (simp add: qr_race.share_def Let_def)

text \<open>
  C4. A race for one wallet: exactly as many requests succeed as the balance can pay for, every
  other one is answered 409, the balance falls by the price of each winner and no further, and
  one debit is booked per winner.
\<close>

theorem wallet_race_served:
  assumes "rf_ready dg h v body company_id wash_bay_id program_id price pre uid crd s xs" "0 \<le> rf_left crd s"
    and "act_all (compete dg h body) xs s = (codes, t)"
  shows "let n = min (length xs) (nat (rf_left crd s div price)) in
    count_list codes 200 = n \<and> count_list codes 409 = length xs - n \<and> rf_left crd t = rf_left crd s - price * int n \<and>
    length (race_debits pre (committed t)) = length (race_debits pre (committed s)) + n"
  using rf_race.all_served [OF assms] by (simp add: rf_race.share_def Let_def)

text \<open>Two requests race for the code, and for the wallet, of the demonstration database.\<close>

definition calm :: reading where
  "calm = \<lparr>rd_uuid = ''u'', rd_now = 0, rd_now2 = 0, rd_answered = 0\<rparr>"

definition rivals :: "(string \<times> reading) list" where
  "rivals = [(''race-key-1'', calm), (''race-key-2'', calm)]"

lemma demo_race_ready:
  assumes "body = qr_request \<or> body = rf_request"
  shows "race_ready demo_digests demo_headers demo_device body 1 1 1 1000 ''race-'' demo rivals"
proof -
  have "device_authentic demo_digests (committed demo) (x_device_id demo_headers) (device_token (authorization demo_headers)) demo_device"
    by code_simp
  moreover have "program_resolved demo_digests demo_device 1 body (committed demo) 1 1000"
  proof -
    have q: "find_qr (qr_hash demo_digests qr_request) (committed demo) = Some demo_qr" by code_simp
    have "payment_method qr_request = ''QR''" "payment_method rf_request = ''RF_CARD''" "station_program_id rf_request = Some 1"
      "or_zero (displayed_price_minor rf_request) = 1000"
      by (simp_all add: qr_request_def rf_request_def or_zero_def)
    then show ?thesis
      using assms unfolding program_resolved_def
      by (elim disjE) (simp_all add: q, simp_all add: demo_def demo_db_def demo_device_def demo_qr_def)
  qed
  moreover have "guards_pass 0 demo_device body (committed demo) 1 1"
  proof -
    have "configuration_version body = 1" using assms by (auto simp: qr_request_def rf_request_def)
    then show ?thesis
      by (simp add: guards_pass_def demo_def demo_db_def demo_device_def demo_state_def demo_execution_def
          device_online_def configuration_acknowledged_def occupies_bay_def seconds_def)
  qed
  moreover have "\<forall>(key, r) \<in> set rivals. startswith ''race-'' key \<and> valid_request (Payment body key) \<and>
      find_by_key (dev_id demo_device) key (committed demo) = None \<and> rd_now r = 0"
    using assms by (elim disjE) (simp, code_simp)+
  moreover have "distinct (map fst rivals)" by code_simp
  ultimately show ?thesis using demo_healthy unfolding race_ready_def by fastforce
qed

lemma qr_race_served_witness:
  "\<exists>codes t. act_all (compete demo_digests demo_headers qr_request) rivals demo = (codes, t) \<and>
     count_list codes 200 = 1 \<and> count_list codes 409 = 1 \<and> race_payments ''race-'' t = 1"
proof -
  obtain codes t where run: "act_all (compete demo_digests demo_headers qr_request) rivals demo = (codes, t)" by fastforce
  have q: "find_qr (qr_hash demo_digests qr_request) (committed demo) = Some demo_qr" by code_simp
  have "payment_method qr_request = ''QR''" by (simp add: qr_request_def)
  then have "qr_ready demo_digests demo_headers demo_device qr_request 1 1 1 1000 ''race-'' demo rivals"
    using demo_race_ready [of qr_request]
    by (simp add: qr_ready_def q) (simp add: demo_qr_def rivals_def calm_def qr_window_def days_def seconds_def)
  moreover have "qr_left demo_digests qr_request demo = 1" by (simp add: qr_left_def q) (simp add: demo_qr_def)
  moreover have "race_payments ''race-'' demo = 0" by code_simp
  ultimately show ?thesis using qr_race_served [OF _ _ run] run by (simp add: rivals_def Let_def)
qed

lemma wallet_race_served_witness:
  "\<exists>codes t. act_all (compete demo_digests demo_headers rf_request) rivals demo = (codes, t) \<and>
     count_list codes 200 = 1 \<and> count_list codes 409 = 1 \<and> rf_left demo_card t = 0 \<and> length (race_debits ''race-'' (committed t)) = 1"
proof -
  obtain codes t where run: "act_all (compete demo_digests demo_headers rf_request) rivals demo = (codes, t)" by fastforce
  have "normalize_uid (or_empty (rf_uid rf_request)) = Inr ''AABBCCDD00000001''" by code_simp
  moreover have "List.find (\<lambda>c. card_uid_hash c = secret_hash demo_digests ''AABBCCDD00000001'' QR_PEPPER) (rf_cards (committed demo)) = Some demo_card"
    by code_simp
  moreover have "find_wallet (card_id demo_card) (committed demo) = Some demo_wallet" by code_simp
  moreover have "card_usable 0 1 demo_card" by code_simp
  moreover have "payment_method rf_request = ''RF_CARD''" by (simp add: rf_request_def)
  ultimately have "rf_ready demo_digests demo_headers demo_device rf_request 1 1 1 1000 ''race-'' ''AABBCCDD00000001'' demo_card demo rivals"
    using demo_race_ready [of rf_request] by (simp add: rf_ready_def) (simp add: rivals_def calm_def)
  moreover have "rf_left demo_card demo = 1000" by code_simp
  moreover have "length (race_debits ''race-'' (committed demo)) = 0" by code_simp
  ultimately show ?thesis using wallet_race_served [OF _ _ run] run by (simp add: rivals_def Let_def)
qed

end
