(* ===== verification/Constraints.thy ===== *)
theory Constraints
  imports No_Fault
begin

text \<open>
  The schema as a type of the whole database: every PRIMARY KEY, UNIQUE, FOREIGN KEY and CHECK
  of \<open>db/001_schema.sql\<close> and the unique indexes of \<open>db/002_indexes.sql\<close>, table by table.
  PostgreSQL checks a constraint when a row is written; here the constraints hold of all rows
  at once, and every operation of the service keeps them.
\<close>

section \<open>The constraints\<close>

definition unique :: "('r \<Rightarrow> 'k) \<Rightarrow> 'r list \<Rightarrow> bool" where
  "unique k rows \<longleftrightarrow> distinct (map k rows)"

definition refers :: "('r \<Rightarrow> int) \<Rightarrow> 'r list \<Rightarrow> ('t \<Rightarrow> int) \<Rightarrow> 't list \<Rightarrow> bool" where
  "refers k rows kt targets \<longleftrightarrow> (\<forall>r \<in> set rows. has_key kt targets (k r))"

definition refers_opt :: "('r \<Rightarrow> int option) \<Rightarrow> 'r list \<Rightarrow> ('t \<Rightarrow> int) \<Rightarrow> 't list \<Rightarrow> bool" where
  "refers_opt k rows kt targets \<longleftrightarrow> (\<forall>r \<in> set rows. has_key_opt kt targets (k r))"

text \<open>The tables the service only reads.\<close>

definition tenants_typed :: "db \<Rightarrow> bool" where
  "tenants_typed d \<longleftrightarrow>
     unique co_id (companies d) \<and> unique co_external_key (companies d) \<and>
     unique pu_id (panel_users d) \<and> unique pu_token_hash (panel_users d) \<and>
     refers pu_company_id (panel_users d) co_id (companies d) \<and>
     unique st_id (stations d) \<and> unique st_external_key (stations d) \<and>
     refers st_company_id (stations d) co_id (companies d)"

definition devices_typed :: "db \<Rightarrow> bool" where
  "devices_typed d \<longleftrightarrow>
     unique dev_id (devices d) \<and> unique dev_external_key (devices d) \<and>
     refers dev_station_id (devices d) st_id (stations d) \<and>
     (\<forall>v \<in> set (devices d). dev_status v \<in> {ACTIVE, INACTIVE, BLOCKED} \<and> 0 < dev_offline_threshold_seconds v) \<and>
     unique cred_id (device_credentials d) \<and> unique (\<lambda>c. (cred_device_id c, cred_hash c)) (device_credentials d) \<and>
     refers cred_device_id (device_credentials d) dev_id (devices d) \<and>
     (\<forall>c \<in> set (device_credentials d). cred_status c \<in> {ACTIVE, REVOKED}) \<and>
     unique cred_device_id (filter (\<lambda>c. cred_status c = ACTIVE) (device_credentials d)) \<and>
     unique cfg_id (device_configurations d) \<and> unique (\<lambda>c. (cfg_device_id c, cfg_version c)) (device_configurations d) \<and>
     refers cfg_device_id (device_configurations d) dev_id (devices d) \<and>
     (\<forall>c \<in> set (device_configurations d). 0 < cfg_version c \<and> cfg_status c \<in> {PUBLISHED, SUPERSEDED})"

definition programs_typed :: "db \<Rightarrow> bool" where
  "programs_typed d \<longleftrightarrow>
     unique prog_id (programs d) \<and> unique prog_external_key (programs d) \<and>
     refers prog_company_id (programs d) co_id (companies d) \<and>
     (\<forall>p \<in> set (programs d). 0 \<le> prog_price_minor p) \<and>
     unique ppm_id (program_payment_methods d) \<and>
     unique (\<lambda>m. (ppm_program_id m, ppm_payment_method m)) (program_payment_methods d) \<and>
     refers ppm_program_id (program_payment_methods d) prog_id (programs d) \<and>
     (\<forall>m \<in> set (program_payment_methods d). ppm_payment_method m \<in> set payment_methods) \<and>
     unique ent_id (entitlements d) \<and> unique (\<lambda>e. (ent_device_id e, ent_program_id e)) (entitlements d) \<and>
     refers ent_device_id (entitlements d) dev_id (devices d) \<and>
     refers ent_program_id (entitlements d) prog_id (programs d) \<and>
     unique bay_id (wash_bays d) \<and> unique bay_external_key (wash_bays d) \<and>
     unique bay_device_id (filter (\<lambda>w. bay_device_id w \<noteq> None) (wash_bays d)) \<and>
     refers bay_station_id (wash_bays d) st_id (stations d) \<and>
     refers_opt bay_device_id (wash_bays d) dev_id (devices d) \<and>
     (\<forall>w \<in> set (wash_bays d). bay_status w \<in> {IDLE, BUSY, OFFLINE}) \<and>
     unique card_id (rf_cards d) \<and> unique card_uid_hash (rf_cards d) \<and>
     refers card_company_id (rf_cards d) co_id (companies d) \<and>
     (\<forall>c \<in> set (rf_cards d). card_status c \<in> {ACTIVE, BLOCKED})"

text \<open>The tables it writes.\<close>

definition contacts_typed :: "db \<Rightarrow> bool" where
  "contacts_typed d \<longleftrightarrow>
     unique cs_device_id (device_current_states d) \<and>
     refers cs_device_id (device_current_states d) dev_id (devices d) \<and>
     unique hb_id (device_heartbeats d) \<and> refers hb_device_id (device_heartbeats d) dev_id (devices d)"

definition windows_typed :: "db \<Rightarrow> bool" where
  "windows_typed d \<longleftrightarrow>
     unique mw_id (maintenance_windows d) \<and> refers_opt mw_device_id (maintenance_windows d) dev_id (devices d) \<and>
     (\<forall>m \<in> set (maintenance_windows d). check_maintenance m)"

definition alarms_typed :: "db \<Rightarrow> bool" where
  "alarms_typed d \<longleftrightarrow>
     unique al_id (alarms d) \<and> refers al_device_id (alarms d) dev_id (devices d) \<and>
     (\<forall>a \<in> set (alarms d). check_alarm a) \<and>
     unique (\<lambda>a. (al_device_id a, al_alarm_key a)) (filter (\<lambda>a. al_status a = OPEN) (alarms d))"

definition money_typed :: "db \<Rightarrow> bool" where
  "money_typed d \<longleftrightarrow>
     unique qr_id (qr_codes d) \<and> unique qr_token_hash (qr_codes d) \<and>
     refers qr_company_id (qr_codes d) co_id (companies d) \<and> refers qr_station_id (qr_codes d) st_id (stations d) \<and>
     refers qr_program_id (qr_codes d) prog_id (programs d) \<and> (\<forall>q \<in> set (qr_codes d). check_qr_code q) \<and>
     unique wal_id (rf_wallets d) \<and> unique wal_rf_card_id (rf_wallets d) \<and>
     refers wal_rf_card_id (rf_wallets d) card_id (rf_cards d) \<and> (\<forall>w \<in> set (rf_wallets d). check_rf_wallet w)"

definition check_payment :: "payment_transaction \<Rightarrow> bool" where
  "check_payment p \<longleftrightarrow> pay_method p \<in> set payment_methods \<and> 0 \<le> pay_amount_minor p \<and> pay_status p \<in> payment_statuses"

definition payments_typed :: "db \<Rightarrow> bool" where
  "payments_typed d \<longleftrightarrow>
     unique pay_id (payment_transactions d) \<and>
     unique (\<lambda>p. (pay_device_id p, pay_idempotency_key p)) (payment_transactions d) \<and>
     refers pay_device_id (payment_transactions d) dev_id (devices d) \<and>
     refers pay_station_id (payment_transactions d) st_id (stations d) \<and>
     refers_opt pay_program_id (payment_transactions d) prog_id (programs d) \<and>
     refers_opt pay_qr_code_id (payment_transactions d) qr_id (qr_codes d) \<and>
     refers_opt pay_rf_wallet_id (payment_transactions d) wal_id (rf_wallets d) \<and>
     (\<forall>p \<in> set (payment_transactions d). check_payment p)"

definition records_typed :: "db \<Rightarrow> bool" where
  "records_typed d \<longleftrightarrow>
     unique att_id (payment_attempts d) \<and> unique (\<lambda>a. (att_payment_id a, att_attempt_no a)) (payment_attempts d) \<and>
     refers att_payment_id (payment_attempts d) pay_id (payment_transactions d) \<and>
     (\<forall>a \<in> set (payment_attempts d). 0 < att_attempt_no a \<and> att_status a \<in> payment_statuses) \<and>
     unique prov_id (provider_transactions d) \<and> unique prov_payment_id (provider_transactions d) \<and>
     unique prov_provider_ref (provider_transactions d) \<and>
     refers prov_payment_id (provider_transactions d) pay_id (payment_transactions d) \<and>
     (\<forall>t \<in> set (provider_transactions d). prov_status t \<in> payment_statuses)"

definition rights_typed :: "db \<Rightarrow> bool" where
  "rights_typed d \<longleftrightarrow>
     unique sr_id (start_rights d) \<and> unique sr_payment_id (start_rights d) \<and>
     refers sr_payment_id (start_rights d) pay_id (payment_transactions d) \<and>
     refers sr_device_id (start_rights d) dev_id (devices d) \<and> refers sr_wash_bay_id (start_rights d) bay_id (wash_bays d) \<and>
     refers sr_program_id (start_rights d) prog_id (programs d) \<and>
     (\<forall>r \<in> set (start_rights d). sr_status r \<in> {AVAILABLE, CONSUMED, CANCELLED, EXPIRED})"

definition ledger_typed :: "db \<Rightarrow> bool" where
  "ledger_typed d \<longleftrightarrow>
     unique led_id (rf_wallet_ledger d) \<and>
     unique (\<lambda>l. (led_payment_id l, led_direction l)) (filter (\<lambda>l. led_payment_id l \<noteq> None) (rf_wallet_ledger d)) \<and>
     refers led_wallet_id (rf_wallet_ledger d) wal_id (rf_wallets d) \<and>
     refers_opt led_payment_id (rf_wallet_ledger d) pay_id (payment_transactions d) \<and>
     (\<forall>l \<in> set (rf_wallet_ledger d). led_direction l \<in> {DEBIT, CREDIT} \<and> 0 < led_amount_minor l)"

definition log_typed :: "db \<Rightarrow> bool" where
  "log_typed d \<longleftrightarrow>
     unique ev_id (events d) \<and> refers ev_device_id (events d) dev_id (devices d) \<and>
     refers_opt ev_payment_id (events d) pay_id (payment_transactions d) \<and>
     unique aud_id (audit_entries d) \<and> refers aud_payment_id (audit_entries d) pay_id (payment_transactions d)"

definition commands_typed :: "db \<Rightarrow> bool" where
  "commands_typed d \<longleftrightarrow>
     unique exe_id (program_executions d) \<and> unique exe_payment_id (program_executions d) \<and>
     refers exe_payment_id (program_executions d) pay_id (payment_transactions d) \<and>
     refers exe_device_id (program_executions d) dev_id (devices d) \<and>
     refers_opt exe_wash_bay_id (program_executions d) bay_id (wash_bays d) \<and>
     refers_opt exe_program_id (program_executions d) prog_id (programs d) \<and>
     (\<forall>e \<in> set (program_executions d). check_execution e) \<and>
     unique cmd_id (commands d) \<and> unique (\<lambda>c. (cmd_device_id c, cmd_command_key c)) (commands d) \<and>
     refers cmd_device_id (commands d) dev_id (devices d) \<and>
     refers cmd_program_execution_id (commands d) exe_id (program_executions d) \<and>
     (\<forall>c \<in> set (commands d). check_command c)"

definition results_typed :: "db \<Rightarrow> bool" where
  "results_typed d \<longleftrightarrow>
     unique res_id (command_results d) \<and> unique res_command_id (command_results d) \<and>
     unique (\<lambda>r. (res_command_id r, res_result_key r)) (command_results d) \<and>
     refers res_command_id (command_results d) cmd_id (commands d) \<and>
     (\<forall>r \<in> set (command_results d). res_status r \<in> {SUCCESS, FAILED})"

definition schema_typed :: "db \<Rightarrow> bool" where
  "schema_typed d \<longleftrightarrow> tenants_typed d \<and> devices_typed d \<and> programs_typed d \<and> contacts_typed d \<and> windows_typed d \<and>
     alarms_typed d \<and> money_typed d \<and> payments_typed d \<and> records_typed d \<and> rights_typed d \<and> ledger_typed d \<and>
     log_typed d \<and> commands_typed d \<and> results_typed d"

lemmas typed_defs = tenants_typed_def devices_typed_def programs_typed_def contacts_typed_def windows_typed_def
  alarms_typed_def money_typed_def payments_typed_def records_typed_def rights_typed_def ledger_typed_def
  log_typed_def commands_typed_def results_typed_def

section \<open>Rows come and change\<close>

lemma unique_append [row_simps]:
  "unique k (rows @ [r]) \<longleftrightarrow> unique k rows \<and> k r \<notin> k ` set rows"
  by (auto simp: unique_def)

lemma unique_update [row_simps]: "(\<And>r. k (f r) = k r) \<Longrightarrow> unique k (update_where P f rows) \<longleftrightarrow> unique k rows"
  by (simp add: unique_def map_update_where)

lemma refers_append [row_simps]:
  "refers k (rows @ [r]) kt ts \<longleftrightarrow> refers k rows kt ts \<and> has_key kt ts (k r)"
  "refers_opt ko (rows @ [r]) kt ts \<longleftrightarrow> refers_opt ko rows kt ts \<and> has_key_opt kt ts (ko r)"
  by (auto simp: refers_def refers_opt_def)

lemma refers_more: "refers k rows kt ts \<Longrightarrow> refers k rows kt (ts @ ts')" "refers_opt ko rows kt ts \<Longrightarrow> refers_opt ko rows kt (ts @ ts')"
  by (auto simp: refers_def refers_opt_def row_simps)

lemma update_all:
  "(\<And>r. P (f r) = P r) \<Longrightarrow> (\<forall>r \<in> set (update_where Q f rows). P r) \<longleftrightarrow> (\<forall>r \<in> set rows. P r)"
  unfolding update_where_def set_map ball_simps(9) by (simp split: if_split)

lemma refers_update [row_simps]:
  "(\<And>r. k (f r) = k r) \<Longrightarrow> refers k (update_where P f rows) kt ts \<longleftrightarrow> refers k rows kt ts"
  "(\<And>r. ko (f r) = ko r) \<Longrightarrow> refers_opt ko (update_where P f rows) kt ts \<longleftrightarrow> refers_opt ko rows kt ts"
  "(\<And>t. kt (g t) = kt t) \<Longrightarrow> refers k rows kt (update_where R g ts) \<longleftrightarrow> refers k rows kt ts"
  "(\<And>t. kt (g t) = kt t) \<Longrightarrow> refers_opt ko rows kt (update_where R g ts) \<longleftrightarrow> refers_opt ko rows kt ts"
  by (auto simp: refers_def refers_opt_def has_key_opt_def has_key_update_where update_all split: option.splits)

lemma has_key_image: "has_key k rows i \<longleftrightarrow> i \<in> k ` set rows"
  by (simp add: has_key_def)

lemma has_key_opt_update [row_simps]:
  "(\<And>t. kt (g t) = kt t) \<Longrightarrow> has_key_opt kt (update_where R g ts) i \<longleftrightarrow> has_key_opt kt ts i"
  by (simp add: has_key_opt_def has_key_update_where split: option.split)

section \<open>Every operation keeps them\<close>

lemma settles_references:
  assumes "settles dg now device company_id program_id body price d stl d1"
  shows "has_key_opt qr_id (qr_codes d1) (stl_qr_code_id stl) \<and> has_key_opt wal_id (rf_wallets d1) (stl_rf_wallet_id stl)"
  using assms
proof cases
  case (by_qr q)
  then have "has_key qr_id (qr_codes d) (qr_id q)" by (auto simp: find_qr_def has_key_def dest: find_SomeD)
  with by_qr show ?thesis by (simp add: row_simps has_key_opt_def settled_def redeem_def Let_def)
next
  case (by_rf uid c w)
  then have "has_key wal_id (rf_wallets d) (wal_id w)" by (auto simp: has_key_def dest: find_SomeD)
  with by_rf show ?thesis by (simp add: row_simps has_key_opt_def settled_def debit_wallet_def)
qed (simp_all add: has_key_opt_def settled_def failed_with_def)

lemma settles_money:
  assumes stl: "settles dg now device company_id program_id body price d stl d1"
    and typed: "money_typed d" and ok: "financial_ok expected d"
  shows "money_typed d1"
proof -
  note checks = settles_checks [OF stl ok]
  show ?thesis
    using stl
  proof cases
    case (by_qr q)
    with typed checks show ?thesis by (simp add: money_typed_def row_simps redeem_def Let_def)
  next
    case (by_rf uid c w)
    with typed checks show ?thesis by (simp add: money_typed_def row_simps debit_wallet_def)
  qed (use typed in simp_all)
qed

lemma settles_keys:
  assumes "settles dg now device company_id program_id body price d stl d1"
  shows "qr_id ` set (qr_codes d1) = qr_id ` set (qr_codes d) \<and> wal_id ` set (rf_wallets d1) = wal_id ` set (rf_wallets d)"
proof -
  have same: "k ` set (update_where P f rows) = k ` set rows" if "\<And>r. k (f r) = k r" for k :: "'r \<Rightarrow> int" and P f rows
    using has_key_update_where [of k f, OF that] by (auto simp: has_key_def set_eq_iff)
  show ?thesis
    using assms by cases (simp_all add: same redeem_def debit_wallet_def Let_def)
qed

lemma refers_keys:
  "kt ` set ts = kt ` set ts' \<Longrightarrow> refers k rows kt ts = refers k rows kt ts'"
  "kt ` set ts = kt ` set ts' \<Longrightarrow> refers_opt ko rows kt ts = refers_opt ko rows kt ts'"
  by (simp_all add: refers_def refers_opt_def has_key_opt_def has_key_def split: option.splits)

lemma mock_ref_unique:
  assumes "links_ok d" "unique prov_payment_id (provider_transactions d)"
  shows "unique prov_provider_ref (provider_transactions d)"
proof -
  have "inj_on prov_provider_ref (set (provider_transactions d))"
  proof (rule inj_onI)
    fix t t' assume t: "t \<in> set (provider_transactions d)" "t' \<in> set (provider_transactions d)" "prov_provider_ref t = prov_provider_ref t'"
    then have "prov_payment_id t = prov_payment_id t'" using assms(1) by (simp add: links_ok_def)
    with t(1,2) assms(2) show "t = t'" by (auto simp: unique_def dest: distinct_key_eq)
  qed
  with assms(2) show ?thesis by (simp add: unique_def distinct_map)
qed

lemma typed_pays:
  assumes h: "healthy expected d sq" and typed: "schema_typed d" and pays: "pays dg now device body key sq d i stl sq' d'"
  shows "schema_typed d'"
  using pays
proof cases
  case (pays company bay program price d1)
  obtain qs ws where d1: "d1 = d\<lparr>qr_codes := qs, rf_wallets := ws\<rparr>" using settles_frame [OF pays(6)] by blast
  note keys = settles_keys [OF pays(6)]
  have old: "tenants_typed d" "devices_typed d" "programs_typed d" "contacts_typed d" "windows_typed d" "alarms_typed d"
    "money_typed d" "payments_typed d" "records_typed d" "rights_typed d" "ledger_typed d" "log_typed d" "commands_typed d" "results_typed d"
    using typed by (simp_all add: schema_typed_def)
  have fresh: "below att_id (sq AttemptSeq) (payment_attempts d)" "below prov_id (sq ProviderSeq) (provider_transactions d)"
    "below sr_id (sq StartRightSeq) (start_rights d)" "below led_id (sq LedgerSeq) (rf_wallet_ledger d)"
    "below ev_id (sq EventSeq) (events d)" "below aud_id (sq AuditSeq) (audit_entries d)"
    using h by (simp_all add: healthy_def integrity_def ids_fresh_def)
  note fresh = fresh [THEN below_fresh, unfolded has_key_def]
  define p where "p = payment_row now device key (request_hash dg body) (payment_method body) program stl (sq PaymentSeq)"
  have p: "pay_id p = sq PaymentSeq" "pay_device_id p = dev_id device" "pay_status p = stl_status stl"
    by (simp_all add: p_def payment_row_def)
  have acc: "insertable_payment d1 p"
    "(sq PaymentSeq, 1) \<notin> (\<lambda>r. (att_payment_id r, att_attempt_no r)) ` set (payment_attempts d)"
    "payment_method body = ''CARD'' \<Longrightarrow> \<not> has_key prov_payment_id (provider_transactions d) (sq PaymentSeq)"
    "\<And>w. stl_rf_wallet_id stl = Some w \<Longrightarrow> payment_method body = ''RF_CARD'' \<Longrightarrow> stl_status stl = SUCCESS \<Longrightarrow>
       0 < price \<and> has_key wal_id ws w \<and> (Some (sq PaymentSeq), DEBIT) \<notin> (\<lambda>r. (led_payment_id r, led_direction r)) ` set (rf_wallet_ledger d)"
    "stl_status stl = SUCCESS \<Longrightarrow> \<not> has_key sr_payment_id (start_rights d) (sq PaymentSeq)"
    using pays(7) by (simp_all add: accepted_def Let_def d1 p_def)
  have tab: "payment_transactions d' = payment_transactions d @ [p]"
    "payment_attempts d' = payment_attempts d @ [attempt_row now (sq PaymentSeq) (stl_status stl) (sq AttemptSeq)]"
    "provider_transactions d' = provider_transactions d @
       (if payment_method body = ''CARD'' then [provider_row now (sq PaymentSeq) (stl_status stl) (sq ProviderSeq)] else [])"
    by (simp_all add: pays(3) d1 p_def)
  have "money_typed d'"
  proof -
    have "financial_ok expected d" using h by (simp add: healthy_def system_ok_def)
    from settles_money [OF pays(6) old(7) this] show ?thesis by (simp add: money_typed_def d1 pays(3))
  qed
  moreover have "payments_typed d'"
    using old(8) acc(1) keys refers_keys(2) [of qr_id "qr_codes d1" "qr_codes d" pay_qr_code_id "payment_transactions d"]
      refers_keys(2) [of wal_id "rf_wallets d1" "rf_wallets d" pay_rf_wallet_id "payment_transactions d"]
    by (simp add: payments_typed_def pays(3) d1 p_def [symmetric] row_simps insertable_payment_def check_payment_def has_key_def)
  moreover have "records_typed d'"
  proof -
    have more: "refers att_payment_id (payment_attempts d) pay_id (payment_transactions d @ [p])"
      "refers prov_payment_id (provider_transactions d) pay_id (payment_transactions d @ [p])"
      using old(9) by (simp_all add: records_typed_def refers_more)
    have "unique prov_payment_id (provider_transactions d')"
      using old(9) acc(3) by (simp add: records_typed_def tab row_simps provider_row_def has_key_def)
    moreover have "links_ok d'" using integrity_pays [OF _ assms(3)] h by (simp add: healthy_def integrity_def)
    ultimately have "unique prov_provider_ref (provider_transactions d')" by (intro mock_ref_unique)
    then show ?thesis
      using old(9) more fresh acc(1-3)
      by (simp add: records_typed_def tab row_simps provider_row_def attempt_row_def has_key_image p insertable_payment_def)
  qed
  moreover have "rights_typed d'"
  proof -
    have "refers sr_payment_id (start_rights d) pay_id (payment_transactions d @ [p])"
      using old(10) by (simp add: rights_typed_def refers_more)
    moreover obtain w where "List.find (\<lambda>w. bay_device_id w = Some (dev_id device)) (wash_bays d) = Some w" "bay_id w = bay"
      using pays(4) unfolding guards_pass_def by blast
    then have "has_key bay_id (wash_bays d) bay" by (auto simp: has_key_def dest: find_SomeD)
    moreover obtain r where "List.find (\<lambda>p. prog_id p = program \<and> prog_company_id p = company \<and> prog_active p) (programs d) = Some r"
      using pays(5) unfolding program_resolved_def by blast
    then have "r \<in> set (programs d)" "prog_id r = program" by (auto dest: find_SomeD find_SomeD_prop)
    then have "has_key prog_id (programs d) program" by (auto simp: has_key_def)
    ultimately show ?thesis
      using old(10) fresh acc(1,5)
      by (simp add: rights_typed_def pays(3) d1 p_def [symmetric] row_simps start_right_row_def has_key_image p insertable_payment_def)
  qed
  moreover have "ledger_typed d'"
  proof -
    have "refers_opt led_payment_id (rf_wallet_ledger d) pay_id (payment_transactions d @ [p])"
      using old(11) by (simp add: ledger_typed_def refers_more)
    then have more: "ledger_typed (d'\<lparr>rf_wallet_ledger := rf_wallet_ledger d\<rparr>)"
      using old(11) keys refers_keys(1) [of wal_id "rf_wallets d1" "rf_wallets d" led_wallet_id "rf_wallet_ledger d"]
      by (simp add: ledger_typed_def pays(3) d1 p_def [symmetric])
    show ?thesis
    proof (cases "payment_method body = ''RF_CARD'' \<and> stl_status stl = SUCCESS \<and> stl_rf_wallet_id stl \<noteq> None")
      case True
      then obtain w where w: "stl_rf_wallet_id stl = Some w" by blast
      let ?l = "ledger_row now (sq PaymentSeq) w price (sq LedgerSeq)"
      have l: "led_id ?l = sq LedgerSeq" "led_payment_id ?l = Some (sq PaymentSeq)" "led_direction ?l = DEBIT"
        "led_wallet_id ?l = w" "led_amount_minor ?l = price" by (simp_all add: ledger_row_def)
      have "0 < price" "has_key wal_id ws w"
        and out: "(Some (sq PaymentSeq), DEBIT) \<notin> (\<lambda>r. (led_payment_id r, led_direction r)) ` set (rf_wallet_ledger d)"
        using acc(4) [OF w] True by simp_all
      moreover have "(Some (sq PaymentSeq), DEBIT) \<notin> (\<lambda>r. (led_payment_id r, led_direction r)) `
          set (filter (\<lambda>l. led_payment_id l \<noteq> None) (rf_wallet_ledger d))" using out by auto
      moreover have "rf_wallet_ledger d' = rf_wallet_ledger d @ [?l]" using True w by (simp add: pays(3) d1)
      moreover have "rf_wallets d' = ws" by (simp add: pays(3) d1)
      ultimately show ?thesis
        using more fresh(4) by (simp add: ledger_typed_def row_simps l tab p has_key_opt_def)
    next
      case False
      then have "rf_wallet_ledger d' = rf_wallet_ledger d" by (auto simp: pays(3) d1)
      with more show ?thesis by (simp add: ledger_typed_def)
    qed
  qed
  moreover have "log_typed d'"
  proof -
    have "refers_opt ev_payment_id (events d) pay_id (payment_transactions d @ [p])"
      "refers aud_payment_id (audit_entries d) pay_id (payment_transactions d @ [p])"
      using old(12) by (simp_all add: log_typed_def refers_more)
    then show ?thesis
      using old(12) fresh acc(1)
      by (simp add: log_typed_def pays(3) d1 p_def [symmetric] row_simps payment_event_def payment_audit_def has_key_opt_def has_key_image p insertable_payment_def)
  qed
  moreover have "commands_typed d'"
    using old(13) by (simp add: commands_typed_def pays(3) d1 refers_more)
  ultimately show ?thesis
    using old by (simp add: schema_typed_def tenants_typed_def devices_typed_def programs_typed_def contacts_typed_def
      windows_typed_def alarms_typed_def results_typed_def pays(3) d1)
qed

lemma update_checked:
  "(\<And>r. chk (f r)) \<Longrightarrow> \<forall>r \<in> set rows. chk r \<Longrightarrow> \<forall>r \<in> set (update_where P f rows). chk r"
  unfolding update_where_def set_map ball_simps(9) by simp

text \<open>Commands and executions change their statuses and times only.\<close>

lemma typed_command_update:
  assumes typed: "schema_typed d"
    and f: "\<And>c. cmd_id (f c) = cmd_id c \<and> cmd_device_id (f c) = cmd_device_id c \<and> cmd_command_key (f c) = cmd_command_key c \<and>
      cmd_program_execution_id (f c) = cmd_program_execution_id c \<and> check_command (f c)"
    and g: "\<And>e. exe_id (g e) = exe_id e \<and> exe_payment_id (g e) = exe_payment_id e \<and> exe_device_id (g e) = exe_device_id e \<and>
      exe_wash_bay_id (g e) = exe_wash_bay_id e \<and> exe_program_id (g e) = exe_program_id e \<and> check_execution (g e)"
  shows "schema_typed (d\<lparr>commands := update_where P f (commands d), program_executions := update_where R g (program_executions d)\<rparr>)"
proof -
  let ?d = "d\<lparr>commands := update_where P f (commands d), program_executions := update_where R g (program_executions d)\<rparr>"
  have ids: "cmd_id (f c) = cmd_id c" "cmd_device_id (f c) = cmd_device_id c" "cmd_command_key (f c) = cmd_command_key c"
    "cmd_program_execution_id (f c) = cmd_program_execution_id c" "check_command (f c)" for c using f by simp_all
  have ids': "exe_id (g e) = exe_id e" "exe_payment_id (g e) = exe_payment_id e" "exe_device_id (g e) = exe_device_id e"
    "exe_wash_bay_id (g e) = exe_wash_bay_id e" "exe_program_id (g e) = exe_program_id e" "check_execution (g e)" for e
    using g by simp_all
  have old: "commands_typed d" "results_typed d" using typed by (simp_all add: schema_typed_def)
  have "\<forall>c \<in> set (update_where P f (commands d)). check_command c"
    by (rule update_checked [where f = f and chk = check_command, OF ids(5)]) (use old(1) in \<open>simp add: commands_typed_def\<close>)
  moreover have "\<forall>e \<in> set (update_where R g (program_executions d)). check_execution e"
    by (rule update_checked [where f = g and chk = check_execution, OF ids'(6)]) (use old(1) in \<open>simp add: commands_typed_def\<close>)
  ultimately have "commands_typed ?d"
    using old(1) by (simp add: commands_typed_def unique_update refers_update ids ids')
  moreover have "results_typed ?d"
    using old(2) by (simp add: results_typed_def refers_update ids)
  ultimately show ?thesis
    using typed by (simp add: schema_typed_def tenants_typed_def devices_typed_def programs_typed_def contacts_typed_def
      windows_typed_def alarms_typed_def money_typed_def payments_typed_def records_typed_def rights_typed_def
      ledger_typed_def log_typed_def)
qed

lemma typed_mark_all: "schema_typed d \<Longrightarrow> schema_typed (fold (mark_db now) rows d)"
proof (induction rows arbitrary: d)
  case (Cons row rows)
  have "schema_typed (mark_db now row d)"
    unfolding mark_db_def
    by (cases "cmd_status row = PENDING")
      (simp_all add: Cons.prems typed_command_update mark_sent_def set_exe_status_def check_command_def check_execution_def)
  then show ?case using Cons.IH by simp
qed simp

lemma typed_ack: "schema_typed d \<Longrightarrow> schema_typed (ack_db now c d)"
  unfolding ack_db_def
  by (rule typed_command_update) (simp_all add: acknowledge_def start_running_def check_command_def check_execution_def)

lemma typed_log_result:
  assumes typed: "schema_typed d" and r: "insertable_result d r" and e: "insertable_event d e"
  shows "schema_typed (d\<lparr>command_results := command_results d @ [r], events := events d @ [e]\<rparr>)"
proof -
  let ?d = "d\<lparr>command_results := command_results d @ [r], events := events d @ [e]\<rparr>"
  have "results_typed ?d"
    using typed r by (auto simp: schema_typed_def results_typed_def row_simps insertable_result_def has_key_image)
  moreover have "log_typed ?d"
    using typed e by (simp add: schema_typed_def log_typed_def row_simps insertable_event_def has_key_image)
  ultimately show ?thesis
    using typed by (simp add: schema_typed_def tenants_typed_def devices_typed_def programs_typed_def contacts_typed_def
      windows_typed_def alarms_typed_def money_typed_def payments_typed_def records_typed_def rights_typed_def
      ledger_typed_def commands_typed_def)
qed

text \<open>A device that speaks, and the worker's alarms and windows.\<close>

lemma typed_contacts:
  assumes "schema_typed d" "contacts_typed (d\<lparr>device_heartbeats := hs, device_current_states := cs\<rparr>)"
  shows "schema_typed (d\<lparr>device_heartbeats := hs, device_current_states := cs\<rparr>)"
  using assms by (simp add: schema_typed_def tenants_typed_def devices_typed_def programs_typed_def
    windows_typed_def alarms_typed_def money_typed_def payments_typed_def records_typed_def rights_typed_def
    ledger_typed_def log_typed_def commands_typed_def results_typed_def)

lemma typed_watch:
  assumes "schema_typed d" "windows_typed (d\<lparr>maintenance_windows := ms\<rparr>)" "alarms_typed (d\<lparr>alarms := as\<rparr>)"
  shows "schema_typed (d\<lparr>maintenance_windows := ms, alarms := as\<rparr>)"
  using assms by (simp add: schema_typed_def tenants_typed_def devices_typed_def programs_typed_def contacts_typed_def
    windows_typed_def alarms_typed_def money_typed_def payments_typed_def records_typed_def rights_typed_def
    ledger_typed_def log_typed_def commands_typed_def results_typed_def)

section \<open>The service keeps them\<close>

definition typed_system :: "expectation \<Rightarrow> db \<Rightarrow> (seq \<Rightarrow> int) \<Rightarrow> bool" where
  "typed_system expected d sq \<longleftrightarrow> healthy expected d sq \<and> schema_typed d"

lemma keeps_typedI:
  assumes "keeps (healthy expected) m"
    and "\<And>s. working s = committed s \<Longrightarrow> typed_system expected (committed s) (seqs s) \<Longrightarrow>
      wp m (\<lambda>_ t. schema_typed (committed t)) (\<lambda>_ t. schema_typed (committed t)) s"
  shows "keeps (typed_system expected) m"
proof (rule keepsI)
  fix s :: session
  assume s: "working s = committed s" "typed_system expected (committed s) (seqs s)"
  then have "healthy expected (committed s) (seqs s)" by (simp add: typed_system_def)
  note wp_conj [OF keepsD [OF assms(1) s(1) this] assms(2) [OF s]]
  then show "wp m (\<lambda>_ t. typed_system expected (committed t) (seqs t)) (\<lambda>_ t. typed_system expected (committed t) (seqs t)) s"
    by (simp add: typed_system_def)
qed

lemma typed_create_payment: "keeps (typed_system expected) (create_payment dg now device body key)"
  by (rule keeps_typedI [OF healthy_create_payment], rule create_payment_wpI) (auto simp: typed_system_def intro: typed_pays)

lemma typed_pending_commands: "keeps (typed_system expected) (pending_commands now device_id limit)"
  by (rule keeps_typedI [OF healthy_pending_commands]) (simp add: wp_pending_commands Let_def typed_system_def typed_mark_all)

lemma typed_acknowledge_command: "keeps (typed_system expected) (acknowledge_command now device_id command_id)"
  by (rule keeps_typedI [OF healthy_acknowledge_command])
    (auto simp: wp_acknowledge_command Let_def typed_system_def typed_ack split: option.splits)

lemma typed_result:
  assumes "typed_system expected d sq" "find_command device_id command_id d = Some c" "insertable_result d
      (result_row now (cmd_id c) key hash result st code message (sq ResultSeq))" "st \<in> {SUCCESS, FAILED}"
  shows "schema_typed (result_db now device_id c result st code message key hash sq d)"
proof -
  let ?r = "result_row now (cmd_id c) key hash result st code message (sq ResultSeq)"
  let ?e = "execution_event now device_id (cmd_id c) result code (sq EventSeq)"
  have typed: "schema_typed d" using assms(1) by (simp add: typed_system_def)
  have "has_key dev_id (devices d) device_id"
    using typed find_commandD(1,3) [OF assms(2)] by (auto simp: schema_typed_def commands_typed_def refers_def)
  moreover have "\<not> has_key ev_id (events d) (sq EventSeq)"
    using assms(1) by (intro below_fresh) (simp add: typed_system_def healthy_def integrity_def ids_fresh_def)
  ultimately have "insertable_event d ?e"
    by (simp add: insertable_event_def execution_event_def has_key_opt_def)
  from typed_log_result [OF typed assms(3) this]
  have "schema_typed (d\<lparr>command_results := command_results d @ [?r], events := events d @ [?e]\<rparr>)" .
  note upd = typed_command_update [where f = "complete_command now st code" and g = "complete_execution now st" and
    P = "\<lambda>r. cmd_id r = cmd_id c" and R = "\<lambda>e. exe_id e = cmd_program_execution_id c", OF this]
  have "result_db now device_id c result st code message key hash sq d =
      d\<lparr>command_results := command_results d @ [?r], events := events d @ [?e],
        commands := update_where (\<lambda>r. cmd_id r = cmd_id c) (complete_command now st code) (commands d),
        program_executions := update_where (\<lambda>e. exe_id e = cmd_program_execution_id c) (complete_execution now st) (program_executions d)\<rparr>"
    by (simp add: result_db_def)
  with upd assms(4) show ?thesis
    by (auto simp: complete_command_def complete_execution_def check_command_def check_execution_def)
qed

lemma typed_command_result:
  "keeps (typed_system expected) (apply_command_result dg now device_id command_id result code message key)"
proof (rule keeps_typedI [OF healthy_command_result])
  fix s :: session
  assume s: "working s = committed s" "typed_system expected (committed s) (seqs s)"
  let ?I = "\<lambda>t :: session. schema_typed (committed t)"
  have "wp (store_result now device_id c result st code message key hash) (\<lambda>_. ?I) (\<lambda>_. ?I) s"
    if "st \<in> {SUCCESS, FAILED}" "find_command device_id command_id (committed s) = Some c" for c st hash
    by (rule store_result_wpI [OF that(1)])
      (use s typed_result [OF s(2) that(2) _ that(1)] in \<open>simp_all add: Let_def typed_system_def\<close>)
  with s show "wp (apply_command_result dg now device_id command_id result code message key) (\<lambda>_. ?I) (\<lambda>_. ?I) s"
    by (auto simp: apply_command_result_def wp_control Let_def typed_system_def split: option.splits dest: result_status_iff)
qed

lemma refers_upsert:
  assumes "refers cs_device_id rows dev_id vs" "has_key dev_id vs i"
  shows "refers cs_device_id (upsert_state now i app payload rows) dev_id vs"
proof -
  have "cs_device_id (touch_state now app payload c) = cs_device_id c" for c by (simp add: touch_state_def)
  then show ?thesis
    using assms by (simp add: upsert_state_def refers_update refers_append new_current_state_def)
qed

lemma typed_record_heartbeat: "keeps (typed_system expected) (record_heartbeat now device_id sequence app_version state)"
proof (rule keeps_typedI [OF healthy_record_heartbeat])
  fix s :: session
  assume s: "working s = committed s" "typed_system expected (committed s) (seqs s)"
  let ?d = "committed s" and ?row = "heartbeat_row (seqs s HeartbeatSeq) now device_id sequence state"
  have typed: "schema_typed ?d" using s(2) by (simp add: typed_system_def)
  have fresh: "\<not> has_key hb_id (device_heartbeats ?d) (seqs s HeartbeatSeq)"
    using s(2) by (intro below_fresh) (simp add: typed_system_def healthy_def integrity_def ids_fresh_def)
  show "wp (record_heartbeat now device_id sequence app_version state)
      (\<lambda>_ t. schema_typed (committed t)) (\<lambda>_ t. schema_typed (committed t)) s"
  proof (cases "has_key dev_id (devices ?d) device_id")
    case True
    have "contacts_typed (?d\<lparr>device_heartbeats := device_heartbeats ?d @ [?row],
        device_current_states := upsert_state now device_id app_version (state_payload state) (device_current_states ?d)\<rparr>)"
    proof -
      have old: "contacts_typed ?d" using typed by (simp add: schema_typed_def)
      have "refers cs_device_id (upsert_state now device_id app_version (state_payload state) (device_current_states ?d)) dev_id (devices ?d)"
        by (rule refers_upsert [OF _ True]) (use old in \<open>simp add: contacts_typed_def\<close>)
      moreover have "unique cs_device_id (upsert_state now device_id app_version (state_payload state) (device_current_states ?d))"
        using old distinct_upsert_state by (simp add: contacts_typed_def unique_def)
      ultimately show ?thesis
        using old fresh True by (simp add: contacts_typed_def unique_append refers_append heartbeat_row_def has_key_image)
    qed
    from typed_contacts [OF typed this] show ?thesis
      using True fresh s(1) by (simp add: record_heartbeat_wp Let_def)
  next
    case False
    then show ?thesis
      using typed s(1) by (simp add: record_heartbeat_def Let_def wp_rules insertable_heartbeat_def)
  qed
qed

lemma alarms_evaluate:
  assumes "\<forall>(k, w) \<in> set kvs. has_key dev_id vs (fst k)" "refers al_device_id (alarms (snd x)) dev_id vs"
    "\<forall>a \<in> set (alarms (snd x)). check_alarm a"
  shows "refers al_device_id (alarms (snd (evaluate now kvs x))) dev_id vs \<and> (\<forall>a \<in> set (alarms (snd (evaluate now kvs x))). check_alarm a)"
  using assms
proof (induction kvs arbitrary: x)
  case (Cons kv kvs)
  let ?x = "decide (raise_alarm now) (clear_alarm now) kv x"
  obtain k w where kv: "kv = (k, w)" by (cases kv)
  have res: "al_device_id (resolve_row now a) = al_device_id a" "check_alarm (resolve_row now a)" for a
    by (simp_all add: resolve_row_def check_alarm_def)
  have new: "al_device_id (open_row now i j m) = i" "check_alarm (open_row now i j m)" for i j m
    by (simp_all add: open_row_def check_alarm_def)
  have upd: "\<forall>a \<in> set (update_where P (resolve_row now) as). check_alarm a" if "\<forall>a \<in> set as. check_alarm a" for P as
    by (rule update_checked [where f = "resolve_row now", OF res(2) that])
  have "refers al_device_id (alarms (snd ?x)) dev_id vs \<and> (\<forall>a \<in> set (alarms (snd ?x)). check_alarm a)"
  proof (cases w)
    case Raise
    then show ?thesis using Cons.prems kv by (simp add: raise_alarm_def insert_when_def refers_append new)
  next
    case Clear
    then show ?thesis
      using Cons.prems kv by (simp add: clear_alarm_def refers_update res(1) upd split: option.split)
  qed (use Cons.prems kv in simp)
  then show ?case using Cons.IH [of ?x] Cons.prems(1) by (simp add: evaluate_def)
qed (simp add: evaluate_def)

lemma typed_swept:
  assumes sw: "sweepable sq d" and typed: "schema_typed d"
  shows "schema_typed (snd (swept now (sq, d)))"
proof -
  let ?x = "swept now (sq, d)"
  obtain as where d: "snd ?x = (maintain now d)\<lparr>alarms := as\<rparr>" using swept_rest [of now "(sq, d)"] by auto
  have sw': "sweepable (fst ?x) (snd ?x)" using sweepable_swept [of "(sq, d)"] sw by simp
  have "\<forall>(k, w) \<in> set (sweep_verdicts now d). has_key dev_id (devices d) (fst k)"
    using sw device_rows_keys(2) [of "maintain now d"] failing_devices_keys(2) [of d]
    by (auto simp: sweep_verdicts_def device_verdicts_def failure_verdicts_def verdict_on_def failure_verdict_def sweepable_def)
  moreover have "alarms_typed d" "windows_typed d" using typed by (simp_all add: schema_typed_def)
  ultimately have "refers al_device_id as dev_id (devices d) \<and> (\<forall>a \<in> set as. check_alarm a)"
    using alarms_evaluate [of "sweep_verdicts now d" "devices d" "(sq, maintain now d)" now] d
    by (simp add: alarms_typed_def swept_def)
  then have alarms: "alarms_typed (d\<lparr>alarms := as\<rparr>)"
    using sw' by (simp add: alarms_typed_def unique_def sweepable_def alarms_ok_def d)
  have "set_mw_status st m = m\<lparr>mw_status := st\<rparr>" for st m by (simp add: set_mw_status_def)
  then have "windows_typed (d\<lparr>maintenance_windows := maintenance_windows (maintain now d)\<rparr>)"
    using \<open>windows_typed d\<close> sw' by (simp add: windows_typed_def d sweepable_def) (simp add: maintain_def unique_update refers_update)
  from typed_watch [OF typed this alarms] show ?thesis by (simp add: d maintain_def)
qed

lemma typed_sweep: "keeps (typed_system expected) (sweep_target_runtime now)"
proof (rule keeps_typedI [OF healthy_sweep])
  fix s :: session
  assume s: "working s = committed s" "typed_system expected (committed s) (seqs s)"
  then have sw: "sweepable (seqs s) (working s)" by (simp add: typed_system_def healthy_def system_ok_def)
  with s show "wp (sweep_target_runtime now) (\<lambda>_ t. schema_typed (committed t)) (\<lambda>_ t. schema_typed (committed t)) s"
    by (simp add: wp_sweep Let_def typed_system_def typed_swept)
qed

interpretation typed: service_invariant "typed_system expected" for expected
  by unfold_locales
    (rule typed_create_payment typed_pending_commands typed_acknowledge_command typed_command_result
      typed_record_heartbeat typed_sweep)+

end
