(* ===== verification/Seed_Constraints.thy ===== *)
theory Seed_Constraints
  imports Constraints Seed_Properties
begin

text \<open>
  The seeded databases satisfy the whole schema: every INSERT of \<open>db/seed/seed.py\<close> is accepted,
  and what is proved of typed states applies to every benchmark run.
\<close>

section \<open>Keys of numbered rows\<close>

lemma unique_range: "unique k (map h [1..n :: int]) \<longleftrightarrow> inj_on (\<lambda>g. k (h g)) {1..n}"
  by (simp add: unique_def distinct_map inj_on_def)

lemma unique_range_id: "(\<And>g. k (h g) = g) \<Longrightarrow> unique k (map h [1..n :: int])"
  by (simp add: unique_range)

lemma unique_range_pad:
  "(\<And>g. k (h g) = pre @ lpad (int_dec g) w) \<Longrightarrow> n < 10 ^ w \<Longrightarrow> 0 < w \<Longrightarrow> unique k (map h [1..n :: int])"
  unfolding unique_range by (intro inj_onI) (simp add: lpad_inject)

lemma has_key_range [simp]:
  assumes "\<And>g. kt (f g) = g"
  shows "has_key kt (map f [1..m :: int]) i \<longleftrightarrow> 1 \<le> i \<and> i \<le> m"
  by (simp add: has_key_def image_image assms)

lemma refers_range:
  assumes "\<And>g. kt (f g) = g" "\<And>g. 1 \<le> g \<Longrightarrow> g \<le> n \<Longrightarrow> 1 \<le> k (h g) \<and> k (h g) \<le> m"
  shows "refers k (map h [1..n :: int]) kt (map f [1..m])"
  using assms by (simp add: refers_def)

lemma refers_opt_range:
  assumes "\<And>g. kt (f g) = g" "\<And>g i. 1 \<le> g \<Longrightarrow> g \<le> n \<Longrightarrow> k (h g) = Some i \<Longrightarrow> 1 \<le> i \<and> i \<le> m"
  shows "refers_opt k (map h [1..n :: int]) kt (map f [1..m])"
  using assms by (auto simp: refers_opt_def has_key_opt_def split: option.split)

text \<open>The three programs of a company.\<close>

lemma third_program: "1 \<le> c \<Longrightarrow> c \<le> n \<Longrightarrow> 0 \<le> k \<Longrightarrow> k < 3 \<Longrightarrow> 1 \<le> (c - 1) * 3 + k + 1 \<and> (c - 1) * 3 + k + 1 \<le> n * (3 :: int)"
  by auto

lemma program_company: "1 \<le> g \<Longrightarrow> g \<le> n * 3 \<Longrightarrow> 1 \<le> (g - 1) div 3 + 1 \<and> (g - 1) div 3 + 1 \<le> (n :: int)"
  by linarith

section \<open>What the profiles and the digests have to satisfy\<close>

text \<open>No number outgrows the width its key is padded to: a longer one would be cut.\<close>

definition padded :: "profile \<Rightarrow> bool" where
  "padded cfg \<longleftrightarrow> sized cfg \<and> pf_companies cfg * 3 < 10 ^ 6 \<and> pf_stations cfg < 10 ^ 6 \<and> pf_devices cfg < 10 ^ 7"

lemma PROFILES_padded: "get_profile name = Inr cfg \<Longrightarrow> padded cfg"
  using PROFILES_sized [of name cfg] by (auto simp: get_profile_def PROFILES_def padded_def split: if_splits)

text \<open>No two of the seeded secrets have the same digest.\<close>

definition no_collisions :: "digests \<Rightarrow> profile \<Rightarrow> bool" where
  "no_collisions dg cfg \<longleftrightarrow>
     inj_on (\<lambda>g. sha256_hex dg (encode (''panel-company-'' @ int_dec g))) {1..pf_companies cfg} \<and>
     inj_on (\<lambda>g. hmac_sha256_hex dg (encode QR_PEPPER) (encode (''qr-token-'' @ int_dec g))) {1..seed_qr_count cfg} \<and>
     inj_on (\<lambda>g. hmac_sha256_hex dg (encode QR_PEPPER) (encode (seeded_uid g))) {1..seed_wallet_count cfg}"

section \<open>The remaining tables in closed form\<close>

definition seeded_company :: "int \<Rightarrow> company" where
  "seeded_company g = \<lparr>co_id = g, co_external_key = ''cmp-'' @ lpad (int_dec g) 6, co_name = ''Company '' @ int_dec g\<rparr>"

definition seeded_program :: "int \<Rightarrow> program" where
  "seeded_program g =
     \<lparr>prog_id = g, prog_company_id = (g - 1) div 3 + 1, prog_external_key = ''prg-'' @ lpad (int_dec g) 6,
      prog_name = ''Program '' @ int_dec g, prog_price_minor = 1000 + (g - 1) mod 3 * 500, prog_active = True\<rparr>"

definition seeded_user :: "digests \<Rightarrow> int \<Rightarrow> panel_user" where
  "seeded_user dg g = \<lparr>pu_id = g, pu_company_id = g,
     pu_token_hash = sha256_hex dg (encode (''panel-company-'' @ int_dec g)), pu_active = True\<rparr>"

definition seeded_credential :: "digests \<Rightarrow> int \<Rightarrow> device_credential" where
  "seeded_credential dg g = \<lparr>cred_id = g, cred_device_id = g,
     cred_hash = sha256_hex dg (encode (''credential-'' @ int_dec g)), cred_status = ACTIVE,
     cred_issued_at = FIXED_TS, cred_revoked_at = None\<rparr>"

definition seeded_heartbeat :: "int \<Rightarrow> device_heartbeat" where
  "seeded_heartbeat g = \<lparr>hb_id = g, hb_device_id = g, hb_occurred_at = FIXED_TS + seconds (g mod 60),
     hb_received_at = FIXED_TS + seconds (g mod 60), hb_sequence = Some g, hb_payload = ''{}''\<rparr>"

definition seeded_state :: "int \<Rightarrow> device_current_state" where
  "seeded_state g = \<lparr>cs_device_id = g, cs_last_seen_at = Some (FIXED_TS + seconds (g mod 60)),
     cs_app_version = Some ''1.0.0'', cs_state_payload = ''{}'', cs_current_configuration_version = Some 1,
     cs_acknowledged_configuration_version = Some 1, cs_updated_at = FIXED_TS + seconds (g mod 60)\<rparr>"

definition seeded_entitlement :: "profile \<Rightarrow> int \<Rightarrow> entitlement" where
  "seeded_entitlement cfg g = \<lparr>ent_id = g, ent_device_id = g,
     ent_program_id = (station_company cfg (payment_station cfg g) - 1) * 3 + 1, ent_enabled = True\<rparr>"

definition seeded_bay :: "profile \<Rightarrow> int \<Rightarrow> wash_bay" where
  "seeded_bay cfg g = \<lparr>bay_id = g, bay_station_id = payment_station cfg g, bay_device_id = Some g,
     bay_external_key = ''bay-'' @ lpad (int_dec g) 7, bay_status = IDLE\<rparr>"

lemma sorted_devices: "sort_key dev_id (map (seeded_device cfg) [1..n]) = map (seeded_device cfg) [1..n]"
  by (rule sort_range) (simp add: seeded_device_def)

lemma seed_reference_tables:
  assumes "sized cfg"
  shows "companies (seed_db dg md5_hex cfg) = map seeded_company [1..pf_companies cfg]"
    "programs (seed_db dg md5_hex cfg) = map seeded_program [1..pf_companies cfg * 3]"
    "panel_users (seed_db dg md5_hex cfg) = map (seeded_user dg) [1..pf_companies cfg]"
    "device_credentials (seed_db dg md5_hex cfg) = map (seeded_credential dg) [1..pf_devices cfg]"
    "device_heartbeats (seed_db dg md5_hex cfg) = map seeded_heartbeat [1..pf_devices cfg]"
    "device_current_states (seed_db dg md5_hex cfg) = map seeded_state [1..pf_devices cfg]"
    "wash_bays (seed_db dg md5_hex cfg) = map (seeded_bay cfg) [1..pf_devices cfg]"
    "program_payment_methods (seed_db dg md5_hex cfg) = seed_program_methods (map seeded_program [1..pf_companies cfg * 3])"
proof -
  note tables = seed_static_tables [OF assms]
  have progs: "seed_programs c = map seeded_program [1..c * 3]" for c by (simp add: seed_programs_def seeded_program_def)
  show "companies (seed_db dg md5_hex cfg) = map seeded_company [1..pf_companies cfg]"
    by (simp add: tables seed_companies_def seeded_company_def)
  show "programs (seed_db dg md5_hex cfg) = map seeded_program [1..pf_companies cfg * 3]" by (simp add: tables progs)
  show "panel_users (seed_db dg md5_hex cfg) = map (seeded_user dg) [1..pf_companies cfg]"
    by (simp add: tables seed_panel_users_def serial_range seeded_user_def)
  show "device_credentials (seed_db dg md5_hex cfg) = map (seeded_credential dg) [1..pf_devices cfg]"
    unfolding tables seed_credentials_def sorted_devices serial_map by (simp add: seeded_credential_def seeded_device_def)
  show "device_heartbeats (seed_db dg md5_hex cfg) = map seeded_heartbeat [1..pf_devices cfg]"
    unfolding tables seed_heartbeats_def sorted_devices serial_map by (simp add: seeded_heartbeat_def seeded_device_def)
  have "device_current_states (seed_db dg md5_hex cfg) = seed_current_states (devices (seed_db dg md5_hex cfg))"
    "wash_bays (seed_db dg md5_hex cfg) = seed_wash_bays (devices (seed_db dg md5_hex cfg))"
    "program_payment_methods (seed_db dg md5_hex cfg) = seed_program_methods (programs (seed_db dg md5_hex cfg))"
    by (simp_all add: seed_db_def Let_def)
  then show "device_current_states (seed_db dg md5_hex cfg) = map seeded_state [1..pf_devices cfg]"
    "wash_bays (seed_db dg md5_hex cfg) = map (seeded_bay cfg) [1..pf_devices cfg]"
    "program_payment_methods (seed_db dg md5_hex cfg) = seed_program_methods (map seeded_program [1..pf_companies cfg * 3])"
    unfolding tables progs seed_current_states_def seed_wash_bays_def sorted_devices
    by (simp_all add: seeded_state_def seeded_bay_def seeded_device_def)
qed

lemma seed_entitlements_eq:
  assumes "sized cfg"
  shows "entitlements (seed_db dg md5_hex cfg) = map (seeded_entitlement cfg) [1..pf_devices cfg]"
proof -
  have pos: "0 < pf_stations cfg" using assms by (simp add: sized_def)
  have "join_on dev_station_id st_id (map (seeded_device cfg) [1..n]) (map (seeded_station cfg) [1..pf_stations cfg]) =
      map (\<lambda>g. (seeded_device cfg g, seeded_station cfg (payment_station cfg g))) [1..n]" for n
    by (subst join_range)
      (use round_robin [OF pos] in \<open>auto simp: seeded_device_def seeded_station_def payment_station_def\<close>)
  moreover have "entitlements (seed_db dg md5_hex cfg) = seed_entitlements (devices (seed_db dg md5_hex cfg)) (stations (seed_db dg md5_hex cfg))"
    by (simp add: seed_db_def Let_def)
  ultimately show ?thesis
    unfolding seed_static_tables [OF assms] seed_entitlements_def
    by (simp add: serial_map) (simp add: seeded_entitlement_def seeded_device_def seeded_station_def)
qed

section \<open>Every constraint holds of the seeded rows\<close>

lemmas seeded_defs = seeded_company_def seeded_program_def seeded_user_def seeded_credential_def seeded_heartbeat_def
  seeded_state_def seeded_entitlement_def seeded_bay_def seeded_station_def seeded_device_def seeded_configuration_def
  seeded_qr_def seeded_card_def seeded_wallet_def seeded_payment_def seeded_execution_def seeded_command_def Let_def

lemma seeded_numbers:
  assumes "sized cfg"
  shows "1 \<le> station_company cfg g \<and> station_company cfg g \<le> pf_companies cfg"
    "1 \<le> payment_station cfg g \<and> payment_station cfg g \<le> pf_stations cfg"
    "1 \<le> payment_device cfg g \<and> payment_device cfg g \<le> pf_devices cfg"
    "1 \<le> (station_company cfg t - 1) * 3 + 1 \<and> (station_company cfg t - 1) * 3 + 1 \<le> pf_companies cfg * 3"
    "1 \<le> (station_company cfg t - 1) * 3 + (g - 1) mod 3 + 1 \<and>
     (station_company cfg t - 1) * 3 + (g - 1) mod 3 + 1 \<le> pf_companies cfg * 3"
proof -
  show co: "1 \<le> station_company cfg g \<and> station_company cfg g \<le> pf_companies cfg" for g
    using assms round_robin by (simp add: station_company_def sized_def)
  show "1 \<le> payment_station cfg g \<and> payment_station cfg g \<le> pf_stations cfg"
    "1 \<le> payment_device cfg g \<and> payment_device cfg g \<le> pf_devices cfg"
    using assms round_robin by (simp_all add: payment_station_def payment_device_def sized_def)
  show "1 \<le> (station_company cfg t - 1) * 3 + 1 \<and> (station_company cfg t - 1) * 3 + 1 \<le> pf_companies cfg * 3"
    using third_program [of "station_company cfg t" "pf_companies cfg" 0] co [of t] by simp
  show "1 \<le> (station_company cfg t - 1) * 3 + (g - 1) mod 3 + 1 \<and>
     (station_company cfg t - 1) * 3 + (g - 1) mod 3 + 1 \<le> pf_companies cfg * 3"
    using third_program [of "station_company cfg t" "pf_companies cfg" "(g - 1) mod 3"] co [of t] by simp
qed

lemma seed_tenants_typed:
  assumes "padded cfg" "no_collisions dg cfg"
  shows "tenants_typed (seed_db dg md5_hex cfg)"
proof -
  have ok: "sized cfg" and small: "pf_companies cfg < 10 ^ 6" "pf_stations cfg < 10 ^ 6"
    using assms(1) by (simp_all add: padded_def sized_def)
  note tables = seed_static_tables [OF ok] seed_reference_tables [OF ok]
  have "unique co_external_key (map seeded_company [1..pf_companies cfg])"
    "unique st_external_key (map (seeded_station cfg) [1..pf_stations cfg])"
    by (rule unique_range_pad [OF _ small(1)], simp add: seeded_defs, simp,
        rule unique_range_pad [OF _ small(2)], simp add: seeded_defs, simp)
  moreover have "unique pu_token_hash (map (seeded_user dg) [1..pf_companies cfg])"
    using assms(2) by (simp add: unique_range seeded_user_def no_collisions_def del: encode_Cons append_Cons)
  moreover have "refers pu_company_id (map (seeded_user dg) [1..pf_companies cfg]) co_id (map seeded_company [1..pf_companies cfg])"
    "refers st_company_id (map (seeded_station cfg) [1..pf_stations cfg]) co_id (map seeded_company [1..pf_companies cfg])"
    using seeded_numbers [OF ok] by (auto intro!: refers_range simp: seeded_defs)
  moreover have "unique co_id (map seeded_company [1..pf_companies cfg])" "unique pu_id (map (seeded_user dg) [1..pf_companies cfg])"
    "unique st_id (map (seeded_station cfg) [1..pf_stations cfg])"
    by (simp_all add: unique_range_id seeded_defs)
  ultimately show ?thesis unfolding tenants_typed_def seed_reference_tables(1,3) [OF ok] seed_static_tables(1) [OF ok] by simp
qed

text \<open>The rows of a range that satisfy a test of every row, and the images of a range.\<close>

lemma all_range: "(\<And>g. P (h g)) \<Longrightarrow> \<forall>r \<in> set (map h [1..n :: int]). P r"
  by simp

lemma filter_range_all: "(\<And>g. P (h g)) \<Longrightarrow> filter P (map h [1..n :: int]) = map h [1..n]"
  by (rule filter_True) auto

lemma seed_devices_typed:
  assumes "padded cfg"
  shows "devices_typed (seed_db dg md5_hex cfg)"
proof -
  have ok: "sized cfg" and small: "pf_devices cfg < 10 ^ 7" using assms by (simp_all add: padded_def)
  let ?v = "map (seeded_device cfg) [1..pf_devices cfg]" and ?c = "map (seeded_credential dg) [1..pf_devices cfg]"
    and ?g = "map (seeded_configuration md5_hex cfg) [1..pf_devices cfg]"
  have "unique dev_external_key ?v"
    by (rule unique_range_pad [OF _ small]) (simp_all add: seeded_defs)
  moreover have "unique dev_id ?v" "unique cred_id ?c" "unique cfg_id ?g" by (simp_all add: unique_range_id seeded_defs)
  moreover have "unique (\<lambda>c. (cred_device_id c, cred_hash c)) ?c" "unique (\<lambda>c. (cfg_device_id c, cfg_version c)) ?g"
    "unique cred_device_id ?c"
    unfolding unique_range by (auto intro!: inj_onI simp: seeded_defs)
  moreover have "filter (\<lambda>c. cred_status c = ACTIVE) ?c = ?c" by (rule filter_range_all) (simp add: seeded_defs)
  moreover have "refers dev_station_id ?v st_id (map (seeded_station cfg) [1..pf_stations cfg])"
    "refers cred_device_id ?c dev_id ?v" "refers cfg_device_id ?g dev_id ?v"
    using seeded_numbers [OF ok] by (auto intro!: refers_range simp: seeded_defs)
  moreover have "\<forall>v \<in> set ?v. dev_status v \<in> {ACTIVE, INACTIVE, BLOCKED} \<and> 0 < dev_offline_threshold_seconds v"
    "\<forall>c \<in> set ?c. cred_status c \<in> {ACTIVE, REVOKED}" "\<forall>c \<in> set ?g. 0 < cfg_version c \<and> cfg_status c \<in> {PUBLISHED, SUPERSEDED}"
    by (rule all_range, simp add: seeded_defs)+
  ultimately show ?thesis
    unfolding devices_typed_def seed_static_tables(1,2,6) [OF ok] seed_reference_tables(4) [OF ok] by simp
qed

lemma map_serial:
  assumes "\<And>i x. h (f i x) = h' x"
  shows "map h (serial f xs) = map h' xs"
proof -
  have "map h (serial f xs) = map h' (map snd (zip [1..int (length xs)] xs))"
    using assms by (simp add: serial_def case_prod_beta del: map_snd_zip)
  also have "map snd (zip [1..int (length xs)] xs) = xs" by simp
  finally show ?thesis .
qed

lemma map_serial_ids:
  assumes "\<And>i x. h (f i x) = i"
  shows "map h (serial f xs) = [1..int (length xs)]"
proof -
  have "h ((\<lambda>(i, x). f i x) p) = fst p" for p by (cases p) (simp add: assms)
  then have "map h (serial f xs) = map fst (zip [1..int (length xs)] xs)" by (simp add: serial_def del: map_fst_zip)
  then show ?thesis by simp
qed

lemma seed_methods_typed:
  fixes n :: int
  defines "rows \<equiv> seed_program_methods (map seeded_program [1..n])"
  shows "unique ppm_id rows" "unique (\<lambda>m. (ppm_program_id m, ppm_payment_method m)) rows"
    "refers ppm_program_id rows prog_id (map seeded_program [1..n])"
    "\<forall>m \<in> set rows. ppm_payment_method m \<in> set payment_methods"
proof -
  let ?pairs = "List.product (map seeded_program [1..n]) [''CARD'', ''QR'', ''RF_CARD'']"
  have proj: "map (\<lambda>m. (ppm_program_id m, ppm_payment_method m)) rows = map (\<lambda>(p, m). (prog_id p, m)) ?pairs"
    unfolding rows_def seed_program_methods_def by (rule map_serial) (simp add: case_prod_beta)
  have "distinct ?pairs"
    by (intro distinct_product) (auto simp: distinct_map inj_on_def seeded_program_def)
  moreover have "inj_on (\<lambda>(p, m). (prog_id p, m)) (set ?pairs)"
    by (auto simp: inj_on_def seeded_program_def)
  ultimately show "unique (\<lambda>m. (ppm_program_id m, ppm_payment_method m)) rows"
    unfolding unique_def proj by (simp add: distinct_map)
  have "map ppm_id rows = [1..int (length ?pairs)]"
    unfolding rows_def seed_program_methods_def by (rule map_serial_ids) (simp add: case_prod_beta)
  then show "unique ppm_id rows" by (simp add: unique_def)
  have keys: "(ppm_program_id m, ppm_payment_method m) \<in> (\<lambda>(p, m). (prog_id p, m)) ` set ?pairs" if "m \<in> set rows" for m
    using that proj [THEN arg_cong [of _ _ set]] by (auto simp: set_eq_iff image_iff)
  then show "refers ppm_program_id rows prog_id (map seeded_program [1..n])"
    "\<forall>m \<in> set rows. ppm_payment_method m \<in> set payment_methods"
    by (fastforce simp: refers_def has_key_def payment_methods_def)+
qed

lemma seed_programs_typed:
  assumes "padded cfg" "no_collisions dg cfg"
  shows "programs_typed (seed_db dg md5_hex cfg)"
proof -
  have ok: "sized cfg" and small: "pf_companies cfg * 3 < 10 ^ 6" "pf_devices cfg < 10 ^ 7"
    using assms(1) by (simp_all add: padded_def)
  let ?v = "map (seeded_device cfg) [1..pf_devices cfg]" and ?p = "map seeded_program [1..pf_companies cfg * 3]"
    and ?e = "map (seeded_entitlement cfg) [1..pf_devices cfg]" and ?w = "map (seeded_bay cfg) [1..pf_devices cfg]"
    and ?k = "map (seeded_card dg cfg) [1..seed_wallet_count cfg]"
    and ?c = "map seeded_company [1..pf_companies cfg]"
  have "unique prog_external_key ?p" by (rule unique_range_pad [OF _ small(1)]) (simp_all add: seeded_defs)
  moreover have "unique bay_external_key ?w" by (rule unique_range_pad [OF _ small(2)]) (simp_all add: seeded_defs)
  moreover have "unique prog_id ?p" "unique ent_id ?e" "unique bay_id ?w" "unique card_id ?k"
    by (simp_all add: unique_range_id seeded_defs)
  moreover have "unique (\<lambda>e. (ent_device_id e, ent_program_id e)) ?e" "unique bay_device_id ?w"
    unfolding unique_range by (auto intro!: inj_onI simp: seeded_defs)
  moreover have "filter (\<lambda>w. bay_device_id w \<noteq> None) ?w = ?w" by (rule filter_range_all) (simp add: seeded_defs)
  moreover have "unique card_uid_hash ?k"
    using assms(2) by (simp add: unique_range seeded_card_def no_collisions_def)
  moreover have "refers prog_company_id ?p co_id ?c" "refers card_company_id ?k co_id ?c"
    "refers ent_device_id ?e dev_id ?v" "refers ent_program_id ?e prog_id ?p"
    "refers bay_station_id ?w st_id (map (seeded_station cfg) [1..pf_stations cfg])"
    "refers_opt bay_device_id ?w dev_id ?v"
    using seeded_numbers [OF ok] program_company [of _ "pf_companies cfg"] station_company_def [of cfg]
    by (auto intro!: refers_range refers_opt_range simp: seeded_defs)
  moreover have "\<forall>p \<in> set ?p. 0 \<le> prog_price_minor p" "\<forall>w \<in> set ?w. bay_status w \<in> {IDLE, BUSY, OFFLINE}"
    "\<forall>c \<in> set ?k. card_status c \<in> {ACTIVE, BLOCKED}"
    by (rule all_range, simp add: seeded_defs)+
  ultimately show ?thesis
    unfolding programs_typed_def seed_static_tables(1,2,4) [OF ok] seed_reference_tables(1,2,7,8) [OF ok]
      seed_entitlements_eq [OF ok]
    using seed_methods_typed [of "pf_companies cfg * 3"] by simp
qed

lemma seed_money_typed:
  assumes "padded cfg" "no_collisions dg cfg"
  shows "money_typed (seed_db dg md5_hex cfg)"
proof -
  have ok: "sized cfg" using assms(1) by (simp add: padded_def)
  let ?q = "map (seeded_qr dg cfg) [1..seed_qr_count cfg]" and ?w = "map seeded_wallet [1..seed_wallet_count cfg]"
  have "unique qr_token_hash ?q"
    using assms(2) by (simp add: unique_range seeded_qr_def no_collisions_def Let_def del: encode_Cons append_Cons)
  moreover have "unique qr_id ?q" "unique wal_id ?w" "unique wal_rf_card_id ?w" by (simp_all add: unique_range_id seeded_defs)
  moreover have "refers qr_company_id ?q co_id (map seeded_company [1..pf_companies cfg])"
    "refers qr_station_id ?q st_id (map (seeded_station cfg) [1..pf_stations cfg])"
    "refers qr_program_id ?q prog_id (map seeded_program [1..pf_companies cfg * 3])"
    "refers wal_rf_card_id ?w card_id (map (seeded_card dg cfg) [1..seed_wallet_count cfg])"
    using seeded_numbers [OF ok] by (auto intro!: refers_range simp: seeded_defs)
  moreover have "\<forall>q \<in> set ?q. check_qr_code q" "\<forall>w \<in> set ?w. check_rf_wallet w"
    by (rule all_range, simp add: seeded_defs check_qr_code_def check_rf_wallet_def)+
  ultimately show ?thesis
    unfolding money_typed_def seed_static_tables(1,3-5) [OF ok] seed_reference_tables(1,2) [OF ok] by simp
qed

lemma seed_payments_typed:
  assumes "padded cfg"
  shows "payments_typed (seed_db dg md5_hex cfg)"
proof -
  have ok: "sized cfg" and small: "pf_payments cfg < 10 ^ 12" using assms by (simp_all add: padded_def sized_def)
  let ?p = "map (seeded_payment md5_hex cfg) [1..pf_payments cfg]"
  have "unique (\<lambda>p. (pay_device_id p, pay_idempotency_key p)) ?p"
    unfolding unique_range using small by (intro inj_onI) (simp add: seeded_defs lpad_inject)
  moreover have "unique pay_id ?p" by (simp add: unique_range_id seeded_defs)
  moreover have "refers pay_device_id ?p dev_id (map (seeded_device cfg) [1..pf_devices cfg])"
    "refers pay_station_id ?p st_id (map (seeded_station cfg) [1..pf_stations cfg])"
    "refers_opt pay_program_id ?p prog_id (map seeded_program [1..pf_companies cfg * 3])"
    using seeded_numbers [OF ok] by (auto intro!: refers_range refers_opt_range simp: seeded_defs)
  moreover have "refers_opt pay_qr_code_id ?p qr_id qs" "refers_opt pay_rf_wallet_id ?p wal_id ws"
    for qs :: "qr_code list" and ws :: "rf_wallet list"
    by (auto simp: refers_opt_def has_key_opt_def seeded_defs)
  moreover have "\<forall>p \<in> set ?p. check_payment p"
    by (rule all_range) (auto simp: seeded_defs check_payment_def seeded_method_def payment_methods_def payment_statuses_def)
  ultimately show ?thesis
    unfolding payments_typed_def seed_tables(1) [OF ok] seed_static_tables(1,2) [OF ok] seed_reference_tables(2) [OF ok] by simp
qed

lemma seed_commands_typed:
  assumes "padded cfg"
  shows "commands_typed (seed_db dg md5_hex cfg)"
proof -
  have ok: "sized cfg" and small: "seed_command_count cfg < 10 ^ 8" "seed_command_count cfg \<le> pf_payments cfg"
    using assms by (auto simp: padded_def sized_def seed_command_count_def)
  let ?p = "map (seeded_payment md5_hex cfg) [1..pf_payments cfg]" and ?v = "map (seeded_device cfg) [1..pf_devices cfg]"
    and ?e = "map (seeded_execution md5_hex cfg) [1..seed_command_count cfg]"
    and ?c = "map (seeded_command cfg) [1..seed_command_count cfg]"
  have "unique (\<lambda>c. (cmd_device_id c, cmd_command_key c)) ?c"
    unfolding unique_range using small by (intro inj_onI) (simp add: seeded_defs lpad_inject)
  moreover have "unique exe_id ?e" "unique exe_payment_id ?e" "unique cmd_id ?c" by (simp_all add: unique_range_id seeded_defs)
  moreover have "refers exe_payment_id ?e pay_id ?p" "refers exe_device_id ?e dev_id ?v"
    "refers_opt exe_wash_bay_id ?e bay_id (map (seeded_bay cfg) [1..pf_devices cfg])"
    "refers_opt exe_program_id ?e prog_id (map seeded_program [1..pf_companies cfg * 3])"
    "refers cmd_device_id ?c dev_id ?v" "refers cmd_program_execution_id ?c exe_id ?e"
    using seeded_numbers [OF ok] small by (auto intro!: refers_range refers_opt_range simp: seeded_defs)
  moreover have "\<forall>e \<in> set ?e. check_execution e" "\<forall>c \<in> set ?c. check_command c"
    by (rule all_range, simp add: seeded_defs check_execution_def check_command_def)+
  ultimately show ?thesis
    unfolding commands_typed_def seed_tables [OF ok] seed_static_tables(2) [OF ok] seed_reference_tables(2,7) [OF ok] by simp
qed

lemma seed_typed:
  assumes "padded cfg" "no_collisions dg cfg"
  shows "schema_typed (seed_db dg md5_hex cfg)"
proof -
  have ok: "sized cfg" using assms(1) by (simp add: padded_def)
  have "contacts_typed (seed_db dg md5_hex cfg)"
    unfolding contacts_typed_def seed_static_tables(2) [OF ok] seed_reference_tables(5,6) [OF ok]
    by (auto intro!: unique_range_id refers_range simp: seeded_defs)
  moreover have "windows_typed (seed_db dg md5_hex cfg)" "alarms_typed (seed_db dg md5_hex cfg)"
    "records_typed (seed_db dg md5_hex cfg)" "rights_typed (seed_db dg md5_hex cfg)" "ledger_typed (seed_db dg md5_hex cfg)"
    "log_typed (seed_db dg md5_hex cfg)" "results_typed (seed_db dg md5_hex cfg)"
    by (simp_all add: typed_defs seed_empty_tables unique_def refers_def refers_opt_def)
  ultimately show ?thesis
    using seed_tenants_typed [OF assms] seed_devices_typed [OF assms(1)] seed_programs_typed [OF assms]
      seed_money_typed [OF assms] seed_payments_typed [OF assms(1)] seed_commands_typed [OF assms(1)]
    by (simp add: schema_typed_def)
qed

section \<open>Every reachable database is of the schema\<close>

text \<open>
  C5. The schema is the type of the database: on the data of every profile, whatever requests
  and sweeps come, every state reached satisfies every constraint of \<open>001_schema.sql\<close> and every
  unique index of \<open>002_indexes.sql\<close>, of all rows of all tables at once - the keys are unique,
  every reference has a target, every status is one the schema lists, no amount is negative.
  The hypothesis is that no two of the seeded tokens and card numbers share a digest.
\<close>

theorem schema_enforced:
  assumes "get_profile name = Inr cfg" "no_collisions dg cfg" "reaches dg (seed_database dg md5_hex cfg) t"
  shows "schema_typed (committed t)"
proof -
  have ok: "padded cfg" by (rule PROFILES_padded [OF assms(1)])
  then have "sized cfg" by (simp add: padded_def)
  with seed_typed [OF ok assms(2)] seed_healthy
  have "typed_system (seed_expectation cfg) (committed (seed_database dg md5_hex cfg)) (seqs (seed_database dg md5_hex cfg))"
    by (simp add: typed_system_def seed_database_def)
  then have "typed_system (seed_expectation cfg) (committed t) (seqs t)"
    by (rule typed.reaches_invariant [OF assms(3)])
  then show ?thesis by (simp add: typed_system_def)
qed

lemma schema_enforced_witness: "schema_typed (seed_db demo_digests id D1)"
proof -
  have "inj_on seeded_uid {1..seed_wallet_count D1}"
    by (intro inj_onI) (simp add: seeded_uid_inject seed_wallet_count_def D1_def)
  then have "no_collisions demo_digests D1"
    by (simp add: no_collisions_def demo_digests_def inj_on_def del: encode_Cons append_Cons)
  moreover have "reaches demo_digests (seed_database demo_digests id D1) (seed_database demo_digests id D1)" by simp
  ultimately have "schema_typed (committed (seed_database demo_digests id D1))" by (rule schema_enforced [OF D1_sized(2)])
  then show ?thesis by (simp add: seed_database_def)
qed

end
