(* ===== verification/Floats.thy ===== *)
theory Floats
  imports Complex_Main "HOL-Library.Log_Nat" Prelude
begin

text \<open>
  Python's \<open>float\<close> and the conversions to it: IEEE 754 binary64, round to nearest with ties to
  even.  A finite float is the rational number it stands for (the sign of a zero is not kept);
  infinities and NaN are values of their own.
\<close>

section \<open>Values and rounding\<close>

datatype pyfloat = Finite rat | PosInf | NegInf | NotANumber

definition pow2 :: "int \<Rightarrow> rat" where
  "pow2 e = (if 0 \<le> e then 2 ^ nat e else 1 / 2 ^ nat (- e))"

text \<open>The place of the leading binary digit, from the lengths of numerator and denominator.\<close>

definition leading_bit :: "rat \<Rightarrow> int" where
  "leading_bit x = (case quotient_of \<bar>x\<bar> of (n, d) \<Rightarrow>
     let k = bitlen n - bitlen d in if pow2 k \<le> \<bar>x\<bar> then k else k - 1)"

definition half_even :: "rat \<Rightarrow> int" where
  "half_even x = (let f = \<lfloor>x\<rfloor>; d = x - of_int f in
     if d < 1 / 2 then f else if 1 / 2 < d then f + 1 else if even f then f else f + 1)"

text \<open>53 binary digits, the last of them not below \<open>2^-1074\<close>; too large is infinite.\<close>

definition double :: "rat \<Rightarrow> pyfloat" where
  "double x =
     (if x = 0 then Finite 0
      else let e = max (leading_bit x - 52) (- 1074); r = of_int (half_even (x / pow2 e)) * pow2 e
        in if \<bar>r\<bar> < pow2 1024 then Finite r else if 0 < x then PosInf else NegInf)"

section \<open>Arithmetic\<close>

definition finite_float :: "pyfloat \<Rightarrow> bool" where
  "finite_float x \<longleftrightarrow> (case x of Finite _ \<Rightarrow> True | _ \<Rightarrow> False)"

fun f_neg :: "pyfloat \<Rightarrow> pyfloat" where
  "f_neg (Finite a) = Finite (- a)"
| "f_neg PosInf = NegInf"
| "f_neg NegInf = PosInf"
| "f_neg NotANumber = NotANumber"

fun f_add :: "pyfloat \<Rightarrow> pyfloat \<Rightarrow> pyfloat" where
  "f_add (Finite a) (Finite b) = double (a + b)"
| "f_add NotANumber y = NotANumber"
| "f_add x NotANumber = NotANumber"
| "f_add PosInf NegInf = NotANumber"
| "f_add NegInf PosInf = NotANumber"
| "f_add PosInf y = PosInf"
| "f_add NegInf y = NegInf"
| "f_add x PosInf = PosInf"
| "f_add x NegInf = NegInf"

definition f_sub :: "pyfloat \<Rightarrow> pyfloat \<Rightarrow> pyfloat" where
  "f_sub x y = f_add x (f_neg y)"

definition infinite :: "bool \<Rightarrow> pyfloat" where
  "infinite positive = (if positive then PosInf else NegInf)"

text \<open>Multiplication by a positive whole number, as the unit factors are.\<close>

fun f_scale :: "pyfloat \<Rightarrow> int \<Rightarrow> pyfloat" where
  "f_scale (Finite a) n = double (a * of_int n)"
| "f_scale x n = x"

text \<open>Division by a number that is not zero.\<close>

fun f_div :: "pyfloat \<Rightarrow> pyfloat \<Rightarrow> pyfloat" where
  "f_div (Finite a) (Finite b) = double (a / b)"
| "f_div NotANumber y = NotANumber"
| "f_div x NotANumber = NotANumber"
| "f_div (Finite a) y = Finite 0"
| "f_div PosInf (Finite b) = infinite (0 < b)"
| "f_div NegInf (Finite b) = infinite (b < 0)"
| "f_div x y = NotANumber"

text \<open>Comparisons are false on NaN.\<close>

fun f_less :: "pyfloat \<Rightarrow> pyfloat \<Rightarrow> bool" where
  "f_less (Finite a) (Finite b) \<longleftrightarrow> a < b"
| "f_less NotANumber y \<longleftrightarrow> False"
| "f_less x NotANumber \<longleftrightarrow> False"
| "f_less NegInf y \<longleftrightarrow> y \<noteq> NegInf"
| "f_less x PosInf \<longleftrightarrow> x \<noteq> PosInf"
| "f_less x y \<longleftrightarrow> False"

definition f_le :: "pyfloat \<Rightarrow> pyfloat \<Rightarrow> bool" where
  "f_le x y \<longleftrightarrow> f_less x y \<or> x = y \<and> x \<noteq> NotANumber"

text \<open>\<open>max(a, b)\<close> keeps the first argument unless the second is greater.\<close>

definition f_max :: "pyfloat \<Rightarrow> pyfloat \<Rightarrow> pyfloat" where
  "f_max x y = (if f_less x y then y else x)"

section \<open>Reading numbers\<close>

text \<open>Digits, with single underscores between them.\<close>

fun digit_run :: "string \<Rightarrow> bool" where
  "digit_run [] \<longleftrightarrow> False"
| "digit_run [c] \<longleftrightarrow> is_digit c"
| "digit_run (c # d # s) \<longleftrightarrow> is_digit c \<and> (digit_run (d # s) \<or> d = CHR ''_'' \<and> digit_run s)"

definition run_digits :: "string \<Rightarrow> string" where
  "run_digits = filter is_digit"

definition split_sign :: "string \<Rightarrow> bool \<times> string" where
  "split_sign s = (case s of [] \<Rightarrow> (False, [])
     | c # t \<Rightarrow> if c = CHR ''-'' then (True, t) else if c = CHR ''+'' then (False, t) else (False, s))"

text \<open>\<open>int(text)\<close>; None is a ValueError.\<close>

definition py_int :: "string \<Rightarrow> int option" where
  "py_int text = (case split_sign (strip text) of (neg, s) \<Rightarrow>
     if digit_run s then Some ((if neg then -1 else 1) * int (dec_val (run_digits s))) else None)"

definition to_lower :: "char \<Rightarrow> char" where
  "to_lower c = (let n = of_char c :: nat in if 65 \<le> n \<and> n \<le> 90 then char_of (n + 32) else c)"

text \<open>Digits with at most one point, and at least one digit.\<close>

definition decimal_value :: "string \<Rightarrow> rat option" where
  "decimal_value s =
     (let whole = takeWhile (\<lambda>c. c \<noteq> CHR ''.'') s; rest = dropWhile (\<lambda>c. c \<noteq> CHR ''.'') s; frac = drop 1 rest
      in if (whole = [] \<or> digit_run whole) \<and> (frac = [] \<or> digit_run frac) \<and> \<not> (whole = [] \<and> frac = [])
         then Some (of_nat (dec_val (run_digits (whole @ frac))) / 10 ^ length (run_digits frac)) else None)"

definition is_e :: "char \<Rightarrow> bool" where
  "is_e c \<longleftrightarrow> c = CHR ''e'' \<or> c = CHR ''E''"

definition exponent_value :: "string \<Rightarrow> rat option" where
  "exponent_value s = (case split_sign s of (neg, t) \<Rightarrow>
     if digit_run t then Some (let n = dec_val (run_digits t) in if neg then 1 / 10 ^ n else 10 ^ n) else None)"

definition number_value :: "string \<Rightarrow> rat option" where
  "number_value s =
     (let mantissa = takeWhile (\<lambda>c. \<not> is_e c) s; rest = dropWhile (\<lambda>c. \<not> is_e c) s
      in case decimal_value mantissa of None \<Rightarrow> None
         | Some m \<Rightarrow> if rest = [] then Some m
             else (case exponent_value (drop 1 rest) of None \<Rightarrow> None | Some f \<Rightarrow> Some (m * f)))"

text \<open>\<open>float(text)\<close>; None is a ValueError.\<close>

definition py_float :: "string \<Rightarrow> pyfloat option" where
  "py_float text = (case split_sign (strip text) of (neg, s) \<Rightarrow>
     let word = map to_lower s; sign = (if neg then f_neg else (\<lambda>x. x))
     in if word = ''inf'' \<or> word = ''infinity'' then Some (sign PosInf)
        else if word = ''nan'' then Some NotANumber
        else (case number_value s of None \<Rightarrow> None | Some x \<Rightarrow> Some (sign (double x))))"

section \<open>Whole numbers are exact\<close>

lemma half_even_of_int [simp]: "half_even (of_int i) = i"
  by (simp add: half_even_def)

lemma pow2_pos [simp]: "0 < pow2 e"
  by (simp add: pow2_def)

lemma quotient_of_nat_abs: "quotient_of \<bar>of_int i\<bar> = (\<bar>i\<bar>, 1)"
  by (simp only: of_int_abs [symmetric] quotient_of_rat_of_int)

lemma leading_bit_int: "\<bar>i\<bar> < 2 ^ 53 \<Longrightarrow> leading_bit (of_int i) \<le> 52"
proof -
  assume "\<bar>i\<bar> < 2 ^ 53"
  then have "bitlen \<bar>i\<bar> \<le> 53" using bitlen_le_iff_power [of "\<bar>i\<bar>" 53] by simp
  moreover have "bitlen 1 = 1" by (simp add: bitlen_def floorlog_def)
  ultimately show ?thesis by (simp add: leading_bit_def quotient_of_nat_abs Let_def)
qed

lemma double_int:
  assumes "\<bar>i\<bar> < 2 ^ 53"
  shows "double (of_int i) = Finite (of_int i)"
proof (cases "i = 0")
  case False
  let ?e = "max (leading_bit (of_int i) - 52) (- 1074)"
  have e: "?e \<le> 0" using leading_bit_int [OF assms] by simp
  then have "(of_int i :: rat) / pow2 ?e = of_int (i * 2 ^ nat (- ?e))"
    by (cases "?e = 0") (simp_all add: pow2_def)
  then have "of_int (half_even (of_int i / pow2 ?e)) * pow2 ?e = (of_int i / pow2 ?e * pow2 ?e :: rat)"
    by (simp only: half_even_of_int)
  then have r: "of_int (half_even (of_int i / pow2 ?e)) * pow2 ?e = (of_int i :: rat)"
    using pow2_pos [of ?e] by simp
  have "\<bar>of_int i :: rat\<bar> < 2 ^ 53" using assms by (metis of_int_abs of_int_less_iff of_int_numeral of_int_power)
  moreover have "(2 :: rat) ^ 53 < pow2 1024" by (simp add: pow2_def)
  ultimately show ?thesis using r False by (simp only: double_def Let_def) simp
qed (simp add: double_def)

end
