(* ===== verification/Metrics.thy ===== *)
theory Metrics
  imports Floats Json "HOL-Library.AList"
begin

text \<open>
  \<open>metrics/normalize.py\<close>: the comparison of two correctness reports and the figures of a run
  derived from its recorded statistics.  The files are taken as \<open>json.loads\<close> and
  \<open>csv.DictReader\<close> deliver them; the exceptions of Python are values.
\<close>

section \<open>Exceptions\<close>

datatype fault = ValueError | TypeError | AttributeError | OverflowError | OSError | KeyError
  | YAMLError | CalledProcessError | SystemExit | ZeroDivisionError | StructError

type_synonym 'a attempt = "fault + 'a"

definition andthen :: "'a attempt \<Rightarrow> ('a \<Rightarrow> 'b attempt) \<Rightarrow> 'b attempt" where
  "andthen m f = (case m of Inl e \<Rightarrow> Inl e | Inr a \<Rightarrow> f a)"

lemma andthen_simps [simp]: "andthen (Inl e) f = Inl e" "andthen (Inr a) f = f a"
  by (simp_all add: andthen_def)

fun traverse :: "('a \<Rightarrow> 'b attempt) \<Rightarrow> 'a list \<Rightarrow> 'b list attempt" where
  "traverse f [] = Inr []"
| "traverse f (x # xs) = andthen (f x) (\<lambda>y. andthen (traverse f xs) (\<lambda>ys. Inr (y # ys)))"

lemma andthen_Inr: "andthen m f = Inr b \<longleftrightarrow> (\<exists>a. m = Inr a \<and> f a = Inr b)"
  by (cases m) simp_all

lemma traverse_Inr: "traverse f xs = Inr ys \<longleftrightarrow> list_all2 (\<lambda>x y. f x = Inr y) xs ys"
proof (induction xs arbitrary: ys)
  case (Cons x xs)
  then show ?case by (cases ys) (auto simp: andthen_Inr)
qed auto

lemma traverse_mem: "traverse f xs = Inr ys \<Longrightarrow> x \<in> set xs \<Longrightarrow> \<exists>y \<in> set ys. f x = Inr y"
  by (auto simp: traverse_Inr list_all2_conv_all_nth in_set_conv_nth)

section \<open>Python's view of JSON values\<close>

text \<open>A number's exact value: \<open>bool\<close> is an integer, a float is the double its text denotes.\<close>

fun json_number :: "json \<Rightarrow> pyfloat option" where
  "json_number (JBool b) = Some (Finite (if b then 1 else 0))"
| "json_number (JInt i) = Some (Finite (of_int i))"
| "json_number (JFloat t) = py_float t"
| "json_number v = None"

text \<open>\<open>==\<close>: numbers by value, NaN equals nothing, dicts whatever the order of their keys.\<close>

fun py_eq :: "json \<Rightarrow> json \<Rightarrow> bool"
  and py_eqs :: "json list \<Rightarrow> json list \<Rightarrow> bool"
  and py_eq_items :: "(string \<times> json) list \<Rightarrow> (string \<times> json) list \<Rightarrow> bool" where
  "py_eq JNull v \<longleftrightarrow> v = JNull"
| "py_eq (JStr s) v \<longleftrightarrow> v = JStr s"
| "py_eq (JArr xs) v \<longleftrightarrow> (case v of JArr ys \<Rightarrow> py_eqs xs ys | _ \<Rightarrow> False)"
| "py_eq (JObj kvs) v \<longleftrightarrow> (case v of JObj kvs' \<Rightarrow> length kvs = length kvs' \<and> py_eq_items kvs kvs' | _ \<Rightarrow> False)"
| "py_eq u v \<longleftrightarrow> (case (json_number u, json_number v) of (Some x, Some y) \<Rightarrow> x = y \<and> x \<noteq> NotANumber | _ \<Rightarrow> False)"
| "py_eqs [] ys \<longleftrightarrow> ys = []"
| "py_eqs (x # xs) ys \<longleftrightarrow> (case ys of [] \<Rightarrow> False | y # ys' \<Rightarrow> py_eq x y \<and> py_eqs xs ys')"
| "py_eq_items [] kvs' \<longleftrightarrow> True"
| "py_eq_items ((k, v) # kvs) kvs' \<longleftrightarrow>
     (case map_of kvs' k of None \<Rightarrow> False | Some w \<Rightarrow> py_eq v w) \<and> py_eq_items kvs kvs'"

fun truthy :: "json \<Rightarrow> bool" where
  "truthy JNull \<longleftrightarrow> False"
| "truthy (JBool b) \<longleftrightarrow> b"
| "truthy (JInt i) \<longleftrightarrow> i \<noteq> 0"
| "truthy (JFloat t) \<longleftrightarrow> py_float t \<noteq> Some (Finite 0)"
| "truthy (JStr s) \<longleftrightarrow> s \<noteq> []"
| "truthy (JArr xs) \<longleftrightarrow> xs \<noteq> []"
| "truthy (JObj kvs) \<longleftrightarrow> kvs \<noteq> []"

text \<open>\<open>value.get(key, default)\<close>, which only a dict has, and \<open>value.get(key)\<close>.\<close>

definition get_default :: "string \<Rightarrow> json \<Rightarrow> json \<Rightarrow> json attempt" where
  "get_default k d v = (case v of
     JObj kvs \<Rightarrow> Inr (case map_of kvs k of None \<Rightarrow> d | Some w \<Rightarrow> w) | _ \<Rightarrow> Inl AttributeError)"

definition get :: "string \<Rightarrow> json \<Rightarrow> json attempt" where
  "get k = get_default k JNull"

definition or_value_error :: "'a option \<Rightarrow> 'a attempt" where
  "or_value_error v = (case v of None \<Rightarrow> Inl ValueError | Some x \<Rightarrow> Inr x)"

text \<open>\<open>float(value)\<close>: an integer too large for a float is an OverflowError.\<close>

definition float_of_int :: "int \<Rightarrow> pyfloat attempt" where
  "float_of_int i = (case double (of_int i) of Finite x \<Rightarrow> Inr (Finite x) | _ \<Rightarrow> Inl OverflowError)"

fun to_float :: "json \<Rightarrow> pyfloat attempt" where
  "to_float (JBool b) = Inr (Finite (if b then 1 else 0))"
| "to_float (JInt i) = float_of_int i"
| "to_float (JFloat t) = or_value_error (py_float t)"
| "to_float (JStr s) = or_value_error (py_float s)"
| "to_float v = Inl TypeError"

text \<open>\<open>int(value)\<close>: a float is cut toward zero.\<close>

definition toward_zero :: "rat \<Rightarrow> int" where
  "toward_zero x = (if 0 \<le> x then \<lfloor>x\<rfloor> else \<lceil>x\<rceil>)"

fun int_of_float :: "pyfloat \<Rightarrow> int attempt" where
  "int_of_float (Finite x) = Inr (toward_zero x)"
| "int_of_float NotANumber = Inl ValueError"
| "int_of_float x = Inl OverflowError"

fun to_int :: "json \<Rightarrow> int attempt" where
  "to_int (JBool b) = Inr (if b then 1 else 0)"
| "to_int (JInt i) = Inr i"
| "to_int (JFloat t) = andthen (or_value_error (py_float t)) int_of_float"
| "to_int (JStr s) = or_value_error (py_int s)"
| "to_int v = Inl TypeError"

text \<open>\<open>float(value or 0)\<close>.\<close>

definition float_or_zero :: "json \<Rightarrow> pyfloat attempt" where
  "float_or_zero v = to_float (if truthy v then v else JInt 0)"

section \<open>Comparing two reports\<close>

text \<open>What a line of the failure list says; the rendering of the values in it is left out.\<close>

datatype mismatch =
    HardGate string "(string \<times> json) list"
  | ProfileDiffers
  | ContractsDiffer
  | SqlSemanticsDiffer

definition nonzero :: "json \<Rightarrow> (string \<times> json) list attempt" where
  "nonzero gate = (case gate of
     JObj kvs \<Rightarrow> Inr (filter (\<lambda>(k, v). \<not> py_eq v (JInt 0)) kvs) | _ \<Rightarrow> Inl AttributeError)"

definition gate_failures :: "string \<Rightarrow> json \<Rightarrow> mismatch list attempt" where
  "gate_failures label payload =
     andthen (get_default ''hard_gate'' (JObj []) payload) (\<lambda>gate.
     andthen (nonzero gate) (\<lambda>bad. Inr (if bad \<noteq> [] then [HardGate label bad] else [])))"

definition differs :: "string \<Rightarrow> mismatch \<Rightarrow> json \<Rightarrow> json \<Rightarrow> mismatch list attempt" where
  "differs k failure left right =
     andthen (get k left) (\<lambda>x. andthen (get k right) (\<lambda>y. Inr (if \<not> py_eq x y then [failure] else [])))"

definition compare_correctness :: "json \<Rightarrow> json \<Rightarrow> (bool \<times> mismatch list) attempt" where
  "compare_correctness left right =
     andthen (gate_failures ''left'' left) (\<lambda>a. andthen (gate_failures ''right'' right) (\<lambda>b.
     andthen (differs ''profile'' ProfileDiffers left right) (\<lambda>c.
     andthen (differs ''contracts'' ContractsDiffer left right) (\<lambda>d.
     andthen (differs ''sql_semantics'' SqlSemanticsDiffer left right) (\<lambda>e.
     let failures = a @ b @ c @ d @ e in Inr (failures = [], failures))))))"

text \<open>A file as the code finds it, and the end of the process: an uncaught exception exits with 1.\<close>

datatype 'a on_disk = Missing | Undecodable | Content 'a

definition load :: "json on_disk \<Rightarrow> json attempt" where
  "load f = (case f of Missing \<Rightarrow> Inl OSError | Undecodable \<Rightarrow> Inl ValueError | Content v \<Rightarrow> Inr v)"

definition command_compare_correctness :: "json on_disk \<Rightarrow> json on_disk \<Rightarrow> int" where
  "command_compare_correctness left_file right_file =
     (case andthen (load left_file) (\<lambda>left. andthen (load right_file) (\<lambda>right. compare_correctness left right)) of
        Inl e \<Rightarrow> 1 | Inr (ok, failures) \<Rightarrow> if ok then 0 else 1)"

section \<open>Recorded statistics\<close>

text \<open>The four figures of a statement in \<open>pg_stat_statements\<close>.\<close>

record statement =
  calls :: pyfloat
  stat_rows :: pyfloat
  total_exec_time :: pyfloat
  wal_bytes :: pyfloat

text \<open>A row of \<open>csv.DictReader\<close>: a column that the line is too short for is None.\<close>

type_synonym csv_row = "(string \<times> string option) list"

definition csv_cell :: "csv_row \<Rightarrow> string \<Rightarrow> string option" where
  "csv_cell row k = (case map_of row k of None \<Rightarrow> None | Some v \<Rightarrow> v)"

definition csv_float :: "csv_row \<Rightarrow> string \<Rightarrow> pyfloat attempt" where
  "csv_float row k = (case csv_cell row k of
     None \<Rightarrow> Inr (Finite 0) | Some s \<Rightarrow> if s = [] then Inr (Finite 0) else or_value_error (py_float s))"

definition csv_query_id :: "csv_row \<Rightarrow> string" where
  "csv_query_id row = (case map_of row ''queryid'' of None \<Rightarrow> [] | Some None \<Rightarrow> ''None'' | Some (Some s) \<Rightarrow> s)"

definition read_statement :: "csv_row \<Rightarrow> (string \<times> statement) attempt" where
  "read_statement row =
     andthen (csv_float row ''calls'') (\<lambda>c. andthen (csv_float row ''rows'') (\<lambda>r.
     andthen (csv_float row ''total_exec_time'') (\<lambda>t. andthen (csv_float row ''wal_bytes'') (\<lambda>w.
     Inr (csv_query_id row, \<lparr>calls = c, stat_rows = r, total_exec_time = t, wal_bytes = w\<rparr>)))))"

text \<open>A later row replaces an earlier one of the same query.\<close>

definition statement_table :: "(string \<times> statement) list \<Rightarrow> (string \<times> statement) list" where
  "statement_table kvs = fold (\<lambda>(k, st) table. AList.update k st table) kvs []"

definition read_statement_csv :: "csv_row list on_disk \<Rightarrow> (string \<times> statement) list attempt" where
  "read_statement_csv f = (case f of
     Missing \<Rightarrow> Inr []
   | Undecodable \<Rightarrow> Inl ValueError
   | Content rows \<Rightarrow> andthen (traverse read_statement rows) (\<lambda>kvs. Inr (statement_table kvs)))"

text \<open>One JSON value per line that is not blank; None is a line that does not decode.\<close>

definition read_ndjson :: "json option list on_disk \<Rightarrow> json list attempt" where
  "read_ndjson f = (case f of
     Missing \<Rightarrow> Inr [] | Undecodable \<Rightarrow> Inl ValueError | Content lines \<Rightarrow> traverse or_value_error lines)"

section \<open>Texts of \<open>docker stats\<close>\<close>

text \<open>
  \<open>str(value or "0")\<close>.  The collector records texts; how Python renders other values is
  the parameter \<open>py_str\<close>.
\<close>

definition text_of :: "(json \<Rightarrow> string) \<Rightarrow> json \<Rightarrow> string" where
  "text_of py_str v = (if truthy v then (case v of JStr s \<Rightarrow> s | _ \<Rightarrow> py_str v) else ''0'')"

definition removesuffix :: "string \<Rightarrow> string \<Rightarrow> string" where
  "removesuffix e s = rev (removeprefix (rev e) (rev s))"

definition percent :: "(json \<Rightarrow> string) \<Rightarrow> json \<Rightarrow> pyfloat" where
  "percent py_str v = (case py_float (removesuffix ''%'' (strip (text_of py_str v))) of
     None \<Rightarrow> Finite 0 | Some x \<Rightarrow> x)"

definition factors :: "(string \<times> int) list" where
  "factors =
     [(''B'', 1), (''KB'', 1000), (''MB'', 1000 ^ 2), (''GB'', 1000 ^ 3), (''TB'', 1000 ^ 4),
      (''KIB'', 1024), (''MIB'', 1024 ^ 2), (''GIB'', 1024 ^ 3), (''TIB'', 1024 ^ 4)]"

definition to_upper :: "char \<Rightarrow> char" where
  "to_upper c = (let n = of_char c :: nat in if 97 \<le> n \<and> n \<le> 122 then char_of (n - 32) else c)"

text \<open>
  The unit part of the pattern, \<open>([KMGT]?i?B)?\<close> without regard to case, after the number
  and blanks; None is a text that does not match.  The character classes of the parts are
  disjoint, so the longest number is the only way to match.
\<close>

definition unit_of :: "string \<Rightarrow> string option" where
  "unit_of s = (let u = map to_upper s in
     if u = [] then Some ''B''
     else if u \<in> set (''B'' # ''IB'' # concat (map (\<lambda>c. [[c, CHR ''B''], [c, CHR ''I'', CHR ''B'']]) ''KMGT''))
       then Some u else None)"

definition is_amount :: "char \<Rightarrow> bool" where
  "is_amount c \<longleftrightarrow> is_digit c \<or> c = CHR ''.''"

definition memory_bytes :: "(json \<Rightarrow> string) \<Rightarrow> json \<Rightarrow> pyfloat attempt" where
  "memory_bytes py_str v =
     (let s = strip (takeWhile (\<lambda>c. c \<noteq> CHR ''/'') (text_of py_str v));
          number = takeWhile is_amount s; rest = dropWhile py_space (dropWhile is_amount s)
      in if number = [] then Inr (Finite 0)
         else case unit_of rest of
             None \<Rightarrow> Inr (Finite 0)
           | Some u \<Rightarrow> andthen (or_value_error (py_float number)) (\<lambda>amount.
               Inr (f_scale amount (case map_of factors u of None \<Rightarrow> 1 | Some f \<Rightarrow> f))))"

definition delta :: "json \<Rightarrow> json \<Rightarrow> pyfloat attempt" where
  "delta current previous =
     andthen (float_or_zero current) (\<lambda>x. andthen (float_or_zero previous) (\<lambda>y. Inr (f_sub x y)))"

section \<open>The figures of a run\<close>

record run_dir =
  pg_pre :: "json on_disk"
  pg_post :: "json on_disk"
  statements_pre :: "csv_row list on_disk"
  statements_post :: "csv_row list on_disk"
  lock_samples :: "json option list on_disk"
  container_samples :: "json option list on_disk"

text \<open>\<open>max(0.0, delta(after, before))\<close>; a query that one side does not list counts 0 there.\<close>

definition figure :: "(statement \<Rightarrow> pyfloat) \<Rightarrow> statement option \<Rightarrow> pyfloat" where
  "figure f st = (case st of None \<Rightarrow> Finite 0 | Some r \<Rightarrow> f r)"

definition growth :: "(statement \<Rightarrow> pyfloat) \<Rightarrow> statement option \<Rightarrow> statement option \<Rightarrow> pyfloat" where
  "growth f before after = f_max (Finite 0) (f_sub (figure f after) (figure f before))"

text \<open>The loop over the query ids, in the order in which Python iterates over the set.\<close>

definition statement_totals :: "(string \<times> statement) list \<Rightarrow> (string \<times> statement) list \<Rightarrow> string list \<Rightarrow> statement" where
  "statement_totals pre post ids = fold (\<lambda>q t.
     \<lparr>calls = f_add (calls t) (growth calls (map_of pre q) (map_of post q)),
      stat_rows = f_add (stat_rows t) (growth stat_rows (map_of pre q) (map_of post q)),
      total_exec_time = f_add (total_exec_time t) (growth total_exec_time (map_of pre q) (map_of post q)),
      wal_bytes = f_add (wal_bytes t) (growth wal_bytes (map_of pre q) (map_of post q))\<rparr>)
     ids \<lparr>calls = Finite 0, stat_rows = Finite 0, total_exec_time = Finite 0, wal_bytes = Finite 0\<rparr>"

text \<open>\<open>max(values, default=...)\<close>: the first of the greatest.\<close>

definition max_default :: "pyfloat \<Rightarrow> pyfloat list \<Rightarrow> pyfloat" where
  "max_default d xs = (case xs of [] \<Rightarrow> d | x # ys \<Rightarrow> fold (\<lambda>y m. f_max m y) ys x)"

definition max_int :: "int list \<Rightarrow> int" where
  "max_int xs = (case xs of [] \<Rightarrow> 0 | x # ys \<Rightarrow> fold (\<lambda>y m. max m y) ys x)"

text \<open>\<open>value.get(outer, {}).get(inner, default)\<close>.\<close>

definition get_in :: "string \<Rightarrow> string \<Rightarrow> json \<Rightarrow> json \<Rightarrow> json attempt" where
  "get_in outer inner d v = andthen (get_default outer (JObj []) v) (get_default inner d)"

definition int_at :: "string \<Rightarrow> json \<Rightarrow> int attempt" where
  "int_at k v = andthen (get_default k (JInt 0) v) to_int"

definition with_role :: "string \<Rightarrow> json list \<Rightarrow> json list attempt" where
  "with_role role samples = andthen
     (traverse (\<lambda>v. andthen (get ''role'' v) (\<lambda>r. Inr (v, py_eq r (JStr role)))) samples)
     (\<lambda>marked. Inr (map fst (filter snd marked)))"

definition stats_text :: "string \<Rightarrow> json \<Rightarrow> json attempt" where
  "stats_text k v = get_in ''stats'' k JNull v"

text \<open>\<open>x / n\<close> for a float and a positive integer.\<close>

definition per_request :: "pyfloat \<Rightarrow> int \<Rightarrow> pyfloat attempt" where
  "per_request x n = andthen (float_of_int n) (\<lambda>d. Inr (f_div x d))"

definition cpu_max :: "(json \<Rightarrow> string) \<Rightarrow> json list \<Rightarrow> pyfloat attempt" where
  "cpu_max py_str samples = andthen (traverse (\<lambda>v. andthen (stats_text ''CPUPerc'' v) (\<lambda>t. Inr (percent py_str t))) samples)
     (\<lambda>xs. Inr (max_default (Finite 0) xs))"

definition rss_max :: "(json \<Rightarrow> string) \<Rightarrow> json list \<Rightarrow> pyfloat attempt" where
  "rss_max py_str samples = andthen (traverse (\<lambda>v. andthen (stats_text ''MemUsage'' v) (memory_bytes py_str)) samples)
     (\<lambda>xs. Inr (max_default (Finite 0) xs))"

definition process_max :: "json list \<Rightarrow> int attempt" where
  "process_max samples = andthen (traverse (int_at ''process_count'') samples) (\<lambda>xs. Inr (max_int xs))"

definition delta_at :: "string \<Rightarrow> json \<Rightarrow> json \<Rightarrow> pyfloat attempt" where
  "delta_at k post pre = andthen (get k post) (\<lambda>x. andthen (get k pre) (\<lambda>y. delta x y))"

record run_figures =
  duration_seconds :: pyfloat
  requests :: int
  wal_bytes_delta :: pyfloat
  wal_bytes_per_second :: pyfloat
  db_statement_calls_delta :: pyfloat
  db_statements_per_request :: pyfloat
  db_rows_delta :: pyfloat
  db_rows_per_request :: pyfloat
  db_exec_time_ms_delta :: pyfloat
  db_exec_time_ms_per_request :: pyfloat
  statement_wal_bytes_delta :: pyfloat
  statement_wal_bytes_per_request :: pyfloat
  xact_commit_delta :: pyfloat
  temp_files_delta :: pyfloat
  deadlocks_delta :: pyfloat
  database_size_bytes_delta :: pyfloat
  connection_high_water :: int
  lock_wait_samples :: int
  max_waiting_backends :: int
  postgres_cpu_percent_max :: pyfloat
  postgres_rss_bytes_max :: pyfloat
  postgres_process_high_water :: int
  api_cpu_percent_max :: pyfloat
  api_rss_bytes_max :: pyfloat
  api_process_high_water :: int

text \<open>What is read from the files before anything is computed.\<close>

record recording =
  rec_pre :: json
  rec_post :: json
  rec_statements_pre :: "(string \<times> statement) list"
  rec_statements_post :: "(string \<times> statement) list"
  rec_locks :: "json list"
  rec_containers :: "json list"

definition read_run :: "run_dir \<Rightarrow> recording attempt" where
  "read_run dir =
     andthen (load (pg_pre dir)) (\<lambda>pre. andthen (load (pg_post dir)) (\<lambda>post.
     andthen (read_statement_csv (statements_pre dir)) (\<lambda>before.
     andthen (read_statement_csv (statements_post dir)) (\<lambda>after.
     andthen (read_ndjson (lock_samples dir)) (\<lambda>locks. andthen (read_ndjson (container_samples dir)) (\<lambda>containers.
     Inr \<lparr>rec_pre = pre, rec_post = post, rec_statements_pre = before, rec_statements_post = after,
          rec_locks = locks, rec_containers = containers\<rparr>))))))"

text \<open>
  The query ids of both sides, once each; \<open>order\<close> is the order in which Python iterates over
  a set of strings, which changes from process to process.
\<close>

definition query_ids :: "(string list \<Rightarrow> string list) \<Rightarrow> recording \<Rightarrow> string list" where
  "query_ids order r = order (remdups (map fst (rec_statements_pre r) @ map fst (rec_statements_post r)))"

text \<open>The figures of the containers are taken for the role given: 'postgres' or 'api'.\<close>

definition derive_figures :: "(json \<Rightarrow> string) \<Rightarrow> (string list \<Rightarrow> string list) \<Rightarrow> recording \<Rightarrow>
    pyfloat \<Rightarrow> int \<Rightarrow> run_figures attempt" where
  "derive_figures py_str order r duration n =
     (let pre = rec_pre r; post = rec_post r;
          total = statement_totals (rec_statements_pre r) (rec_statements_post r) (query_ids order r) in
     andthen (get_in ''connections'' ''total'' (JInt 0) pre) (\<lambda>c1. andthen (to_int c1) (\<lambda>conn_pre.
     andthen (get_in ''connections'' ''total'' (JInt 0) post) (\<lambda>c2. andthen (to_int c2) (\<lambda>conn_post.
     andthen (traverse (int_at ''connections_total'') (rec_locks r)) (\<lambda>conns.
     andthen (traverse (int_at ''waiting_count'') (rec_locks r)) (\<lambda>waiting.
     andthen (with_role ''postgres'' (rec_containers r)) (\<lambda>postgres.
     andthen (with_role ''api'' (rec_containers r)) (\<lambda>api.
     andthen (get_in ''wal'' ''wal_bytes'' (JInt 0) pre) (\<lambda>w1. andthen (float_or_zero w1) (\<lambda>wal_pre.
     andthen (get_in ''wal'' ''wal_bytes'' (JInt 0) post) (\<lambda>w2. andthen (float_or_zero w2) (\<lambda>wal_post.
     andthen (get_default ''database'' (JObj []) pre) (\<lambda>database_pre.
     andthen (get_default ''database'' (JObj []) post) (\<lambda>database_post.
     andthen (per_request (calls total) n) (\<lambda>calls_each.
     andthen (per_request (stat_rows total) n) (\<lambda>rows_each.
     andthen (per_request (total_exec_time total) n) (\<lambda>time_each.
     andthen (per_request (wal_bytes total) n) (\<lambda>wal_each.
     andthen (delta_at ''xact_commit'' database_post database_pre) (\<lambda>commits.
     andthen (delta_at ''temp_files'' database_post database_pre) (\<lambda>temp_files.
     andthen (delta_at ''deadlocks'' database_post database_pre) (\<lambda>deadlocks.
     andthen (delta_at ''database_size_bytes'' post pre) (\<lambda>size.
     andthen (cpu_max py_str postgres) (\<lambda>pg_cpu. andthen (rss_max py_str postgres) (\<lambda>pg_rss.
     andthen (process_max postgres) (\<lambda>pg_processes.
     andthen (cpu_max py_str api) (\<lambda>api_cpu. andthen (rss_max py_str api) (\<lambda>api_rss.
     andthen (process_max api) (\<lambda>api_processes.
     Inr \<lparr>duration_seconds = duration, requests = n,
       wal_bytes_delta = f_sub wal_post wal_pre,
       wal_bytes_per_second = f_div (f_sub wal_post wal_pre) duration,
       db_statement_calls_delta = calls total, db_statements_per_request = calls_each,
       db_rows_delta = stat_rows total, db_rows_per_request = rows_each,
       db_exec_time_ms_delta = total_exec_time total, db_exec_time_ms_per_request = time_each,
       statement_wal_bytes_delta = wal_bytes total, statement_wal_bytes_per_request = wal_each,
       xact_commit_delta = commits, temp_files_delta = temp_files, deadlocks_delta = deadlocks,
       database_size_bytes_delta = size,
       connection_high_water = max_int (conn_pre # conn_post # conns),
       lock_wait_samples = int (length (filter (\<lambda>w. 0 < w) waiting)),
       max_waiting_backends = max_int waiting,
       postgres_cpu_percent_max = pg_cpu, postgres_rss_bytes_max = pg_rss,
       postgres_process_high_water = pg_processes,
       api_cpu_percent_max = api_cpu, api_rss_bytes_max = api_rss,
       api_process_high_water = api_processes\<rparr>)))))))))))))))))))))))))))))"

definition derive_run :: "(json \<Rightarrow> string) \<Rightarrow> (string list \<Rightarrow> string list) \<Rightarrow> run_dir \<Rightarrow> pyfloat \<Rightarrow> int \<Rightarrow>
    run_figures attempt" where
  "derive_run py_str order dir duration n =
     (if f_le duration (Finite 0) then Inl ValueError
      else if n \<le> 0 then Inl ValueError
      else andthen (read_run dir) (\<lambda>r. derive_figures py_str order r duration n))"

text \<open>The exit code: a ValueError or OSError is reported with 2, any other exception ends the process with 1.\<close>

definition command_derive_run :: "(json \<Rightarrow> string) \<Rightarrow> (string list \<Rightarrow> string list) \<Rightarrow> run_dir \<Rightarrow> pyfloat \<Rightarrow> int \<Rightarrow> int" where
  "command_derive_run py_str order dir duration n =
     (case derive_run py_str order dir duration n of
        Inl e \<Rightarrow> if e = OSError \<or> e = ValueError then 2 else 1 | Inr figures \<Rightarrow> 0)"

end
