(* ===== verification/Metrics_Properties.thy ===== *)
theory Metrics_Properties
  imports Metrics
begin

text \<open>
  What the derived figures of a run are worth: exact counts whatever the order of iteration,
  signs and bounds for any recording, and the checks of the arguments.
\<close>

section \<open>Signs\<close>

lemma f_le_zero [simp]:
  "f_le (Finite 0) (Finite a) \<longleftrightarrow> 0 \<le> a" "f_le (Finite 0) PosInf" "\<not> f_le (Finite 0) NegInf" "\<not> f_le (Finite 0) NotANumber"
  by (auto simp: f_le_def)

lemma half_even_nonneg: "0 \<le> x \<Longrightarrow> 0 \<le> half_even x"
  by (simp add: half_even_def Let_def)

lemma double_nonneg: "0 \<le> x \<Longrightarrow> f_le (Finite 0) (double x)"
  unfolding double_def Let_def
  by (simp add: half_even_nonneg less_imp_le [OF pow2_pos])

lemma nonneg_cases: "f_le (Finite 0) x \<Longrightarrow> x = PosInf \<or> (\<exists>a. x = Finite a \<and> 0 \<le> a)"
  by (cases x) auto

lemma f_add_nonneg: "f_le (Finite 0) x \<Longrightarrow> f_le (Finite 0) y \<Longrightarrow> f_le (Finite 0) (f_add x y)"
  by (auto dest!: nonneg_cases simp: double_nonneg)

lemma f_max_nonneg: "f_le (Finite 0) (f_max (Finite 0) x)"
  by (cases x) (auto simp: f_max_def f_le_def)

lemma f_div_nonneg: "f_le (Finite 0) x \<Longrightarrow> 0 < b \<Longrightarrow> f_le (Finite 0) (f_div x (Finite b))"
  by (auto dest!: nonneg_cases simp: double_nonneg infinite_def)

section \<open>The loop over the statements\<close>

text \<open>Each of the four columns is summed on its own.\<close>

definition column_total :: "(statement \<Rightarrow> pyfloat) \<Rightarrow> (string \<times> statement) list \<Rightarrow> (string \<times> statement) list \<Rightarrow> string list \<Rightarrow>
    pyfloat \<Rightarrow> pyfloat" where
  "column_total f pre post ids a = fold (\<lambda>q x. f_add x (growth f (map_of pre q) (map_of post q))) ids a"

lemma statement_totals_columns:
  "calls (statement_totals pre post ids) = column_total calls pre post ids (Finite 0)"
  "stat_rows (statement_totals pre post ids) = column_total stat_rows pre post ids (Finite 0)"
  "total_exec_time (statement_totals pre post ids) = column_total total_exec_time pre post ids (Finite 0)"
  "wal_bytes (statement_totals pre post ids) = column_total wal_bytes pre post ids (Finite 0)"
proof -
  let ?step = "\<lambda>q t. \<lparr>calls = f_add (calls t) (growth calls (map_of pre q) (map_of post q)),
      stat_rows = f_add (stat_rows t) (growth stat_rows (map_of pre q) (map_of post q)),
      total_exec_time = f_add (total_exec_time t) (growth total_exec_time (map_of pre q) (map_of post q)),
      wal_bytes = f_add (wal_bytes t) (growth wal_bytes (map_of pre q) (map_of post q))\<rparr>"
  have "calls (fold ?step ids t) = column_total calls pre post ids (calls t) \<and>
      stat_rows (fold ?step ids t) = column_total stat_rows pre post ids (stat_rows t) \<and>
      total_exec_time (fold ?step ids t) = column_total total_exec_time pre post ids (total_exec_time t) \<and>
      wal_bytes (fold ?step ids t) = column_total wal_bytes pre post ids (wal_bytes t)" for t :: statement
    by (induction ids arbitrary: t) (simp_all add: column_total_def)
  then show "calls (statement_totals pre post ids) = column_total calls pre post ids (Finite 0)"
    "stat_rows (statement_totals pre post ids) = column_total stat_rows pre post ids (Finite 0)"
    "total_exec_time (statement_totals pre post ids) = column_total total_exec_time pre post ids (Finite 0)"
    "wal_bytes (statement_totals pre post ids) = column_total wal_bytes pre post ids (Finite 0)"
    by (simp_all add: statement_totals_def)
qed

lemma column_total_nonneg: "f_le (Finite 0) a \<Longrightarrow> f_le (Finite 0) (column_total f pre post ids a)"
  unfolding column_total_def
  by (induction ids arbitrary: a) (simp_all add: f_add_nonneg growth_def f_max_nonneg)

section \<open>Whole counters are summed exactly\<close>

text \<open>The counters of \<open>pg_stat_statements\<close> are whole numbers; a missing query has counted nothing.\<close>

definition whole :: "(statement \<Rightarrow> pyfloat) \<Rightarrow> (string \<Rightarrow> int) \<Rightarrow> (string \<times> statement) list \<Rightarrow> bool" where
  "whole f m table \<longleftrightarrow> (\<forall>q. 0 \<le> m q \<and> m q < 2 ^ 53 \<and> figure f (map_of table q) = Finite (of_int (m q)))"

definition increase :: "(string \<Rightarrow> int) \<Rightarrow> (string \<Rightarrow> int) \<Rightarrow> string set \<Rightarrow> int" where
  "increase before after ids = (\<Sum>q \<in> ids. max 0 (after q - before q))"

lemma growth_whole:
  assumes "whole f m pre" "whole f m' post"
  shows "growth f (map_of pre q) (map_of post q) = Finite (of_int (max 0 (m' q - m q)))"
proof -
  have "0 \<le> m q" "m q < 2 ^ 53" "0 \<le> m' q" "m' q < 2 ^ 53" using assms by (simp_all add: whole_def)
  then have "\<bar>m' q - m q\<bar> < 2 ^ 53" by linarith
  from double_int [OF this] have "double (of_int (m' q) + - of_int (m q)) = Finite (of_int (m' q - m q))" by simp
  moreover have "growth f (map_of pre q) (map_of post q) = f_max (Finite 0) (double (of_int (m' q) + - of_int (m q)))"
    using assms by (simp add: growth_def f_sub_def whole_def)
  ultimately show ?thesis by (simp add: f_max_def max_def)
qed

lemma column_total_whole:
  assumes "whole f m pre" "whole f m' post"
    and "0 \<le> a" "a + sum_list (map (\<lambda>q. max 0 (m' q - m q)) ids) < 2 ^ 53"
  shows "column_total f pre post ids (Finite (of_int a)) =
    Finite (of_int (a + sum_list (map (\<lambda>q. max 0 (m' q - m q)) ids)))"
  using assms(3,4)
proof (induction ids arbitrary: a)
  case (Cons q ids)
  let ?g = "max 0 (m' q - m q)" and ?s = "sum_list (map (\<lambda>q. max 0 (m' q - m q)) ids)"
  have "0 \<le> ?s" by (rule sum_list_nonneg) auto
  with Cons.prems have a: "0 \<le> a + ?g" "(a + ?g) + ?s < 2 ^ 53" "\<bar>a + ?g\<bar> < 2 ^ 53" by auto
  have "column_total f pre post (q # ids) (Finite (of_int a)) =
      column_total f pre post ids (f_add (Finite (of_int a)) (Finite (of_int ?g)))"
    by (simp only: column_total_def fold.simps comp_def growth_whole [OF assms(1,2)])
  also have "f_add (Finite (of_int a)) (Finite (of_int ?g)) = Finite (of_int (a + ?g))"
    using double_int [OF a(3)] by (simp only: f_add.simps of_int_add)
  also have "column_total f pre post ids \<dots> = Finite (of_int ((a + ?g) + ?s))" by (rule Cons.IH [OF a(1,2)])
  finally show ?case by (simp add: add.assoc)
qed (simp add: column_total_def)

lemma column_total_exact:
  assumes "whole f m pre" "whole f m' post" "distinct ids" "increase m m' (set ids) < 2 ^ 53"
  shows "column_total f pre post ids (Finite 0) = Finite (of_int (increase m m' (set ids)))"
proof -
  have "increase m m' (set ids) = sum_list (map (\<lambda>q. max 0 (m' q - m q)) ids)"
    using assms(3) by (simp add: increase_def sum_list_distinct_conv_sum_set)
  then show ?thesis using column_total_whole [OF assms(1,2), of 0 ids] assms(4) by simp
qed

section \<open>What a derived run consists of\<close>

definition derived_from :: "recording \<Rightarrow> (string list \<Rightarrow> string list) \<Rightarrow> pyfloat \<Rightarrow> int \<Rightarrow> run_figures \<Rightarrow> bool" where
  "derived_from r order duration n fs \<longleftrightarrow>
     (let total = statement_totals (rec_statements_pre r) (rec_statements_post r) (query_ids order r) in
     (\<exists>d. float_of_int n = Inr d \<and> db_statements_per_request fs = f_div (calls total) d \<and>
       db_rows_per_request fs = f_div (stat_rows total) d \<and> db_exec_time_ms_per_request fs = f_div (total_exec_time total) d \<and>
       statement_wal_bytes_per_request fs = f_div (wal_bytes total) d) \<and>
     db_statement_calls_delta fs = calls total \<and> db_rows_delta fs = stat_rows total \<and>
     db_exec_time_ms_delta fs = total_exec_time total \<and> statement_wal_bytes_delta fs = wal_bytes total \<and>
     wal_bytes_per_second fs = f_div (wal_bytes_delta fs) duration \<and>
     (\<exists>c c' conns waiting. list_all2 (\<lambda>v i. int_at ''connections_total'' v = Inr i) (rec_locks r) conns \<and>
       list_all2 (\<lambda>v i. int_at ''waiting_count'' v = Inr i) (rec_locks r) waiting \<and>
       connection_high_water fs = max_int (c # c' # conns) \<and> max_waiting_backends fs = max_int waiting \<and>
       lock_wait_samples fs = int (length (filter (\<lambda>w. 0 < w) waiting))))"

lemma derive_figuresD: "derive_figures py_str order r duration n = Inr fs \<Longrightarrow> derived_from r order duration n fs"
  unfolding derive_figures_def Let_def per_request_def andthen_Inr traverse_Inr
  apply (elim exE conjE)
  apply (simp only: sum.inject)
  apply (hypsubst)
  apply (simp only: derived_from_def Let_def run_figures.simps simp_thms)
  apply (intro conjI)
  apply blast
  apply (rule exI)+
  apply (intro conjI; (assumption | rule refl))
  done

lemma derive_runD:
  assumes "derive_run py_str order dir duration n = Inr fs"
  obtains r where "read_run dir = Inr r" "0 < n" "\<not> f_le duration (Finite 0)" "derived_from r order duration n fs"
  using assms by (auto simp: derive_run_def andthen_Inr dest: derive_figuresD split: if_splits)

lemma andthen_assoc: "andthen (andthen m f) g = andthen m (\<lambda>x. andthen (f x) g)"
  by (cases m) simp_all

text \<open>The duration enters at the end only.\<close>

lemma derive_figures_duration:
  "derive_figures py_str order r d' n = andthen (derive_figures py_str order r d n)
     (\<lambda>fs. Inr (fs\<lparr>duration_seconds := d', wal_bytes_per_second := f_div (wal_bytes_delta fs) d'\<rparr>))"
  by (simp add: derive_figures_def Let_def andthen_assoc)

section \<open>High-water marks\<close>

lemma max_int_Max: "xs \<noteq> [] \<Longrightarrow> max_int xs = Max (set xs)"
proof -
  have flip: "(\<lambda>y m. max m y) = (max :: int \<Rightarrow> int \<Rightarrow> int)" by (intro ext) (rule max.commute)
  assume "xs \<noteq> []"
  then show ?thesis unfolding max_int_def flip by (cases xs) (simp_all only: Max.set_eq_fold list.case)
qed

lemma max_int_upper: "x \<in> set xs \<Longrightarrow> x \<le> max_int xs"
  by (cases "xs = []") (simp_all add: max_int_Max)

lemma max_int_positive: "0 < max_int xs \<longleftrightarrow> (\<exists>x \<in> set xs. 0 < x)"
  by (cases "xs = []") (simp add: max_int_def, simp add: max_int_Max Max_gr_iff)

lemma list_all2_in: "list_all2 R xs ys \<Longrightarrow> x \<in> set xs \<Longrightarrow> \<exists>y \<in> set ys. R x y"
  by (induction rule: list_all2_induct) auto

text \<open>Rounding a positive count gives a positive number.\<close>

lemma half_even_floor: "\<lfloor>x\<rfloor> \<le> half_even x"
  by (simp add: half_even_def Let_def)

lemma pow2_mono: "a \<le> b \<Longrightarrow> pow2 a \<le> pow2 b"
proof -
  have "pow2 e = 2 powi e" for e by (simp add: pow2_def power_int_def power_one_over)
  then show "a \<le> b \<Longrightarrow> pow2 a \<le> pow2 b" by (simp add: power_int_increasing)
qed

lemma double_positive:
  assumes "0 < n"
  shows "double (of_int n) = PosInf \<or> (\<exists>a. double (of_int n) = Finite a \<and> 0 < a)"
proof -
  let ?k = "bitlen n - 1"
  have b: "bitlen 1 = 1" by (simp add: bitlen_def floorlog_def)
  have k: "0 \<le> ?k" "2 ^ nat ?k \<le> n" using bitlen_bounds [OF assms] assms by (simp_all add: bitlen_alt_def)
  then have p: "pow2 ?k \<le> of_int n" by (simp add: pow2_def)
  have "leading_bit (of_int n) = ?k"
    using assms p by (simp add: leading_bit_def b Let_def)
  then have e: "max (leading_bit (of_int n) - 52) (- 1074) \<le> ?k" using k(1) by simp
  let ?e = "max (leading_bit (of_int n) - 52) (- 1074)"
  have "1 \<le> of_int n / pow2 ?e" using order_trans [OF pow2_mono [OF e] p] by simp
  then have "1 \<le> \<lfloor>of_int n / pow2 ?e\<rfloor>" by (simp only: one_le_floor)
  then have "0 < half_even (of_int n / pow2 ?e)"
    using half_even_floor [of "of_int n / pow2 ?e"] by linarith
  then have "0 < of_int (half_even (of_int n / pow2 ?e)) * pow2 ?e" by simp
  then show ?thesis using assms by (auto simp: double_def Let_def)
qed

lemma request_count_positive:
  assumes "float_of_int n = Inr b" "0 < n" "f_le (Finite 0) x"
  shows "f_le (Finite 0) (f_div x b)"
proof -
  obtain a where b: "b = Finite a" "0 < a"
    using double_positive [OF assms(2)] assms(1) by (cases "double (of_int n)") (auto simp: float_of_int_def)
  then show ?thesis
    using assms(3) by (cases x) (auto simp: double_nonneg infinite_def)
qed

section \<open>A recording\<close>

text \<open>Two statements; the second was listed only after the run, the first was called 30 times more.\<close>

definition demo_row :: "string \<Rightarrow> string \<Rightarrow> csv_row" where
  "demo_row q c = [(''queryid'', Some q), (''calls'', Some c)]"

definition demo_run :: run_dir where
  "demo_run = \<lparr>pg_pre = Content (JObj []), pg_post = Content (JObj []),
     statements_pre = Content [demo_row ''1'' ''10''],
     statements_post = Content [demo_row ''1'' ''40'', demo_row ''2'' ''15''],
     lock_samples = Content [Some (JObj [(''connections_total'', JInt 7), (''waiting_count'', JInt 2)])],
     container_samples = Missing\<rparr>"

definition demo_stat :: "int \<Rightarrow> statement" where
  "demo_stat i = \<lparr>calls = Finite (of_int i), stat_rows = Finite 0, total_exec_time = Finite 0, wal_bytes = Finite 0\<rparr>"

lemma demo_read: "read_run demo_run = Inr
   \<lparr>rec_pre = JObj [], rec_post = JObj [], rec_statements_pre = [(''1'', demo_stat 10)],
    rec_statements_post = [(''1'', demo_stat 40), (''2'', demo_stat 15)],
    rec_locks = [JObj [(''connections_total'', JInt 7), (''waiting_count'', JInt 2)]], rec_containers = []\<rparr>"
proof -
  have "double 10 = Finite 10" "double 40 = Finite 40" "double 15 = Finite 15"
    using double_int [of 10] double_int [of 40] double_int [of 15] by simp_all
  moreover have "number_value ''10'' = Some 10" "number_value ''40'' = Some 40" "number_value ''15'' = Some 15"
    by (simp_all add: number_value_def decimal_value_def is_e_def run_digits_def is_digit_def dec_val_def char_digit_def)
  moreover have "split_sign (strip x) = (False, x)" if "x \<in> {''10'', ''40'', ''15''}" for x
    using that by (auto simp: split_sign_def strip_def py_space_def)
  ultimately have "py_float ''10'' = Some (Finite 10)" "py_float ''40'' = Some (Finite 40)" "py_float ''15'' = Some (Finite 15)"
    by (simp_all add: py_float_def to_lower_def Let_def)
  then show ?thesis
    by (simp add: read_run_def demo_run_def load_def read_statement_csv_def read_ndjson_def read_statement_def demo_row_def
        csv_float_def csv_cell_def csv_query_id_def or_value_error_def statement_table_def demo_stat_def)
qed

lemma demo_derived:
  obtains fs where "derive_run py_str (\<lambda>xs. xs) demo_run (Finite 10) 20 = Inr fs"
proof -
  have "float_of_int 0 = Inr (Finite 0)" "float_of_int 20 = Inr (Finite 20)"
    using double_int [of 0] double_int [of 20] by (simp_all add: float_of_int_def)
  then have "\<exists>fs. derive_run py_str (\<lambda>xs. xs) demo_run (Finite 10) 20 = Inr fs"
    by (simp add: derive_run_def demo_read derive_figures_def Let_def f_le_def get_in_def get_default_def int_at_def with_role_def
        float_or_zero_def per_request_def delta_at_def get_def delta_def cpu_max_def rss_max_def process_max_def)
  with that show ?thesis by blast
qed

section \<open>Exact counts\<close>

text \<open>
  C33. The statement counts of a run are the counts of the reference definition: the sum, over
  the queries listed before or after, of how much the counter has grown, a counter that was
  reset counting as no growth.  It is exact although the sum is computed with floats, and it is
  the same in whatever order Python iterates over the set of queries; where no counter was reset
  it is the difference of the totals.  The counters have to be whole numbers and the total below
  \<open>2^53\<close>.
\<close>

theorem run_counts_exact:
  assumes "derive_run py_str order dir duration n = Inr fs" "read_run dir = Inr r"
    and "\<And>xs. distinct xs \<Longrightarrow> distinct (order xs) \<and> set (order xs) = set xs"
    and "whole calls before (rec_statements_pre r)" "whole calls after (rec_statements_post r)"
    and "ids = fst ` set (rec_statements_pre r) \<union> fst ` set (rec_statements_post r)" "increase before after ids < 2 ^ 53"
  shows "db_statement_calls_delta fs = Finite (of_int (increase before after ids)) \<and>
    ((\<forall>q \<in> ids. before q \<le> after q) \<longrightarrow> increase before after ids = sum after ids - sum before ids)"
proof -
  have fs: "db_statement_calls_delta fs = column_total calls (rec_statements_pre r) (rec_statements_post r) (query_ids order r) (Finite 0)"
    using derive_runD [OF assms(1)] assms(2) by (auto simp: derived_from_def Let_def statement_totals_columns)
  have "distinct (query_ids order r) \<and> set (query_ids order r) = ids"
    using assms(3) [of "remdups (map fst (rec_statements_pre r) @ map fst (rec_statements_post r))"] assms(6)
    by (simp add: query_ids_def)
  with column_total_exact [OF assms(4,5)] assms(7) fs
  have "db_statement_calls_delta fs = Finite (of_int (increase before after ids))" by auto
  moreover have "increase before after ids = sum after ids - sum before ids" if "\<forall>q \<in> ids. before q \<le> after q"
  proof -
    have "increase before after ids = (\<Sum>q \<in> ids. after q - before q)"
      unfolding increase_def using that by (intro sum.cong) auto
    then show ?thesis by (simp add: sum_subtractf)
  qed
  ultimately show ?thesis by blast
qed

lemma run_counts_exact_witness:
  "\<exists>fs. derive_run (\<lambda>_. []) (\<lambda>xs. xs) demo_run (Finite 10) 20 = Inr fs \<and> db_statement_calls_delta fs = Finite 45"
proof -
  obtain fs where fs: "derive_run (\<lambda>_. []) (\<lambda>xs. xs) demo_run (Finite 10) 20 = Inr fs" by (rule demo_derived)
  let ?before = "(\<lambda>_. 0)(''1'' := 10)" and ?after = "(\<lambda>_. 0)(''1'' := 40, ''2'' := 15)"
  have "whole calls ?before [(''1'', demo_stat 10)]" "whole calls ?after [(''1'', demo_stat 40), (''2'', demo_stat 15)]"
    by (simp_all add: whole_def figure_def demo_stat_def)
  moreover have "increase ?before ?after {''1'', ''2''} = 45" by (simp add: increase_def)
  ultimately have "db_statement_calls_delta fs = Finite (of_int 45)"
    using run_counts_exact [OF fs demo_read, of ?before ?after "{''1'', ''2''}"] by (simp add: insert_commute)
  then have "db_statement_calls_delta fs = Finite 45" by simp
  with fs show ?thesis by blast
qed

section \<open>Signs and marks of every run\<close>

text \<open>
  Whatever was recorded, if the figures of a run are derived at all then its statement
  deltas and the figures per request are not negative and not NaN, the high-water marks are
  not below any sample of the locks, and there is a sample with a wait exactly if the greatest
  number of waiting backends is positive.
\<close>

theorem run_figures_bounded:
  assumes "derive_run py_str order dir duration n = Inr fs" "read_run dir = Inr r"
  shows "(\<forall>x \<in> {db_statement_calls_delta fs, db_rows_delta fs, db_exec_time_ms_delta fs, statement_wal_bytes_delta fs,
        db_statements_per_request fs, db_rows_per_request fs, db_exec_time_ms_per_request fs,
        statement_wal_bytes_per_request fs}. f_le (Finite 0) x) \<and>
    (\<forall>v \<in> set (rec_locks r). \<exists>i j. int_at ''connections_total'' v = Inr i \<and> i \<le> connection_high_water fs \<and>
        int_at ''waiting_count'' v = Inr j \<and> j \<le> max_waiting_backends fs) \<and>
    (0 < lock_wait_samples fs \<longleftrightarrow> 0 < max_waiting_backends fs)"
proof -
  let ?t = "statement_totals (rec_statements_pre r) (rec_statements_post r) (query_ids order r)"
  have n: "0 < n" and d: "derived_from r order duration n fs" using derive_runD [OF assms(1)] assms(2) by auto
  have cols: "f_le (Finite 0) (calls ?t)" "f_le (Finite 0) (stat_rows ?t)" "f_le (Finite 0) (total_exec_time ?t)" "f_le (Finite 0) (wal_bytes ?t)"
    by (simp_all add: statement_totals_columns column_total_nonneg)
  obtain b where b: "float_of_int n = Inr b" "db_statements_per_request fs = f_div (calls ?t) b"
    "db_rows_per_request fs = f_div (stat_rows ?t) b" "db_exec_time_ms_per_request fs = f_div (total_exec_time ?t) b"
    "statement_wal_bytes_per_request fs = f_div (wal_bytes ?t) b"
    and same: "db_statement_calls_delta fs = calls ?t" "db_rows_delta fs = stat_rows ?t"
      "db_exec_time_ms_delta fs = total_exec_time ?t" "statement_wal_bytes_delta fs = wal_bytes ?t"
    using d unfolding derived_from_def Let_def by blast
  have each: "f_le (Finite 0) (f_div x b)" if "f_le (Finite 0) x" for x
    using b(1) n that by (rule request_count_positive)
  obtain c c' conns waiting where marks: "list_all2 (\<lambda>v i. int_at ''connections_total'' v = Inr i) (rec_locks r) conns"
      "list_all2 (\<lambda>v i. int_at ''waiting_count'' v = Inr i) (rec_locks r) waiting"
      "connection_high_water fs = max_int (c # c' # conns)" "max_waiting_backends fs = max_int waiting"
      "lock_wait_samples fs = int (length (filter (\<lambda>w. 0 < w) waiting))"
    using d unfolding derived_from_def Let_def by blast
  have "\<exists>i j. int_at ''connections_total'' v = Inr i \<and> i \<le> connection_high_water fs \<and>
      int_at ''waiting_count'' v = Inr j \<and> j \<le> max_waiting_backends fs" if v: "v \<in> set (rec_locks r)" for v
  proof -
    obtain i where "i \<in> set conns \<and> int_at ''connections_total'' v = Inr i" using list_all2_in [OF marks(1) v] by blast
    moreover obtain j where "j \<in> set waiting \<and> int_at ''waiting_count'' v = Inr j" using list_all2_in [OF marks(2) v] by blast
    ultimately show ?thesis using max_int_upper by (auto simp: marks(3,4))
  qed
  moreover have "0 < lock_wait_samples fs \<longleftrightarrow> 0 < max_waiting_backends fs"
    by (simp add: marks(4,5) max_int_positive filter_empty_conv)
  ultimately show ?thesis using cols each by (simp add: same b)
qed

lemma run_figures_bounded_witness:
  "\<exists>fs. derive_run (\<lambda>_. []) (\<lambda>xs. xs) demo_run (Finite 10) 20 = Inr fs \<and> 7 \<le> connection_high_water fs \<and>
     2 \<le> max_waiting_backends fs \<and> 0 < lock_wait_samples fs"
proof -
  obtain fs where fs: "derive_run (\<lambda>_. []) (\<lambda>xs. xs) demo_run (Finite 10) 20 = Inr fs" by (rule demo_derived)
  have "7 \<le> connection_high_water fs" "2 \<le> max_waiting_backends fs" "0 < lock_wait_samples fs \<longleftrightarrow> 0 < max_waiting_backends fs"
    using run_figures_bounded [OF fs demo_read] by (simp_all add: int_at_def get_default_def)
  with fs show ?thesis by auto
qed

section \<open>The check of the duration\<close>

text \<open>
  The test \<open>duration_seconds <= 0\<close> refuses every duration that is not positive with exit
  code 2, but NaN passes it: \<open>--duration-seconds nan\<close> is accepted with exit code 0 wherever a
  proper duration is, and the figure of WAL bytes per second that is printed is NaN.
\<close>

theorem nan_duration_accepted:
  assumes "derive_run py_str order dir duration n = Inr fs"
  shows "command_derive_run py_str order dir NotANumber n = 0 \<and>
    derive_run py_str order dir NotANumber n =
      Inr (fs\<lparr>duration_seconds := NotANumber, wal_bytes_per_second := NotANumber\<rparr>) \<and>
    (f_le other (Finite 0) \<longrightarrow> command_derive_run py_str order dir other n = 2)"
proof -
  obtain r where r: "read_run dir = Inr r" "0 < n" using derive_runD [OF assms] by blast
  have "\<not> f_le duration (Finite 0)" using derive_runD [OF assms] by blast
  then have "derive_figures py_str order r duration n = Inr fs" using assms r by (simp add: derive_run_def)
  then have "derive_figures py_str order r NotANumber n =
      Inr (fs\<lparr>duration_seconds := NotANumber, wal_bytes_per_second := f_div (wal_bytes_delta fs) NotANumber\<rparr>)"
    using derive_figures_duration [of py_str order r NotANumber n duration] by simp
  moreover have "f_div x NotANumber = NotANumber" for x by (cases x) simp_all
  ultimately have nan: "derive_run py_str order dir NotANumber n =
      Inr (fs\<lparr>duration_seconds := NotANumber, wal_bytes_per_second := NotANumber\<rparr>)"
    using r by (simp add: derive_run_def f_le_def)
  then show ?thesis by (simp add: command_derive_run_def) (simp add: derive_run_def)
qed

lemma nan_duration_accepted_witness:
  "command_derive_run (\<lambda>_. []) (\<lambda>xs. xs) demo_run NotANumber 20 = 0 \<and>
   command_derive_run (\<lambda>_. []) (\<lambda>xs. xs) demo_run (Finite 0) 20 = 2"
proof -
  obtain fs where "derive_run (\<lambda>_. []) (\<lambda>xs. xs) demo_run (Finite 10) 20 = Inr fs" by (rule demo_derived)
  from nan_duration_accepted [OF this, of "Finite 0"] show ?thesis by simp
qed

end
