(* ===== verification/Report_Parity.thy ===== *)
theory Report_Parity
  imports Metrics Driver_Properties
begin

text \<open>
  The report \<open>scripts/correctness_driver.py\<close> writes and what \<open>metrics/normalize.py\<close> makes of
  two of them: the step of the benchmark that decides whether two runtimes may be compared.
\<close>

section \<open>Equality of JSON values\<close>

lemma map_of_tabulate: "map_of (map (\<lambda>c. (c, f c)) cs) c = (if c \<in> set cs then Some (f c) else None)"
  by (induction cs) auto

lemma py_eq_items_tabulate:
  "py_eq_items (map (\<lambda>c. (c, f c)) cs) (map (\<lambda>c. (c, g c)) ds) \<longleftrightarrow> (\<forall>c \<in> set cs. c \<in> set ds \<and> py_eq (f c) (g c))"
  by (induction cs) (auto simp: map_of_tabulate)

lemma py_eq_int: "py_eq (JInt i) (JInt j) \<longleftrightarrow> i = j"
  by simp

section \<open>The report\<close>

text \<open>A row of \<open>sql_snapshot\<close>, typed by its SELECT; a float is the text PostgreSQL gives it.\<close>

record stat_row =
  sn_query :: string
  sn_calls :: int
  sn_rows :: int
  sn_total_exec_time_ms :: string

definition stat_row_json :: "stat_row \<Rightarrow> json" where
  "stat_row_json r = JObj [(''query'', JStr (sn_query r)), (''calls'', JInt (sn_calls r)),
     (''rows'', JInt (sn_rows r)), (''total_exec_time_ms'', JFloat (sn_total_exec_time_ms r))]"

definition semantic_calls :: "stat_row list \<Rightarrow> int" where
  "semantic_calls snapshot = sum_list (map sn_calls snapshot)"

text \<open>The cases in the order of \<open>main\<close>; each adds its name to the three dicts of the report.\<close>

definition case_names :: "string list" where
  "case_names = [''heartbeat'', ''configuration'', ''card'', ''same_key'', ''qr_2'', ''qr_10'', ''qr_100'',
     ''rf_2'', ''rf_10'', ''rf_100'', ''command'', ''dashboard'', ''worker'']"

definition per_case :: "(string \<Rightarrow> json) \<Rightarrow> json" where
  "per_case f = JObj (map (\<lambda>c. (c, f c)) case_names)"

text \<open>
  The report of a run that reaches its end; \<open>snapshot\<close> is what \<open>pg_stat_statements\<close> lists
  after each case.
\<close>

definition driver_report ::
  "digests \<Rightarrow> schedule \<Rightarrow> string \<Rightarrow> string \<Rightarrow> (string \<Rightarrow> stat_row list) \<Rightarrow> session \<Rightarrow> json option" where
  "driver_report dg sch runtime profile snapshot s = map_option (\<lambda>t. JObj
     [(''runtime'', JStr runtime), (''profile'', JStr profile),
      (''hard_gate'', JObj (map (\<lambda>(query, n). (query, JInt n)) (hard_gate (committed t)))),
      (''contracts'', per_case (\<lambda>c. JBool True)),
      (''sql_semantics'', per_case (\<lambda>c. JInt (semantic_calls (snapshot c)))),
      (''sql'', per_case (\<lambda>c. JArr (map stat_row_json (snapshot c))))])
     (driver_cases dg sch s)"

lemma py_eq_per_case: "py_eq (per_case f) (per_case g) \<longleftrightarrow> (\<forall>c \<in> set case_names. py_eq (f c) (g c))"
  by (simp add: per_case_def py_eq_items_tabulate)

section \<open>When two reports are accepted\<close>

definition field :: "(string \<times> json) list \<Rightarrow> string \<Rightarrow> json" where
  "field kvs k = (case map_of kvs k of None \<Rightarrow> JNull | Some v \<Rightarrow> v)"

text \<open>A gate that is not there counts as zero, as the code has it.\<close>

definition gate_zero :: "(string \<times> json) list \<Rightarrow> bool" where
  "gate_zero kvs \<longleftrightarrow> (case map_of kvs ''hard_gate'' of
     None \<Rightarrow> True | Some (JObj qs) \<Rightarrow> (\<forall>(q, v) \<in> set qs. py_eq v (JInt 0)) | Some _ \<Rightarrow> False)"

lemma gate_failures_none: "gate_failures label (JObj kvs) = Inr [] \<longleftrightarrow> gate_zero kvs"
  by (auto simp: gate_failures_def get_default_def gate_zero_def nonzero_def filter_empty_conv split: option.split json.split)

lemma gate_failures_some: "gate_failures label (JObj kvs) = Inr (f # fs) \<Longrightarrow> \<not> gate_zero kvs"
  using gate_failures_none [of label kvs] by simp

lemma differs_eq:
  "differs k failure (JObj l) (JObj r) = Inr (if py_eq (field l k) (field r k) then [] else [failure])"
  by (simp add: differs_def get_def get_default_def field_def)

lemma compare_zero:
  "command_compare_correctness (Content (JObj l)) (Content (JObj r)) = 0 \<longleftrightarrow>
     gate_zero l \<and> gate_zero r \<and>
     (\<forall>k \<in> {''profile'', ''contracts'', ''sql_semantics''}. py_eq (field l k) (field r k))"
proof -
  have gate: "(\<exists>e. gate_failures label (JObj kvs) = Inl e) \<or> (\<exists>fs. gate_failures label (JObj kvs) = Inr fs \<and> (fs = [] \<longleftrightarrow> gate_zero kvs))"
    for label kvs
    using gate_failures_none [of label kvs] by (cases "gate_failures label (JObj kvs)") auto
  have bad: "gate_failures label (JObj kvs) = Inl e \<Longrightarrow> \<not> gate_zero kvs" for label kvs e
    using gate_failures_none [of label kvs] by simp
  show ?thesis
    using gate [of "''left''" l] gate [of "''right''" r] bad
    by (auto simp: command_compare_correctness_def load_def compare_correctness_def differs_eq Let_def split: if_splits)
qed

text \<open>Two reports without a hard gate, without anything, are accepted.\<close>

lemma ungated_accepted: "command_compare_correctness (Content (JObj [])) (Content (JObj [])) = 0"
  by (simp add: compare_zero gate_zero_def field_def)

section \<open>Two passing runs\<close>

lemma report_gate_zero:
  assumes "\<not> list_ex (\<lambda>(query, n). n \<noteq> 0) gate"
  shows "\<forall>(q, v) \<in> set (map (\<lambda>(query, n). (query, JInt n)) gate). py_eq v (JInt 0)"
  using assms by (auto simp: list_ex_iff)

lemma case_calls:
  "py_eq (per_case (\<lambda>c. JInt (semantic_calls (snap c)))) (per_case (\<lambda>c. JInt (semantic_calls (snap' c)))) \<longleftrightarrow>
     (\<forall>c \<in> set case_names. semantic_calls (snap c) = semantic_calls (snap' c))"
  by (simp only: py_eq_per_case py_eq_int)

lemma case_contracts: "py_eq (per_case (\<lambda>c. JBool True)) (per_case (\<lambda>c. JBool True))"
  by (simp add: py_eq_per_case)

lemma passing_report:
  assumes "get_profile name = Inr cfg" "plausible sch"
    and "result_hash dg ''FAILED'' (Some ''HW'') (Some ''different'') \<noteq> result_hash dg ''SUCCESS'' None None"
  obtains kvs where "driver_report dg sch runtime name snap (seed_database dg md5_hex cfg) = Some (JObj kvs)" "gate_zero kvs"
    "field kvs ''profile'' = JStr name" "field kvs ''contracts'' = per_case (\<lambda>c. JBool True)"
    "field kvs ''sql_semantics'' = per_case (\<lambda>c. JInt (semantic_calls (snap c)))"
proof -
  have sized: "sized cfg" by (rule PROFILES_sized [OF assms(1)])
  then have "crewed (seed_db dg md5_hex cfg)" using seed_cast by (simp add: cast_def)
  with driver_cases_pass [OF seed_on_stage [OF sized] _ assms(2,3)]
  obtain t where t: "driver_cases dg sch (seed_database dg md5_hex cfg) = Some t"
    "on_stage dg (seeded_device cfg 1) (seeded_card dg cfg 1) (seed_db dg md5_hex cfg) t" by blast
  let ?kvs = "[(''runtime'', JStr runtime), (''profile'', JStr name),
      (''hard_gate'', JObj (map (\<lambda>(query, n). (query, JInt n)) (hard_gate (committed t)))),
      (''contracts'', per_case (\<lambda>c. JBool True)),
      (''sql_semantics'', per_case (\<lambda>c. JInt (semantic_calls (snap c)))),
      (''sql'', per_case (\<lambda>c. JArr (map stat_row_json (snap c))))]"
  have "driver_report dg sch runtime name snap (seed_database dg md5_hex cfg) = Some (JObj ?kvs)"
    by (simp add: driver_report_def t(1))
  moreover have "gate_zero ?kvs" using report_gate_zero [OF stage_gate [OF t(2)]] by (simp add: gate_zero_def)
  ultimately show ?thesis by (rule that) (simp_all add: field_def)
qed



end
