(* ===== verification/Contracts.thy ===== *)
theory Contracts
  imports Metrics
begin

text \<open>
  \<open>scripts/validate_contracts.py\<close>: the check that the eight workload contracts are there and
  complete.  A parsed YAML document is a value of \<^typ>\<open>json\<close>; the parser is a parameter, None
  is a \<open>YAMLError\<close>.
\<close>

section \<open>The constants\<close>

definition REQUIRED :: "string list" where
  "REQUIRED = map (\<lambda>i. ''W'' @ nat_dec i) [1..<9]"

definition REQUIRED_KEYS :: "string list" where
  "REQUIRED_KEYS = [''version'', ''workload'', ''endpoint'', ''transaction'', ''locking'', ''idempotency'', ''invariants'', ''metrics'']"

definition PLACEHOLDER_WORDS :: "string list" where
  "PLACEHOLDER_WORDS = [''TBD'', ''TODO'', ''IMPLEMENT LATER'']"

section \<open>One file\<close>

text \<open>\<open>word in text\<close>.\<close>

fun contains :: "string \<Rightarrow> string \<Rightarrow> bool" where
  "contains word [] \<longleftrightarrow> word = []"
| "contains word (c # s) \<longleftrightarrow> startswith word (c # s) \<or> contains word s"

definition endswith :: "string \<Rightarrow> string \<Rightarrow> bool" where
  "endswith e s \<longleftrightarrow> startswith (rev e) (rev s)"

datatype contract_error =
    PlaceholderText string
  | InvalidYaml string
  | UnknownWorkload string
  | DuplicateWorkload string string string
  | MissingKeys string "string list"
  | NoInvariants string
  | NoMetrics string
  | NoEndpoint string
  | MissingWorkloads "string list"

text \<open>\<open>isinstance(value, list) and value\<close>, and an endpoint with a method and a path.\<close>

definition nonempty_list :: "json \<Rightarrow> bool" where
  "nonempty_list v = (case v of JArr xs \<Rightarrow> xs \<noteq> [] | _ \<Rightarrow> False)"

definition entry :: "string \<Rightarrow> (string \<times> json) list \<Rightarrow> json" where
  "entry k kvs = (case map_of kvs k of None \<Rightarrow> JNull | Some v \<Rightarrow> v)"

definition proper_endpoint :: "json \<Rightarrow> bool" where
  "proper_endpoint v = (case v of
     JObj kvs \<Rightarrow> truthy (entry ''method'' kvs) \<and> truthy (entry ''path'' kvs) | _ \<Rightarrow> False)"

definition error_if :: "bool \<Rightarrow> 'e \<Rightarrow> 'e list" where
  "error_if c e = (if c then [e] else [])"

definition missing_keys :: "(string \<times> json) list \<Rightarrow> string list" where
  "missing_keys data = sort (filter (\<lambda>k. map_of data k = None) REQUIRED_KEYS)"

text \<open>The last four tests, which follow each other without a \<open>continue\<close>.\<close>

definition content_errors :: "string \<Rightarrow> (string \<times> json) list \<Rightarrow> contract_error list" where
  "content_errors name data =
     error_if (missing_keys data \<noteq> []) (MissingKeys name (missing_keys data)) @
     error_if (\<not> nonempty_list (entry ''invariants'' data)) (NoInvariants name) @
     error_if (\<not> nonempty_list (entry ''metrics'' data)) (NoMetrics name) @
     error_if (\<not> proper_endpoint (entry ''endpoint'' data)) (NoEndpoint name)"

text \<open>
  \<open>workload not in REQUIRED\<close>: a list or dict cannot be looked up in a set, which is a
  TypeError; any other value that is not a string is not in it.
\<close>

fun required_workload :: "json \<Rightarrow> string option attempt" where
  "required_workload (JStr w) = Inr (if w \<in> set REQUIRED then Some w else None)"
| "required_workload (JArr xs) = Inl TypeError"
| "required_workload (JObj kvs) = Inl TypeError"
| "required_workload v = Inr None"

type_synonym progress = "(string \<times> string) list \<times> contract_error list"

definition check_file :: "(string \<Rightarrow> json option) \<Rightarrow> string \<times> string \<Rightarrow> progress \<Rightarrow> progress attempt" where
  "check_file yaml file st = (case (file, st) of ((name, content), (seen, errors)) \<Rightarrow>
     if list_ex (\<lambda>word. contains word (map to_upper content)) PLACEHOLDER_WORDS
     then Inr (seen, errors @ [PlaceholderText name])
     else case yaml content of
       None \<Rightarrow> Inr (seen, errors @ [InvalidYaml name])
     | Some v \<Rightarrow> (case (if truthy v then v else JObj []) of
         JObj data \<Rightarrow> andthen (required_workload (entry ''workload'' data)) (\<lambda>w. case w of
           None \<Rightarrow> Inr (seen, errors @ [UnknownWorkload name])
         | Some w \<Rightarrow> (case map_of seen w of
             Some first \<Rightarrow> Inr (seen, errors @ [DuplicateWorkload name w first])
           | None \<Rightarrow> Inr (seen @ [(w, name)], errors @ content_errors name data)))
       | _ \<Rightarrow> Inl AttributeError))"

fun check_files :: "(string \<Rightarrow> json option) \<Rightarrow> (string \<times> string) list \<Rightarrow> progress \<Rightarrow> progress attempt" where
  "check_files yaml [] st = Inr st"
| "check_files yaml (f # fs) st = andthen (check_file yaml f st) (check_files yaml fs)"

section \<open>The run\<close>

text \<open>The files of the directory with their contents; \<open>None\<close> is a directory that does not exist.\<close>

definition contract_files :: "(string \<times> string) list \<Rightarrow> (string \<times> string) list" where
  "contract_files entries =
     filter (\<lambda>(name, content). name \<noteq> ''common.yaml'') (sort_key fst (filter (\<lambda>(name, content). endswith ''.yaml'' name) entries))"

definition contracts_main :: "(string \<Rightarrow> json option) \<Rightarrow> (string \<times> string) list option \<Rightarrow> int attempt" where
  "contracts_main yaml dir = (case dir of
     None \<Rightarrow> Inr 30
   | Some entries \<Rightarrow> andthen (check_files yaml (contract_files entries) ([], [])) (\<lambda>(seen, errors).
       let missing = sort (filter (\<lambda>w. map_of seen w = None) REQUIRED);
           all_errors = errors @ error_if (missing \<noteq> []) (MissingWorkloads missing)
       in Inr (if all_errors \<noteq> [] then 31 else 0)))"

section \<open>What acceptance means\<close>

text \<open>A file that is a complete contract for a workload.\<close>

definition contract_for :: "(string \<Rightarrow> json option) \<Rightarrow> string \<Rightarrow> string \<Rightarrow> bool" where
  "contract_for yaml content w \<longleftrightarrow>
     (\<forall>word \<in> set PLACEHOLDER_WORDS. \<not> contains word (map to_upper content)) \<and> w \<in> set REQUIRED \<and>
     (\<exists>data. yaml content = Some (JObj data) \<and> map_of data ''workload'' = Some (JStr w) \<and>
       (\<forall>k \<in> set REQUIRED_KEYS. map_of data k \<noteq> None) \<and>
       nonempty_list (entry ''invariants'' data) \<and> nonempty_list (entry ''metrics'' data) \<and>
       proper_endpoint (entry ''endpoint'' data))"

lemma missing_keys_none: "missing_keys data = [] \<longleftrightarrow> (\<forall>k \<in> set REQUIRED_KEYS. map_of data k \<noteq> None)"
  by (auto simp: missing_keys_def filter_empty_conv simp flip: set_empty)

lemma content_errors_none:
  "content_errors name data = [] \<longleftrightarrow> (\<forall>k \<in> set REQUIRED_KEYS. map_of data k \<noteq> None) \<and>
     nonempty_list (entry ''invariants'' data) \<and> nonempty_list (entry ''metrics'' data) \<and>
     proper_endpoint (entry ''endpoint'' data)"
  by (auto simp: content_errors_def error_if_def missing_keys_none)

lemma clean_step:
  "check_file yaml (name, content) (seen, []) = Inr (seen', []) \<longleftrightarrow>
     (\<exists>w. contract_for yaml content w \<and> map_of seen w = None \<and> seen' = seen @ [(w, name)])"
proof (cases "list_ex (\<lambda>word. contains word (map to_upper content)) PLACEHOLDER_WORDS")
  case True
  then show ?thesis by (auto simp: check_file_def contract_for_def list_ex_iff)
next
  case False
  then have clean: "\<forall>word \<in> set PLACEHOLDER_WORDS. \<not> contains word (map to_upper content)" by (simp add: list_ex_iff)
  show ?thesis
  proof (cases "\<exists>data w. yaml content = Some (JObj data) \<and> map_of data ''workload'' = Some (JStr w)")
    case True
    then obtain data w where data: "yaml content = Some (JObj data)" "map_of data ''workload'' = Some (JStr w)" by blast
    then have "data \<noteq> []" by auto
    with data False clean show ?thesis
      by (auto simp: check_file_def contract_for_def entry_def content_errors_none list_ex_iff split: option.splits)
  next
    case other: False
    have "required_workload (entry ''workload'' data) \<noteq> Inr (Some w)" if "yaml content = Some (JObj data)" for data w
      using that other by (cases "map_of data ''workload''"; cases "entry ''workload'' data") (auto simp: entry_def split: if_splits)
    moreover have "required_workload (entry ''workload'' []) = Inr None" by (simp add: entry_def)
    ultimately have "check_file yaml (name, content) (seen, []) \<noteq> Inr (seen', [])"
      using False by (auto simp: check_file_def andthen_def split: option.splits json.splits sum.splits if_splits)
    with other show ?thesis by (auto simp: contract_for_def)
  qed
qed

text \<open>Errors are only added, and what is added does not depend on those before.\<close>

lemma check_file_errors:
  "check_file yaml f (seen, errors) = andthen (check_file yaml f (seen, [])) (\<lambda>(s, es). Inr (s, errors @ es))"
  by (cases f) (auto simp: check_file_def andthen_def split: option.splits json.splits sum.splits if_splits)

lemma check_files_errors:
  "check_files yaml fs (seen, errors) = andthen (check_files yaml fs (seen, [])) (\<lambda>(s, es). Inr (s, errors @ es))"
proof (induction fs arbitrary: seen errors)
  case (Cons f fs)
  show ?case
  proof (cases "check_file yaml f (seen, [])")
    case (Inr st)
    obtain s es where st: "st = (s, es)" by (cases st)
    have "check_files yaml fs (s, errors @ es) = andthen (check_files yaml fs (s, [])) (\<lambda>(s, fs). Inr (s, (errors @ es) @ fs))"
      by (rule Cons.IH)
    moreover have "check_files yaml fs (s, es) = andthen (check_files yaml fs (s, [])) (\<lambda>(s, fs). Inr (s, es @ fs))"
      by (rule Cons.IH)
    ultimately show ?thesis
      by (simp add: check_file_errors [of _ _ _ errors] Inr st) (cases "check_files yaml fs (s, [])"; auto)
  qed (simp add: check_file_errors [of _ _ _ errors])
qed simp

lemma clean_run:
  "check_files yaml fs (seen, []) = Inr (seen', []) \<longleftrightarrow>
     (\<exists>ws. list_all2 (\<lambda>(name, content) w. contract_for yaml content w) fs ws \<and>
       distinct ws \<and> set ws \<inter> fst ` set seen = {} \<and> seen' = seen @ zip ws (map fst fs))"
proof (induction fs arbitrary: seen)
  case (Cons f fs)
  obtain name content where f: "f = (name, content)" by (cases f)
  have "check_files yaml (f # fs) (seen, []) = Inr (seen', []) \<longleftrightarrow>
      (\<exists>s. check_file yaml f (seen, []) = Inr (s, []) \<and> check_files yaml fs (s, []) = Inr (seen', []))"
  proof (cases "check_file yaml f (seen, [])")
    case (Inr st)
    obtain s es where st: "st = (s, es)" by (cases st)
    then show ?thesis
      using check_files_errors [of yaml fs s es] by (cases "check_files yaml fs (s, [])") (auto simp: Inr)
  qed simp
  also have "\<dots> \<longleftrightarrow> (\<exists>w ws. contract_for yaml content w \<and> w \<notin> fst ` set seen \<and>
      list_all2 (\<lambda>(name, content) w. contract_for yaml content w) fs ws \<and> distinct ws \<and>
      set ws \<inter> fst ` set (seen @ [(w, name)]) = {} \<and> seen' = (seen @ [(w, name)]) @ zip ws (map fst fs))"
    unfolding f clean_step map_of_eq_None_iff using Cons.IH by blast
  also have "\<dots> \<longleftrightarrow> (\<exists>ws. list_all2 (\<lambda>(name, content) w. contract_for yaml content w) (f # fs) ws \<and>
      distinct ws \<and> set ws \<inter> fst ` set seen = {} \<and> seen' = seen @ zip ws (map fst (f # fs)))"
    (is "?l \<longleftrightarrow> ?r")
  proof
    assume ?l
    then obtain w ws where "contract_for yaml content w" "w \<notin> fst ` set seen"
      "list_all2 (\<lambda>(name, content) w. contract_for yaml content w) fs ws" "distinct ws"
      "set ws \<inter> fst ` set (seen @ [(w, name)]) = {}" "seen' = (seen @ [(w, name)]) @ zip ws (map fst fs)" by blast
    then show ?r by (intro exI [of _ "w # ws"]) (auto simp: f)
  next
    assume ?r
    then obtain vs where vs: "list_all2 (\<lambda>(name, content) w. contract_for yaml content w) (f # fs) vs"
      "distinct vs" "set vs \<inter> fst ` set seen = {}" "seen' = seen @ zip vs (map fst (f # fs))" by blast
    then obtain w ws where "vs = w # ws" by (cases vs) auto
    with vs show ?l by (intro exI [of _ w] exI [of _ ws]) (auto simp: f)
  qed
  finally show ?case .
qed auto

lemma REQUIRED_sort: "sort (filter P REQUIRED) = [] \<longleftrightarrow> (\<forall>w \<in> set REQUIRED. \<not> P w)"
  by (auto simp: filter_empty_conv simp flip: set_empty)

text \<open>
  The contract check accepts a directory exactly if its YAML files other than
  \<open>common.yaml\<close>, in order of their names, are complete contracts - no placeholder text, all
  required keys, invariants and metrics that are not empty, an endpoint with method and path -
  for eight different workloads that are W1 to W8; everything else, unless it crashes, is
  refused with 30 or 31.
\<close>

theorem contracts_accepted:
  "contracts_main yaml (Some entries) = Inr 0 \<longleftrightarrow>
     (\<exists>ws. list_all2 (\<lambda>(name, content) w. contract_for yaml content w) (contract_files entries) ws \<and>
       distinct ws \<and> set ws = set REQUIRED)"
proof -
  let ?fs = "contract_files entries"
  have "contracts_main yaml (Some entries) = Inr 0 \<longleftrightarrow>
      (\<exists>seen. check_files yaml ?fs ([], []) = Inr (seen, []) \<and> (\<forall>w \<in> set REQUIRED. w \<in> fst ` set seen))"
    by (cases "check_files yaml ?fs ([], [])")
      (auto simp: contracts_main_def error_if_def Let_def REQUIRED_sort map_of_eq_None_iff split: if_splits)
  also have "\<dots> \<longleftrightarrow> (\<exists>ws. list_all2 (\<lambda>(name, content) w. contract_for yaml content w) ?fs ws \<and> distinct ws \<and>
      (\<forall>w \<in> set REQUIRED. w \<in> fst ` set (zip ws (map fst ?fs))))"
    unfolding clean_run by auto
  also have "\<dots> \<longleftrightarrow> (\<exists>ws. list_all2 (\<lambda>(name, content) w. contract_for yaml content w) ?fs ws \<and> distinct ws \<and> set ws = set REQUIRED)"
  proof (intro ex_cong1 conj_cong refl)
    fix ws assume all: "list_all2 (\<lambda>(name, content) w. contract_for yaml content w) ?fs ws"
    have "map fst (zip ws (map fst ?fs)) = ws" using list_all2_lengthD [OF all] by simp
    then have "fst ` set (zip ws (map fst ?fs)) = set ws" by (metis list.set_map)
    moreover have "w \<in> set REQUIRED" if "w \<in> set ws" for w
      using all that by (induction rule: list_all2_induct) (auto simp: contract_for_def)
    ultimately show "(\<forall>w \<in> set REQUIRED. w \<in> fst ` set (zip ws (map fst ?fs))) \<longleftrightarrow> set ws = set REQUIRED" by auto
  qed
  finally show ?thesis .
qed

end
