(* ===== verification/Freeze.thy ===== *)
theory Freeze
  imports Metrics Auth
begin

text \<open>
  \<open>scripts/freeze_source.py\<close>: the manifest of the sources a benchmark is derived from.  Git,
  the parsers of TOML and YAML and SHA-256 are parameters; a parsed document is a value of
  \<^typ>\<open>json\<close>.
\<close>

section \<open>The constants\<close>

definition RELEVANT_FILES :: "string list" where
  "RELEVANT_FILES =
     [''apps/api/app/main.py'', ''apps/api/app/infrastructure/database.py'',
      ''apps/api/app/infrastructure/cache.py'', ''apps/api/app/application/target_payments.py'',
      ''apps/api/app/application/target_catalog_devices.py'', ''apps/api/app/application/target_worker.py'',
      ''apps/api/app/api/routes/target_payments.py'', ''apps/api/app/api/routes/target_catalog_devices.py'',
      ''apps/api/app/domain/target/payments.py'', ''apps/api/app/domain/target/devices.py'',
      ''apps/api/app/domain/target/cashier.py'', ''apps/api/pyproject.toml'', ''apps/api/uv.lock'',
      ''docker-compose.yml'', ''infrastructure/target-acceptance.compose.yml'',
      ''performance/phase11-authenticated-load.js'', ''docs/43-scale-performance-and-service-levels.md'']"

definition WORKLOADS :: "(string \<times> string list) list" where
  "WORKLOADS =
     [(''W1'', [''apps/api/app/application/target_catalog_devices.py'',
                ''apps/api/app/api/routes/target_catalog_devices.py'', ''apps/api/app/domain/target/devices.py'']),
      (''W2'', [''apps/api/app/application/target_catalog_devices.py'',
                ''apps/api/app/api/routes/target_catalog_devices.py'', ''apps/api/app/domain/target/devices.py'']),
      (''W3'', [''apps/api/app/application/target_payments.py'', ''apps/api/app/domain/target/payments.py'']),
      (''W4'', [''apps/api/app/application/target_payments.py'', ''apps/api/app/domain/target/cashier.py'']),
      (''W5'', [''apps/api/app/application/target_payments.py'', ''apps/api/app/domain/target/cashier.py'']),
      (''W6'', [''performance/phase11-authenticated-load.js'']),
      (''W7'', [''apps/api/app/application/target_payments.py'', ''apps/api/app/api/routes/target_payments.py'']),
      (''W8'', [''apps/api/app/application/target_worker.py''])]"

definition DEPENDENCY_NAMES :: "string list" where
  "DEPENDENCY_NAMES = [''fastapi'', ''asyncpg'', ''redis'', ''sqlalchemy'', ''uvicorn'', ''pydantic'']"

section \<open>What the script finds\<close>

text \<open>
  The repository below POS_ROOT: its resolved path, its files by their relative paths, and the answers of git;
  None is a git command that fails.
\<close>

record repository =
  repo_path :: string
  repo_exists :: bool
  repo_has_git :: bool
  repo_file :: "string \<Rightarrow> string option"
  repo_selected_status :: "string list \<Rightarrow> string option"
  repo_branch :: "string option"
  repo_head :: "string option"
  repo_status :: "string option"

record parsers =
  toml :: "string \<Rightarrow> json option"
  yaml :: "string \<Rightarrow> json option"
  str_of :: "json \<Rightarrow> string"

definition rstrip_newlines :: "string \<Rightarrow> string" where
  "rstrip_newlines s = rev (dropWhile (\<lambda>c. c = char_of (10 :: nat)) (rev s))"

definition git :: "string option \<Rightarrow> string attempt" where
  "git answer = (case answer of None \<Rightarrow> Inl CalledProcessError | Some s \<Rightarrow> Inr (rstrip_newlines s))"

definition read_text :: "repository \<Rightarrow> string \<Rightarrow> string attempt" where
  "read_text repo path = (case repo_file repo path of None \<Rightarrow> Inl OSError | Some s \<Rightarrow> Inr s)"

section \<open>Reading the metadata\<close>

text \<open>\<open>list(value)\<close> and \<open>str(value)\<close>.\<close>

fun py_list :: "json \<Rightarrow> json list attempt" where
  "py_list (JArr xs) = Inr xs"
| "py_list (JStr s) = Inr (map (\<lambda>c. JStr [c]) s)"
| "py_list (JObj kvs) = Inr (map (\<lambda>(k, v). JStr k) kvs)"
| "py_list v = Inl TypeError"

definition py_text :: "parsers \<Rightarrow> json \<Rightarrow> string" where
  "py_text ps v = (case v of JStr s \<Rightarrow> s | _ \<Rightarrow> str_of ps v)"

definition parse_pyproject :: "parsers \<Rightarrow> string \<Rightarrow> (json \<times> json list) attempt" where
  "parse_pyproject ps content =
     andthen (or_value_error (toml ps content)) (\<lambda>doc.
     andthen (get_default ''project'' (JObj []) doc) (\<lambda>project.
     andthen (get ''requires-python'' project) (\<lambda>requires.
     andthen (get_default ''dependencies'' (JArr []) project) (\<lambda>deps.
     andthen (py_list deps) (\<lambda>xs. Inr (requires, xs))))))"

definition lock_version :: "parsers \<Rightarrow> json \<Rightarrow> (string \<times> string) option attempt" where
  "lock_version ps pkg =
     andthen (get_default ''name'' (JStr []) pkg) (\<lambda>v. let name = py_text ps v in
     if name \<in> set DEPENDENCY_NAMES
     then andthen (get ''version'' pkg) (\<lambda>version.
       Inr (if truthy version then Some (name, py_text ps version) else None))
     else Inr None)"

definition add_version :: "(string \<times> string) option \<Rightarrow> (string \<times> string) list \<Rightarrow> (string \<times> string) list" where
  "add_version v versions = (case v of None \<Rightarrow> versions | Some (name, version) \<Rightarrow> AList.update name version versions)"

text \<open>A lock file that cannot be read or parsed gives no versions.\<close>

definition parse_lock_versions :: "parsers \<Rightarrow> string option \<Rightarrow> (string \<times> string) list attempt" where
  "parse_lock_versions ps content = (case Option.bind content (toml ps) of
     None \<Rightarrow> Inr []
   | Some doc \<Rightarrow> andthen (get_default ''package'' (JArr []) doc) (\<lambda>package.
       andthen (py_list package) (\<lambda>pkgs. andthen (traverse (lock_version ps) pkgs) (\<lambda>vs.
       Inr (fold add_version vs [])))))"

definition or_empty_dict :: "json \<Rightarrow> json" where
  "or_empty_dict v = (if truthy v then v else JObj [])"

definition service_image :: "json \<Rightarrow> string \<Rightarrow> json attempt" where
  "service_image services name = andthen (get name services) (\<lambda>s. get ''image'' (or_empty_dict s))"

definition compose_images :: "parsers \<Rightarrow> string option \<Rightarrow> (json \<times> json) attempt" where
  "compose_images ps content = (case content of
     None \<Rightarrow> Inr (JNull, JNull)
   | Some s \<Rightarrow> (case yaml ps s of
       None \<Rightarrow> Inl YAMLError
     | Some v \<Rightarrow> andthen (get_default ''services'' (JObj []) (or_empty_dict v)) (\<lambda>services.
         andthen (service_image (or_empty_dict services) ''postgres'') (\<lambda>pg.
         andthen (service_image (or_empty_dict services) ''redis'') (\<lambda>redis. Inr (pg, redis))))))"

section \<open>The run\<close>

record manifest =
  source_root :: string
  git_branch :: string
  git_head :: string
  git_status :: string
  python_requirement :: json
  postgres_image :: json
  redis_image :: json
  dependency_constraints :: "json list"
  locked_versions :: "(string \<times> string) list"
  manifest_files :: "(string \<times> string) list"
  manifest_workloads :: "(string \<times> string list) list"

datatype freeze_outcome = Refused int | Frozen manifest

text \<open>\<open>value or other\<close>.\<close>

definition json_or :: "json \<Rightarrow> json \<Rightarrow> json" where
  "json_or v w = (if truthy v then v else w)"

definition images :: "parsers \<Rightarrow> repository \<Rightarrow> (json \<times> json) attempt" where
  "images ps repo =
     andthen (compose_images ps (repo_file repo ''docker-compose.yml'')) (\<lambda>(pg, redis).
     if \<not> truthy pg \<or> \<not> truthy redis
     then andthen (compose_images ps (repo_file repo ''infrastructure/target-acceptance.compose.yml'')) (\<lambda>(alt_pg, alt_redis).
       Inr (json_or pg alt_pg, json_or redis alt_redis))
     else Inr (pg, redis))"

definition hash_file :: "digests \<Rightarrow> repository \<Rightarrow> string \<Rightarrow> (string \<times> string) attempt" where
  "hash_file dg repo path = andthen (read_text repo path) (\<lambda>s. Inr (path, sha256_hex dg s))"

definition missing_files :: "repository \<Rightarrow> string list" where
  "missing_files repo = filter (\<lambda>path. repo_file repo path = None) RELEVANT_FILES"

definition build_manifest :: "digests \<Rightarrow> parsers \<Rightarrow> repository \<Rightarrow> manifest attempt" where
  "build_manifest dg ps repo =
     andthen (git (repo_branch repo)) (\<lambda>branch. andthen (git (repo_head repo)) (\<lambda>head.
     andthen (git (repo_status repo)) (\<lambda>status.
     andthen (read_text repo ''apps/api/pyproject.toml'') (\<lambda>pyproject.
     andthen (parse_pyproject ps pyproject) (\<lambda>(requires, constraints).
     andthen (parse_lock_versions ps (repo_file repo ''apps/api/uv.lock'')) (\<lambda>versions.
     andthen (images ps repo) (\<lambda>(pg, redis).
     andthen (traverse (hash_file dg repo) RELEVANT_FILES) (\<lambda>files.
     Inr \<lparr>source_root = repo_path repo, git_branch = branch, git_head = head, git_status = status,
          python_requirement = requires, postgres_image = pg, redis_image = redis,
          dependency_constraints = constraints, locked_versions = versions, manifest_files = files,
          manifest_workloads = WORKLOADS\<rparr>))))))))"

text \<open>\<open>pos_root\<close> is the variable POS_ROOT; the number is the exit code of a refusal.\<close>

definition freeze_main :: "digests \<Rightarrow> parsers \<Rightarrow> string option \<Rightarrow> repository \<Rightarrow> freeze_outcome attempt" where
  "freeze_main dg ps pos_root repo =
     (if or_empty pos_root = [] then Inr (Refused 19)
      else if \<not> repo_exists repo then Inr (Refused 20)
      else if \<not> repo_has_git repo then Inr (Refused 21)
      else if missing_files repo \<noteq> [] then Inr (Refused 22)
      else andthen (git (repo_selected_status repo RELEVANT_FILES)) (\<lambda>dirty.
        if strip dirty \<noteq> [] then Inr (Refused 23)
        else andthen (build_manifest dg ps repo) (\<lambda>m. Inr (Frozen m))))"

section \<open>What a manifest promises\<close>

lemma hash_file_Inr: "hash_file dg repo path = Inr h \<longleftrightarrow> (\<exists>s. repo_file repo path = Some s \<and> h = (path, sha256_hex dg s))"
  by (auto simp: hash_file_def read_text_def split: option.split)

lemma hash_files:
  assumes "traverse (hash_file dg repo) paths = Inr hs"
  shows "map fst hs = paths \<and> (\<forall>path \<in> set paths. \<exists>s. repo_file repo path = Some s \<and> map_of hs path = Some (sha256_hex dg s))"
  using assms
proof (induction paths arbitrary: hs)
  case (Cons path paths)
  then obtain s hs' where "repo_file repo path = Some s" "hs = (path, sha256_hex dg s) # hs'"
    "traverse (hash_file dg repo) paths = Inr hs'"
    by (auto simp: andthen_Inr hash_file_Inr)
  with Cons.IH show ?case by auto
qed simp


text \<open>A clean repository whose metadata files are empty documents.\<close>

definition demo_repository :: repository where
  "demo_repository = \<lparr>repo_path = ''/pos'', repo_exists = True, repo_has_git = True, repo_file = (\<lambda>path. Some path),
     repo_selected_status = (\<lambda>paths. Some []), repo_branch = Some ''main'', repo_head = Some ''c0ffee'', repo_status = Some []\<rparr>"

definition demo_parsers :: parsers where
  "demo_parsers = \<lparr>toml = (\<lambda>s. Some (JObj [])), yaml = (\<lambda>s. Some (JObj [])), str_of = (\<lambda>v. [])\<rparr>"


end
