(* ===== verification/Fingerprint.thy ===== *)
theory Fingerprint
  imports Seed Metrics "HOL-Library.Multiset"
begin

text \<open>
  The fingerprint \<open>db/seed/seed.py\<close> prints of a seeded database, and its command line.  The
  order of \<open>ORDER BY stable_key\<close> is that of the database's collation and a parameter.
\<close>

section \<open>Stable keys\<close>

definition opt_dec :: "int option \<Rightarrow> string" where
  "opt_dec v = (case v of None \<Rightarrow> [] | Some i \<Rightarrow> int_dec i)"

definition SEED :: int where
  "SEED = 20260831"

definition stable_keys :: "db \<Rightarrow> string list" where
  "stable_keys d =
     map (\<lambda>r. ''company:'' @ co_external_key r) (companies d) @
     map (\<lambda>r. ''panel:'' @ int_dec (pu_id r) @ '':'' @ int_dec (pu_company_id r) @ '':'' @ pu_token_hash r) (panel_users d) @
     map (\<lambda>r. ''station:'' @ st_external_key r) (stations d) @
     map (\<lambda>r. ''device:'' @ dev_external_key r) (devices d) @
     map (\<lambda>r. ''credential:'' @ int_dec (cred_device_id r) @ '':'' @ cred_hash r @ '':'' @ status_text (cred_status r))
       (device_credentials d) @
     map (\<lambda>r. ''configuration:'' @ int_dec (cfg_device_id r) @ '':'' @ int_dec (cfg_version r) @ '':'' @ cfg_checksum r)
       (device_configurations d) @
     map (\<lambda>r. ''current-state:'' @ int_dec (cs_device_id r) @ '':'' @ opt_dec (cs_current_configuration_version r) @
       '':'' @ opt_dec (cs_acknowledged_configuration_version r)) (device_current_states d) @
     map (\<lambda>r. ''program:'' @ prog_external_key r) (programs d) @
     map (\<lambda>r. ''method:'' @ int_dec (ppm_program_id r) @ '':'' @ ppm_payment_method r) (program_payment_methods d) @
     map (\<lambda>r. ''payment:'' @ int_dec (pay_device_id r) @ '':'' @ pay_idempotency_key r) (payment_transactions d) @
     map (\<lambda>r. ''qr:'' @ int_dec (qr_id r) @ '':'' @ qr_token_hash r) (qr_codes d) @
     map (\<lambda>r. ''rf-card:'' @ int_dec (card_id r) @ '':'' @ card_uid_hash r) (rf_cards d) @
     map (\<lambda>r. ''wallet:'' @ int_dec (wal_id r) @ '':'' @ int_dec (wal_rf_card_id r)) (rf_wallets d) @
     map (\<lambda>r. ''execution:'' @ int_dec (exe_id r) @ '':'' @ int_dec (exe_payment_id r)) (program_executions d) @
     map (\<lambda>r. ''command:'' @ int_dec (cmd_device_id r) @ '':'' @ cmd_command_key r) (commands d)"

text \<open>\<open>COPY ... TO STDOUT\<close>: one line per row; backslash and control characters are escaped.\<close>

definition copy_char :: "char \<Rightarrow> string" where
  "copy_char c = (let n = of_char c :: nat; escaped = (\<lambda>x. [char_of (92 :: nat), x]) in
     if n = 92 then escaped c
     else if n = 8 then escaped (CHR ''b'') else if n = 12 then escaped (CHR ''f'')
     else if n = 10 then escaped (CHR ''n'') else if n = 13 then escaped (CHR ''r'')
     else if n = 9 then escaped (CHR ''t'') else if n = 11 then escaped (CHR ''v'') else [c])"

definition copy_line :: "string \<Rightarrow> string" where
  "copy_line s = encode (concat (map copy_char s)) @ [char_of (10 :: nat)]"

definition stable_keys_sha256 :: "digests \<Rightarrow> (string list \<Rightarrow> string list) \<Rightarrow> db \<Rightarrow> string" where
  "stable_keys_sha256 dg collate d = sha256_hex dg (concat (map copy_line (collate (stable_keys d))))"

section \<open>The schema files\<close>

definition SCHEMA_FILES :: "string list" where
  "SCHEMA_FILES = [''003_extensions.sql'', ''001_schema.sql'', ''002_indexes.sql'']"

definition schema_hash :: "digests \<Rightarrow> (string \<Rightarrow> string) \<Rightarrow> string" where
  "schema_hash dg read_bytes = sha256_hex dg
     (concat (map (\<lambda>name. encode name @ [char_of (0 :: nat)] @ read_bytes name @ [char_of (0 :: nat)]) SCHEMA_FILES))"

section \<open>The fingerprint and the command line\<close>

definition fingerprint :: "digests \<Rightarrow> (string list \<Rightarrow> string list) \<Rightarrow> (string \<Rightarrow> string) \<Rightarrow> string \<Rightarrow> db \<Rightarrow> json" where
  "fingerprint dg collate read_bytes profile d = JObj
     [(''seed'', JInt SEED), (''profile'', JStr profile), (''schema_hash'', JStr (schema_hash dg read_bytes)),
      (''stable_keys_sha256'', JStr (stable_keys_sha256 dg collate d)),
      (''row_counts'', JObj (map (\<lambda>(k, n). (k, JInt n)) (row_counts d)))]"

definition profile_items :: "profile \<Rightarrow> (string \<times> json) list" where
  "profile_items cfg = [(''companies'', JInt (pf_companies cfg)), (''stations'', JInt (pf_stations cfg)),
     (''devices'', JInt (pf_devices cfg)), (''payments'', JInt (pf_payments cfg))]"

record seed_args =
  arg_profile :: "string option"
  arg_describe_profile :: "string option"
  arg_describe_all :: bool
  arg_schema_hash :: bool
  arg_fingerprint_only :: bool

text \<open>\<open>choices=sorted(PROFILES)\<close>; a wrong choice and a missing profile end with the usage and exit code 2.\<close>

definition choice :: "string option \<Rightarrow> bool" where
  "choice v = (case v of None \<Rightarrow> True | Some name \<Rightarrow> name \<in> set (map fst PROFILES))"

definition describe :: "string \<Rightarrow> json" where
  "describe name = JObj ([(''seed'', JInt SEED), (''profile'', JStr name)] @
     (case map_of PROFILES name of None \<Rightarrow> [] | Some cfg \<Rightarrow> profile_items cfg))"

text \<open>
  The exit code, the line printed (a JSON document or a digest as a string) and the database
  left behind; statements that \<open>psql\<close> executes do not fail.
\<close>

definition seed_main ::
  "digests \<Rightarrow> (string \<Rightarrow> string) \<Rightarrow> (string list \<Rightarrow> string list) \<Rightarrow> (string \<Rightarrow> string) \<Rightarrow> seed_args \<Rightarrow> session \<Rightarrow>
    int \<times> json option \<times> session" where
  "seed_main dg md5_hex collate read_bytes args s =
     (if \<not> choice (arg_profile args) \<or> \<not> choice (arg_describe_profile args) then (2, None, s)
      else case arg_describe_profile args of
        Some name \<Rightarrow> (0, Some (describe name), s)
      | None \<Rightarrow>
          if arg_describe_all args
          then (0, Some (JObj (map (\<lambda>(name, cfg). (name, JObj (profile_items cfg))) PROFILES)), s)
          else if arg_schema_hash args then (0, Some (JStr (schema_hash dg read_bytes)), s)
          else case arg_profile args of
            None \<Rightarrow> (2, None, s)
          | Some name \<Rightarrow> (case get_profile name of
              Inl message \<Rightarrow> (2, None, s)
            | Inr cfg \<Rightarrow>
                let t = (if arg_fingerprint_only args then s else seed_database dg md5_hex cfg)
                in (0, Some (fingerprint dg collate read_bytes name (committed t)), t)))"

section \<open>The fingerprint sees tables, not their physical order\<close>

definition same_rows :: "db \<Rightarrow> db \<Rightarrow> bool" where
  "same_rows d d' \<longleftrightarrow>
     mset (companies d) = mset (companies d') \<and> mset (panel_users d) = mset (panel_users d') \<and>
     mset (stations d) = mset (stations d') \<and> mset (devices d) = mset (devices d') \<and>
     mset (device_credentials d) = mset (device_credentials d') \<and>
     mset (device_configurations d) = mset (device_configurations d') \<and>
     mset (device_current_states d) = mset (device_current_states d') \<and>
     mset (device_heartbeats d) = mset (device_heartbeats d') \<and> mset (programs d) = mset (programs d') \<and>
     mset (program_payment_methods d) = mset (program_payment_methods d') \<and>
     mset (payment_transactions d) = mset (payment_transactions d') \<and> mset (qr_codes d) = mset (qr_codes d') \<and>
     mset (rf_cards d) = mset (rf_cards d') \<and> mset (rf_wallets d) = mset (rf_wallets d') \<and>
     mset (program_executions d) = mset (program_executions d') \<and> mset (commands d) = mset (commands d')"

lemma mset_map_cong: "mset xs = mset ys \<Longrightarrow> mset (map f xs) = mset (map f ys)"
  by simp

lemma fingerprint_order_free:
  assumes "\<And>xs ys. mset xs = mset ys \<Longrightarrow> collate xs = collate ys" "same_rows d d'"
  shows "fingerprint dg collate read_bytes profile d = fingerprint dg collate read_bytes profile d'"
proof -
  note same = assms(2) [unfolded same_rows_def]
  have "mset (stable_keys d) = mset (stable_keys d')"
    unfolding stable_keys_def mset_append using same by (simp only: mset_map)
  then have "collate (stable_keys d) = collate (stable_keys d')" by (rule assms(1))
  moreover have "row_counts d = row_counts d'"
    unfolding row_counts_def size_mset [symmetric] using same by (simp only:)
  ultimately show ?thesis by (simp add: fingerprint_def stable_keys_sha256_def)
qed

end
