(* ===== verification/Chart_Data.thy ===== *)
theory Chart_Data
  imports Freeze "HOL-Library.Product_Lexorder" "HOL-Library.Multiset"
begin

text \<open>
  \<open>scripts/publication/extract_chart_data.py\<close>: the tables behind the published charts, taken
  from the summary of the runs and the packaged evidence.  A table is the list of its rows as
  dicts; how \<open>csv.DictWriter\<close> quotes them is not modelled.
\<close>

section \<open>Six decimals\<close>

definition rstrip :: "char \<Rightarrow> string \<Rightarrow> string" where
  "rstrip c s = rev (dropWhile (\<lambda>x. x = c) (rev s))"

text \<open>\<open>f"{value:.6f}"\<close>: the exact value rounded to six places, ties to even.\<close>

definition fixed6 :: "rat \<Rightarrow> string" where
  "fixed6 x = (let n = nat (half_even (\<bar>x\<bar> * 10 ^ 6)) in
     (if x < 0 then ''-'' else []) @ nat_dec (n div 10 ^ 6) @ ''.'' @ zpad 6 (nat_dec (n mod 10 ^ 6)))"

fun float_text :: "pyfloat \<Rightarrow> string" where
  "float_text (Finite x) = fixed6 x"
| "float_text PosInf = ''inf''"
| "float_text NegInf = ''-inf''"
| "float_text NotANumber = ''nan''"

definition fmt_float :: "pyfloat \<Rightarrow> string" where
  "fmt_float x = rstrip (CHR ''.'') (rstrip (CHR ''0'') (float_text x))"

text \<open>Only floats are formatted.\<close>

definition fmt :: "json \<Rightarrow> json" where
  "fmt v = (case v of JFloat t \<Rightarrow> (case py_float t of Some x \<Rightarrow> JStr (fmt_float x) | None \<Rightarrow> v) | _ \<Rightarrow> v)"

section \<open>Reading the summaries\<close>

text \<open>\<open>value[key]\<close> for a string key.\<close>

definition index :: "string \<Rightarrow> json \<Rightarrow> json attempt" where
  "index k v = (case v of
     JObj kvs \<Rightarrow> (case map_of kvs k of None \<Rightarrow> Inl KeyError | Some w \<Rightarrow> Inr w) | _ \<Rightarrow> Inl TypeError)"

type_synonym row = "(string \<times> json) list"

text \<open>The elements a test holds for, the test run on each in order.\<close>

definition select :: "(json \<Rightarrow> bool attempt) \<Rightarrow> json list \<Rightarrow> json list attempt" where
  "select P xs = andthen (traverse (\<lambda>x. andthen (P x) (\<lambda>b. Inr (x, b))) xs) (\<lambda>ys. Inr (map fst (filter snd ys)))"

definition is_workload :: "string \<Rightarrow> json \<Rightarrow> bool attempt" where
  "is_workload name w = andthen (index ''workload'' w) (\<lambda>x. Inr (py_eq x (JStr name)))"

text \<open>A key of a dict has to be hashable; only a string can be one of the profiles.\<close>

fun profile_order :: "json \<Rightarrow> int attempt" where
  "profile_order (JStr s) =
     (case map_of [(''D1'', 1), (''D2'', 2), (''D3'', 3)] s of None \<Rightarrow> Inl KeyError | Some i \<Rightarrow> Inr i)"
| "profile_order (JArr xs) = Inl TypeError"
| "profile_order (JObj kvs) = Inl TypeError"
| "profile_order v = Inl KeyError"

text \<open>\<open>sort\<close> and \<open>sorted\<close>: the keys are computed first, the order is stable.\<close>

definition sort_by :: "(json \<Rightarrow> ('k :: linorder) attempt) \<Rightarrow> json list \<Rightarrow> json list attempt" where
  "sort_by key xs = andthen (traverse (\<lambda>x. andthen (key x) (\<lambda>k. Inr (k, x))) xs) (\<lambda>ys. Inr (map snd (sort_key fst ys)))"

definition order_key :: "json \<Rightarrow> int attempt" where
  "order_key w = andthen (index ''profile'' w) profile_order"

definition load_key :: "json \<Rightarrow> (int \<times> int) attempt" where
  "load_key w = andthen (order_key w) (\<lambda>p. andthen (index ''load'' w) (\<lambda>l. andthen (to_int l) (\<lambda>i. Inr (p, i))))"

definition runtimes :: "json \<Rightarrow> (json \<times> json) attempt" where
  "runtimes w = andthen (index ''runtime'' w) (\<lambda>r. andthen (index ''python'' r) (\<lambda>py.
     andthen (index ''runtime'' w) (\<lambda>r. andthen (index ''go'' r) (\<lambda>go. Inr (py, go)))))"

definition paired_row :: "json \<Rightarrow> row attempt" where
  "paired_row w =
     andthen (runtimes w) (\<lambda>(py, go).
     andthen (index ''profile'' w) (\<lambda>profile. andthen (index ''load'' w) (\<lambda>level.
     andthen (index ''p95_ms'' py) (\<lambda>py_p95. andthen (index ''p95_ms'' go) (\<lambda>go_p95.
     andthen (index ''throughput'' py) (\<lambda>py_rps. andthen (index ''throughput'' go) (\<lambda>go_rps.
     andthen (index ''status'' w) (\<lambda>st.
     Inr [(''profile'', profile), (''load_level'', level), (''python_p95_ms'', fmt py_p95), (''go_p95_ms'', fmt go_p95),
          (''python_rps'', fmt py_rps), (''go_rps'', fmt go_rps), (''status'', st)]))))))))"

definition paired_rows :: "json list \<Rightarrow> string \<Rightarrow> row list attempt" where
  "paired_rows workloads name =
     andthen (select (is_workload name) workloads) (\<lambda>ws. andthen (sort_by load_key ws) (traverse paired_row))"

section \<open>The worker table\<close>

text \<open>The evidence of the worker runs by profile, as the dict comprehension builds it.\<close>

definition hashable :: "json \<Rightarrow> bool" where
  "hashable v = (case v of JArr xs \<Rightarrow> False | JObj kvs \<Rightarrow> False | _ \<Rightarrow> True)"

definition worker_item :: "json \<Rightarrow> (json \<times> json) option attempt" where
  "worker_item item = andthen (get ''scenario'' item) (\<lambda>s.
     if py_eq s (JStr ''worker'')
     then andthen (index ''profile'' item) (\<lambda>p. if hashable p then Inr (Some (p, item)) else Inl TypeError)
     else Inr None)"

definition find_evidence :: "(json \<times> json) option list \<Rightarrow> json \<Rightarrow> json" where
  "find_evidence items profile =
     fold (\<lambda>i found. case i of Some (p, item) \<Rightarrow> if py_eq p profile then item else found | None \<Rightarrow> found) items JNull"

definition overrun :: "json \<Rightarrow> json attempt" where
  "overrun v = andthen (to_float v) (\<lambda>x. Inr (JStr (if f_less (Finite 5000) x then ''true'' else ''false'')))"

definition has_item :: "string \<Rightarrow> json \<Rightarrow> bool" where
  "has_item k v = (case v of JObj kvs \<Rightarrow> map_of kvs k \<noteq> None | _ \<Rightarrow> False)"

definition worker_row :: "(json \<times> json) option list \<Rightarrow> json \<Rightarrow> row attempt" where
  "worker_row items w =
     andthen (runtimes w) (\<lambda>(py, go). andthen (index ''profile'' w) (\<lambda>profile.
     let evidence = find_evidence items profile in
     if \<not> truthy evidence \<or> \<not> has_item ''worker_devices'' evidence then Inl SystemExit
     else andthen (index ''worker_devices'' evidence) (\<lambda>d. andthen (to_int d) (\<lambda>devices.
       andthen (index ''p95_ms'' py) (\<lambda>py_p95. andthen (index ''p95_ms'' go) (\<lambda>go_p95.
       andthen (index ''throughput'' py) (\<lambda>py_rps. andthen (index ''throughput'' go) (\<lambda>go_rps.
       andthen (overrun py_p95) (\<lambda>py_over. andthen (overrun go_p95) (\<lambda>go_over.
       andthen (index ''status'' w) (\<lambda>st.
       Inr [(''profile'', profile), (''devices'', JInt devices), (''python_duration_ms'', fmt py_p95),
            (''go_duration_ms'', fmt go_p95), (''python_devices_per_sec'', fmt py_rps),
            (''go_devices_per_sec'', fmt go_rps), (''python_overrun_5s'', py_over), (''go_overrun_5s'', go_over),
            (''status'', st)])))))))))))"

definition worker_rows :: "(json \<times> json) option list \<Rightarrow> json list \<Rightarrow> row list attempt" where
  "worker_rows items workloads =
     andthen (select (is_workload ''worker'') workloads) (\<lambda>ws. andthen (sort_by order_key ws) (traverse (worker_row items)))"
section \<open>The capacity table\<close>

text \<open>The fields every capacity row copies; \<open>level\<close> is the key the load is stored under.\<close>

definition capacity_fields :: "json \<Rightarrow> json attempt \<Rightarrow> string \<Rightarrow> json attempt \<Rightarrow> row attempt" where
  "capacity_fields item workload level evidence =
     andthen workload (\<lambda>wl. andthen (index ''runtime'' item) (\<lambda>rt. andthen (index level item) (\<lambda>ld.
     andthen (index ''p95_ms'' item) (\<lambda>p95. andthen (index ''throughput'' item) (\<lambda>rps.
     andthen (index ''error_rate'' item) (\<lambda>errors. andthen (index ''dropped'' item) (\<lambda>dropped.
     andthen evidence (\<lambda>class.
     Inr [(''workload'', wl), (''runtime'', rt), (''load_level'', ld), (''p95_ms'', fmt p95), (''throughput'', fmt rps),
          (''error_rate'', fmt errors), (''dropped'', dropped), (''evidence_class'', class),
          (''publishable'', JStr ''true'')]))))))))"

definition canonical_row :: "json \<Rightarrow> string \<times> string \<Rightarrow> row attempt" where
  "canonical_row capacity kw = (case kw of (k, workload) \<Rightarrow>
     andthen (get k capacity) (\<lambda>item. if \<not> truthy item then Inl SystemExit
       else capacity_fields item (Inr (JStr workload)) ''load'' (index ''evidence_class'' item)))"

definition diagnostic_row :: "json \<Rightarrow> row attempt" where
  "diagnostic_row item =
     andthen (get ''source'' item) (\<lambda>src. if \<not> truthy src then Inl SystemExit
       else capacity_fields item (index ''workload'' item) ''load_level'' (Inr (JStr ''diagnostic'')))"

definition diagnostic_rows :: "json \<Rightarrow> row list attempt" where
  "diagnostic_rows capacity =
     andthen (get_default ''diagnostics'' (JObj []) capacity) (\<lambda>diagnostics.
     andthen (get ''diagnostic_numeric_claims_publishable'' diagnostics) (\<lambda>publishable.
     if \<not> truthy publishable then Inr []
     else andthen (get_default ''numeric_records'' (JArr []) diagnostics) (\<lambda>records.
       andthen (py_list records) (traverse diagnostic_row))))"

definition capacity_rows :: "json \<Rightarrow> row list attempt" where
  "capacity_rows capacity =
     andthen (traverse (canonical_row capacity)
       [(''heartbeat_python_1667'', ''heartbeat''), (''card_python_1000'', ''payment-card'')]) (\<lambda>canonical.
     andthen (diagnostic_rows capacity) (\<lambda>diagnostic. Inr (canonical @ diagnostic)))"

section \<open>The run\<close>

definition normalized_workloads :: "json \<Rightarrow> json list attempt" where
  "normalized_workloads summary = andthen (get ''workloads'' summary) (\<lambda>v. case v of
     JArr xs \<Rightarrow> if length xs = 19 then Inr xs else Inl SystemExit | _ \<Rightarrow> Inl SystemExit)"

definition evidence_items :: "json \<Rightarrow> (json \<times> json) option list attempt" where
  "evidence_items evidence = andthen (get_default ''matrices'' (JArr []) evidence) (\<lambda>ms.
     andthen (py_list ms) (traverse worker_item))"

text \<open>Tables are computed and written one after the other; a fault keeps those written before.\<close>

fun write_tables :: "(string \<times> row list attempt) list \<Rightarrow> (string \<times> row list) list \<times> fault option" where
  "write_tables [] = ([], None)"
| "write_tables ((name, Inl e) # ts) = ([], Some e)"
| "write_tables ((name, Inr rows) # ts) = (case write_tables ts of (written, e) \<Rightarrow> ((name, rows) # written, e))"

text \<open>The three files read, and the tables written; every fault ends the process with exit code 1.\<close>

definition chart_main :: "json on_disk \<Rightarrow> json on_disk \<Rightarrow> json on_disk \<Rightarrow> (string \<times> row list) list \<times> fault option" where
  "chart_main summary_file evidence_file capacity_file =
     (case andthen (load summary_file) (\<lambda>summary. andthen (load evidence_file) (\<lambda>evidence.
           andthen (evidence_items evidence) (\<lambda>items. andthen (normalized_workloads summary) (\<lambda>ws. Inr (items, ws))))) of
        Inl e \<Rightarrow> ([], Some e)
      | Inr (items, ws) \<Rightarrow> write_tables
          [(''card-p95.csv'', paired_rows ws ''payment-card''), (''dashboard-p95.csv'', paired_rows ws ''dashboard''),
           (''worker.csv'', worker_rows items ws), (''d3-capacity.csv'', andthen (load capacity_file) capacity_rows)])"

section \<open>A formatted number can be read back\<close>

lemma dec_val_append: "dec_val (xs @ ys) = dec_val xs * 10 ^ length ys + dec_val ys"
proof (induction ys rule: rev_induct)
  case (snoc y ys)
  then show ?case by (simp add: append_assoc [symmetric] del: append_assoc)
qed (simp add: dec_val_def)

lemma digit_run_digits: "s \<noteq> [] \<Longrightarrow> (\<And>c. c \<in> set s \<Longrightarrow> is_digit c) \<Longrightarrow> digit_run s"
  by (induction s rule: digit_run.induct) auto

lemma run_digits_id: "(\<And>c. c \<in> set s \<Longrightarrow> is_digit c) \<Longrightarrow> run_digits s = s"
  by (simp add: run_digits_def filter_id_conv)

lemma digit_not: "is_digit c \<Longrightarrow> c \<noteq> CHR ''.''" "is_digit c \<Longrightarrow> \<not> is_e c" "is_digit c \<Longrightarrow> c \<noteq> CHR ''-''"
  by (auto simp: is_digit_def is_e_def)

text \<open>Digits, a point and digits, with some zeros at the end cut off.\<close>

lemma rstrip_zeros:
  obtains f' k where "f = f' @ replicate k (CHR ''0'')" "rstrip (CHR ''0'') f = f'"
proof -
  have "rev f = takeWhile (\<lambda>x. x = CHR ''0'') (rev f) @ dropWhile (\<lambda>x. x = CHR ''0'') (rev f)" by simp
  moreover have "takeWhile (\<lambda>x. x = CHR ''0'') (rev f) = replicate (length (takeWhile (\<lambda>x. x = CHR ''0'') (rev f))) (CHR ''0'')"
    by (rule replicate_eqI) (auto dest: set_takeWhileD)
  ultimately have "rev f = replicate (length (takeWhile (\<lambda>x. x = CHR ''0'') (rev f))) (CHR ''0'') @ dropWhile (\<lambda>x. x = CHR ''0'') (rev f)"
    by (simp only:)
  then have "f = rstrip (CHR ''0'') f @ replicate (length (takeWhile (\<lambda>x. x = CHR ''0'') (rev f))) (CHR ''0'')"
    unfolding rstrip_def by (metis rev_append rev_replicate rev_rev_ident)
  then show ?thesis using that by blast
qed

lemma rstrip_append: "rstrip c (xs @ ys) = (if rstrip c ys = [] then rstrip c xs else xs @ rstrip c ys)"
  by (auto simp: rstrip_def dropWhile_append)

lemma rstrip_other: "last s \<noteq> c \<Longrightarrow> rstrip c s = s"
  by (cases s rule: rev_cases) (simp_all add: rstrip_def)

text \<open>What is left of a number in fixed notation: no point if all decimals were zeros.\<close>

lemma strip_decimals:
  assumes "w \<noteq> []" "\<And>c. c \<in> set w \<Longrightarrow> is_digit c" "\<And>c. c \<in> set f \<Longrightarrow> is_digit c"
  shows "rstrip (CHR ''.'') (rstrip (CHR ''0'') (w @ ''.'' @ f)) =
    (if rstrip (CHR ''0'') f = [] then w else w @ ''.'' @ rstrip (CHR ''0'') f)"
proof -
  have tail: "rstrip (CHR ''0'') (CHR ''.'' # f) =
      (if rstrip (CHR ''0'') f = [] then ''.'' else CHR ''.'' # rstrip (CHR ''0'') f)"
    using rstrip_append [of "CHR ''0''" "''.''" f] by (simp add: rstrip_def)
  have last: "last s \<noteq> CHR ''.''" if "s \<noteq> []" "\<And>c. c \<in> set s \<Longrightarrow> is_digit c" for s
    using that digit_not(1) by simp
  show ?thesis
  proof (cases "rstrip (CHR ''0'') f = []")
    case True
    have "rstrip (CHR ''.'') (w @ ''.'') = w"
      using rstrip_other [OF last [OF assms(1,2)]] by (simp add: rstrip_append [of _ w] rstrip_def)
    moreover have "rstrip (CHR ''0'') (w @ ''.'' @ f) = w @ ''.''"
      using True tail by (simp add: rstrip_append [of _ w])
    ultimately show ?thesis using True by simp
  next
    case False
    obtain k where "f = rstrip (CHR ''0'') f @ replicate k (CHR ''0'')" by (metis rstrip_zeros)
    then have "\<And>c. c \<in> set (rstrip (CHR ''0'') f) \<Longrightarrow> is_digit c" using assms(3) by (metis UnCI set_append)
    from last [OF False this] False
    have "rstrip (CHR ''.'') (w @ ''.'' @ rstrip (CHR ''0'') f) = w @ ''.'' @ rstrip (CHR ''0'') f"
      by (intro rstrip_other) simp
    moreover have "rstrip (CHR ''0'') (w @ ''.'' @ f) = w @ ''.'' @ rstrip (CHR ''0'') f"
      using False tail by (simp add: rstrip_append [of _ w])
    ultimately show ?thesis using False by simp
  qed
qed

lemma decimal_plain:
  assumes "w \<noteq> []" "\<And>c. c \<in> set w \<Longrightarrow> is_digit c"
  shows "number_value w = Some (of_nat (dec_val w))"
proof -
  have "takeWhile (\<lambda>c. \<not> is_e c) w = w" "dropWhile (\<lambda>c. \<not> is_e c) w = []"
    and point: "takeWhile (\<lambda>c. c \<noteq> CHR ''.'') w = w" "dropWhile (\<lambda>c. c \<noteq> CHR ''.'') w = []"
    using assms(2) digit_not by (auto simp: takeWhile_eq_all_conv dropWhile_eq_Nil_conv)
  moreover have "decimal_value w = Some (of_nat (dec_val w))"
    unfolding decimal_value_def Let_def point
    using digit_run_digits [OF assms] run_digits_id [OF assms(2)] assms(1) by (simp add: run_digits_def)
  ultimately show ?thesis unfolding number_value_def Let_def by (simp only: option.case if_True refl)
qed

lemma decimal_point:
  assumes "w \<noteq> []" "\<And>c. c \<in> set w \<Longrightarrow> is_digit c" "f \<noteq> []" "\<And>c. c \<in> set f \<Longrightarrow> is_digit c"
  shows "number_value (w @ ''.'' @ f) = Some (of_nat (dec_val (w @ f)) / 10 ^ length f)"
proof -
  have "\<not> is_e c" if "c \<in> set (w @ ''.'' @ f)" for c
    using that assms(2,4) digit_not by (auto simp: is_e_def)
  then have e: "takeWhile (\<lambda>c. \<not> is_e c) (w @ ''.'' @ f) = w @ ''.'' @ f" "dropWhile (\<lambda>c. \<not> is_e c) (w @ ''.'' @ f) = []"
    by (simp_all only: takeWhile_eq_all_conv dropWhile_eq_Nil_conv) blast+
  have "takeWhile (\<lambda>c. c \<noteq> CHR ''.'') (w @ ''.'' @ f) = w" "dropWhile (\<lambda>c. c \<noteq> CHR ''.'') (w @ ''.'' @ f) = ''.'' @ f"
    using assms(2) digit_not(1) by (auto simp: takeWhile_append2 dropWhile_append2)
  then have "decimal_value (w @ ''.'' @ f) = Some (of_nat (dec_val (w @ f)) / 10 ^ length f)"
    using digit_run_digits [OF assms(1,2)] digit_run_digits [OF assms(3,4)] run_digits_id [OF assms(2)] run_digits_id [OF assms(4)] assms(1)
    by (simp add: decimal_value_def Let_def run_digits_def)
  then show ?thesis unfolding number_value_def Let_def e by simp
qed

lemma dec_val_stripped:
  "of_nat (dec_val (w @ rstrip (CHR ''0'') f)) / 10 ^ length (rstrip (CHR ''0'') f) = (of_nat (dec_val (w @ f)) / 10 ^ length f :: rat)"
proof -
  obtain k where f: "f = rstrip (CHR ''0'') f @ replicate k (CHR ''0'')" by (metis rstrip_zeros)
  have "dec_val (replicate k (CHR ''0'')) = 0" using dec_val_zeros [of k "[]"] by (simp add: dec_val_def)
  then have "dec_val (s @ replicate k (CHR ''0'')) = dec_val s * 10 ^ k" for s by (simp add: dec_val_append)
  then have "of_nat (dec_val (w @ f)) / 10 ^ length f =
      (of_nat (dec_val (w @ rstrip (CHR ''0'') f) * 10 ^ k) / 10 ^ (length (rstrip (CHR ''0'') f) + k) :: rat)"
    using f by (metis append_assoc length_append length_replicate)
  then show ?thesis by (simp add: power_add)
qed

lemma zpad_digits: "c \<in> set (zpad k (nat_dec m)) \<Longrightarrow> is_digit c"
  using nat_dec_digits [of c m] by (auto simp: zpad_def is_digit_def)

lemma fixed_value:
  "number_value (rstrip (CHR ''.'') (rstrip (CHR ''0'') (nat_dec (n div 10 ^ 6) @ ''.'' @ zpad 6 (nat_dec (n mod 10 ^ 6))))) =
     Some (of_nat n / 10 ^ 6)"
proof -
  let ?w = "nat_dec (n div 10 ^ 6)" and ?f = "zpad 6 (nat_dec (n mod 10 ^ 6))"
  have w: "?w \<noteq> []" "\<And>c. c \<in> set ?w \<Longrightarrow> is_digit c" by (simp, rule nat_dec_digits)
  have f: "\<And>c. c \<in> set ?f \<Longrightarrow> is_digit c" by (rule zpad_digits)
  have len: "length ?f = 6" using length_nat_dec [of 6 "n mod 10 ^ 6"] by (simp add: length_zpad)
  have "dec_val ?f = n mod 10 ^ 6" by (simp add: zpad_def)
  then have all: "dec_val (?w @ ?f) = n" unfolding dec_val_append len by simp
  have "rstrip (CHR ''0'') ?f = [] \<Longrightarrow> of_nat (dec_val ?w) = (of_nat n / 10 ^ 6 :: rat)"
    using dec_val_stripped [of ?w ?f] unfolding all len by simp
  moreover have "number_value (?w @ ''.'' @ rstrip (CHR ''0'') ?f) = Some (of_nat n / 10 ^ 6)" if "rstrip (CHR ''0'') ?f \<noteq> []"
  proof -
    have "\<And>c. c \<in> set (rstrip (CHR ''0'') ?f) \<Longrightarrow> is_digit c" using f rstrip_zeros [of ?f] by (metis UnCI set_append)
    from decimal_point [OF w that this] show ?thesis unfolding dec_val_stripped all len .
  qed
  moreover have "rstrip (CHR ''.'') (rstrip (CHR ''0'') (?w @ ''.'' @ ?f)) =
      (if rstrip (CHR ''0'') ?f = [] then ?w else ?w @ ''.'' @ rstrip (CHR ''0'') ?f)"
    by (rule strip_decimals) (use w f in blast)+
  moreover have "number_value ?w = Some (of_nat (dec_val ?w))" by (rule decimal_plain) (use w in blast)+
  ultimately show ?thesis by (simp only: split: if_split) blast
qed

lemma half_even_close: "\<bar>of_int (half_even x) - x\<bar> \<le> 1 / 2"
proof -
  have "of_int \<lfloor>x\<rfloor> \<le> x" "x < of_int \<lfloor>x\<rfloor> + 1" by linarith+
  then show ?thesis unfolding half_even_def Let_def by (auto simp: abs_le_iff)
qed

text \<open>The sign and the digits of a formatted float.\<close>

lemma fmt_float_split:
  fixes x :: rat
  defines "n \<equiv> nat (half_even (\<bar>x\<bar> * 10 ^ 6))"
  obtains s where "split_sign (fmt_float (Finite x)) = (x < 0, s)" "number_value s = Some (of_nat n / 10 ^ 6)"
proof -
  let ?t = "nat_dec (n div 10 ^ 6) @ ''.'' @ zpad 6 (nat_dec (n mod 10 ^ 6))"
  let ?s = "rstrip (CHR ''.'') (rstrip (CHR ''0'') ?t)"
  have val: "number_value ?s = Some (of_nat n / 10 ^ 6)" by (rule fixed_value)
  have nonempty: "s \<noteq> []" if "number_value s = Some y" for s y
    using that by (auto simp: number_value_def decimal_value_def split: if_splits)
  have sign: "rstrip c (''-'' @ u) = ''-'' @ rstrip c u" if "rstrip c u \<noteq> []" for c u
    using that rstrip_append [of c "''-''" u] by simp
  have "rstrip (CHR ''0'') ?t \<noteq> []" using nonempty [OF val] by (auto simp: rstrip_def)
  note zeros = sign [OF this] and point = sign [OF nonempty [OF val]]
  have "fmt_float (Finite x) = rstrip (CHR ''.'') (rstrip (CHR ''0'') ((if x < 0 then ''-'' else []) @ ?t))"
    by (simp only: fmt_float_def float_text.simps fixed6_def Let_def n_def)
  then have whole: "fmt_float (Finite x) = (if x < 0 then ''-'' else []) @ ?s"
    by (cases "x < 0") (simp_all only: zeros point if_True if_False append_Nil)
  have "?s = (if rstrip (CHR ''0'') (zpad 6 (nat_dec (n mod 10 ^ 6))) = [] then nat_dec (n div 10 ^ 6)
      else nat_dec (n div 10 ^ 6) @ ''.'' @ rstrip (CHR ''0'') (zpad 6 (nat_dec (n mod 10 ^ 6))))"
    by (rule strip_decimals) (simp, erule nat_dec_digits, erule zpad_digits)
  moreover obtain c u where "nat_dec (n div 10 ^ 6) = c # u" "is_digit c"
    using nat_dec_digits by (metis list.set_intros(1) nat_dec_not_Nil neq_Nil_conv)
  ultimately have "\<exists>c u. ?s = c # u \<and> is_digit c" by (metis append_Cons)
  then have "split_sign (fmt_float (Finite x)) = (x < 0, ?s)"
    unfolding whole by (auto simp: split_sign_def is_digit_def)
  then show ?thesis using val by (rule that)
qed

text \<open>The sign applies to both sides.\<close>

lemma signed_close: "\<bar>a - \<bar>x\<bar>\<bar> \<le> e \<Longrightarrow> \<bar>(if x < 0 then - a else a) - x\<bar> \<le> (e :: rat)"
  by (simp add: abs_if split: if_splits)

text \<open>
  C34. A number in the published tables is the number measured, to half a millionth: the text
  \<open>fmt\<close> writes for a float, sign, digits and trailing zeros cut off, reads back as a decimal
  number that differs from the float by at most \<open>0.0000005\<close>.
\<close>

theorem published_numbers_accurate:
  "\<exists>y. fst (split_sign (fmt_float (Finite x))) = (x < 0) \<and>
     number_value (snd (split_sign (fmt_float (Finite x)))) = Some y \<and>
     \<bar>(if x < 0 then - y else y) - x\<bar> \<le> 1 / 2 / 10 ^ 6"
proof -
  let ?n = "nat (half_even (\<bar>x\<bar> * 10 ^ 6))"
  obtain s where s: "split_sign (fmt_float (Finite x)) = (x < 0, s)" "number_value s = Some (of_nat ?n / 10 ^ 6)"
    by (rule fmt_float_split)
  have "0 \<le> half_even (\<bar>x\<bar> * 10 ^ 6)" by (simp add: half_even_def Let_def)
  then have "\<bar>of_nat ?n - \<bar>x\<bar> * 10 ^ 6\<bar> \<le> 1 / 2" using half_even_close [of "\<bar>x\<bar> * 10 ^ 6"] by simp
  then have "\<bar>of_nat ?n / 10 ^ 6 - \<bar>x\<bar>\<bar> \<le> 1 / 2 / 10 ^ 6" by (simp add: abs_le_iff field_simps)
  from signed_close [OF this] show ?thesis
    by (intro exI [of _ "of_nat ?n / 10 ^ 6"] conjI) (simp_all only: s fst_conv snd_conv)
qed

section \<open>The rows of a chart\<close>

lemma select_Inr:
  assumes "select P xs = Inr ys"
  shows "ys = filter (\<lambda>x. P x = Inr True) xs"
proof -
  obtain zs where zs: "list_all2 (\<lambda>x z. andthen (P x) (\<lambda>b. Inr (x, b)) = Inr z) xs zs" "ys = map fst (filter snd zs)"
    using assms by (auto simp: select_def andthen_Inr traverse_Inr)
  from zs(1) have "map fst (filter snd zs) = filter (\<lambda>x. P x = Inr True) xs"
    by (induction rule: list_all2_induct) (auto simp: andthen_Inr)
  with zs(2) show ?thesis by simp
qed

lemma sort_by_Inr:
  assumes "sort_by key xs = Inr ys"
  obtains ks where "mset ys = mset xs" "list_all2 (\<lambda>y k. key y = Inr k) ys ks" "sorted ks"
proof -
  obtain zs where zs: "list_all2 (\<lambda>x z. andthen (key x) (\<lambda>k. Inr (k, x)) = Inr z) xs zs" "ys = map snd (sort_key fst zs)"
    using assms by (auto simp: sort_by_def andthen_Inr traverse_Inr)
  have keyed: "map snd zs = xs \<and> (\<forall>z \<in> set zs. key (snd z) = Inr (fst z))"
    using zs(1) by (induction rule: list_all2_induct) (auto simp: andthen_Inr)
  have "mset ys = image_mset snd (mset zs)" by (simp add: zs(2))
  then have "mset ys = mset xs" using keyed by (metis mset_map)
  moreover have "list_all2 (\<lambda>y k. key y = Inr k) ys (map fst (sort_key fst zs))"
    using keyed by (simp add: zs(2) list_all2_map1 list_all2_map2 list_all2_same)
  moreover have "sorted (map fst (sort_key fst zs))" by simp
  ultimately show ?thesis by (rule that)
qed

text \<open>
  The table of a chart has one row for every run of its workload, no other and none
  twice, in order of profile and load.
\<close>

theorem chart_rows_complete:
  assumes "paired_rows workloads name = Inr rows"
  shows "\<exists>runs keys. mset runs = mset (filter (\<lambda>w. is_workload name w = Inr True) workloads) \<and>
    list_all2 (\<lambda>w k. load_key w = Inr k) runs keys \<and> sorted keys \<and>
    list_all2 (\<lambda>w r. paired_row w = Inr r) runs rows"
proof -
  obtain ws runs where ws: "select (is_workload name) workloads = Inr ws" "sort_by load_key ws = Inr runs"
    "traverse paired_row runs = Inr rows"
    using assms by (auto simp: paired_rows_def andthen_Inr)
  obtain keys where "mset runs = mset ws" "list_all2 (\<lambda>w k. load_key w = Inr k) runs keys" "sorted keys"
    by (rule sort_by_Inr [OF ws(2)])
  with select_Inr [OF ws(1)] ws(3) show ?thesis unfolding traverse_Inr by blast
qed

definition demo_summary_run :: "string \<Rightarrow> string \<Rightarrow> int \<Rightarrow> json" where
  "demo_summary_run workload profile level =
     (let figures = JObj [(''p95_ms'', JInt 12), (''throughput'', JInt 100)] in
      JObj [(''workload'', JStr workload), (''profile'', JStr profile), (''load'', JInt level),
        (''runtime'', JObj [(''python'', figures), (''go'', figures)]), (''status'', JStr ''ok'')])"

lemma chart_rows_complete_witness:
  "\<exists>rows. paired_rows [demo_summary_run ''dashboard'' ''D2'' 5, demo_summary_run ''worker'' ''D1'' 1,
      demo_summary_run ''dashboard'' ''D1'' 20] ''dashboard'' = Inr rows \<and> length rows = 2"
proof -
  let ?a = "demo_summary_run ''dashboard'' ''D2'' 5" and ?b = "demo_summary_run ''worker'' ''D1'' 1"
    and ?c = "demo_summary_run ''dashboard'' ''D1'' 20"
  have row: "\<exists>r. paired_row (demo_summary_run w p l) = Inr r" for w p l
    by (simp add: paired_row_def runtimes_def index_def demo_summary_run_def Let_def)
  have is_w: "is_workload ''dashboard'' (demo_summary_run w p l) = Inr (w = ''dashboard'')" for w p l
    by (auto simp: is_workload_def index_def demo_summary_run_def Let_def)
  have keys: "load_key ?a = Inr (2, 5)" "load_key ?c = Inr (1, 20)"
    by (simp_all add: load_key_def order_key_def index_def demo_summary_run_def Let_def)
  have "select (is_workload ''dashboard'') [?a, ?b, ?c] = Inr [?a, ?c]" by (simp add: select_def is_w)
  moreover have "sort_by load_key [?a, ?c] = Inr [?c, ?a]" by (simp add: sort_by_def keys)
  ultimately obtain rows where rows: "paired_rows [?a, ?b, ?c] ''dashboard'' = Inr rows"
    using row [of "''dashboard''" "''D2''" 5] row [of "''dashboard''" "''D1''" 20] by (auto simp: paired_rows_def)
  have "filter (\<lambda>w. is_workload ''dashboard'' w = Inr True) [?a, ?b, ?c] = [?a, ?c]" by (simp add: is_w)
  then obtain runs where "mset runs = mset [?a, ?c]" "list_all2 (\<lambda>w r. paired_row w = Inr r) runs rows"
    using chart_rows_complete [OF rows] by auto
  then have "length rows = 2" by (metis list_all2_lengthD length_Cons list.size(3) mset_eq_length numeral_2_eq_2)
  with rows show ?thesis by blast
qed

end
