(* ===== verification/Patterns.thy ===== *)
theory Patterns
  imports Prelude
begin

text \<open>
  Python's \<open>re\<close> as far as the publication scripts use it: \<open>search\<close> tries the positions of a line
  from the left and at each of them the ways to match in the order a backtracking matcher takes
  them.  The patterns repeat single characters only, so a repetition is over a class of characters.
  The other string methods these scripts call are here too.
\<close>

section \<open>Characters\<close>

text \<open>The code points below 256 for which \<open>str.isalnum\<close> holds, and the underscore.\<close>

definition is_letter :: "char \<Rightarrow> bool" where
  "is_letter c = (let n = of_char c :: nat in 65 \<le> n \<and> n \<le> 90 \<or> 97 \<le> n \<and> n \<le> 122)"

definition is_word :: "char \<Rightarrow> bool" where
  "is_word c = (let n = of_char c :: nat in
     is_letter c \<or> 48 \<le> n \<and> n \<le> 57 \<or> n = 95 \<or> n \<in> {170, 178, 179, 181, 185, 186, 188, 189, 190} \<or>
     192 \<le> n \<and> n \<noteq> 215 \<and> n \<noteq> 247)"

text \<open>\<open>str.lower\<close> and \<open>str.splitlines\<close> on these code points.\<close>

definition lower_char :: "char \<Rightarrow> char" where
  "lower_char c = (let n = of_char c :: nat in
     if 65 \<le> n \<and> n \<le> 90 \<or> 192 \<le> n \<and> n \<le> 222 \<and> n \<noteq> 215 then char_of (n + 32) else c)"

definition lower :: "string \<Rightarrow> string" where
  "lower = map lower_char"

definition line_end :: "char \<Rightarrow> bool" where
  "line_end c = (let n = of_char c :: nat in 10 \<le> n \<and> n \<le> 13 \<or> 28 \<le> n \<and> n \<le> 30 \<or> n = 133)"

definition CR :: char where "CR = char_of (13 :: nat)"
definition LF :: char where "LF = char_of (10 :: nat)"

fun lines_from :: "string \<Rightarrow> string \<Rightarrow> string list" where
  "lines_from cur [] = (if cur = [] then [] else [rev cur])"
| "lines_from cur (c # s) =
     (if line_end c then rev cur # lines_from [] (if c = CR \<and> take 1 s = [LF] then tl s else s)
      else lines_from (c # cur) s)"

definition splitlines :: "string \<Rightarrow> string list" where
  "splitlines = lines_from []"

text \<open>\<open>needle in text\<close>.\<close>

fun occurs :: "string \<Rightarrow> string \<Rightarrow> bool" where
  "occurs p [] \<longleftrightarrow> p = []"
| "occurs p (c # s) \<longleftrightarrow> startswith p (c # s) \<or> occurs p s"

lemma occurs_iff: "occurs p s \<longleftrightarrow> (\<exists>u v. s = u @ p @ v)"
proof (induction s)
  case (Cons c s)
  have "(\<exists>u v. c # s = u @ p @ v) \<longleftrightarrow> (\<exists>v. c # s = p @ v) \<or> (\<exists>u v. s = u @ p @ v)"
    by (metis append_Cons append_Nil list.inject neq_Nil_conv)
  with Cons show ?case by (simp add: startswith_iff)
qed simp

section \<open>Patterns\<close>

datatype pattern = Eps | Sym "char \<Rightarrow> bool" | Many "char \<Rightarrow> bool" | Bound | Cat pattern pattern | Or pattern pattern

definition some_of :: "(char \<Rightarrow> bool) \<Rightarrow> pattern" where
  "some_of P = Cat (Sym P) (Many P)"

definition opt :: "pattern \<Rightarrow> pattern" where
  "opt r = Or r Eps"

text \<open>A literal text in any case, and its letters as they are.\<close>

definition same_letter :: "char \<Rightarrow> char \<Rightarrow> bool" where
  "same_letter a c \<longleftrightarrow> lower_char c = lower_char a"

fun lit :: "string \<Rightarrow> pattern" where
  "lit [] = Eps"
| "lit (a # s) = Cat (Sym (same_letter a)) (lit s)"

fun cat :: "pattern list \<Rightarrow> pattern" where
  "cat [] = Eps"
| "cat [r] = r"
| "cat (r # rs) = Cat r (cat rs)"

fun any_of :: "pattern list \<Rightarrow> pattern" where
  "any_of [] = Eps"
| "any_of [r] = r"
| "any_of (r # rs) = Or r (any_of rs)"

text \<open>
  A position is the character before it and the text after it.  \<open>ends\<close> lists the positions where
  a match can end, in the order the matcher tries them.
\<close>

type_synonym position = "char option \<times> string"

definition first_char :: "string \<Rightarrow> char option" where
  "first_char s = (case s of [] \<Rightarrow> None | c # t \<Rightarrow> Some c)"

definition word_at :: "char option \<Rightarrow> bool" where
  "word_at c = (case c of None \<Rightarrow> False | Some x \<Rightarrow> is_word x)"

fun many :: "(char \<Rightarrow> bool) \<Rightarrow> char option \<Rightarrow> string \<Rightarrow> position list" where
  "many P prev [] = [(prev, [])]"
| "many P prev (c # s) = (if P c then many P (Some c) s @ [(prev, c # s)] else [(prev, c # s)])"

fun ends :: "pattern \<Rightarrow> char option \<Rightarrow> string \<Rightarrow> position list" where
  "ends Eps prev s = [(prev, s)]"
| "ends (Sym P) prev s = (case s of [] \<Rightarrow> [] | c # t \<Rightarrow> if P c then [(Some c, t)] else [])"
| "ends (Many P) prev s = many P prev s"
| "ends Bound prev s = (if word_at prev \<noteq> word_at (first_char s) then [(prev, s)] else [])"
| "ends (Cat r q) prev s = concat (map (\<lambda>(p, t). ends q p t) (ends r prev s))"
| "ends (Or r q) prev s = ends r prev s @ ends q prev s"

fun search_from :: "pattern \<Rightarrow> char option \<Rightarrow> string \<Rightarrow> string option" where
  "search_from r prev s = (case ends r prev s of
     (p, t) # es \<Rightarrow> Some (take (length s - length t) s)
   | [] \<Rightarrow> (case s of [] \<Rightarrow> None | c # s' \<Rightarrow> search_from r (Some c) s'))"

declare search_from.simps [simp del]

definition search :: "pattern \<Rightarrow> string \<Rightarrow> string option" where
  "search r s = search_from r None s"

section \<open>What a match is\<close>

text \<open>The reference definition: the pattern matches \<open>u\<close> between \<open>pre\<close> and \<open>post\<close>.\<close>

definition last_char :: "string \<Rightarrow> char option" where
  "last_char s = (if s = [] then None else Some (last s))"

fun matches :: "pattern \<Rightarrow> string \<Rightarrow> string \<Rightarrow> string \<Rightarrow> bool" where
  "matches Eps pre u post \<longleftrightarrow> u = []"
| "matches (Sym P) pre u post \<longleftrightarrow> (\<exists>c. u = [c] \<and> P c)"
| "matches (Many P) pre u post \<longleftrightarrow> (\<forall>c \<in> set u. P c)"
| "matches Bound pre u post \<longleftrightarrow> u = [] \<and> word_at (last_char pre) \<noteq> word_at (first_char post)"
| "matches (Cat r q) pre u post \<longleftrightarrow> (\<exists>v w. u = v @ w \<and> matches r pre v (w @ post) \<and> matches q (pre @ v) w post)"
| "matches (Or r q) pre u post \<longleftrightarrow> matches r pre u post \<or> matches q pre u post"

lemma last_char_snoc [simp]: "last_char (s @ [c]) = Some c"
  and last_char_Nil [simp]: "last_char [] = None"
  by (simp_all add: last_char_def)

lemma first_char_simps [simp]: "first_char [] = None" "first_char (c # s) = Some c"
  by (simp_all add: first_char_def)

lemma many_iff:
  "(p, post) \<in> set (many P (last_char pre) s) \<longleftrightarrow>
     (\<exists>u. s = u @ post \<and> (\<forall>c \<in> set u. P c) \<and> p = last_char (pre @ u))"
proof (induction s arbitrary: pre)
  case Nil
  show ?case by auto
next
  case (Cons c s)
  have step: "(\<exists>u. c # s = u @ post \<and> (\<forall>c \<in> set u. P c) \<and> p = last_char (pre @ u)) \<longleftrightarrow>
      post = c # s \<and> p = last_char pre \<or>
      P c \<and> (\<exists>u. s = u @ post \<and> (\<forall>c \<in> set u. P c) \<and> p = last_char ((pre @ [c]) @ u))" (is "?l \<longleftrightarrow> ?r")
  proof
    assume ?l
    then obtain u where u: "c # s = u @ post" "\<forall>c \<in> set u. P c" "p = last_char (pre @ u)" by blast
    then show ?r by (cases u) auto
  next
    assume ?r
    then show ?l
    proof
      assume "P c \<and> (\<exists>u. s = u @ post \<and> (\<forall>c \<in> set u. P c) \<and> p = last_char ((pre @ [c]) @ u))"
      then obtain u where "P c" "s = u @ post" "\<forall>c \<in> set u. P c" "p = last_char ((pre @ [c]) @ u)" by blast
      then show ?l by (intro exI [of _ "c # u"]) simp
    qed simp
  qed
  show ?case using Cons.IH [of "pre @ [c]"] unfolding step by auto
qed

lemma ends_iff:
  "(p, post) \<in> set (ends r (last_char pre) s) \<longleftrightarrow>
     (\<exists>u. s = u @ post \<and> matches r pre u post \<and> p = last_char (pre @ u))"
proof (induction r arbitrary: p post pre s)
  case (Sym P)
  show ?case by (cases s) auto
next
  case (Many P)
  show ?case by (simp add: many_iff)
next
  case (Cat r q)
  have "(p, post) \<in> set (ends (Cat r q) (last_char pre) s) \<longleftrightarrow>
      (\<exists>p' t. (p', t) \<in> set (ends r (last_char pre) s) \<and> (p, post) \<in> set (ends q p' t))"
    by force
  also have "\<dots> \<longleftrightarrow> (\<exists>t v. s = v @ t \<and> matches r pre v t \<and> (p, post) \<in> set (ends q (last_char (pre @ v)) t))"
    by (auto simp: Cat.IH(1))
  also have "\<dots> \<longleftrightarrow> (\<exists>v w. s = v @ w @ post \<and> matches r pre v (w @ post) \<and> matches q (pre @ v) w post \<and>
      p = last_char (pre @ v @ w))"
    by (auto simp: Cat.IH(2))
  also have "\<dots> \<longleftrightarrow> (\<exists>u. s = u @ post \<and> matches (Cat r q) pre u post \<and> p = last_char (pre @ u))"
    by (simp only: matches.simps) (metis append.assoc)
  finally show ?case .
qed auto

text \<open>The search finds a match exactly if there is one, and what it finds is one.\<close>

definition occurs_in :: "pattern \<Rightarrow> string \<Rightarrow> string \<Rightarrow> string \<Rightarrow> bool" where
  "occurs_in r pre u s \<longleftrightarrow> (\<exists>v post. s = v @ u @ post \<and> matches r (pre @ v) u post)"

lemma search_from_sound:
  "search_from r (last_char pre) s = Some u \<Longrightarrow> occurs_in r pre u s"
proof (induction s arbitrary: pre)
  case Nil
  then obtain p t es where "ends r (last_char pre) [] = (p, t) # es" "u = []"
    by (auto simp: search_from.simps [of r _ "[]"] split: list.splits)
  then show ?case using ends_iff [of p t r pre "[]"] by (fastforce simp: occurs_in_def)
next
  case (Cons c s)
  show ?case
  proof (cases "ends r (last_char pre) (c # s)")
    case Nil
    then have "search_from r (last_char (pre @ [c])) s = Some u"
      using Cons.prems by (simp add: search_from.simps [of r _ "c # s"])
    from Cons.IH [OF this] obtain v post where "s = v @ u @ post" "matches r ((pre @ [c]) @ v) u post"
      unfolding occurs_in_def by blast
    then show ?thesis unfolding occurs_in_def by (intro exI [of _ "c # v"] exI [of _ post]) simp
  next
    case (Cons e es)
    obtain p t where e: "e = (p, t)" by (cases e)
    with Cons obtain w where w: "c # s = w @ t" "matches r pre w t"
      using ends_iff [of p t r pre "c # s"] by auto
    have "u = take (length (c # s) - length t) (c # s)"
      using \<open>search_from r (last_char pre) (c # s) = Some u\<close> Cons e by (simp add: search_from.simps [of r _ "c # s"])
    then have "u = w" by (simp only: w(1)) simp
    then show ?thesis unfolding occurs_in_def using w by (intro exI [of _ "[]"] exI [of _ t]) simp
  qed
qed

lemma search_from_complete:
  "occurs_in r pre u s \<Longrightarrow> search_from r (last_char pre) s \<noteq> None"
proof (induction s arbitrary: pre)
  case Nil
  then have "(last_char pre, []) \<in> set (ends r (last_char pre) [])" by (auto simp: occurs_in_def ends_iff)
  then show ?case by (auto simp: search_from.simps [of r _ "[]"] split: list.splits)
next
  case (Cons c s)
  show ?case
  proof (cases "ends r (last_char pre) (c # s)")
    case Nil
    from Cons.prems obtain v post where v: "c # s = v @ u @ post" "matches r (pre @ v) u post"
      unfolding occurs_in_def by blast
    have "v \<noteq> []" using v Nil ends_iff [of "last_char (pre @ u)" post r pre "c # s"] by force
    then obtain v' where "v = c # v'" using v(1) by (cases v) auto
    with v have "occurs_in r (pre @ [c]) u s" unfolding occurs_in_def by (intro exI [of _ v'] exI [of _ post]) simp
    from Cons.IH [OF this] Nil show ?thesis by (simp add: search_from.simps [of r _ "c # s"])
  qed (auto simp: search_from.simps [of r _ "c # s"] split: prod.splits)
qed

lemma search_sound: "search r s = Some u \<Longrightarrow> occurs_in r [] u s"
  using search_from_sound [of r "[]" s u] by (simp add: search_def)

lemma search_None: "search r s = None \<longleftrightarrow> (\<forall>u. \<not> occurs_in r [] u s)"
  using search_from_sound [of r "[]" s] search_from_complete [of r "[]" _ s] unfolding search_def last_char_Nil
  by (metis not_None_eq)

section \<open>The matches of the building blocks\<close>

lemma matches_Sym_Cat:
  "matches (Cat (Sym P) r) pre u post \<longleftrightarrow> (\<exists>c w. u = c # w \<and> P c \<and> matches r (pre @ [c]) w post)"
  by (simp only: matches.simps) (metis append_Cons append_Nil)

lemma matches_some_of [simp]: "matches (some_of P) pre u post \<longleftrightarrow> u \<noteq> [] \<and> (\<forall>c \<in> set u. P c)"
  by (cases u) (auto simp: some_of_def matches_Sym_Cat simp del: matches.simps(5))

lemma matches_opt [simp]: "matches (opt r) pre u post \<longleftrightarrow> u = [] \<or> matches r pre u post"
  by (auto simp: opt_def)

lemma matches_lit [simp]: "matches (lit s) pre u post \<longleftrightarrow> lower u = lower s"
proof (induction s arbitrary: pre u)
  case (Cons a s)
  show ?case by (cases u) (auto simp: Cons.IH lower_def same_letter_def matches_Sym_Cat simp del: matches.simps(5))
qed (simp add: lower_def)

lemma matches_any_of: "rs \<noteq> [] \<Longrightarrow> matches (any_of rs) pre u post \<longleftrightarrow> (\<exists>r \<in> set rs. matches r pre u post)"
  by (induction rs rule: any_of.induct) auto

end
