(* ===== verification/Repo_Audit.thy ===== *)
theory Repo_Audit
  imports Patterns
begin

text \<open>
  \<open>scripts/publication/audit_public_repo.py\<close>: the search of the repository's text files for the
  name of a company, for paths of a private machine and for secrets.  A file is its path below the
  root, as a list of parts, and its text with line ends translated; None is a file that is not UTF-8.
\<close>

section \<open>The constants\<close>

definition TEXT_SUFFIXES :: "string list" where
  "TEXT_SUFFIXES = [''.cfg'', ''.conf'', ''.csv'', ''.env'', ''.example'', ''.go'', ''.ini'', ''.js'', ''.json'',
     ''.md'', ''.py'', ''.sh'', ''.sql'', ''.toml'', ''.txt'', ''.yaml'', ''.yml'']"

definition TEXT_NAMES :: "string list" where
  "TEXT_NAMES = [''Dockerfile'', ''Makefile'', ''LICENSE'', ''CITATION.cff'', ''.gitignore'']"

definition EXCLUDED_DIRS :: "string list" where
  "EXCLUDED_DIRS = [''.git'', ''.pytest_cache'', ''.worktrees'', ''__pycache__'', ''.venv'']"

definition EXCLUDED_NAMES :: "string list" where
  "EXCLUDED_NAMES = [''.publication-audit.json'']"

definition SECRET_SCAN_SUFFIXES :: "string list" where
  "SECRET_SCAN_SUFFIXES = [''.cfg'', ''.conf'', ''.env'', ''.example'', ''.ini'', ''.json'', ''.md'', ''.sh'',
     ''.toml'', ''.txt'', ''.yaml'', ''.yml'']"

definition INTERNAL_COMPANY :: string where
  "INTERNAL_COMPANY = ''elar'' @ ''tek''"

datatype rule = Internal_Company_Name | Private_Host_Path | Secret_Assignment

definition backslash :: "char \<Rightarrow> bool" where
  "backslash c \<longleftrightarrow> c = char_of (92 :: nat)"

definition host_part :: "char \<Rightarrow> bool" where
  "host_part c \<longleftrightarrow> \<not> backslash c \<and> \<not> py_space c"

definition mount_part :: "char \<Rightarrow> bool" where
  "mount_part c \<longleftrightarrow> c \<noteq> CHR ''/'' \<and> \<not> py_space c"

definition secret_part :: "char \<Rightarrow> bool" where
  "secret_part c \<longleftrightarrow> \<not> py_space c \<and> c \<noteq> CHR ''#''"

definition key_mark :: "char \<Rightarrow> bool" where
  "key_mark c \<longleftrightarrow> c = CHR ''_'' \<or> c = CHR ''-''"

definition company_pattern :: pattern where
  "company_pattern = cat [Bound, lit INTERNAL_COMPANY, Bound]"

definition windows_path :: pattern where
  "windows_path = cat [Sym is_letter, lit '':'', some_of backslash, lit ''Users'', some_of backslash,
     some_of host_part, any_of [some_of backslash, Bound]]"

definition mounted_path :: pattern where
  "mounted_path = cat [lit ''/mnt/'', Sym is_letter, lit ''/Users/'', some_of mount_part, any_of [lit ''/'', Bound]]"

definition secret_name :: pattern where
  "secret_name = any_of [lit ''password'', cat [lit ''api'', opt (Sym key_mark), lit ''key''], lit ''secret'', lit ''token'']"

definition secret_pattern :: pattern where
  "secret_pattern = cat [Bound, secret_name, Many py_space, lit ''='', Many py_space, some_of secret_part]"

definition RULES :: "(rule \<times> pattern) list" where
  "RULES = [(Internal_Company_Name, company_pattern),
            (Private_Host_Path, any_of [windows_path, mounted_path]),
            (Secret_Assignment, secret_pattern)]"

section \<open>The audit\<close>

record source_file =
  file_parts :: "string list"
  file_text :: "string option"

record finding =
  found_path :: string
  found_line :: nat
  found_rule :: rule
  found_excerpt :: string

definition file_name :: "source_file \<Rightarrow> string" where
  "file_name f = (if file_parts f = [] then [] else last (file_parts f))"

text \<open>\<open>Path.suffix\<close>: what follows the last dot, if something is before the dot and after it.\<close>

definition path_suffix :: "string \<Rightarrow> string" where
  "path_suffix name = (let ext = rev (takeWhile (\<lambda>c. c \<noteq> CHR ''.'') (rev name)) in
     if ext \<noteq> [] \<and> length ext + 1 < length name then CHR ''.'' # ext else [])"

definition as_posix :: "string list \<Rightarrow> string" where
  "as_posix parts = (case parts of [] \<Rightarrow> ''.'' | p # ps \<Rightarrow> p @ concat (map (\<lambda>q. CHR ''/'' # q) ps))"

definition is_scannable :: "source_file \<Rightarrow> bool" where
  "is_scannable f \<longleftrightarrow>
     file_name f \<notin> set EXCLUDED_NAMES \<and> \<not> list_ex (\<lambda>p. p \<in> set EXCLUDED_DIRS) (file_parts f) \<and>
     take 1 (file_parts f) \<noteq> [''results''] \<and>
     (file_name f \<in> set TEXT_NAMES \<or> lower (path_suffix (file_name f)) \<in> set TEXT_SUFFIXES)"

definition MARKERS :: "string list" where
  "MARKERS = [''local-only'', ''placeholder'', ''example'', ''changeme'', ''dummy'']"

text \<open>The match a rule reports on a line of a file with the given suffix.\<close>

definition rule_match :: "string \<Rightarrow> rule \<times> pattern \<Rightarrow> string \<Rightarrow> string option" where
  "rule_match suffix rp line = (case rp of (rule, pattern) \<Rightarrow>
     if rule = Secret_Assignment \<and> lower suffix \<notin> set SECRET_SCAN_SUFFIXES then None
     else (case search pattern line of
       None \<Rightarrow> None
     | Some u \<Rightarrow> if rule = Secret_Assignment \<and> list_ex (\<lambda>m. occurs m (lower u)) MARKERS then None else Some u))"

definition excerpt :: "string \<Rightarrow> string" where
  "excerpt line = (let e = strip line in if 240 < length e then take 237 e @ ''...'' else e)"

definition audit_line :: "source_file \<Rightarrow> nat \<Rightarrow> string \<Rightarrow> finding list" where
  "audit_line f line_no line = concat (map (\<lambda>rp.
     case rule_match (path_suffix (file_name f)) rp line of
       None \<Rightarrow> []
     | Some u \<Rightarrow> [\<lparr>found_path = as_posix (file_parts f), found_line = line_no, found_rule = fst rp,
                  found_excerpt = excerpt line\<rparr>]) RULES)"

definition audit_file :: "source_file \<Rightarrow> finding list" where
  "audit_file f = (if is_scannable f then (case file_text f of
       None \<Rightarrow> []
     | Some text \<Rightarrow> concat (map (\<lambda>(n, line). audit_line f n line) (enumerate 1 (splitlines text)))) else [])"

definition audit_tree :: "source_file list \<Rightarrow> finding list" where
  "audit_tree files = concat (map audit_file (sort_key file_parts files))"

text \<open>The exit code.\<close>

definition audit_main :: "source_file list \<Rightarrow> int" where
  "audit_main files = (if audit_tree files \<noteq> [] then 1 else 0)"

section \<open>What a passing audit means\<close>

lemma is_word_lower [simp]: "is_word (lower_char c) = is_word c"
proof -
  have "(of_char c :: nat) < 256" by (rule nat_of_char_less_256)
  then show ?thesis by (auto simp: is_word_def lower_char_def is_letter_def Let_def)
qed

lemma first_char_word: "u \<noteq> [] \<Longrightarrow> word_at (first_char (u @ b)) = is_word (hd u)"
  and last_char_word: "u \<noteq> [] \<Longrightarrow> word_at (last_char (a @ u)) = is_word (last u)"
  by (simp_all add: word_at_def first_char_def last_char_def neq_Nil_conv split: list.split) auto

text \<open>The name of the company as a word of its own, in any case.\<close>

definition names_company :: "string \<Rightarrow> bool" where
  "names_company line \<longleftrightarrow> (\<exists>a u b. line = a @ u @ b \<and> lower u = INTERNAL_COMPANY \<and>
     \<not> word_at (last_char a) \<and> \<not> word_at (first_char b))"

lemma company_text: "lower INTERNAL_COMPANY = INTERNAL_COMPANY" "list_all is_word INTERNAL_COMPANY" "INTERNAL_COMPANY \<noteq> []"
  by (simp_all add: INTERNAL_COMPANY_def lower_def lower_char_def is_word_def is_letter_def Let_def)

lemma company_word:
  assumes "lower u = INTERNAL_COMPANY"
  shows "u \<noteq> [] \<and> is_word (hd u) \<and> is_word (last u)"
proof -
  have u: "u \<noteq> []" using assms company_text(3) by (auto simp: lower_def)
  have "is_word c" if "c \<in> set u" for c
  proof -
    have "lower_char c \<in> set INTERNAL_COMPANY" using that unfolding assms [symmetric] lower_def by simp
    then have "is_word (lower_char c)" using company_text(2) by (simp only: list_all_iff)
    then show ?thesis by simp
  qed
  with u show ?thesis by simp
qed

lemma search_company: "search company_pattern line = None \<longleftrightarrow> \<not> names_company line"
proof -
  have "occurs_in company_pattern [] u line \<longleftrightarrow> (\<exists>a b. line = a @ u @ b \<and> lower u = INTERNAL_COMPANY \<and>
      \<not> word_at (last_char a) \<and> \<not> word_at (first_char b))" for u
  proof -
    have "matches company_pattern a u b \<longleftrightarrow> lower u = INTERNAL_COMPANY \<and> \<not> word_at (last_char a) \<and> \<not> word_at (first_char b)" for a b
    proof -
      have "matches company_pattern a u b \<longleftrightarrow> lower u = INTERNAL_COMPANY \<and>
          word_at (last_char a) \<noteq> word_at (first_char (u @ b)) \<and> word_at (last_char (a @ u)) \<noteq> word_at (first_char b)"
        by (auto simp: company_pattern_def company_text(1))
      also have "\<dots> \<longleftrightarrow> lower u = INTERNAL_COMPANY \<and> \<not> word_at (last_char a) \<and> \<not> word_at (first_char b)"
        using company_word [of u] by (metis first_char_word last_char_word)
      finally show ?thesis .
    qed
    then show ?thesis by (simp add: occurs_in_def)
  qed
  then show ?thesis unfolding search_None names_company_def by blast
qed

text \<open>The first assignment of a secret on the line, if there is one, is marked as an example.\<close>

definition excused :: "string \<Rightarrow> bool" where
  "excused line \<longleftrightarrow> (case search secret_pattern line of
     None \<Rightarrow> True | Some u \<Rightarrow> list_ex (\<lambda>m. occurs m (lower u)) MARKERS)"

definition clean_line :: "source_file \<Rightarrow> string \<Rightarrow> bool" where
  "clean_line f line \<longleftrightarrow> \<not> names_company line \<and>
     (\<forall>u. \<not> occurs_in windows_path [] u line) \<and> (\<forall>u. \<not> occurs_in mounted_path [] u line) \<and>
     (lower (path_suffix (file_name f)) \<in> set SECRET_SCAN_SUFFIXES \<longrightarrow> excused line)"

lemma audit_line_clean: "audit_line f n line = [] \<longleftrightarrow> clean_line f line"
proof -
  have paths: "search (any_of [windows_path, mounted_path]) line = None \<longleftrightarrow>
      (\<forall>u. \<not> occurs_in windows_path [] u line) \<and> (\<forall>u. \<not> occurs_in mounted_path [] u line)"
    unfolding search_None occurs_in_def by auto
  have "audit_line f n line = [] \<longleftrightarrow> (\<forall>rp \<in> set RULES. rule_match (path_suffix (file_name f)) rp line = None)"
    by (simp add: audit_line_def) (metis (no_types, lifting) list.distinct(1) not_None_eq option.simps(4,5))
  also have "\<dots> \<longleftrightarrow> search company_pattern line = None \<and> search (any_of [windows_path, mounted_path]) line = None \<and>
      rule_match (path_suffix (file_name f)) (Secret_Assignment, secret_pattern) line = None"
    by (simp add: RULES_def rule_match_def del: any_of.simps split: option.split)
  also have "rule_match (path_suffix (file_name f)) (Secret_Assignment, secret_pattern) line = None \<longleftrightarrow>
      (lower (path_suffix (file_name f)) \<in> set SECRET_SCAN_SUFFIXES \<longrightarrow> excused line)"
    by (simp add: rule_match_def excused_def split: option.split)
  finally show ?thesis unfolding clean_line_def search_company paths by blast
qed

lemma audit_file_clean: "audit_file f = [] \<longleftrightarrow>
   (is_scannable f \<longrightarrow> (\<forall>text. file_text f = Some text \<longrightarrow> (\<forall>line \<in> set (splitlines text). clean_line f line)))"
proof -
  have "(\<forall>p \<in> set (enumerate 1 ls). P (snd p)) \<longleftrightarrow> (\<forall>line \<in> set ls. P line)" for ls :: "string list" and P
    by (metis (no_types, lifting) image_iff map_snd_enumerate set_map)
  from this [of _ "clean_line f"] show ?thesis
    by (auto simp: audit_file_def audit_line_clean split_beta split: option.split)
qed


definition demo_readme :: source_file where
  "demo_readme = \<lparr>file_parts = [''README.md''], file_text = Some ''by Elartek''\<rparr>"


section \<open>What the audit does not see\<close>

lemma lower_char_equals: "lower_char c = CHR ''='' \<longleftrightarrow> c = CHR ''=''"
proof
  assume "lower_char c = CHR ''=''"
  then have "(of_char (lower_char c) :: nat) = 61" by simp
  then have "(of_char c :: nat) = 61" using nat_of_char_less_256 [of c]
    by (auto simp: lower_char_def Let_def split: if_splits)
  then have "char_of (of_char c :: nat) = (char_of (61 :: nat) :: char)" by simp
  moreover have "char_of (61 :: nat) = CHR ''=''" by code_simp
  ultimately show "c = CHR ''=''" by simp
qed (simp add: lower_char_def)

lemma lower_equals: "lower v = lower ''='' \<longleftrightarrow> v = ''=''"
proof -
  have e: "lower ''='' = [CHR ''='']" unfolding lower_def list.map using lower_char_equals by blast
  show ?thesis unfolding e
    by (cases v) (simp_all only: lower_def list.map lower_char_equals list.inject map_is_Nil_conv list.distinct)
qed

lemma secret_needs_equals:
  assumes "matches secret_pattern a u b"
  shows "CHR ''='' \<in> set u"
proof -
  obtain v1 v2 v3 v4 v5 where "u = v1 @ v2 @ v3 @ v4 @ v5" "lower v4 = lower ''=''"
    using assms unfolding secret_pattern_def cat.simps matches.simps(5) matches_lit by blast
  then show ?thesis by (simp add: lower_equals)
qed

lemma no_equals_no_secret: "CHR ''='' \<notin> set s \<Longrightarrow> search_from secret_pattern (last_char pre) s = None"
  using search_from_sound [of secret_pattern pre s] secret_needs_equals
  by (cases "search_from secret_pattern (last_char pre) s") (auto simp: occurs_in_def)

text \<open>
  Three kinds of secret pass the audit.  A file called \<open>.env\<close> is never read, although its
  suffix is listed, since Python gives a name that starts with its only dot no suffix.  A variable
  whose name ends in \<open>_PASSWORD\<close> is not reported, since the underscore is a word character.  And an
  example value excuses every other secret on its line, since only the first match is looked at.
\<close>

theorem audit_blind_spots:
  "audit_file \<lparr>file_parts = dir @ [''.env''], file_text = t\<rparr> = []"
  "search secret_pattern (''DB_PASSWORD='' @ filter (\<lambda>c. c \<noteq> CHR ''='') v) = None"
  "excused (''token=placeholder password='' @ w)"
proof -
  have "lower (path_suffix ''.env'') \<notin> set TEXT_SUFFIXES" "''.env'' \<notin> set TEXT_NAMES" by code_simp+
  then show "audit_file \<lparr>file_parts = dir @ [''.env''], file_text = t\<rparr> = []"
    by (simp add: audit_file_def is_scannable_def file_name_def)
next
  have "search_from secret_pattern (last_char ''='') (filter (\<lambda>c. c \<noteq> CHR ''='') v) = None"
    by (rule no_equals_no_secret) simp
  then show "search secret_pattern (''DB_PASSWORD='' @ filter (\<lambda>c. c \<noteq> CHR ''='') v) = None"
    by (simp add: search_def last_char_def search_from.simps [of _ _ "_ # _"] secret_pattern_def secret_name_def some_of_def opt_def
      word_at_def is_word_def is_letter_def same_letter_def lower_char_def py_space_def secret_part_def key_mark_def)
next
  show "excused (''token=placeholder password='' @ w)"
    by (simp add: excused_def search_def search_from.simps [of _ _ "_ # _"] secret_pattern_def secret_name_def some_of_def opt_def
      word_at_def is_word_def is_letter_def same_letter_def lower_char_def py_space_def secret_part_def key_mark_def
      lower_def MARKERS_def startswith_def)
qed

end
