(* ===== verification/Published_Claims.thy ===== *)
theory Published_Claims
  imports Repo_Audit Metrics
begin

text \<open>
  \<open>scripts/publication/validate_claims.py\<close>: the check of the published texts for claims the
  benchmark does not support.
\<close>

section \<open>The patterns\<close>

definition DISCLAIMER :: string where
  "DISCLAIMER = ''This benchmark compares these two frozen application stacks under these workloads. '' @
     ''It does not measure the theoretical performance limit of either Python or Go.''"

definition times_sign :: "char \<Rightarrow> bool" where
  "times_sign c \<longleftrightarrow> same_letter (CHR ''x'') c \<or> c = char_of (215 :: nat)"

definition qualifier :: pattern where
  "qualifier = any_of [cat [lit ''roughly'', some_of py_space], cat [lit ''about'', some_of py_space], lit ''~'']"

definition performance_claim :: pattern where
  "performance_claim = cat [Bound, lit ''go'', some_of py_space, lit ''is'', some_of py_space, opt qualifier,
     some_of is_digit, opt (cat [lit ''.'', some_of is_digit]), Many py_space, Sym times_sign, some_of py_space,
     lit ''faster'', some_of py_space, lit ''than'', some_of py_space, lit ''python'', Bound]"

definition p99_link :: pattern where
  "p99_link = any_of [cat [any_of [lit ''was'', lit ''is'', lit ''of''], some_of py_space],
     cat [Sym (\<lambda>c. c = CHR '':'' \<or> c = CHR ''=''), Many py_space]]"

definition p99_claim :: pattern where
  "p99_claim = cat [Bound, lit ''p99'', Bound, Many py_space, opt p99_link, opt (lit ''~''), Sym is_digit]"

definition diagnostic_number :: pattern where
  "diagnostic_number = cat [lit ''diagnostic'', Many (\<lambda>c. c \<noteq> LF), Sym is_digit]"

section \<open>The check\<close>

datatype claim_rule = Unqualified_Performance_Claim | Unsupported_P99 | Production_Identical_Wording
  | Unpublishable_Diagnostic_Number | Missing_Fairness_Disclaimer

record claim_error =
  claim_path :: string
  claim_line :: nat
  claim_rule :: claim_rule
  claim_excerpt :: string

record document =
  doc_path :: string
  doc_name :: string
  doc_text :: "string option"

text \<open>\<open>evidence\<close> is the packaged capacity record, None where the file does not exist.\<close>

definition diagnostics_publishable :: "json option \<Rightarrow> bool attempt" where
  "diagnostics_publishable evidence = (case evidence of
     None \<Rightarrow> Inr False
   | Some payload \<Rightarrow> andthen (get_default ''diagnostics'' (JObj []) payload) (\<lambda>diagnostics.
       andthen (get_default ''diagnostic_numeric_claims_publishable'' (JBool False) diagnostics) (\<lambda>v. Inr (truthy v))))"

definition claim_rules :: "bool \<Rightarrow> string \<Rightarrow> claim_rule list" where
  "claim_rules publishable line =
     (if search performance_claim line \<noteq> None then [Unqualified_Performance_Claim] else []) @
     (if search p99_claim line \<noteq> None then [Unsupported_P99] else []) @
     (if occurs ''production workload'' (lower line) \<and> \<not> occurs ''production-inspired'' (lower line)
      then [Production_Identical_Wording] else []) @
     (if \<not> publishable \<and> search diagnostic_number line \<noteq> None then [Unpublishable_Diagnostic_Number] else [])"

definition line_errors :: "document \<Rightarrow> bool \<Rightarrow> nat \<Rightarrow> string \<Rightarrow> claim_error list" where
  "line_errors doc publishable n line = map (\<lambda>r.
     \<lparr>claim_path = doc_path doc, claim_line = n, claim_rule = r, claim_excerpt = strip line\<rparr>) (claim_rules publishable line)"

definition disclaimer_errors :: "document \<Rightarrow> string \<Rightarrow> claim_error list" where
  "disclaimer_errors doc text =
     (if (doc_name doc = ''README.md'' \<or> doc_name doc = ''medium-article.md'') \<and> \<not> occurs DISCLAIMER text
      then [\<lparr>claim_path = doc_path doc, claim_line = 0, claim_rule = Missing_Fairness_Disclaimer,
             claim_excerpt = DISCLAIMER\<rparr>] else [])"

definition validate_claims_in :: "json option \<Rightarrow> document \<Rightarrow> claim_error list attempt" where
  "validate_claims_in evidence doc =
     andthen (case doc_text doc of None \<Rightarrow> Inl OSError | Some t \<Rightarrow> Inr t) (\<lambda>content.
     andthen (diagnostics_publishable evidence) (\<lambda>publishable.
     Inr (concat (map (\<lambda>(n, line). line_errors doc publishable n line) (enumerate 1 (splitlines content))) @
          disclaimer_errors doc content)))"

definition claims_main :: "json option \<Rightarrow> document list \<Rightarrow> int attempt" where
  "claims_main evidence docs = andthen (traverse (validate_claims_in evidence) docs) (\<lambda>ess.
     Inr (if concat ess \<noteq> [] then 1 else 0))"

section \<open>What is rejected\<close>

lemma lower_append [simp]: "lower (u @ v) = lower u @ lower v"
  by (simp add: lower_def)

lemma matches_CatI: "matches r pre v (w @ post) \<Longrightarrow> matches q (pre @ v) w post \<Longrightarrow> matches (Cat r q) pre (v @ w) post"
  by auto

lemma word_hd: "is_word c \<Longrightarrow> \<not> word_at (last_char a) \<Longrightarrow> matches Bound a [] (c # s)"
  and word_last: "is_word c \<Longrightarrow> \<not> word_at (first_char b) \<Longrightarrow> matches Bound (a @ [c]) [] b"
  by (simp_all add: word_at_def)

lemma go_is: "search performance_claim (a @ ''Go is '' @ nat_dec n @ ''x faster than Python'' @ b) \<noteq> None"
  if ab: "\<not> word_at (last_char a)" "\<not> word_at (first_char b)"
proof -
  have digits: "matches (some_of is_digit) pre (nat_dec n) post" for pre post
    using nat_dec_digits [of _ n] by simp
  have space: "matches (some_of py_space) pre '' '' post" for pre post by (simp add: py_space_def)
  have word: "lower ''Go'' = lower ''go''" "lower ''Python'' = lower ''python''" by code_simp+
  have end_bound: "matches Bound (pre @ ''Python'') [] b" for pre
    using ab(2) word_last [of "CHR ''n''" b "pre @ ''Pytho''"] by (simp add: is_word_def is_letter_def)
  have m: "matches performance_claim a (''Go'' @ '' '' @ ''is'' @ '' '' @ [] @ nat_dec n @ [] @ [] @ ''x'' @ '' '' @
      ''faster'' @ '' '' @ ''than'' @ '' '' @ ''Python'' @ []) b"
    unfolding performance_claim_def cat.simps
    by (rule matches_CatI [where v = "[]", simplified append_Nil]) (use ab(1) in \<open>simp add: word_at_def is_word_def is_letter_def\<close>,
      (rule matches_CatI digits space end_bound |
       (simp only: matches_lit word; fail) | (simp add: times_sign_def same_letter_def del: matches.simps(4,5); fail))+)
  have "occurs_in performance_claim [] (''Go is '' @ nat_dec n @ ''x faster than Python'')
      (a @ ''Go is '' @ nat_dec n @ ''x faster than Python'' @ b)"
    unfolding occurs_in_def using m by (intro exI [of _ a] exI [of _ b] conjI) simp_all
  then show ?thesis unfolding search_None by blast
qed

section \<open>What an accepted text holds\<close>

definition says_faster :: "string \<Rightarrow> bool" where
  "says_faster line \<longleftrightarrow> (\<exists>a n b. line = a @ ''Go is '' @ nat_dec n @ ''x faster than Python'' @ b \<and>
     \<not> word_at (last_char a) \<and> \<not> word_at (first_char b))"

lemma line_errors_Nil: "line_errors doc p n line = [] \<longleftrightarrow> claim_rules p line = []"
  by (simp add: line_errors_def)

lemma claim_rules_Nil:
  assumes "claim_rules p line = []"
  shows "\<not> says_faster line" "occurs ''production workload'' (lower line) \<Longrightarrow> occurs ''production-inspired'' (lower line)"
    "p \<or> search diagnostic_number line = None" "search p99_claim line = None"
proof -
  have parts: "search performance_claim line = None" "search p99_claim line = None"
    "occurs ''production workload'' (lower line) \<longrightarrow> occurs ''production-inspired'' (lower line)"
    "p \<or> search diagnostic_number line = None"
    using assms unfolding claim_rules_def by (simp_all split: if_splits)
  then show "\<not> says_faster line" unfolding says_faster_def using go_is by blast
  from parts show "occurs ''production workload'' (lower line) \<Longrightarrow> occurs ''production-inspired'' (lower line)"
    "p \<or> search diagnostic_number line = None" "search p99_claim line = None" by blast+
qed

lemma checked_lines:
  assumes "concat (map (\<lambda>(n, line). f n line) (enumerate k ls)) = []" "line \<in> set ls"
  shows "\<exists>n. f n line = []"
proof -
  obtain i where "i < length ls" "ls ! i = line" using assms(2) by (auto simp: in_set_conv_nth)
  then have "(k + i, line) \<in> set (enumerate k ls)" by (simp add: in_set_enumerate_eq)
  with assms(1) show ?thesis by auto
qed

text \<open>
  Where the check of the published texts exits with 0, every text was read, none of its lines
  says that Go is some whole number of times faster than Python, calls the workload a production
  workload without calling it production-inspired, or gives a figure for the 99th percentile, and
  the README and the article carry the disclaimer word for word.
\<close>

theorem claims_accepted:
  assumes "claims_main evidence docs = Inr 0" "doc \<in> set docs"
  shows "\<exists>content. doc_text doc = Some content \<and>
    (\<forall>line \<in> set (splitlines content). \<not> says_faster line \<and> search p99_claim line = None \<and>
       (occurs ''production workload'' (lower line) \<longrightarrow> occurs ''production-inspired'' (lower line))) \<and>
    (doc_name doc = ''README.md'' \<or> doc_name doc = ''medium-article.md'' \<longrightarrow> occurs DISCLAIMER content)"
proof -
  obtain ess where ess: "traverse (validate_claims_in evidence) docs = Inr ess" "concat ess = []"
    using assms(1) by (auto simp: claims_main_def andthen_Inr split: if_splits)
  then have "validate_claims_in evidence doc = Inr []"
    using traverse_mem [OF ess(1) assms(2)] by auto
  then obtain content p where c: "doc_text doc = Some content"
    "concat (map (\<lambda>(n, line). line_errors doc p n line) (enumerate 1 (splitlines content))) = []"
    "disclaimer_errors doc content = []"
    by (auto simp: validate_claims_in_def andthen_Inr split: option.splits)
  have "claim_rules p line = []" if "line \<in> set (splitlines content)" for line
    using checked_lines [OF c(2) that] by (auto simp: line_errors_Nil)
  moreover have "doc_name doc = ''README.md'' \<or> doc_name doc = ''medium-article.md'' \<longrightarrow> occurs DISCLAIMER content"
    using c(3) by (auto simp: disclaimer_errors_def split: if_splits)
  ultimately show ?thesis using c(1) claim_rules_Nil by blast
qed

definition demo_document :: document where
  "demo_document = \<lparr>doc_path = ''README.md'', doc_name = ''README.md'', doc_text = Some DISCLAIMER\<rparr>"

lemma claims_accepted_witness: "occurs DISCLAIMER DISCLAIMER \<and> claims_main None [demo_document] = Inr 0"
proof -
  have ok: "claims_main None [demo_document] = Inr 0" by code_simp
  from claims_accepted [OF ok, of demo_document] show ?thesis using ok by (simp add: demo_document_def)
qed

end
