(* ===== verification/Published_Assets.thy ===== *)
theory Published_Assets
  imports Published_Claims
begin

text \<open>
  \<open>scripts/publication/validate_assets.py\<close>: the check of the chart files and of the images the
  published texts refer to.  A path is the list of its parts; the repository is the directory of the
  parts \<open>asset_root\<close> on a disk without symbolic links.  The XML parser is a parameter.
\<close>

section \<open>Files\<close>

record disk =
  asset_root :: "string list"
  disk_file :: "string list \<Rightarrow> string option"
  parse_xml :: "string \<Rightarrow> (string \<times> string option) option"

text \<open>The tag of the root element and its width attribute; None is a ParseError.\<close>

definition is_file :: "disk \<Rightarrow> string list \<Rightarrow> bool" where
  "is_file dk path \<longleftrightarrow> disk_file dk path \<noteq> None"

fun split_on :: "char \<Rightarrow> string \<Rightarrow> string \<Rightarrow> string list" where
  "split_on d cur [] = [rev cur]"
| "split_on d cur (c # s) = (if c = d then rev cur # split_on d [] s else split_on d (c # cur) s)"

text \<open>The parts pathlib keeps of a path text.\<close>

definition path_parts :: "string \<Rightarrow> string list" where
  "path_parts s = filter (\<lambda>p. p \<noteq> [] \<and> p \<noteq> ''.'') (split_on (CHR ''/'') [] s)"

definition is_absolute :: "string \<Rightarrow> bool" where
  "is_absolute s \<longleftrightarrow> startswith ''/'' s"

text \<open>\<open>resolve()\<close>: two dots go up one directory, and not above the top.\<close>

definition go_up :: "string list \<Rightarrow> string \<Rightarrow> string list" where
  "go_up up p = (if p = ''..'' then butlast up else up @ [p])"

definition resolve :: "string list \<Rightarrow> string list" where
  "resolve = foldl go_up []"

definition below :: "string list \<Rightarrow> string list \<Rightarrow> bool" where
  "below base path \<longleftrightarrow> take (length base) path = base"

section \<open>Charts\<close>

definition QUANTITATIVE :: "string list list" where
  "QUANTITATIVE = [[''assets'', ''charts'', ''card-p95.svg''], [''assets'', ''charts'', ''dashboard-p95.svg''],
     [''assets'', ''charts'', ''worker.svg''], [''assets'', ''charts'', ''d3-capacity.svg'']]"

datatype asset_error = Missing_Asset "string list" | Invalid_Svg "string list" | Not_Svg_Root "string list"
  | Svg_Too_Narrow "string list" | Missing_Element string "string list"
  | Not_Relative string string | Escapes_Repository string string | Missing_Image string string
  | Missing_Markdown string

definition endswith :: "string \<Rightarrow> string \<Rightarrow> bool" where
  "endswith suffix s \<longleftrightarrow> startswith (rev suffix) (rev s)"

text \<open>\<open>int(float(width))\<close>, where a ValueError stands for 0 and an OverflowError is not caught.\<close>

definition svg_width :: "string option \<Rightarrow> int attempt" where
  "svg_width width = (case andthen (or_value_error (py_float (case width of None \<Rightarrow> ''0'' | Some w \<Rightarrow> w))) int_of_float of
     Inl ValueError \<Rightarrow> Inr 0 | r \<Rightarrow> r)"

definition validate_svg :: "disk \<Rightarrow> string list \<Rightarrow> asset_error list attempt" where
  "validate_svg dk path = (case disk_file dk (asset_root dk @ path) of
     None \<Rightarrow> Inr [Missing_Asset path]
   | Some content \<Rightarrow> (case parse_xml dk content of
       None \<Rightarrow> Inr [Invalid_Svg path]
     | Some (tag, width) \<Rightarrow> andthen (svg_width width) (\<lambda>w. Inr (
         (if endswith ''svg'' tag then [] else [Not_Svg_Root path]) @
         (if w < 1192 then [Svg_Too_Narrow path] else []) @
         (if occurs ''<title'' content then [] else [Missing_Element ''title'' path]) @
         (if occurs ''<desc'' content then [] else [Missing_Element ''desc'' path]) @
         (if occurs ''<metadata'' content then [] else [Missing_Element ''metadata'' path])))))"

section \<open>Images of a text\<close>

definition image_pattern :: pattern where
  "image_pattern = cat [lit ''!['', Many (\<lambda>c. c \<noteq> CHR '']''), lit ''](''  , some_of (\<lambda>c. c \<noteq> CHR '')''), lit '')'']"

text \<open>
  \<open>re.findall\<close>: the matches from the left, each search starting where the last match ended.  An
  image is never empty, so the text left gets shorter.
\<close>

function find_all :: "pattern \<Rightarrow> char option \<Rightarrow> string \<Rightarrow> string list" where
  "find_all r prev s = (case ends r prev s of
     (p, t) # es \<Rightarrow> if length t < length s then take (length s - length t) s # find_all r p t else []
   | [] \<Rightarrow> (case s of [] \<Rightarrow> [] | c # s' \<Rightarrow> find_all r (Some c) s'))"
  by pat_completeness auto
termination by (relation "measure (\<lambda>(r, prev, s). length s)") auto

declare find_all.simps [simp del]

text \<open>The group: what stands between the first \<open>](\<close> and the bracket at the end.\<close>

definition image_ref :: "string \<Rightarrow> string" where
  "image_ref u = butlast (drop 2 (dropWhile (\<lambda>c. c \<noteq> CHR '']'') u))"

definition markdown_images :: "string \<Rightarrow> string list" where
  "markdown_images s = map image_ref (find_all image_pattern None s)"

definition check_image :: "disk \<Rightarrow> string \<Rightarrow> string list \<Rightarrow> string \<Rightarrow> asset_error list" where
  "check_image dk shown dir ref =
     (if startswith ''http://'' ref \<or> startswith ''https://'' ref \<or> startswith ''/'' ref then [Not_Relative shown ref]
      else let candidate = resolve (dir @ path_parts ref) in
        if \<not> below (resolve (asset_root dk)) candidate then [Escapes_Repository shown ref]
        else if \<not> is_file dk candidate then [Missing_Image shown ref] else [])"

text \<open>The argument as a path: absolute as it is, otherwise below the root.\<close>

definition markdown_path :: "disk \<Rightarrow> string \<Rightarrow> string list" where
  "markdown_path dk arg = (if is_absolute arg then path_parts arg else asset_root dk @ path_parts arg)"

definition validate_images :: "disk \<Rightarrow> string \<Rightarrow> asset_error list" where
  "validate_images dk arg = (case disk_file dk (resolve (markdown_path dk arg)) of
     None \<Rightarrow> [Missing_Markdown arg]
   | Some content \<Rightarrow> concat (map (check_image dk arg (butlast (markdown_path dk arg))) (markdown_images content)))"

definition assets_main :: "disk \<Rightarrow> string list \<Rightarrow> int attempt" where
  "assets_main dk args = andthen (traverse (validate_svg dk) QUANTITATIVE) (\<lambda>ess.
     Inr (if concat ess @ concat (map (validate_images dk) args) \<noteq> [] then 1 else 0))"

section \<open>What an accepted publication holds\<close>

lemma resolve_snoc: "resolve (xs @ [p]) = (if p = ''..'' then butlast (resolve xs) else resolve xs @ [p])"
  by (simp add: resolve_def go_up_def)

lemma resolve_no_dots: "''..'' \<notin> set (resolve xs)"
proof (induction xs rule: rev_induct)
  case (snoc p xs)
  then show ?case by (auto simp: resolve_snoc dest: in_set_butlastD)
qed (simp add: resolve_def)

lemma resolve_id: "''..'' \<notin> set xs \<Longrightarrow> resolve xs = xs"
  by (induction xs rule: rev_induct) (auto simp: resolve_snoc, simp add: resolve_def)

definition good_chart :: "disk \<Rightarrow> string list \<Rightarrow> bool" where
  "good_chart dk path \<longleftrightarrow> (\<exists>content tag width w. disk_file dk (asset_root dk @ path) = Some content \<and>
     parse_xml dk content = Some (tag, width) \<and> endswith ''svg'' tag \<and> svg_width width = Inr w \<and> 1192 \<le> w \<and>
     occurs ''<title'' content \<and> occurs ''<desc'' content \<and> occurs ''<metadata'' content)"

lemma validate_svg_accepts:
  assumes "validate_svg dk path = Inr []"
  shows "good_chart dk path"
proof -
  obtain content where c: "disk_file dk (asset_root dk @ path) = Some content"
    using assms by (cases "disk_file dk (asset_root dk @ path)") (simp_all add: validate_svg_def)
  moreover obtain tag width where x: "parse_xml dk content = Some (tag, width)"
    using assms c by (cases "parse_xml dk content") (auto simp: validate_svg_def)
  moreover obtain w where "svg_width width = Inr w"
    using assms c x by (cases "svg_width width") (simp_all add: validate_svg_def)
  ultimately show ?thesis using assms
    by (simp add: good_chart_def validate_svg_def split: if_splits)
qed

text \<open>
  C40. Where the check of the assets exits with 0, each of the four charts is a file that parses as
  XML with an svg root at least 1192 wide and holds a title, a description and metadata, and every
  image an article refers to is a file of the repository: however the reference climbs through
  directories, what it resolves to lies below the root.
\<close>

theorem assets_accepted:
  assumes "assets_main dk args = Inr 0" and "''..'' \<notin> set (asset_root dk)"
  shows "(\<forall>path \<in> set QUANTITATIVE. good_chart dk path) \<and>
    (\<forall>arg \<in> set args. \<exists>content. disk_file dk (resolve (markdown_path dk arg)) = Some content \<and>
      (\<forall>ref \<in> set (markdown_images content). \<exists>rest. is_file dk (asset_root dk @ rest) \<and> ''..'' \<notin> set rest \<and>
         resolve (butlast (markdown_path dk arg) @ path_parts ref) = asset_root dk @ rest))"
proof -
  obtain ess where ess: "traverse (validate_svg dk) QUANTITATIVE = Inr ess" "concat ess = []"
    and images: "concat (map (validate_images dk) args) = []"
    using assms(1) by (auto simp: assets_main_def andthen_Inr split: if_splits)
  have "validate_svg dk path = Inr []" if "path \<in> set QUANTITATIVE" for path
    using traverse_mem [OF ess(1) that] ess(2) by auto
  then have charts: "\<forall>path \<in> set QUANTITATIVE. good_chart dk path"
    using validate_svg_accepts by blast
  have "\<exists>rest. is_file dk (asset_root dk @ rest) \<and> ''..'' \<notin> set rest \<and> resolve (dir @ path_parts ref) = asset_root dk @ rest"
    if "check_image dk shown dir ref = []" for shown dir ref
  proof -
    from that have "below (asset_root dk) (resolve (dir @ path_parts ref))" "is_file dk (resolve (dir @ path_parts ref))"
      using resolve_id [OF assms(2)] by (simp_all add: check_image_def Let_def split: if_splits)
    then obtain rest where rest: "resolve (dir @ path_parts ref) = asset_root dk @ rest"
      unfolding below_def by (metis append_take_drop_id)
    moreover have "''..'' \<notin> set rest" using resolve_no_dots [of "dir @ path_parts ref"] unfolding rest by simp
    ultimately show ?thesis using \<open>is_file dk _\<close> by auto
  qed
  then have "\<forall>arg \<in> set args. \<exists>content. disk_file dk (resolve (markdown_path dk arg)) = Some content \<and>
      (\<forall>ref \<in> set (markdown_images content). \<exists>rest. is_file dk (asset_root dk @ rest) \<and> ''..'' \<notin> set rest \<and>
         resolve (butlast (markdown_path dk arg) @ path_parts ref) = asset_root dk @ rest)"
    using images by (fastforce simp: validate_images_def split: option.splits)
  with charts show ?thesis by blast
qed

text \<open>A disk with one text, one image and the four charts; every chart parses to the same root.\<close>

definition demo_disk :: disk where
  "demo_disk = \<lparr>asset_root = [''repo''],
     disk_file = map_of ((''repo'' # [''docs'', ''a.md''], ''![chart](../assets/c.png)'') # ([''repo'', ''assets'', ''c.png''], ''png'') #
       map (\<lambda>p. (''repo'' # p, ''<title<desc<metadata'')) QUANTITATIVE),
     parse_xml = (\<lambda>s. Some (''svg'', Some ''1400''))\<rparr>"

lemma assets_accepted_witness:
  "\<exists>rest. is_file demo_disk (asset_root demo_disk @ rest) \<and> resolve ([''repo'', ''docs''] @ path_parts ''../assets/c.png'') = asset_root demo_disk @ rest"
proof -
  have "double 1400 = Finite 1400" using double_int [of 1400] by simp
  moreover have "number_value ''1400'' = Some 1400"
    by (simp add: number_value_def decimal_value_def is_e_def run_digits_def is_digit_def dec_val_def char_digit_def)
  moreover have "split_sign (strip ''1400'') = (False, ''1400'')" by (simp add: split_sign_def strip_def py_space_def)
  ultimately have "py_float ''1400'' = Some (Finite 1400)" by (simp add: py_float_def to_lower_def Let_def)
  then have "svg_width (Some ''1400'') = Inr 1400" by (simp add: svg_width_def or_value_error_def toward_zero_def)
  moreover have "endswith ''svg'' ''svg''" "occurs ''<title'' ''<title<desc<metadata''" "occurs ''<desc'' ''<title<desc<metadata''"
    "occurs ''<metadata'' ''<title<desc<metadata''" by code_simp+
  moreover have "\<forall>p \<in> set QUANTITATIVE. disk_file demo_disk (asset_root demo_disk @ p) = Some ''<title<desc<metadata''" by code_simp
  moreover have "parse_xml demo_disk s = Some (''svg'', Some ''1400'')" for s by (simp add: demo_disk_def)
  ultimately have charts: "traverse (validate_svg demo_disk) QUANTITATIVE = Inr (map (\<lambda>p. []) QUANTITATIVE)"
    by (simp add: traverse_Inr list_all2_conv_all_nth validate_svg_def)
  have "concat (map (validate_images demo_disk) [''docs/a.md'']) = []" by code_simp
  with charts have ok: "assets_main demo_disk [''docs/a.md''] = Inr 0" by (simp add: assets_main_def)
  have root: "''..'' \<notin> set (asset_root demo_disk)" by code_simp
  have path: "butlast (markdown_path demo_disk ''docs/a.md'') = [''repo'', ''docs'']" by code_simp
  have content: "disk_file demo_disk (resolve (markdown_path demo_disk ''docs/a.md'')) = Some ''![chart](../assets/c.png)''" by code_simp
  have ref: "''../assets/c.png'' \<in> set (markdown_images ''![chart](../assets/c.png)'')" by code_simp
  from assets_accepted [OF ok root] content ref show ?thesis by (auto simp: path)
qed

end
