(* ===== verification/Packaging.thy ===== *)
theory Packaging
  imports Chart_Data Published_Assets
begin

text \<open>
  \<open>scripts/publication/package_evidence.py\<close>: the compact evidence that is published, copied from
  the summary of the runs and the raw results.  The raw results are a function from path texts below
  their root to files, and the list of the full paths the search for diagnostics walks through.
\<close>

record raw_results =
  raw_file :: "string \<Rightarrow> json on_disk"
  raw_paths :: "string list"

definition RUN_ID :: string where
  "RUN_ID = ''track-a-20260831''"

definition raw_is_file :: "raw_results \<Rightarrow> string \<Rightarrow> bool" where
  "raw_is_file raw path \<longleftrightarrow> raw_file raw path \<noteq> Missing"

text \<open>A path has to be a string.\<close>

definition path_text :: "json \<Rightarrow> string attempt" where
  "path_text v = (case v of JStr s \<Rightarrow> Inr s | _ \<Rightarrow> Inl TypeError)"

section \<open>The matrices\<close>

text \<open>The summary of the worker lies next to the matrix of the run.\<close>

definition worker_source :: "string \<Rightarrow> string" where
  "worker_source source =
     (if is_absolute source then ''/'' else []) @
     as_posix (butlast (path_parts source) @ [''python'', ''measured-1'', ''worker-summary.json''])"

definition worker_fields :: "raw_results \<Rightarrow> string \<Rightarrow> row attempt" where
  "worker_fields raw source =
     (if \<not> raw_is_file raw (worker_source source) then Inl SystemExit
      else andthen (load (raw_file raw (worker_source source))) (\<lambda>worker.
        andthen (index ''devices_evaluated'' worker) (\<lambda>d. andthen (to_int d) (\<lambda>devices.
        Inr [(''worker_devices'', JInt devices), (''worker_source'', JStr (worker_source source))]))))"

definition matrix_record :: "raw_results \<Rightarrow> json \<Rightarrow> json attempt" where
  "matrix_record raw item =
     andthen (index ''matrix_summary'' item) (\<lambda>src. andthen (path_text src) (\<lambda>source.
     if \<not> raw_is_file raw source then Inl SystemExit
     else andthen (load (raw_file raw source)) (\<lambda>matrix.
     andthen (index ''profile'' item) (\<lambda>profile. andthen (index ''workload'' item) (\<lambda>workload.
     andthen (index ''load'' item) (\<lambda>level. andthen (index ''status'' item) (\<lambda>st.
     andthen (if py_eq workload (JStr ''worker'') then worker_fields raw source else Inr []) (\<lambda>more.
     Inr (JObj ([(''profile'', profile), (''scenario'', workload), (''load_level'', level), (''status'', st),
       (''source'', JStr source), (''evidence_class'', JStr ''canonical''), (''matrix'', matrix)] @ more)))))))))) "

definition matrix_summaries :: "raw_results \<Rightarrow> json \<Rightarrow> json attempt" where
  "matrix_summaries raw summary =
     andthen (index ''workloads'' summary) (\<lambda>v. andthen (py_list v) (\<lambda>items.
     andthen (traverse (matrix_record raw) items) (\<lambda>matrices.
     Inr (JObj [(''run_id'', JStr RUN_ID), (''count'', JInt (int (length matrices))), (''matrices'', JArr matrices)]))))"

section \<open>The capacity record\<close>

definition heartbeat_path :: string where
  "heartbeat_path = ''results/'' @ RUN_ID @ ''/D3/heartbeat-level-1667/python/warmup-1''"

definition card_path :: string where
  "card_path = ''results/'' @ RUN_ID @ ''/D3/payment-card-level-1000/python/warmup-1''"

text \<open>The failures of the summary by their paths; a later one with the same path replaces the earlier.\<close>

definition failure_entry :: "json \<Rightarrow> (json \<times> json) attempt" where
  "failure_entry entry = andthen (index ''path'' entry) (\<lambda>p. if hashable p then Inr (p, entry) else Inl TypeError)"

definition by_path :: "(json \<times> json) list \<Rightarrow> string \<Rightarrow> json option" where
  "by_path entries path = fold (\<lambda>(p, entry) found. if py_eq p (JStr path) then Some entry else found) entries None"

definition ARTEFACTS :: "string list" where
  "ARTEFACTS = [''/trial.json'', ''/k6-summary.json'', ''/invariants.txt'']"

text \<open>\<open>dict(entry)\<close> with the source and the class set.\<close>

definition capacity_record :: "raw_results \<Rightarrow> string \<Rightarrow> json \<Rightarrow> json attempt" where
  "capacity_record raw path entry =
     (if \<not> list_all (\<lambda>a. raw_is_file raw (path @ a)) ARTEFACTS then Inl SystemExit
      else case entry of
        JObj kvs \<Rightarrow> Inr (JObj (AList.update ''evidence_class'' (JStr ''canonical'') (AList.update ''source'' (JStr path) kvs)))
      | _ \<Rightarrow> Inl TypeError)"

definition diagnostics_record :: "raw_results \<Rightarrow> json" where
  "diagnostics_record raw = JObj [(''diagnostic_numeric_claims_publishable'', JBool False),
     (''reason'', JStr (if list_ex (\<lambda>p. occurs ''diagnostic'' (lower p)) (raw_paths raw)
        then ''Diagnostic-labelled paths exist, but no explicitly packaged and validated numeric diagnostic record is configured.''
        else ''No retained raw diagnostic artefact is available in the repository evidence set.''))]"

definition capacity_evidence :: "raw_results \<Rightarrow> json \<Rightarrow> json attempt" where
  "capacity_evidence raw summary =
     andthen (get_default ''d3_canonical_failures'' (JArr []) summary) (\<lambda>v. andthen (py_list v) (\<lambda>failures.
     andthen (traverse failure_entry failures) (\<lambda>entries.
     case (by_path entries heartbeat_path, by_path entries card_path) of
       (Some heartbeat_entry, Some card_entry) \<Rightarrow>
         andthen (capacity_record raw heartbeat_path heartbeat_entry) (\<lambda>h. andthen (capacity_record raw card_path card_entry) (\<lambda>c.
         Inr (JObj [(''run_id'', JStr RUN_ID), (''heartbeat_python_1667'', h), (''card_python_1000'', c),
           (''diagnostics'', diagnostics_record raw)])))
     | _ \<Rightarrow> Inl SystemExit)))"

section \<open>The run\<close>

text \<open>The files written, and the fault that ends the process with exit code 1.\<close>

definition package :: "json on_disk \<Rightarrow> raw_results \<Rightarrow> (string \<times> json) list \<times> fault option" where
  "package summary_file raw =
     (case andthen (load summary_file) (\<lambda>summary. andthen (matrix_summaries raw summary) (\<lambda>m. Inr (summary, m))) of
        Inl e \<Rightarrow> ([], Some e)
      | Inr (summary, m) \<Rightarrow> (case capacity_evidence raw summary of
          Inl e \<Rightarrow> ([(''matrix-summaries.json'', m)], Some e)
        | Inr c \<Rightarrow> ([(''matrix-summaries.json'', m), (''d3-capacity.json'', c)], None)))"

section \<open>From the package to the charts\<close>

lemma package_complete:
  assumes "package summary_file raw = (files, None)"
  obtains summary m c where "summary_file = Content summary" "matrix_summaries raw summary = Inr m"
    "capacity_evidence raw summary = Inr c" "files = [(''matrix-summaries.json'', m), (''d3-capacity.json'', c)]"
proof -
  obtain summary where s: "load summary_file = Inr summary"
    using assms by (cases "load summary_file") (auto simp: package_def)
  obtain m where m: "matrix_summaries raw summary = Inr m"
    using assms s by (cases "matrix_summaries raw summary") (auto simp: package_def)
  obtain c where c: "capacity_evidence raw summary = Inr c"
    using assms s m by (cases "capacity_evidence raw summary") (auto simp: package_def)
  have "summary_file = Content summary" using s by (cases summary_file) (simp_all add: load_def)
  moreover have "files = [(''matrix-summaries.json'', m), (''d3-capacity.json'', c)]"
    using assms s m c by (simp add: package_def)
  ultimately show thesis using m c that by blast
qed

text \<open>The fields of a matrix the extraction reads.\<close>

lemma matrix_record_fields:
  assumes "matrix_record raw item = Inr r"
  obtains kvs profile workload where "r = JObj kvs" "index ''profile'' item = Inr profile" "index ''workload'' item = Inr workload"
    "map_of kvs ''profile'' = Some profile" "map_of kvs ''scenario'' = Some workload"
    "py_eq workload (JStr ''worker'') \<Longrightarrow> map_of kvs ''worker_devices'' \<noteq> None"
proof -
  obtain source matrix profile workload level st more where p: "index ''profile'' item = Inr profile" "index ''workload'' item = Inr workload"
    "(if py_eq workload (JStr ''worker'') then worker_fields raw source else Inr []) = Inr more"
    "r = JObj ([(''profile'', profile), (''scenario'', workload), (''load_level'', level), (''status'', st),
       (''source'', JStr source), (''evidence_class'', JStr ''canonical''), (''matrix'', matrix)] @ more)"
  proof -
    obtain src source where src: "index ''matrix_summary'' item = Inr src" "path_text src = Inr source"
      using assms by (auto simp: matrix_record_def andthen_Inr)
    have "raw_is_file raw source" using assms src by (simp add: matrix_record_def split: if_splits)
    then show thesis using assms src by (auto simp: matrix_record_def andthen_Inr intro: that)
  qed
  moreover have "map_of more ''worker_devices'' \<noteq> None" if "py_eq workload (JStr ''worker'')"
    using p(3) that by (auto simp: worker_fields_def andthen_Inr split: if_splits)
  ultimately show thesis by (intro that [OF p(4) p(1,2)]) simp_all
qed

lemma find_evidence_holds:
  assumes "\<forall>p item. Some (p, item) \<in> set items \<longrightarrow> Q item" "Some (p, item) \<in> set items" "py_eq p profile"
  shows "Q (find_evidence items profile)"
proof -
  let ?f = "\<lambda>i found. case i of Some (p, item) \<Rightarrow> if py_eq p profile then item else found | None \<Rightarrow> found"
  have "Q (fold ?f xs found)" if "Q found \<or> (\<exists>p item. Some (p, item) \<in> set xs \<and> py_eq p profile)"
    "\<forall>p item. Some (p, item) \<in> set xs \<longrightarrow> Q item" for xs found
    using that
  proof (induction xs arbitrary: found)
    case (Cons x xs)
    show ?case
      by (simp only: fold.simps comp_def, rule Cons.IH) (use Cons.prems in \<open>auto split: option.split prod.split\<close>)
  qed simp
  then show ?thesis unfolding find_evidence_def using assms by blast
qed

lemma traverse_total: "(\<And>x. x \<in> set xs \<Longrightarrow> f x = Inr (g x)) \<Longrightarrow> traverse f xs = Inr (map g xs)"
  by (induction xs) auto

definition is_worker :: "json \<Rightarrow> bool" where
  "is_worker w \<longleftrightarrow> is_workload ''worker'' w = Inr True"

definition string_profile :: "json \<Rightarrow> bool" where
  "string_profile w \<longleftrightarrow> (\<exists>s. index ''profile'' w = Inr (JStr s))"

lemma matrix_worker_item:
  assumes "matrix_record raw item = Inr r" "string_profile item"
  shows "\<exists>kvs s. r = JObj kvs \<and> index ''profile'' item = Inr (JStr s) \<and>
    worker_item r = Inr (if is_worker item then Some (JStr s, r) else None) \<and>
    (is_worker item \<longrightarrow> has_item ''worker_devices'' r \<and> truthy r)"
proof -
  obtain kvs profile workload where k: "r = JObj kvs" "index ''profile'' item = Inr profile" "index ''workload'' item = Inr workload"
    "map_of kvs ''profile'' = Some profile" "map_of kvs ''scenario'' = Some workload"
    "py_eq workload (JStr ''worker'') \<Longrightarrow> map_of kvs ''worker_devices'' \<noteq> None"
    by (rule matrix_record_fields [OF assms(1)]) blast
  obtain s where s: "profile = JStr s" using assms(2) k(2) by (auto simp: string_profile_def)
  have w: "is_worker item \<longleftrightarrow> py_eq workload (JStr ''worker'')" using k(3) by (simp add: is_worker_def is_workload_def)
  have "worker_item r = Inr (if is_worker item then Some (JStr s, r) else None)"
    using k s w by (simp add: worker_item_def get_def get_default_def index_def hashable_def)
  moreover have "is_worker item \<longrightarrow> has_item ''worker_devices'' r \<and> truthy r"
    using k(1,4,6) w by (auto simp: has_item_def)
  ultimately show ?thesis using k(1,2) s by blast
qed


definition demo_worker_run :: json where
  "demo_worker_run = JObj [(''profile'', JStr ''D1''), (''workload'', JStr ''worker''), (''load'', JInt 1), (''status'', JStr ''ok''),
     (''matrix_summary'', JStr ''results/worker/matrix.json'')]"

definition demo_summary :: json where
  "demo_summary = JObj [(''workloads'', JArr [demo_worker_run]),
     (''d3_canonical_failures'', JArr [JObj [(''path'', JStr heartbeat_path)], JObj [(''path'', JStr card_path)]])]"

definition demo_raw :: raw_results where
  "demo_raw = \<lparr>raw_file = (\<lambda>path. Content (JObj [(''devices_evaluated'', JInt 500)])), raw_paths = []\<rparr>"


end
