(* ===== verification/Raster.thy ===== *)
theory Raster
  imports Metrics "HOL-Library.Word"
begin

unbundle bit_operations_syntax

text \<open>
  The part of \<open>scripts/publication/render_assets.py\<close> that draws the social preview: rectangles and
  the letters of a bitmap font on a canvas of bytes, three to a pixel, and the PNG file they are
  written to.  The compression of zlib is a parameter.
\<close>

section \<open>Bytes\<close>

type_synonym byte = "8 word"

text \<open>\<open>xs[i:j] = new\<close>: bounds below zero count from the end, and an end before its start is the start.\<close>

definition clamp :: "int \<Rightarrow> int \<Rightarrow> int" where
  "clamp n i = (if i < 0 then max 0 (i + n) else min i n)"

definition assign_slice :: "int \<Rightarrow> int \<Rightarrow> 'a list \<Rightarrow> 'a list \<Rightarrow> 'a list" where
  "assign_slice i j new xs = (let n = int (length xs); a = clamp n i; b = max a (clamp n j) in
     take (nat a) xs @ new @ drop (nat b) xs)"

text \<open>\<open>_rgb\<close>: the three bytes of a colour of hexadecimal digits.\<close>

definition hex_value :: "char \<Rightarrow> nat attempt" where
  "hex_value c = (let n = of_char c :: nat in
     if 48 \<le> n \<and> n \<le> 57 then Inr (n - 48) else if 65 \<le> n \<and> n \<le> 70 then Inr (n - 55)
     else if 97 \<le> n \<and> n \<le> 102 then Inr (n - 87) else Inl ValueError)"

definition hex_byte :: "string \<Rightarrow> byte attempt" where
  "hex_byte s = (if s = [] then Inl ValueError
     else andthen (traverse hex_value s) (\<lambda>ds. Inr (of_nat (foldl (\<lambda>a d. 16 * a + d) 0 ds))))"

definition rgb :: "string \<Rightarrow> byte list attempt" where
  "rgb hex_color = (let s = dropWhile (\<lambda>c. c = CHR ''#'') hex_color in
     traverse (\<lambda>i. hex_byte (take 2 (drop i s))) [0, 2, 4])"

definition BG :: string where "BG = ''#0B1117''"
definition PANEL :: string where "PANEL = ''#111B25''"
definition GRID :: string where "GRID = ''#263443''"
definition TEXT :: string where "TEXT = ''#EAF1F7''"
definition MUTED :: string where "MUTED = ''#A8B6C3''"
definition PYTHON :: string where "PYTHON = ''#4B8BBE''"
definition PYTHON_ACCENT :: string where "PYTHON_ACCENT = ''#FFD43B''"
definition GO :: string where "GO = ''#00ADD8''"
definition DANGER :: string where "DANGER = ''#FF6B6B''"
definition GOOD :: string where "GOOD = ''#4DD4AC''"

section \<open>Drawing\<close>

record canvas_size =
  cs_width :: int
  cs_height :: int

text \<open>A box: its left and upper edge, its width and its height.\<close>

type_synonym box = "int \<times> int \<times> int \<times> int"

definition draw_rect :: "canvas_size \<Rightarrow> byte list \<Rightarrow> box \<Rightarrow> byte list \<Rightarrow> byte list" where
  "draw_rect cs color b canvas = (case b of (x, y, w, h) \<Rightarrow>
     let x0 = max 0 x; y0 = max 0 y; x1 = min (cs_width cs) (x + w); y1 = min (cs_height cs) (y + h) in
     fold (\<lambda>yy. assign_slice ((yy * cs_width cs + x0) * 3) ((yy * cs_width cs + x1) * 3)
             (concat (replicate (nat (x1 - x0)) color))) [y0..y1 - 1] canvas)"

text \<open>\<open>_FONT\<close>: seven rows of five bits for each character it knows.\<close>

definition FONT :: "(char \<times> string list) list" where
  "FONT =
    [(CHR ''A'', [''01110'', ''10001'', ''10001'', ''11111'', ''10001'', ''10001'', ''10001'']),
     (CHR ''B'', [''11110'', ''10001'', ''10001'', ''11110'', ''10001'', ''10001'', ''11110'']),
     (CHR ''C'', [''01111'', ''10000'', ''10000'', ''10000'', ''10000'', ''10000'', ''01111'']),
     (CHR ''D'', [''11110'', ''10001'', ''10001'', ''10001'', ''10001'', ''10001'', ''11110'']),
     (CHR ''E'', [''11111'', ''10000'', ''10000'', ''11110'', ''10000'', ''10000'', ''11111'']),
     (CHR ''F'', [''11111'', ''10000'', ''10000'', ''11110'', ''10000'', ''10000'', ''10000'']),
     (CHR ''G'', [''01111'', ''10000'', ''10000'', ''10111'', ''10001'', ''10001'', ''01111'']),
     (CHR ''H'', [''10001'', ''10001'', ''10001'', ''11111'', ''10001'', ''10001'', ''10001'']),
     (CHR ''I'', [''11111'', ''00100'', ''00100'', ''00100'', ''00100'', ''00100'', ''11111'']),
     (CHR ''J'', [''00111'', ''00010'', ''00010'', ''00010'', ''10010'', ''10010'', ''01100'']),
     (CHR ''K'', [''10001'', ''10010'', ''10100'', ''11000'', ''10100'', ''10010'', ''10001'']),
     (CHR ''L'', [''10000'', ''10000'', ''10000'', ''10000'', ''10000'', ''10000'', ''11111'']),
     (CHR ''M'', [''10001'', ''11011'', ''10101'', ''10101'', ''10001'', ''10001'', ''10001'']),
     (CHR ''N'', [''10001'', ''11001'', ''10101'', ''10011'', ''10001'', ''10001'', ''10001'']),
     (CHR ''O'', [''01110'', ''10001'', ''10001'', ''10001'', ''10001'', ''10001'', ''01110'']),
     (CHR ''P'', [''11110'', ''10001'', ''10001'', ''11110'', ''10000'', ''10000'', ''10000'']),
     (CHR ''Q'', [''01110'', ''10001'', ''10001'', ''10001'', ''10101'', ''10010'', ''01101'']),
     (CHR ''R'', [''11110'', ''10001'', ''10001'', ''11110'', ''10100'', ''10010'', ''10001'']),
     (CHR ''S'', [''01111'', ''10000'', ''10000'', ''01110'', ''00001'', ''00001'', ''11110'']),
     (CHR ''T'', [''11111'', ''00100'', ''00100'', ''00100'', ''00100'', ''00100'', ''00100'']),
     (CHR ''U'', [''10001'', ''10001'', ''10001'', ''10001'', ''10001'', ''10001'', ''01110'']),
     (CHR ''V'', [''10001'', ''10001'', ''10001'', ''10001'', ''10001'', ''01010'', ''00100'']),
     (CHR ''W'', [''10001'', ''10001'', ''10001'', ''10101'', ''10101'', ''11011'', ''10001'']),
     (CHR ''X'', [''10001'', ''10001'', ''01010'', ''00100'', ''01010'', ''10001'', ''10001'']),
     (CHR ''Y'', [''10001'', ''10001'', ''01010'', ''00100'', ''00100'', ''00100'', ''00100'']),
     (CHR ''Z'', [''11111'', ''00001'', ''00010'', ''00100'', ''01000'', ''10000'', ''11111'']),
     (CHR ''0'', [''01110'', ''10001'', ''10011'', ''10101'', ''11001'', ''10001'', ''01110'']),
     (CHR ''1'', [''00100'', ''01100'', ''00100'', ''00100'', ''00100'', ''00100'', ''01110'']),
     (CHR ''2'', [''01110'', ''10001'', ''00001'', ''00010'', ''00100'', ''01000'', ''11111'']),
     (CHR ''3'', [''11110'', ''00001'', ''00001'', ''01110'', ''00001'', ''00001'', ''11110'']),
     (CHR ''4'', [''00010'', ''00110'', ''01010'', ''10010'', ''11111'', ''00010'', ''00010'']),
     (CHR ''5'', [''11111'', ''10000'', ''10000'', ''11110'', ''00001'', ''00001'', ''11110'']),
     (CHR ''6'', [''01110'', ''10000'', ''10000'', ''11110'', ''10001'', ''10001'', ''01110'']),
     (CHR ''7'', [''11111'', ''00001'', ''00010'', ''00100'', ''01000'', ''01000'', ''01000'']),
     (CHR ''8'', [''01110'', ''10001'', ''10001'', ''01110'', ''10001'', ''10001'', ''01110'']),
     (CHR ''9'', [''01110'', ''10001'', ''10001'', ''01111'', ''00001'', ''00001'', ''01110'']),
     (CHR ''/'', [''00001'', ''00010'', ''00010'', ''00100'', ''01000'', ''01000'', ''10000'']),
     (CHR ''-'', [''00000'', ''00000'', ''00000'', ''11111'', ''00000'', ''00000'', ''00000'']),
     (CHR ''>'', [''10000'', ''01000'', ''00100'', ''00010'', ''00100'', ''01000'', ''10000'']),
     (CHR '','', [''00000'', ''00000'', ''00000'', ''00000'', ''00110'', ''00100'', ''01000'']),
     (CHR ''.'', [''00000'', ''00000'', ''00000'', ''00000'', ''00000'', ''00110'', ''00110'']),
     (CHR '' '', replicate 7 ''00000'')]"

text \<open>
  \<open>str.upper\<close> on the code points below 256.  The capitals of the micro sign and of y with diaeresis
  lie above them; like these, they are not in the font.
\<close>

definition upper_char :: "char \<Rightarrow> string" where
  "upper_char c = (let n = of_char c :: nat in
     if n = 223 then ''SS''
     else if 97 \<le> n \<and> n \<le> 122 \<or> 224 \<le> n \<and> n \<le> 254 \<and> n \<noteq> 247 then [char_of (n - 32)] else [c])"

definition upper :: "string \<Rightarrow> string" where
  "upper s = concat (map upper_char s)"

definition glyph :: "char \<Rightarrow> string list" where
  "glyph c = (case map_of FONT c of Some g \<Rightarrow> g | None \<Rightarrow> replicate 7 ''00000'')"

definition draw_row :: "canvas_size \<Rightarrow> byte list \<Rightarrow> int \<Rightarrow> int \<Rightarrow> int \<Rightarrow> string \<Rightarrow> byte list \<Rightarrow> byte list" where
  "draw_row cs color scale x y row = fold (\<lambda>(gx, bit).
     if bit = CHR ''1'' then draw_rect cs color (x + int gx * scale, y, scale, scale) else id) (enumerate 0 row)"

definition draw_glyph :: "canvas_size \<Rightarrow> byte list \<Rightarrow> int \<Rightarrow> int \<Rightarrow> int \<Rightarrow> string list \<Rightarrow> byte list \<Rightarrow> byte list" where
  "draw_glyph cs color scale x y rows = fold (\<lambda>(gy, row). draw_row cs color scale x (y + int gy * scale) row) (enumerate 0 rows)"

definition draw_text :: "canvas_size \<Rightarrow> byte list \<Rightarrow> int \<Rightarrow> int \<Rightarrow> int \<Rightarrow> string \<Rightarrow> byte list \<Rightarrow> byte list" where
  "draw_text cs color scale x y s canvas = snd (fold (\<lambda>c (cursor, cv).
     (cursor + 6 * scale, draw_glyph cs color scale cursor y (glyph c) cv)) (upper s) (x, canvas))"

section \<open>The file\<close>

definition crc_step :: "32 word \<Rightarrow> 32 word" where
  "crc_step c = (if bit c 0 then drop_bit 1 c XOR 0xEDB88320 else drop_bit 1 c)"

definition crc_byte :: "byte \<Rightarrow> 32 word \<Rightarrow> 32 word" where
  "crc_byte b c = (crc_step ^^ 8) (c XOR ucast b)"

text \<open>\<open>zlib.crc32\<close>.\<close>

definition crc32 :: "byte list \<Rightarrow> 32 word" where
  "crc32 bs = NOT (fold crc_byte bs 0xFFFFFFFF)"

text \<open>\<open>struct.pack(">I", n)\<close>.\<close>

definition pack_u32 :: "nat \<Rightarrow> byte list attempt" where
  "pack_u32 n = (if n < 2 ^ 32
     then Inr (map (\<lambda>i. of_nat (n div 256 ^ i)) [3, 2, 1, 0]) else Inl StructError)"

definition ascii_bytes :: "string \<Rightarrow> byte list" where
  "ascii_bytes = map (\<lambda>c. of_nat (of_char c))"

definition png_chunk :: "byte list \<Rightarrow> byte list \<Rightarrow> byte list attempt" where
  "png_chunk kind content =
     andthen (pack_u32 (length content)) (\<lambda>l. andthen (pack_u32 (unat (crc32 (kind @ content)))) (\<lambda>crc.
     Inr (l @ kind @ content @ crc)))"

definition SIGNATURE :: "byte list" where
  "SIGNATURE = [137, 80, 78, 71, 13, 10, 26, 10]"

text \<open>The scan lines, each after a zero for the filter that leaves it as it is.\<close>

definition scan_lines :: "nat \<Rightarrow> nat \<Rightarrow> byte list \<Rightarrow> byte list" where
  "scan_lines row_bytes height canvas = concat (map (\<lambda>y. 0 # take row_bytes (drop (y * row_bytes) canvas)) [0..<height])"

definition png_file :: "(byte list \<Rightarrow> byte list) \<Rightarrow> nat \<Rightarrow> nat \<Rightarrow> byte list \<Rightarrow> byte list attempt" where
  "png_file deflate width height canvas =
     andthen (pack_u32 width) (\<lambda>w. andthen (pack_u32 height) (\<lambda>h.
     andthen (png_chunk (ascii_bytes ''IHDR'') (w @ h @ [8, 2, 0, 0, 0])) (\<lambda>ihdr.
     andthen (png_chunk (ascii_bytes ''IDAT'') (deflate (scan_lines (width * 3) height canvas))) (\<lambda>idat.
     andthen (png_chunk (ascii_bytes ''IEND'') []) (\<lambda>iend.
     Inr (SIGNATURE @ ihdr @ idat @ iend))))))"

section \<open>The preview\<close>

definition PREVIEW :: canvas_size where
  "PREVIEW = \<lparr>cs_width = 1280, cs_height = 640\<rparr>"

definition PREVIEW_RECTS :: "(box \<times> string) list" where
  "PREVIEW_RECTS = [((0, 0, 1280, 12), GO), ((56, 68, 270, 8), PYTHON), ((326, 68, 150, 8), GO), ((720, 95, 500, 450), PANEL)]"

definition PREVIEW_TEXTS :: "((int \<times> int \<times> string \<times> int) \<times> string) list" where
  "PREVIEW_TEXTS =
     [((60, 125, ''PYTHON / FASTAPI'', 6), PYTHON), ((60, 205, ''VS GO'', 9), GO), ((60, 330, ''POS BACKEND'', 8), TEXT),
      ((60, 410, ''BENCHMARK'', 8), TEXT), ((760, 155, ''500 > 50,000'', 7), TEXT), ((760, 235, ''DEVICES'', 7), MUTED),
      ((760, 345, ''SAME DB'', 5), GOOD), ((760, 395, ''SAME DATA'', 5), GOOD), ((760, 445, ''CORRECTNESS'', 5), GOOD),
      ((60, 560, ''PRODUCTION-INSPIRED TRACK A'', 4), PYTHON_ACCENT)]"

definition in_color :: "'a \<times> string \<Rightarrow> ('a \<times> byte list) attempt" where
  "in_color p = andthen (rgb (snd p)) (\<lambda>color. Inr (fst p, color))"

definition preview_canvas :: "byte list attempt" where
  "preview_canvas =
     andthen (rgb BG) (\<lambda>bg.
     andthen (traverse in_color PREVIEW_RECTS) (\<lambda>rects. andthen (traverse in_color PREVIEW_TEXTS) (\<lambda>texts.
     Inr (fold (\<lambda>((x, y, s, scale), color). draw_text PREVIEW color scale x y s) texts
       (fold (\<lambda>(b, color). draw_rect PREVIEW color b) rects
         (concat (replicate (nat (cs_width PREVIEW * cs_height PREVIEW)) bg)))))))"

definition render_social_preview :: "(byte list \<Rightarrow> byte list) \<Rightarrow> byte list attempt" where
  "render_social_preview deflate = andthen preview_canvas (\<lambda>canvas.
     png_file deflate (nat (cs_width PREVIEW)) (nat (cs_height PREVIEW)) canvas)"

end
