(* ===== verification/Charts.thy ===== *)
theory Charts
  imports Packaging Raster
begin

text \<open>
  The part of \<open>scripts/publication/render_assets.py\<close> that draws the four charts of the published
  tables as SVG documents.  A coordinate is a Python float, or an integer as the float of its value;
  the rows of a table are dicts as \<open>csv.DictReader\<close> delivers them.
\<close>

section \<open>Numbers\<close>

definition num :: "int \<Rightarrow> pyfloat" where
  "num i = Finite (of_int i)"

fun f_mul :: "pyfloat \<Rightarrow> pyfloat \<Rightarrow> pyfloat" where
  "f_mul (Finite a) (Finite b) = double (a * b)"
| "f_mul NotANumber y = NotANumber"
| "f_mul x NotANumber = NotANumber"
| "f_mul (Finite a) y = (if a = 0 then NotANumber else if 0 < a then y else f_neg y)"
| "f_mul x (Finite b) = (if b = 0 then NotANumber else if 0 < b then x else f_neg x)"
| "f_mul x y = infinite (x = y)"

text \<open>\<open>min(a, b)\<close> keeps the first argument unless the second is less; \<open>max\<close> of a generator.\<close>

definition f_min :: "pyfloat \<Rightarrow> pyfloat \<Rightarrow> pyfloat" where
  "f_min x y = (if f_less y x then y else x)"

definition max_of :: "pyfloat list \<Rightarrow> pyfloat attempt" where
  "max_of xs = (case xs of [] \<Rightarrow> Inl ValueError | x # ys \<Rightarrow> Inr (foldl f_max x ys))"

definition py_div :: "pyfloat \<Rightarrow> pyfloat \<Rightarrow> pyfloat attempt" where
  "py_div x y = (if y = Finite 0 then Inl ZeroDivisionError else Inr (f_div x y))"

text \<open>The formats \<open>.nf\<close> and \<open>,.nf\<close>, and \<open>,\<close> of an integer.\<close>

function group_digits :: "string \<Rightarrow> string" where
  "group_digits s = (if length s \<le> 3 then s
     else group_digits (take (length s - 3) s) @ '','' @ drop (length s - 3) s)"
  by pat_completeness auto
termination by (relation "measure length") auto

declare group_digits.simps [simp del]

definition decimals :: "nat \<Rightarrow> nat \<Rightarrow> string" where
  "decimals d n = (if d = 0 then [] else ''.'' @ zpad d (nat_dec (n mod 10 ^ d)))"

fun fixed_with :: "(string \<Rightarrow> string) \<Rightarrow> nat \<Rightarrow> pyfloat \<Rightarrow> string" where
  "fixed_with g d (Finite x) = (let n = nat (half_even (\<bar>x\<bar> * 10 ^ d)) in
     (if x < 0 then ''-'' else []) @ g (nat_dec (n div 10 ^ d)) @ decimals d n)"
| "fixed_with g d PosInf = ''inf''"
| "fixed_with g d NegInf = ''-inf''"
| "fixed_with g d NotANumber = ''nan''"

definition fixed :: "nat \<Rightarrow> pyfloat \<Rightarrow> string" where
  "fixed = fixed_with id"

definition grouped :: "nat \<Rightarrow> pyfloat \<Rightarrow> string" where
  "grouped = fixed_with group_digits"

definition grouped_int :: "int \<Rightarrow> string" where
  "grouped_int i = (if i < 0 then ''-'' else []) @ group_digits (nat_dec (nat \<bar>i\<bar>))"

definition fmt_ms :: "pyfloat \<Rightarrow> string" where
  "fmt_ms v = (if f_le (num 1000) v then fixed 2 (f_div v (num 1000)) @ ''s'' else fixed 0 v @ ''ms'')"

section \<open>Cells of a table\<close>

definition csv_text :: "csv_row \<Rightarrow> string \<Rightarrow> string attempt" where
  "csv_text row k = (case map_of row k of None \<Rightarrow> Inl KeyError | Some None \<Rightarrow> Inr ''None'' | Some (Some s) \<Rightarrow> Inr s)"

definition csv_number :: "csv_row \<Rightarrow> string \<Rightarrow> pyfloat attempt" where
  "csv_number row k = (case map_of row k of
     None \<Rightarrow> Inl KeyError | Some None \<Rightarrow> Inl TypeError | Some (Some s) \<Rightarrow> or_value_error (py_float s))"

definition csv_int :: "csv_row \<Rightarrow> string \<Rightarrow> int attempt" where
  "csv_int row k = (case map_of row k of
     None \<Rightarrow> Inl KeyError | Some None \<Rightarrow> Inl TypeError | Some (Some s) \<Rightarrow> or_value_error (py_int s))"

definition csv_rows :: "csv_row list on_disk \<Rightarrow> csv_row list attempt" where
  "csv_rows f = (case f of Missing \<Rightarrow> Inl OSError | Undecodable \<Rightarrow> Inl ValueError | Content rows \<Rightarrow> Inr rows)"

definition column_max :: "string \<Rightarrow> string \<Rightarrow> csv_row list \<Rightarrow> pyfloat attempt" where
  "column_max k factor rows = andthen (traverse (\<lambda>r. csv_number r k) rows) (\<lambda>xs. andthen (max_of xs) (\<lambda>m.
     andthen (or_value_error (py_float factor)) (\<lambda>f. Inr (f_mul m f))))"

section \<open>Elements\<close>

text \<open>\<open>html.escape(text, quote=True)\<close>.\<close>

definition escape_char :: "char \<Rightarrow> string" where
  "escape_char c = (if c = CHR ''&'' then ''&amp;'' else if c = CHR ''<'' then ''&lt;'' else if c = CHR ''>'' then ''&gt;''
     else if c = quote then ''&quot;'' else if c = CHR 0x27 then ''&#x27;'' else [c])"

definition escape :: "string \<Rightarrow> string" where
  "escape s = concat (map escape_char s)"

type_synonym attribute = "string \<times> string"

definition attribute_text :: "attribute \<Rightarrow> string" where
  "attribute_text a = '' '' @ fst a @ ''='' @ [quote] @ snd a @ [quote]"

definition open_tag :: "string \<Rightarrow> attribute list \<Rightarrow> string" where
  "open_tag name as = ''<'' @ name @ concat (map attribute_text as)"

definition element :: "string \<Rightarrow> attribute list \<Rightarrow> string \<Rightarrow> string" where
  "element name as content = open_tag name as @ ''>'' @ content @ ''</'' @ name @ ''>''"

definition empty_element :: "string \<Rightarrow> attribute list \<Rightarrow> string" where
  "empty_element name as = open_tag name as @ ''/>''"

definition FONT_FAMILY :: string where
  "FONT_FAMILY = ''Arial,Helvetica,sans-serif''"

definition svg_start :: "string \<Rightarrow> string \<Rightarrow> string" where
  "svg_start width height = open_tag ''svg'' [(''xmlns'', ''http://www.w3.org/2000/svg''), (''width'', width), (''height'', height),
     (''viewBox'', ''0 0 '' @ width @ '' '' @ height)] @ ''>''"

definition svg_open :: "string \<Rightarrow> string \<Rightarrow> string \<Rightarrow> string \<Rightarrow> string \<Rightarrow> string list" where
  "svg_open title desc source width height =
     [svg_start width height,
      element ''title'' [] (escape title), element ''desc'' [] (escape desc), element ''metadata'' [] (''source_csv='' @ escape source),
      empty_element ''rect'' [(''width'', width), (''height'', height), (''fill'', BG)],
      element ''text'' [(''x'', ''70''), (''y'', ''72''), (''fill'', TEXT), (''font-family'', FONT_FAMILY), (''font-size'', ''34''),
        (''font-weight'', ''700'')] (escape title),
      element ''text'' [(''x'', ''70''), (''y'', ''108''), (''fill'', MUTED), (''font-family'', FONT_FAMILY), (''font-size'', ''18'')] (escape desc)]"

definition svg_text :: "pyfloat \<Rightarrow> pyfloat \<Rightarrow> string \<Rightarrow> string \<Rightarrow> string \<Rightarrow> string \<Rightarrow> string \<Rightarrow> string" where
  "svg_text x y content font_size fill weight anchor =
     element ''text'' [(''x'', fixed 1 x), (''y'', fixed 1 y), (''fill'', fill), (''text-anchor'', anchor), (''font-family'', FONT_FAMILY),
       (''font-size'', font_size), (''font-weight'', weight)] (escape content)"

definition svg_rect :: "pyfloat \<Rightarrow> pyfloat \<Rightarrow> pyfloat \<Rightarrow> pyfloat \<Rightarrow> string \<Rightarrow> string \<Rightarrow> string" where
  "svg_rect x y w h fill rx =
     empty_element ''rect'' [(''x'', fixed 1 x), (''y'', fixed 1 y), (''width'', fixed 1 (f_max w (num 0))), (''height'', fixed 1 h),
       (''rx'', rx), (''fill'', fill)]"

definition svg_line :: "pyfloat \<Rightarrow> pyfloat \<Rightarrow> pyfloat \<Rightarrow> pyfloat \<Rightarrow> string \<Rightarrow> string \<Rightarrow> string option \<Rightarrow> string" where
  "svg_line x1 y1 x2 y2 stroke width dash =
     empty_element ''line'' ([(''x1'', fixed 1 x1), (''y1'', fixed 1 y1), (''x2'', fixed 1 x2), (''y2'', fixed 1 y2), (''stroke'', stroke),
       (''stroke-width'', width)] @ (case dash of None \<Rightarrow> [] | Some d \<Rightarrow> [(''stroke-dasharray'', d)]))"

text \<open>\<open>save_svg\<close>: the parts and the closing tag, each on its line.\<close>

definition svg_document :: "string list \<Rightarrow> string" where
  "svg_document parts = concat (map (\<lambda>p. p @ [LF]) (parts @ [''</svg>'']))"

section \<open>The charts\<close>

definition times_char :: string where "times_char = [char_of (215 :: nat)]"
definition middle_dot :: string where "middle_dot = '' '' @ [char_of (183 :: nat)] @ '' ''"

text \<open>The grid: five lines from \<open>y1\<close> to \<open>y2\<close> and their labels at \<open>y3\<close>.\<close>

definition grid :: "pyfloat \<Rightarrow> int \<Rightarrow> int \<Rightarrow> int \<Rightarrow> string list" where
  "grid max_v y1 y2 y3 = concat (map (\<lambda>tick.
     let x = f_add (num 330) (f_div (num (930 * tick)) (num 4)); v = f_div (f_mul max_v (num tick)) (num 4) in
     [svg_line x (num y1) x (num y2) GRID ''1'' None, svg_text x (num y3) (fmt_ms v) ''14'' MUTED ''400'' ''middle'']) [0, 1, 2, 3, 4])"

text \<open>\<open>chart_w * value / max_v\<close>.\<close>

definition bar_width :: "int \<Rightarrow> pyfloat \<Rightarrow> pyfloat \<Rightarrow> pyfloat attempt" where
  "bar_width chart_w v max_v = py_div (f_mul (num chart_w) v) max_v"

definition run_label :: "csv_row \<Rightarrow> string attempt" where
  "run_label r = andthen (csv_text r ''profile'') (\<lambda>p. andthen (csv_text r ''load_level'') (\<lambda>l. Inr (p @ '' @ '' @ l)))"

definition card_row :: "pyfloat \<Rightarrow> int \<times> csv_row \<Rightarrow> string list attempt" where
  "card_row max_v ir = (case ir of (i, r) \<Rightarrow> let y = 165 + i * 125 in
     andthen (run_label r) (\<lambda>label.
     andthen (csv_number r ''python_p95_ms'') (\<lambda>py. andthen (csv_number r ''go_p95_ms'') (\<lambda>go.
     andthen (bar_width 930 py max_v) (\<lambda>py_w. andthen (bar_width 930 go max_v) (\<lambda>go_w.
     andthen (py_div py go) (\<lambda>ratio.
     Inr [svg_text (num 70) (num (y + 30)) label ''18'' TEXT ''700'' ''start'',
          svg_rect (num 330) (num y) py_w (num 30) PYTHON ''6'',
          svg_rect (num 330) (num (y + 42)) (f_max go_w (num 4)) (num 30) GO ''6'',
          svg_text (f_min (f_add (f_add (num 330) py_w) (num 12)) (num 1325)) (num (y + 22)) (''Python '' @ fmt_ms py) ''15'' TEXT ''400'' ''start'',
          svg_text (f_min (f_add (f_add (num 330) go_w) (num 12)) (num 1325)) (num (y + 64)) (''Go '' @ fmt_ms go) ''15'' TEXT ''400'' ''start'',
          svg_text (num 1285) (num (y + 43)) (fixed 1 ratio @ times_char @ '' lower p95'') ''14'' PYTHON_ACCENT ''700'' ''end'']))))))) "

definition numbered :: "csv_row list \<Rightarrow> (int \<times> csv_row) list" where
  "numbered rows = map (\<lambda>(i, r). (int i, r)) (enumerate 0 rows)"

definition render_card :: "csv_row list on_disk \<Rightarrow> string attempt" where
  "render_card f =
     andthen (csv_rows f) (\<lambda>rows. andthen (column_max ''python_p95_ms'' ''1.03'' rows) (\<lambda>max_v.
     andthen (traverse (card_row max_v) (numbered rows)) (\<lambda>bars.
     Inr (svg_document (svg_open ''CARD payment p95 latency''
         ''Same database and resource limits; lower is better. Exact medians are labelled.''
         ''assets/data/card-p95.csv'' ''1400'' ''780'' @
       grid max_v 145 690 720 @ concat bars)))))"

definition dashboard_row :: "pyfloat \<Rightarrow> int \<times> csv_row \<Rightarrow> string list attempt" where
  "dashboard_row max_v ir = (case ir of (i, r) \<Rightarrow> let y = 155 + i * 112 in
     andthen (csv_number r ''python_p95_ms'') (\<lambda>py. andthen (csv_number r ''go_p95_ms'') (\<lambda>go.
     andthen (run_label r) (\<lambda>label.
     andthen (bar_width 930 py max_v) (\<lambda>py_w. andthen (bar_width 930 go max_v) (\<lambda>go_w.
     andthen (py_div py go) (\<lambda>ratio.
     Inr [svg_text (num 70) (num (y + 31)) label ''18'' TEXT ''700'' ''start'',
          svg_rect (num 330) (num y) py_w (num 28) PYTHON ''6'',
          svg_rect (num 330) (num (y + 39)) (f_max go_w (num 4)) (num 28) GO ''6'',
          svg_text (f_min (f_add (f_add (num 330) py_w) (num 10)) (num 1320)) (num (y + 21)) (''Python '' @ fmt_ms py) ''14'' TEXT ''400'' ''start'',
          svg_text (f_min (f_add (f_add (num 330) go_w) (num 10)) (num 1320)) (num (y + 60)) (''Go '' @ fmt_ms go) ''14'' TEXT ''400'' ''start'',
          svg_text (num 1285) (num (y + 42)) (fixed 1 ratio @ times_char) ''14'' PYTHON_ACCENT ''700'' ''end'']))))))) "

definition render_dashboard :: "csv_row list on_disk \<Rightarrow> string attempt" where
  "render_dashboard f =
     andthen (csv_rows f) (\<lambda>rows. andthen (column_max ''python_p95_ms'' ''1.05'' rows) (\<lambda>max_v.
     andthen (traverse (dashboard_row max_v) (numbered rows)) (\<lambda>bars.
     Inr (svg_document (svg_open ''Dashboard p95 latency across scale''
         ''Go keeps a material latency advantage as the synthetic dataset grows. Lower is better.''
         ''assets/data/dashboard-p95.csv'' ''1400'' ''850'' @
       grid max_v 145 760 795 @ concat bars)))))"

definition duration_row :: "pyfloat \<Rightarrow> int \<times> csv_row \<Rightarrow> string list attempt" where
  "duration_row dur_max ir = (case ir of (i, r) \<Rightarrow> let y = 210 + i * 72 in
     andthen (csv_number r ''python_duration_ms'') (\<lambda>py. andthen (csv_number r ''go_duration_ms'') (\<lambda>go.
     andthen (csv_text r ''profile'') (\<lambda>profile. andthen (csv_int r ''devices'') (\<lambda>devices.
     andthen (bar_width 930 py dur_max) (\<lambda>py_w. andthen (bar_width 930 go dur_max) (\<lambda>go_w.
     Inr [svg_text (num 82) (num (y + 28)) (profile @ middle_dot @ grouped_int devices @ '' devices'') ''16'' MUTED ''700'' ''start'',
          svg_rect (num 300) (num y) py_w (num 24) PYTHON ''6'',
          svg_rect (num 300) (num (y + 30)) (f_max go_w (num 4)) (num 24) GO ''6'',
          svg_text (num 1245) (num (y + 18)) (fmt_ms py @ '' / '' @ fmt_ms go) ''14'' TEXT ''400'' ''end'']))))))) "

definition rate_row :: "pyfloat \<Rightarrow> int \<times> csv_row \<Rightarrow> string list attempt" where
  "rate_row rate_max ir = (case ir of (i, r) \<Rightarrow> let y = 550 + i * 76 in
     andthen (csv_number r ''python_devices_per_sec'') (\<lambda>py. andthen (csv_number r ''go_devices_per_sec'') (\<lambda>go.
     andthen (csv_text r ''profile'') (\<lambda>profile.
     andthen (bar_width 930 py rate_max) (\<lambda>py_w. andthen (bar_width 930 go rate_max) (\<lambda>go_w.
     Inr [svg_text (num 82) (num (y + 30)) profile ''16'' MUTED ''700'' ''start'',
          svg_rect (num 300) (num y) py_w (num 25) PYTHON ''6'',
          svg_rect (num 300) (num (y + 32)) go_w (num 25) GO ''6'',
          svg_text (num 1245) (num (y + 19)) (''Python '' @ grouped 0 py @ ''/s'') ''14'' TEXT ''400'' ''end'',
          svg_text (num 1245) (num (y + 51)) (''Go '' @ grouped 0 go @ ''/s'') ''14'' TEXT ''400'' ''end'']))))))"

definition worker_head :: "string list" where
  "worker_head = svg_open ''Worker: duration and device throughput''
       ''D3 evaluates 50,000 devices. Both runtimes miss the <5s target even though Go is faster.''
       ''assets/data/worker.csv'' ''1400'' ''900'' @
     [svg_rect (num 55) (num 140) (num 1290) (num 310) PANEL ''12'', svg_rect (num 55) (num 480) (num 1290) (num 330) PANEL ''12'',
      svg_text (num 80) (num 180) ''Median worker duration'' ''22'' TEXT ''700'' ''start'',
      svg_text (num 80) (num 520) ''Devices evaluated per second'' ''22'' TEXT ''700'' ''start'']"

text \<open>The line at five seconds, and its label.\<close>

definition target_line :: "pyfloat \<Rightarrow> string list attempt" where
  "target_line dur_max = andthen (py_div (num (930 * 5000)) dur_max) (\<lambda>w. let x = f_add (num 300) w in
     Inr [svg_line x (num 195) x (num 438) DANGER ''2'' (Some ''6 6''),
          svg_text (f_add x (num 8)) (num 205) ''5s target'' ''13'' DANGER ''700'' ''start''])"

definition render_worker :: "csv_row list on_disk \<Rightarrow> string attempt" where
  "render_worker f =
     andthen (csv_rows f) (\<lambda>rows.
     andthen (column_max ''python_duration_ms'' ''1.05'' rows) (\<lambda>dur_max.
     andthen (column_max ''go_devices_per_sec'' ''1.05'' rows) (\<lambda>rate_max.
     andthen (traverse (duration_row dur_max) (numbered rows)) (\<lambda>durations.
     andthen (target_line dur_max) (\<lambda>target.
     andthen (traverse (rate_row rate_max) (numbered rows)) (\<lambda>rates.
     Inr (svg_document (worker_head @ concat durations @ target @ concat rates @
       [svg_text (num 80) (num 850) (''Blue = Python/FastAPI'' @ middle_dot @ ''Cyan = Go'') ''14'' MUTED ''400'' ''start''])))))))) "

definition capacity_row :: "pyfloat \<Rightarrow> int \<times> csv_row \<Rightarrow> string list attempt" where
  "capacity_row max_p95 ir = (case ir of (i, r) \<Rightarrow> let y = 205 + i * 210 in
     andthen (csv_number r ''p95_ms'') (\<lambda>p95. andthen (csv_number r ''throughput'') (\<lambda>throughput.
     andthen (csv_number r ''load_level'') (\<lambda>target. andthen (csv_number r ''error_rate'') (\<lambda>rate.
     andthen (csv_text r ''workload'') (\<lambda>workload. andthen (int_of_float target) (\<lambda>level.
     andthen (bar_width 850 p95 max_p95) (\<lambda>w. andthen (py_div throughput target) (\<lambda>share.
     andthen (csv_number r ''dropped'') (\<lambda>lost. andthen (int_of_float lost) (\<lambda>dropped.
     let label = (if workload = ''heartbeat'' then ''Heartbeat'' else ''CARD payment'') in
     Inr [svg_text (num 85) (num (y + 26)) (label @ '' @ '' @ grouped_int level) ''21'' TEXT ''700'' ''start'',
          svg_text (num 85) (num (y + 54)) ''Python canonical warmup'' ''14'' MUTED ''400'' ''start'',
          svg_rect (num 350) (num y) w (num 34) PYTHON ''6'',
          svg_text (num 362) (num (y + 24)) (''p95 '' @ fmt_ms p95) ''15'' TEXT ''700'' ''start'',
          svg_text (num 350) (num (y + 76)) (''Achieved throughput: '' @ grouped 1 throughput @ ''/s of '' @ grouped 0 target @
            ''/s target ('' @ fixed 1 (f_mul share (num 100)) @ ''%)'') ''16'' TEXT ''400'' ''start'',
          svg_text (num 350) (num (y + 108)) (''HTTP error rate: '' @ fixed 1 (f_mul rate (num 100)) @ ''%'' @ middle_dot @ ''dropped: '' @
            grouped_int dropped) ''16'' DANGER ''400'' ''start'',
          svg_text (num 350) (num (y + 140)) (''Correctness invariants: PASS'' @ middle_dot @ ''stop-escalation applied'') ''15'' GOOD ''700'' ''start''
         ])))))))))))"

definition render_d3_capacity :: "csv_row list on_disk \<Rightarrow> string attempt" where
  "render_d3_capacity f =
     andthen (csv_rows f) (\<lambda>rows. andthen (column_max ''p95_ms'' ''1.05'' rows) (\<lambda>max_p95.
     andthen (traverse (capacity_row max_p95) (numbered rows)) (\<lambda>bars.
     Inr (svg_document (svg_open ''D3 canonical capacity failures''
         ''Only retained canonical evidence is shown; diagnostic numbers are excluded from the public chart.''
         ''assets/data/d3-capacity.csv'' ''1400'' ''760'' @
       [svg_rect (num 55) (num 145) (num 1290) (num 520) PANEL ''12''] @ concat bars)))))"

text \<open>The charts are written one after the other; a fault ends the process and keeps those written before.\<close>

fun write_charts :: "(string \<times> string attempt) list \<Rightarrow> (string \<times> string) list \<times> fault option" where
  "write_charts [] = ([], None)"
| "write_charts ((name, Inl e) # cs) = ([], Some e)"
| "write_charts ((name, Inr doc) # cs) = (case write_charts cs of (written, e) \<Rightarrow> ((name, doc) # written, e))"

definition render_quantitative :: "(string \<Rightarrow> csv_row list on_disk) \<Rightarrow> (string \<times> string) list \<times> fault option" where
  "render_quantitative tables = write_charts
     [(''card-p95.svg'', render_card (tables ''card-p95.csv'')), (''dashboard-p95.svg'', render_dashboard (tables ''dashboard-p95.csv'')),
      (''worker.svg'', render_worker (tables ''worker.csv'')), (''d3-capacity.svg'', render_d3_capacity (tables ''d3-capacity.csv''))]"

end
