(* ===== verification/Chart_Properties.thy ===== *)
theory Chart_Properties
  imports Charts
begin

text \<open>
  A recogniser of well-formed XML, strict enough that every parser accepts what it accepts, and the
  proof that every chart passes it whatever the tables hold; so the check of the published assets
  accepts the charts the renderer writes.
\<close>

section \<open>Well-formed XML\<close>

definition name_char :: "char \<Rightarrow> bool" where
  "name_char c \<longleftrightarrow> is_letter c \<or> is_digit c \<or> c = CHR ''-''"

definition xml_char :: "char \<Rightarrow> bool" where
  "xml_char c \<longleftrightarrow> (let n = of_char c :: nat in 32 \<le> n \<or> n = 9 \<or> n = 10 \<or> n = 13)"

definition xml_space :: "char \<Rightarrow> bool" where
  "xml_space c \<longleftrightarrow> c = CHR '' '' \<or> c = LF"

definition REFERENCES :: "string list" where
  "REFERENCES = [''amp'', ''lt'', ''gt'', ''quot'', ''#x27'']"

text \<open>
  Where a character is: before the root, in the content of an element, in a reference, after a
  less-than sign, in the name of a tag, between attributes, in the name of an attribute, after its
  equals sign, in its value, after it, before the end of an empty element, in a closing tag, or
  after the root.  Names are read in reverse; a tag remembers the attributes it has had.
\<close>

datatype xml_mode = Prolog | Body | Ref string | Less | Name string | Gap string "string list" | Key string "string list" string
  | Equals string "string list" | Quoted string "string list" | Unquoted string "string list" | Slash string | Closing string | Epilog

type_synonym xml_state = "xml_mode \<times> string list"

definition enter :: "string \<Rightarrow> string list \<Rightarrow> xml_state option" where
  "enter n st = Some (Body, rev n # st)"

definition leave :: "string list \<Rightarrow> xml_state option" where
  "leave st = Some (if st = [] then Epilog else Body, st)"

text \<open>What may follow the name of a tag or the value of an attribute.\<close>

definition after_part :: "string \<Rightarrow> string list \<Rightarrow> string list \<Rightarrow> char \<Rightarrow> xml_state option" where
  "after_part n ks st c =
     (if c = CHR '' '' then Some (Gap n ks, st) else if c = CHR ''>'' then enter n st else if c = CHR ''/'' then Some (Slash n, st) else None)"

fun xml_step :: "xml_state \<Rightarrow> char \<Rightarrow> xml_state option" where
  "xml_step (Prolog, st) c = (if c = CHR ''<'' then Some (Less, st) else if xml_space c then Some (Prolog, st) else None)"
| "xml_step (Body, st) c = (if c = CHR ''<'' then Some (Less, st) else if c = CHR ''&'' then Some (Ref [], st)
     else if c \<noteq> CHR ''>'' \<and> xml_char c then Some (Body, st) else None)"
| "xml_step (Ref w, st) c = (if c = CHR '';'' then (if rev w \<in> set REFERENCES then Some (Body, st) else None) else Some (Ref (c # w), st))"
| "xml_step (Less, st) c = (if is_letter c then Some (Name [c], st) else if c = CHR ''/'' \<and> st \<noteq> [] then Some (Closing [], st) else None)"
| "xml_step (Name n, st) c = (if name_char c then Some (Name (c # n), st) else after_part n [] st c)"
| "xml_step (Gap n ks, st) c = (if is_letter c then Some (Key n ks [c], st) else None)"
| "xml_step (Key n ks w, st) c = (if name_char c then Some (Key n ks (c # w), st)
     else if c = CHR ''='' \<and> rev w \<notin> set ks \<and> (rev w = ''xmlns'' \<longrightarrow> st = []) then Some (Equals n (rev w # ks), st) else None)"
| "xml_step (Equals n ks, st) c = (if c = quote then Some (Quoted n ks, st) else None)"
| "xml_step (Quoted n ks, st) c = (if c = quote then Some (Unquoted n ks, st)
     else if c \<noteq> CHR ''<'' \<and> c \<noteq> CHR ''&'' \<and> xml_char c then Some (Quoted n ks, st) else None)"
| "xml_step (Unquoted n ks, st) c = after_part n ks st c"
| "xml_step (Slash n, st) c = (if c = CHR ''>'' then leave st else None)"
| "xml_step (Closing w, st) c = (if name_char c then Some (Closing (c # w), st)
     else if c = CHR ''>'' \<and> take 1 st = [rev w] then leave (tl st) else None)"
| "xml_step (Epilog, st) c = (if xml_space c then Some (Epilog, st) else None)"

fun xml_run :: "xml_state \<Rightarrow> string \<Rightarrow> xml_state option" where
  "xml_run s [] = Some s"
| "xml_run s (c # cs) = Option.bind (xml_step s c) (\<lambda>s'. xml_run s' cs)"

definition xml_ok :: "string \<Rightarrow> bool" where
  "xml_ok doc \<longleftrightarrow> xml_run (Prolog, []) doc = Some (Epilog, [])"

lemma xml_run_append: "xml_run s (a @ b) = Option.bind (xml_run s a) (\<lambda>s'. xml_run s' b)"
proof (induction a arbitrary: s)
  case (Cons c a)
  then show ?case by (cases "xml_step s c") simp_all
qed simp

section \<open>Elements\<close>

definition name_ok :: "string \<Rightarrow> bool" where
  "name_ok n \<longleftrightarrow> (case n of [] \<Rightarrow> False | c # cs \<Rightarrow> is_letter c \<and> list_all name_char cs)"

definition value_char :: "char \<Rightarrow> bool" where
  "value_char c \<longleftrightarrow> xml_char c \<and> c \<noteq> quote \<and> c \<noteq> CHR ''<'' \<and> c \<noteq> CHR ''&''"

definition value_ok :: "string \<Rightarrow> bool" where
  "value_ok v \<longleftrightarrow> list_all value_char v"

definition attributes_ok :: "attribute list \<Rightarrow> bool" where
  "attributes_ok as \<longleftrightarrow> distinct (map fst as) \<and> list_all (\<lambda>(k, v). name_ok k \<and> k \<noteq> ''xmlns'' \<and> value_ok v) as"

lemma run_name: "list_all name_char cs \<Longrightarrow> xml_run (Name w, st) cs = Some (Name (rev cs @ w), st)"
  by (induction cs arbitrary: w) simp_all

lemma run_key: "list_all name_char cs \<Longrightarrow> xml_run (Key n ks w, st) cs = Some (Key n ks (rev cs @ w), st)"
  by (induction cs arbitrary: w) simp_all

lemma run_closing: "list_all name_char cs \<Longrightarrow> xml_run (Closing w, st) cs = Some (Closing (rev cs @ w), st)"
  by (induction cs arbitrary: w) simp_all

lemma run_value: "value_ok v \<Longrightarrow> xml_run (Quoted n ks, st) v = Some (Quoted n ks, st)"
  by (induction v) (simp_all add: value_ok_def value_char_def)

lemma marks_no_name: "\<not> name_char (CHR ''='')" "\<not> name_char (CHR ''>'')" "\<not> name_char (CHR '' '')" "\<not> name_char (CHR ''/'')"
  "\<not> is_letter (CHR ''/'')" "CHR ''<'' \<noteq> quote" "CHR ''='' \<noteq> quote"
  by code_simp+

lemma name_ok_chars: "name_ok n \<Longrightarrow> list_all name_char n"
  by (cases n) (simp_all add: name_ok_def name_char_def)

text \<open>An attribute, after the name of the tag or another attribute.\<close>

lemma run_attribute:
  assumes "name_ok k" "value_ok v" "k \<notin> set ks" "k = ''xmlns'' \<longrightarrow> st = []"
    and "xml_step s (CHR '' '') = Some (Gap n ks, st)"
  shows "xml_run s (attribute_text (k, v)) = Some (Unquoted n (k # ks), st)"
proof -
  obtain c cs where k: "k = c # cs" "is_letter c" "list_all name_char cs"
    using assms(1) by (auto simp: name_ok_def split: list.splits)
  have "xml_run (Gap n ks, st) k = Some (Key n ks (rev k), st)" using k by (simp add: run_key)
  then show ?thesis
    using assms by (simp add: attribute_text_def xml_run_append run_value marks_no_name)
qed

lemma run_attributes:
  assumes "attributes_ok as" "set ks \<inter> fst ` set as = {}" "xml_step s (CHR '' '') = Some (Gap n ks, st)" "as \<noteq> []"
  shows "\<exists>ks'. xml_run s (concat (map attribute_text as)) = Some (Unquoted n ks', st)"
  using assms
proof (induction as arbitrary: s ks)
  case (Cons a as)
  obtain k v where a: "a = (k, v)" by (cases a)
  have first: "xml_run s (attribute_text (k, v)) = Some (Unquoted n (k # ks), st)"
    using Cons.prems a by (intro run_attribute) (auto simp: attributes_ok_def)
  show ?case
  proof (cases "as = []")
    case False
    have "xml_step (Unquoted n (k # ks), st) (CHR '' '') = Some (Gap n (k # ks), st)" by (simp add: after_part_def)
    from Cons.IH [OF _ _ this False] Cons.prems(1,2) a
    have "\<exists>ks'. xml_run (Unquoted n (k # ks), st) (concat (map attribute_text as)) = Some (Unquoted n ks', st)"
      by (auto simp: attributes_ok_def)
    with first a show ?thesis by (simp add: xml_run_append)
  qed (use first a in simp)
qed simp

lemma run_open_tag:
  assumes "name_ok n" "attributes_ok as"
  shows "\<exists>s. xml_run (Body, st) (open_tag n as) = Some s \<and> xml_step s (CHR ''>'') = Some (Body, n # st) \<and>
    xml_step s (CHR ''/'') = Some (Slash (rev n), st)"
proof -
  obtain c cs where n: "n = c # cs" "is_letter c" "list_all name_char cs"
    using assms(1) by (auto simp: name_ok_def split: list.splits)
  have start: "xml_run (Body, st) (''<'' @ n) = Some (Name (rev n), st)" using n by (simp add: run_name)
  show ?thesis
  proof (cases "as = []")
    case True
    with start show ?thesis
      by (intro exI [of _ "(Name (rev n), st)"]) (simp add: open_tag_def marks_no_name after_part_def enter_def)
  next
    case False
    have "xml_step (Name (rev n), st) (CHR '' '') = Some (Gap (rev n) [], st)" by (simp add: marks_no_name after_part_def)
    from run_attributes [OF assms(2) _ this False] obtain ks where
      "xml_run (Name (rev n), st) (concat (map attribute_text as)) = Some (Unquoted (rev n) ks, st)" by auto
    with start show ?thesis
      by (intro exI [of _ "(Unquoted (rev n) ks, st)"]) (simp add: open_tag_def xml_run_append after_part_def enter_def)
  qed
qed

text \<open>Text between tags: nothing of it is read as markup.\<close>

definition neutral :: "string \<Rightarrow> bool" where
  "neutral s \<longleftrightarrow> (\<forall>st. st \<noteq> [] \<longrightarrow> xml_run (Body, st) s = Some (Body, st))"

lemma neutral_append: "neutral a \<Longrightarrow> neutral b \<Longrightarrow> neutral (a @ b)"
  by (simp add: neutral_def xml_run_append)

lemma neutral_concat: "(\<And>p. p \<in> set ps \<Longrightarrow> neutral p) \<Longrightarrow> neutral (concat ps)"
  by (induction ps) (simp_all add: neutral_append, simp add: neutral_def)

lemma neutral_element:
  assumes "name_ok n" "attributes_ok as" "neutral content"
  shows "neutral (element n as content)"
  unfolding neutral_def
proof (intro allI impI)
  fix st :: "string list" assume st: "st \<noteq> []"
  obtain s where s: "xml_run (Body, st) (open_tag n as) = Some s" "xml_step s (CHR ''>'') = Some (Body, n # st)"
    using run_open_tag [OF assms(1,2)] by blast
  have "xml_run (Body, n # st) content = Some (Body, n # st)" using assms(3) by (simp add: neutral_def)
  then show "xml_run (Body, st) (element n as content) = Some (Body, st)"
    using s st by (simp add: element_def xml_run_append run_closing [OF name_ok_chars [OF assms(1)]] marks_no_name leave_def)
qed

lemma neutral_empty_element:
  assumes "name_ok n" "attributes_ok as"
  shows "neutral (empty_element n as)"
  unfolding neutral_def
proof (intro allI impI)
  fix st :: "string list" assume st: "st \<noteq> []"
  obtain s where "xml_run (Body, st) (open_tag n as) = Some s" "xml_step s (CHR ''/'') = Some (Slash (rev n), st)"
    using run_open_tag [OF assms] by blast
  then show "xml_run (Body, st) (empty_element n as) = Some (Body, st)"
    using st by (simp add: empty_element_def xml_run_append leave_def)
qed

lemma neutral_char: "xml_char c \<Longrightarrow> c \<noteq> CHR ''<'' \<Longrightarrow> c \<noteq> CHR ''&'' \<Longrightarrow> c \<noteq> CHR ''>'' \<Longrightarrow> neutral [c]"
  by (simp add: neutral_def)

lemma neutral_escape:
  assumes "list_all xml_char s"
  shows "neutral (escape s)"
  unfolding escape_def
proof (rule neutral_concat)
  fix p assume "p \<in> set (map escape_char s)"
  then obtain c where c: "c \<in> set s" "p = escape_char c" by auto
  have "neutral (''&'' @ w @ '';'')" if "w \<in> set REFERENCES" for w
  proof -
    have "xml_run (Ref v, st) w = Some (Ref (rev w @ v), st)" if "CHR '';'' \<notin> set w" for v st
      using that by (induction w arbitrary: v) auto
    moreover have "CHR '';'' \<notin> set w" using that by (auto simp: REFERENCES_def)
    ultimately show ?thesis using that by (simp add: neutral_def xml_run_append)
  qed
  from this [of "''amp''"] this [of "''lt''"] this [of "''gt''"] this [of "''quot''"] this [of "''#x27''"]
  have "neutral ''&amp;''" "neutral ''&lt;''" "neutral ''&gt;''" "neutral ''&quot;''" "neutral ''&#x27;''"
    by (simp_all add: REFERENCES_def)
  moreover have "xml_char c" using assms c(1) by (simp add: list_all_iff)
  ultimately show "neutral p" using c(2) by (auto simp: escape_char_def intro: neutral_char)
qed

section \<open>Numbers and constants as attribute values\<close>

lemma value_ok_append [simp]: "value_ok (a @ b) \<longleftrightarrow> value_ok a \<and> value_ok b"
  by (simp add: value_ok_def)

lemma value_ok_Cons: "value_ok (c # s) \<longleftrightarrow> value_char c \<and> value_ok s"
  by (simp add: value_ok_def)

lemma digit_value: "is_digit c \<Longrightarrow> value_char c"
  by (auto simp: is_digit_def value_char_def xml_char_def quote_def Let_def)

lemma value_ok_nat_dec: "value_ok (nat_dec n)"
  using nat_dec_digits [of _ n] digit_value by (auto simp: value_ok_def list_all_iff)

lemma group_digits_ok: "list_all P s \<Longrightarrow> P (CHR '','') \<Longrightarrow> list_all P (group_digits s)"
proof (induction s rule: group_digits.induct)
  case (1 s)
  have "list_all P (take k s)" "list_all P (drop k s)" for k
    using "1.prems"(1) by (auto simp: list_all_iff dest: in_set_takeD in_set_dropD)
  with 1 show ?case by (auto simp: group_digits.simps [of s])
qed

lemma value_marks: "value_ok ''-''" "value_ok ''.''" "value_ok ''0''" "value_ok ''inf''" "value_ok ''-inf''" "value_ok ''nan''"
  "value_char (CHR '','')" "value_char (CHR ''0'')" "value_ok []" "value_char (CHR ''.'')" "value_char (CHR ''-'')"
  by code_simp+

lemma value_ok_fixed_with:
  assumes "\<And>s. value_ok s \<Longrightarrow> value_ok (g s)"
  shows "value_ok (fixed_with g d x)"
proof (cases x)
  case (Finite v)
  have "value_ok (zpad d (nat_dec n))" for n
    using value_ok_nat_dec [of n] value_marks(8) by (auto simp: zpad_def value_ok_def list_all_iff)
  then show ?thesis using Finite value_ok_nat_dec assms value_marks digit_value
    by (simp add: Let_def decimals_def value_ok_Cons)
qed (use value_marks in simp_all)

lemma value_ok_fixed: "value_ok (fixed d x)" and value_ok_grouped: "value_ok (grouped d x)"
  and value_ok_grouped_int: "value_ok (grouped_int i)"
proof -
  have g: "value_ok s \<Longrightarrow> value_ok (group_digits s)" for s
    unfolding value_ok_def by (rule group_digits_ok) (use value_marks(7) in auto)
  show "value_ok (fixed d x)" "value_ok (grouped d x)"
    using g by (auto simp: fixed_def grouped_def intro: value_ok_fixed_with)
  show "value_ok (grouped_int i)" using g [OF value_ok_nat_dec] value_marks by (simp add: grouped_int_def)
qed

lemma value_ok_xml: "value_ok s \<Longrightarrow> list_all xml_char s"
  by (simp add: value_ok_def value_char_def list_all_iff)

lemma xml_fmt_ms: "list_all xml_char (fmt_ms v)"
  using value_ok_xml [OF value_ok_fixed] by (simp add: fmt_ms_def xml_char_def)

text \<open>The names and the constant values of the charts.\<close>

definition COLOR_VALUES :: "string list" where
  "COLOR_VALUES = [GRID, TEXT, MUTED, PYTHON, PYTHON_ACCENT, GO, DANGER, GOOD, PANEL, BG]"

lemma color_values: "c \<in> set COLOR_VALUES \<Longrightarrow> value_ok c"
proof -
  have "list_all value_ok COLOR_VALUES" by code_simp
  then show "c \<in> set COLOR_VALUES \<Longrightarrow> value_ok c" by (simp add: list_all_iff)
qed

lemma chart_names: "list_all name_ok [''svg'', ''title'', ''desc'', ''metadata'', ''rect'', ''text'', ''line'', ''x'', ''y'', ''width'', ''height'',
    ''fill'', ''rx'', ''text-anchor'', ''font-family'', ''font-size'', ''font-weight'', ''x1'', ''y1'', ''x2'', ''y2'', ''stroke'',
    ''stroke-width'', ''stroke-dasharray'', ''viewBox'', ''xmlns'']"
  by code_simp

lemma font_family_ok: "value_ok FONT_FAMILY"
  by code_simp

lemma neutral_svg_text:
  assumes "list_all xml_char content" "value_ok font_size" "value_ok fill" "value_ok weight" "value_ok anchor"
  shows "neutral (svg_text x y content font_size fill weight anchor)"
  unfolding svg_text_def
  by (rule neutral_element) (use assms chart_names in \<open>simp_all add: attributes_ok_def value_ok_fixed font_family_ok neutral_escape\<close>)

lemma neutral_svg_rect: "value_ok fill \<Longrightarrow> value_ok rx \<Longrightarrow> neutral (svg_rect x y w h fill rx)"
  unfolding svg_rect_def
  by (rule neutral_empty_element) (use chart_names in \<open>simp_all add: attributes_ok_def value_ok_fixed\<close>)

lemma neutral_svg_line:
  "value_ok stroke \<Longrightarrow> value_ok width \<Longrightarrow> (\<And>d. dash = Some d \<Longrightarrow> value_ok d) \<Longrightarrow> neutral (svg_line x1 y1 x2 y2 stroke width dash)"
  unfolding svg_line_def
  by (rule neutral_empty_element) (use chart_names in \<open>auto simp: attributes_ok_def value_ok_fixed split: option.split\<close>)

section \<open>Documents\<close>

definition neutrals :: "string list \<Rightarrow> bool" where
  "neutrals ps \<longleftrightarrow> list_all neutral ps"

lemma neutrals_simps [simp]: "neutrals []" "neutrals (p # ps) \<longleftrightarrow> neutral p \<and> neutrals ps"
  "neutrals (ps @ qs) \<longleftrightarrow> neutrals ps \<and> neutrals qs"
  by (simp_all add: neutrals_def)

lemma neutrals_concat: "(\<And>ps. ps \<in> set pss \<Longrightarrow> neutrals ps) \<Longrightarrow> neutrals (concat pss)"
  by (induction pss) simp_all

lemma constants_ok: "value_ok ''14''" "value_ok ''15''" "value_ok ''16''" "value_ok ''13''" "value_ok ''18''" "value_ok ''21''" "value_ok ''22''"
  "value_ok ''1''" "value_ok ''2''" "value_ok ''6''" "value_ok ''12''" "value_ok ''400''" "value_ok ''700''" "value_ok ''start''"
  "value_ok ''middle''" "value_ok ''end''" "value_ok ''6 6''" "value_ok GRID" "value_ok TEXT" "value_ok MUTED" "value_ok PYTHON"
  "value_ok PYTHON_ACCENT" "value_ok GO" "value_ok DANGER" "value_ok GOOD" "value_ok PANEL" "value_ok BG"
  by code_simp+

lemma texts_ok: "list_all xml_char times_char" "list_all xml_char middle_dot"
  by code_simp+

lemmas chart_parts = neutral_svg_text neutral_svg_rect neutral_svg_line
lemmas chart_texts = constants_ok texts_ok xml_fmt_ms value_ok_xml [OF value_ok_fixed] value_ok_xml [OF value_ok_grouped]
  value_ok_xml [OF value_ok_grouped_int] list_all_append xml_char_def

definition svg_head :: string where
  "svg_head = open_tag ''svg'' [(''xmlns'', ''http://www.w3.org/2000/svg''), (''width'', ''1400'')]"

text \<open>A document of the right shape: well-formed, an svg root 1400 wide, and the three elements the check looks for.\<close>

definition chart_ok :: "string \<Rightarrow> bool" where
  "chart_ok doc \<longleftrightarrow> xml_ok doc \<and> startswith svg_head doc \<and>
     occurs ''<title'' doc \<and> occurs ''<desc'' doc \<and> occurs ''<metadata'' doc"

lemma run_svg_start:
  assumes "value_ok height"
  shows "xml_run (Prolog, []) (svg_start ''1400'' height) = Some (Body, [''svg''])"
proof -
  let ?xmlns = "(''xmlns'', ''http://www.w3.org/2000/svg'')"
  let ?as = "[(''width'', ''1400''), (''height'', height), (''viewBox'', ''0 0 '' @ ''1400'' @ '' '' @ height)]"
  have const: "value_ok ''http://www.w3.org/2000/svg''" "value_ok ''1400''" "value_ok ''0 0 1400 ''" "name_ok ''xmlns''" by code_simp+
  have name: "xml_run (Prolog, []) ''<svg'' = Some (Name (rev ''svg''), [])" by code_simp
  have "xml_step (Name (rev ''svg''), []) (CHR '' '') = Some (Gap (rev ''svg'') [], [])" by code_simp
  then have first: "xml_run (Name (rev ''svg''), []) (attribute_text ?xmlns) = Some (Unquoted (rev ''svg'') [''xmlns''], [])"
    using run_attribute [OF const(4,1), of "[]" "[]" "(Name (rev ''svg''), [])" "rev ''svg''"] by simp
  have "attributes_ok ?as" using assms const(2,3) chart_names by (simp add: attributes_ok_def value_ok_def)
  moreover have "xml_step (Unquoted (rev ''svg'') [''xmlns''], []) (CHR '' '') = Some (Gap (rev ''svg'') [''xmlns''], [])" by code_simp
  ultimately obtain ks where
    "xml_run (Unquoted (rev ''svg'') [''xmlns''], []) (concat (map attribute_text ?as)) = Some (Unquoted (rev ''svg'') ks, [])"
    using run_attributes [of ?as "[''xmlns'']" "(Unquoted (rev ''svg'') [''xmlns''], [])" "rev ''svg''" "[]"] by auto
  moreover have "svg_start ''1400'' height = ''<svg'' @ attribute_text ?xmlns @ concat (map attribute_text ?as) @ ''>''"
    by (simp add: svg_start_def open_tag_def)
  moreover have "xml_step (Unquoted (rev ''svg'') ks, []) (CHR ''>'') = Some (Body, [''svg''])" by (simp add: after_part_def enter_def)
  ultimately show ?thesis using name first by (simp only: xml_run_append bind.bind_lunit xml_run.simps) 
qed

lemma chart_document:
  assumes "list_all xml_char title" "list_all xml_char desc" "list_all xml_char source" "value_ok height" "neutrals parts"
  shows "chart_ok (svg_document (svg_open title desc source ''1400'' height @ parts))"
proof -
  let ?start = "svg_start ''1400'' height"
  obtain more where open': "svg_open title desc source ''1400'' height = ?start # more" "neutrals more"
    and elements: "element ''title'' [] (escape title) \<in> set more" "element ''desc'' [] (escape desc) \<in> set more"
      "element ''metadata'' [] (''source_csv='' @ escape source) \<in> set more"
  proof
    have sizes: "value_ok ''70''" "value_ok ''72''" "value_ok ''34''" "value_ok ''108''" "value_ok ''1400''" by code_simp+
    have "neutral ''source_csv=''" unfolding neutral_def by (simp add: xml_char_def)
    then have "neutral (''source_csv='' @ escape source)" using assms(3) by (intro neutral_append neutral_escape)
    then show "neutrals (tl (svg_open title desc source ''1400'' height))"
      using assms chart_names sizes by (simp add: svg_open_def neutral_escape neutral_append attributes_ok_def constants_ok font_family_ok
          neutral_element neutral_empty_element)
  qed (simp_all add: svg_open_def)
  have LF: "neutral [LF]" by (rule neutral_char) code_simp+
  have lines: "neutral (concat (map (\<lambda>p. p @ [LF]) ps))" if "neutrals ps" for ps
  proof (rule neutral_concat)
    fix q assume "q \<in> set (map (\<lambda>p. p @ [LF]) ps)"
    then obtain p where "p \<in> set ps" "q = p @ [LF]" by auto
    then show "neutral q" using that LF by (auto simp: neutrals_def list_all_iff intro: neutral_append)
  qed
  let ?body = "[LF] @ concat (map (\<lambda>p. p @ [LF]) (more @ parts))"
  have doc: "svg_document (svg_open title desc source ''1400'' height @ parts) = ?start @ ?body @ ''</svg>'' @ [LF]"
    by (simp add: svg_document_def open'(1))
  have "xml_run (Body, [''svg'']) ?body = Some (Body, [''svg''])"
    using neutral_append [OF LF lines [of "more @ parts"]] open'(2) assms(5) unfolding neutral_def neutrals_simps by blast
  moreover have "xml_run (Body, [''svg'']) (''</svg>'' @ [LF]) = Some (Epilog, [])" by code_simp
  ultimately have "xml_ok (?start @ ?body @ ''</svg>'' @ [LF])"
    using run_svg_start [OF assms(4)] by (simp only: xml_ok_def xml_run_append bind.bind_lunit)
  moreover have "startswith svg_head (?start @ ?body @ ''</svg>'' @ [LF])"
    by (simp add: startswith_iff svg_head_def svg_start_def open_tag_def)
  moreover have "occurs w (?start @ ?body @ ''</svg>'' @ [LF])" if "w @ v \<in> set more" for w v
  proof -
    from that obtain xs ys where "more = xs @ (w @ v) # ys" by (auto simp: in_set_conv_decomp)
    then show ?thesis unfolding occurs_iff
      by (intro exI [of _ "?start @ [LF] @ concat (map (\<lambda>p. p @ [LF]) xs)"]
        exI [of _ "v @ [LF] @ concat (map (\<lambda>p. p @ [LF]) (ys @ parts)) @ ''</svg>'' @ [LF]"]) simp
  qed
  then have "occurs ''<title'' (?start @ ?body @ ''</svg>'' @ [LF])" "occurs ''<desc'' (?start @ ?body @ ''</svg>'' @ [LF])"
    "occurs ''<metadata'' (?start @ ?body @ ''</svg>'' @ [LF])"
    using elements by (simp_all add: element_def open_tag_def) 
  ultimately show ?thesis unfolding chart_ok_def doc by blast
qed

section \<open>The four charts\<close>

text \<open>The cells of a table are characters XML knows.\<close>

definition printable_row :: "csv_row \<Rightarrow> bool" where
  "printable_row r \<longleftrightarrow> list_all (\<lambda>(k, v). case v of None \<Rightarrow> True | Some s \<Rightarrow> list_all xml_char s) r"

lemma printable_text: "csv_text r k = Inr s \<Longrightarrow> printable_row r \<Longrightarrow> list_all xml_char s"
proof -
  have none: "list_all xml_char ''None''" by code_simp
  assume "csv_text r k = Inr s" "printable_row r"
  then show "list_all xml_char s"
    by (cases "map_of r k") (use none in \<open>auto simp: csv_text_def printable_row_def list_all_iff dest!: map_of_SomeD split: option.splits\<close>)
qed

lemma printable_label: "run_label r = Inr s \<Longrightarrow> printable_row r \<Longrightarrow> list_all xml_char s"
  using printable_text by (auto simp: run_label_def andthen_Inr xml_char_def)

lemma neutral_grid: "neutrals (grid m a b c)"
  unfolding grid_def Let_def
  by (rule neutrals_concat) (auto intro!: chart_parts simp: chart_texts)

lemma neutral_card_row: "card_row m ir = Inr ps \<Longrightarrow> printable_row (snd ir) \<Longrightarrow> neutrals ps"
  by (cases ir) (auto simp: card_row_def andthen_Inr Let_def chart_texts dest: printable_label intro!: chart_parts)

lemma neutral_dashboard_row: "dashboard_row m ir = Inr ps \<Longrightarrow> printable_row (snd ir) \<Longrightarrow> neutrals ps"
  by (cases ir) (auto simp: dashboard_row_def andthen_Inr Let_def chart_texts dest: printable_label intro!: chart_parts)

lemma neutral_duration_row: "duration_row m ir = Inr ps \<Longrightarrow> printable_row (snd ir) \<Longrightarrow> neutrals ps"
  by (cases ir) (auto simp: duration_row_def andthen_Inr Let_def chart_texts intro!: chart_parts, blast intro: printable_text)

lemma neutral_rate_row: "rate_row m ir = Inr ps \<Longrightarrow> printable_row (snd ir) \<Longrightarrow> neutrals ps"
  by (cases ir) (auto simp: rate_row_def andthen_Inr Let_def chart_texts intro: printable_text intro!: chart_parts)

lemma neutral_capacity_row: "capacity_row m ir = Inr ps \<Longrightarrow> neutrals ps"
  by (cases ir) (auto simp: capacity_row_def andthen_Inr Let_def chart_texts intro!: chart_parts)

lemma neutral_target_line: "target_line m = Inr ps \<Longrightarrow> neutrals ps"
  by (auto simp: target_line_def andthen_Inr Let_def chart_texts intro!: chart_parts)

lemma neutral_bars:
  assumes "traverse f (numbered rows) = Inr pss" "\<forall>r \<in> set rows. printable_row r"
    and "\<And>ir ps. f ir = Inr ps \<Longrightarrow> printable_row (snd ir) \<Longrightarrow> neutrals ps"
  shows "neutrals (concat pss)"
proof (rule neutrals_concat)
  fix ps assume "ps \<in> set pss"
  then obtain j where j: "j < length pss" "ps = pss ! j" by (auto simp: in_set_conv_nth)
  have all: "list_all2 (\<lambda>x y. f x = Inr y) (numbered rows) pss" using assms(1) by (simp add: traverse_Inr)
  have "f (numbered rows ! j) = Inr ps" using list_all2_nthD2 [OF all j(1)] j(2) by simp
  moreover have "numbered rows ! j \<in> set (numbered rows)" using j(1) list_all2_lengthD [OF all] by simp
  then have "snd (numbered rows ! j) \<in> set rows" by (auto simp: numbered_def in_set_enumerate_eq)
  ultimately show "neutrals ps" using assms(2,3) by blast
qed

definition printable :: "csv_row list on_disk \<Rightarrow> bool" where
  "printable f \<longleftrightarrow> (case f of Content rows \<Rightarrow> list_all printable_row rows | _ \<Rightarrow> True)"

lemma printable_rows: "csv_rows f = Inr rows \<Longrightarrow> printable f \<Longrightarrow> \<forall>r \<in> set rows. printable_row r"
  by (cases f) (auto simp: csv_rows_def printable_def list_all_iff)

lemma head_texts: "value_ok ''780''" "value_ok ''850''" "value_ok ''900''" "value_ok ''760''"
  "list_all xml_char ''assets/data/card-p95.csv''" "list_all xml_char ''assets/data/dashboard-p95.csv''"
  "list_all xml_char ''assets/data/worker.csv''" "list_all xml_char ''assets/data/d3-capacity.csv''"
  "list_all xml_char ''CARD payment p95 latency''"
  "list_all xml_char ''Same database and resource limits; lower is better. Exact medians are labelled.''"
  "list_all xml_char ''Dashboard p95 latency across scale''"
  "list_all xml_char ''Go keeps a material latency advantage as the synthetic dataset grows. Lower is better.''"
  "list_all xml_char ''Worker: duration and device throughput''"
  "list_all xml_char ''D3 evaluates 50,000 devices. Both runtimes miss the <5s target even though Go is faster.''"
  "list_all xml_char ''D3 canonical capacity failures''"
  "list_all xml_char ''Only retained canonical evidence is shown; diagnostic numbers are excluded from the public chart.''"
  by code_simp+

lemma card_chart: "render_card f = Inr doc \<Longrightarrow> printable f \<Longrightarrow> chart_ok doc"
proof -
  assume a: "render_card f = Inr doc" "printable f"
  then obtain rows m bars where p: "csv_rows f = Inr rows" "traverse (card_row m) (numbered rows) = Inr bars"
    "doc = svg_document (svg_open ''CARD payment p95 latency''
       ''Same database and resource limits; lower is better. Exact medians are labelled.''
       ''assets/data/card-p95.csv'' ''1400'' ''780'' @ grid m 145 690 720 @ concat bars)"
    unfolding render_card_def andthen_Inr by blast
  have "neutrals (concat bars)" by (rule neutral_bars [OF p(2) printable_rows [OF p(1) a(2)] neutral_card_row])
  then show "chart_ok doc" unfolding p(3) by (intro chart_document head_texts) (simp add: neutral_grid)
qed

lemma dashboard_chart: "render_dashboard f = Inr doc \<Longrightarrow> printable f \<Longrightarrow> chart_ok doc"
proof -
  assume a: "render_dashboard f = Inr doc" "printable f"
  then obtain rows m bars where p: "csv_rows f = Inr rows" "traverse (dashboard_row m) (numbered rows) = Inr bars"
    "doc = svg_document (svg_open ''Dashboard p95 latency across scale''
       ''Go keeps a material latency advantage as the synthetic dataset grows. Lower is better.''
       ''assets/data/dashboard-p95.csv'' ''1400'' ''850'' @ grid m 145 760 795 @ concat bars)"
    unfolding render_dashboard_def andthen_Inr by blast
  have "neutrals (concat bars)" by (rule neutral_bars [OF p(2) printable_rows [OF p(1) a(2)] neutral_dashboard_row])
  then show "chart_ok doc" unfolding p(3) by (intro chart_document head_texts) (simp add: neutral_grid)
qed

lemma capacity_chart: "render_d3_capacity f = Inr doc \<Longrightarrow> printable f \<Longrightarrow> chart_ok doc"
proof -
  assume a: "render_d3_capacity f = Inr doc" "printable f"
  then obtain rows m bars where p: "csv_rows f = Inr rows" "traverse (capacity_row m) (numbered rows) = Inr bars"
    "doc = svg_document (svg_open ''D3 canonical capacity failures''
       ''Only retained canonical evidence is shown; diagnostic numbers are excluded from the public chart.''
       ''assets/data/d3-capacity.csv'' ''1400'' ''760'' @
       [svg_rect (num 55) (num 145) (num 1290) (num 520) PANEL ''12''] @ concat bars)"
    unfolding render_d3_capacity_def andthen_Inr by blast
  have "neutrals (concat bars)" by (rule neutral_bars [OF p(2) printable_rows [OF p(1) a(2)] neutral_capacity_row])
  then show "chart_ok doc" unfolding p(3) by (intro chart_document head_texts) (simp add: neutral_svg_rect constants_ok)
qed

lemma worker_chart: "render_worker f = Inr doc \<Longrightarrow> printable f \<Longrightarrow> chart_ok doc"
proof -
  assume a: "render_worker f = Inr doc" "printable f"
  define tail where "tail = [svg_text (num 80) (num 850) (''Blue = Python/FastAPI'' @ middle_dot @ ''Cyan = Go'') ''14'' MUTED ''400'' ''start'']"
  obtain rows m1 m2 durations target rates where p: "csv_rows f = Inr rows" "traverse (duration_row m1) (numbered rows) = Inr durations"
    "target_line m1 = Inr target" "traverse (rate_row m2) (numbered rows) = Inr rates"
    "doc = svg_document (worker_head @ concat durations @ target @ concat rates @ tail)"
    using a(1) unfolding render_worker_def andthen_Inr tail_def [symmetric] by blast
  note rows = printable_rows [OF p(1) a(2)]
  have "neutrals (concat durations)" by (rule neutral_bars [OF p(2) rows neutral_duration_row])
  moreover have "neutrals (concat rates)" by (rule neutral_bars [OF p(4) rows neutral_rate_row])
  moreover have "neutrals tail" unfolding tail_def by (auto intro!: chart_parts simp: chart_texts)
  moreover note neutral_target_line [OF p(3)]
  ultimately have parts: "neutrals (concat durations @ target @ concat rates @ tail)" by simp
  show "chart_ok doc" unfolding p(5) worker_head_def append_assoc
    by (intro chart_document head_texts) (use parts in \<open>auto intro!: chart_parts simp: chart_texts\<close>)
qed

section \<open>From the renderer to the check of the assets\<close>

text \<open>
  What the check relies on in the XML parser: a well-formed document whose root is that svg tag
  parses, to the tag in its namespace and the width as it stands there.
\<close>

definition svg_parser :: "(string \<Rightarrow> (string \<times> string option) option) \<Rightarrow> bool" where
  "svg_parser parse \<longleftrightarrow> (\<forall>doc. xml_ok doc \<and> startswith svg_head doc \<longrightarrow>
     parse doc = Some (''{http://www.w3.org/2000/svg}svg'', Some ''1400''))"

definition published :: "disk \<Rightarrow> (string \<times> string) list \<Rightarrow> bool" where
  "published dk charts \<longleftrightarrow> (\<forall>(name, doc) \<in> set charts. disk_file dk (asset_root dk @ [''assets'', ''charts'', name]) = Some doc)"

lemma chart_accepted:
  assumes "chart_ok doc" "svg_parser (parse_xml dk)" "disk_file dk (asset_root dk @ path) = Some doc"
  shows "validate_svg dk path = Inr []"
proof -
  have "double 1400 = Finite 1400" using double_int [of 1400] by simp
  moreover have "number_value ''1400'' = Some 1400"
    by (simp add: number_value_def decimal_value_def is_e_def run_digits_def is_digit_def dec_val_def char_digit_def)
  moreover have "split_sign (strip ''1400'') = (False, ''1400'')" by (simp add: split_sign_def strip_def py_space_def)
  ultimately have "py_float ''1400'' = Some (Finite 1400)" by (simp add: py_float_def to_lower_def Let_def)
  then have "svg_width (Some ''1400'') = Inr 1400" by (simp add: svg_width_def or_value_error_def toward_zero_def)
  moreover have "endswith ''svg'' ''{http://www.w3.org/2000/svg}svg''" by code_simp
  moreover have "parse_xml dk doc = Some (''{http://www.w3.org/2000/svg}svg'', Some ''1400'')"
    using assms(1,2) by (auto simp: svg_parser_def chart_ok_def)
  ultimately show ?thesis using assms(1,3) by (simp add: validate_svg_def chart_ok_def)
qed

lemma all_charts:
  assumes "render_quantitative tables = (charts, None)"
  obtains a b c d where "charts = [(''card-p95.svg'', a), (''dashboard-p95.svg'', b), (''worker.svg'', c), (''d3-capacity.svg'', d)]"
    "render_card (tables ''card-p95.csv'') = Inr a" "render_dashboard (tables ''dashboard-p95.csv'') = Inr b"
    "render_worker (tables ''worker.csv'') = Inr c" "render_d3_capacity (tables ''d3-capacity.csv'') = Inr d"
proof -
  have step: "write_charts ((n, r) # cs) = (done, None) \<Longrightarrow> \<exists>doc rest. r = Inr doc \<and> write_charts cs = (rest, None) \<and> done = (n, doc) # rest"
    for n r cs "done" by (cases r) (auto split: prod.splits)
  then show thesis using assms that unfolding render_quantitative_def by (fastforce dest!: step)
qed


section \<open>Tables all four charts are drawn from\<close>

text \<open>Numbers between one and two keep their place: their doubles are not zero.\<close>

lemma leading_bit_one:
  assumes "1 \<le> x" "x < 2"
  shows "leading_bit x = 0"
proof -
  obtain n d where q: "quotient_of \<bar>x\<bar> = (n, d)" by (cases "quotient_of \<bar>x\<bar>")
  then have d: "0 < d" and x: "x = of_int n / of_int d"
    using quotient_of_denom_pos [OF q] quotient_of_div [OF q] assms by simp_all
  have nd: "d \<le> n" "n < 2 * d"
    using assms d unfolding x by (simp_all add: field_simps)
  have lower: "bitlen d \<le> bitlen n" using bitlen_le_iff_power [of d "nat (bitlen n)"] bitlen_le_iff_power [of n "nat (bitlen n)"] nd d
    by (simp add: bitlen_nonneg)
  have "d < 2 ^ nat (bitlen d)" using bitlen_le_iff_power [of d "nat (bitlen d)"] by (simp add: bitlen_nonneg)
  then have "n < 2 ^ (nat (bitlen d) + 1)" using nd by simp
  then have "bitlen n \<le> int (nat (bitlen d) + 1)" by (simp only: bitlen_le_iff_power nat_int of_nat_0_le_iff simp_thms)
  then have "bitlen n - bitlen d = 0 \<or> bitlen n - bitlen d = 1" using lower bitlen_nonneg [of d] by linarith
  moreover have "leading_bit x = (let k = bitlen n - bitlen d in if pow2 k \<le> \<bar>x\<bar> then k else k - 1)"
    by (simp add: leading_bit_def q)
  moreover have "pow2 0 \<le> \<bar>x\<bar>" "\<not> pow2 1 \<le> \<bar>x\<bar>" using assms by (simp_all add: pow2_def)
  ultimately show ?thesis by (metis diff_self)
qed

lemma double_between:
  assumes "1 \<le> x" "x < 2"
  obtains r where "double x = Finite r" "1 \<le> r" "x < 3 / 2 \<Longrightarrow> r < 2"
proof -
  let ?y = "x * 2 ^ 52" and ?h = "half_even (x * 2 ^ 52)"
  have y: "x / pow2 (- 52) = ?y" by (simp add: pow2_def)
  have "\<bar>of_int ?h - ?y\<bar> \<le> 1 / 2" by (rule half_even_close)
  then have upper: "of_int ?h \<le> ?y + 1 / 2" by linarith
  have "\<lfloor>?y\<rfloor> \<le> ?h" by (simp add: half_even_def Let_def)
  moreover have "(2 :: int) ^ 52 \<le> \<lfloor>?y\<rfloor>" using assms(1) by (simp add: le_floor_iff)
  ultimately have lower: "(2 :: rat) ^ 52 \<le> of_int ?h" by (metis of_int_le_iff of_int_numeral of_int_power order_trans)
  have small: "of_int ?h < (2 :: rat) * 2 ^ 52" if "x < 3 / 2"
  proof -
    have "?y < 3 / 2 * 2 ^ 52" using that by simp
    then have "?y + 1 / 2 < (2 :: rat) * 2 ^ 52" by simp
    with upper show ?thesis by linarith
  qed
  have "?y < 2 * 2 ^ 52" using assms(2) by simp
  then have "?y + 1 / 2 < (4 :: rat) * 2 ^ 52" by simp
  with upper have "of_int ?h < (4 :: rat) * 2 ^ 52" by linarith
  moreover have "leading_bit x = 0" by (rule leading_bit_one) (use assms in simp_all)
  ultimately have "double x = Finite (of_int ?h / 2 ^ 52)"
    using assms y lower by (simp add: double_def Let_def pow2_def field_simps abs_if)
  then show thesis
    by (rule that) (use lower small in \<open>simp_all add: field_simps\<close>)
qed

definition demo_table_row :: csv_row where
  "demo_table_row = [(''profile'', Some ''D1''), (''load_level'', Some ''1''), (''python_p95_ms'', Some ''1''), (''go_p95_ms'', Some ''1''),
     (''python_duration_ms'', Some ''1''), (''go_duration_ms'', Some ''1''), (''devices'', Some ''1''), (''python_devices_per_sec'', Some ''1''),
     (''go_devices_per_sec'', Some ''1''), (''p95_ms'', Some ''1''), (''throughput'', Some ''1''), (''error_rate'', Some ''1''),
     (''dropped'', Some ''1''), (''workload'', Some ''heartbeat'')]"

lemma demo_one: "py_float ''1'' = Some (Finite 1)"
proof -
  have "double 1 = Finite 1" using double_int [of 1] by simp
  moreover have "number_value ''1'' = Some 1"
    by (simp add: number_value_def decimal_value_def is_e_def run_digits_def is_digit_def dec_val_def char_digit_def)
  moreover have "split_sign (strip ''1'') = (False, ''1'')" by (simp add: split_sign_def strip_def py_space_def)
  ultimately show ?thesis by (simp add: py_float_def to_lower_def Let_def)
qed

lemma demo_factor:
  assumes "py_float factor = Some (double x)" "1 \<le> x" "x < 3 / 2" "map_of demo_table_row k = Some (Some ''1'')"
  obtains r where "column_max k factor [demo_table_row] = Inr (Finite r)" "r \<noteq> 0"
proof -
  have "x < 2" using assms(3) by simp
  then obtain q where q: "double x = Finite q" "1 \<le> q" "q < 2" by (rule double_between [OF assms(2)]) (use assms(3) in blast)
  obtain r where "double q = Finite r" "1 \<le> r" by (rule double_between [OF q(2,3)])
  then show thesis
    using that [of r] assms(1,4) q(1) demo_one by (simp add: column_max_def csv_number_def or_value_error_def max_of_def)
qed

lemma demo_factors: "py_float ''1.03'' = Some (double (103 / 100))" "py_float ''1.05'' = Some (double (105 / 100))"
proof -
  have "number_value ''1.03'' = Some (103 / 100)" "number_value ''1.05'' = Some (105 / 100)"
    by (simp_all add: number_value_def decimal_value_def is_e_def run_digits_def is_digit_def dec_val_def char_digit_def)
  moreover have "split_sign (strip ''1.03'') = (False, ''1.03'')" "split_sign (strip ''1.05'') = (False, ''1.05'')"
    by (simp_all add: split_sign_def strip_def py_space_def)
  ultimately show "py_float ''1.03'' = Some (double (103 / 100))" "py_float ''1.05'' = Some (double (105 / 100))"
    by (simp_all add: py_float_def to_lower_def Let_def)
qed

lemma demo_rendered:
  obtains charts where "render_quantitative (\<lambda>name. Content [demo_table_row]) = (charts, None)"
proof -
  have cells: "csv_number demo_table_row k = Inr (Finite 1)" if "k \<in> {''python_p95_ms'', ''go_p95_ms'', ''python_duration_ms'',
      ''go_duration_ms'', ''python_devices_per_sec'', ''go_devices_per_sec'', ''p95_ms'', ''throughput'', ''load_level'', ''error_rate'', ''dropped''}" for k
    using that by (auto simp: csv_number_def demo_table_row_def or_value_error_def demo_one)
  have texts: "csv_text demo_table_row ''profile'' = Inr ''D1''" "csv_text demo_table_row ''load_level'' = Inr ''1''"
    "csv_text demo_table_row ''workload'' = Inr ''heartbeat''" "csv_int demo_table_row ''devices'' = Inr 1" by code_simp+
  have rows: "numbered [demo_table_row] = [(0, demo_table_row)]" "csv_rows (Content [demo_table_row]) = Inr [demo_table_row]"
    by (simp_all add: numbered_def csv_rows_def)
  have one: "int_of_float (Finite 1) = Inr 1" by (simp add: toward_zero_def)
  have x: "1 \<le> (103 / 100 :: rat)" "(103 / 100 :: rat) < 3 / 2" "1 \<le> (105 / 100 :: rat)" "(105 / 100 :: rat) < 3 / 2" by simp_all
  obtain a where a: "column_max ''python_p95_ms'' ''1.03'' [demo_table_row] = Inr (Finite a)" "a \<noteq> 0"
    by (rule demo_factor [OF demo_factors(1) x(1,2), of "''python_p95_ms''"]) (simp add: demo_table_row_def)
  obtain b where b: "column_max ''python_p95_ms'' ''1.05'' [demo_table_row] = Inr (Finite b)" "b \<noteq> 0"
    by (rule demo_factor [OF demo_factors(2) x(3,4), of "''python_p95_ms''"]) (simp add: demo_table_row_def)
  obtain c where c: "column_max ''python_duration_ms'' ''1.05'' [demo_table_row] = Inr (Finite c)" "c \<noteq> 0"
    by (rule demo_factor [OF demo_factors(2) x(3,4), of "''python_duration_ms''"]) (simp add: demo_table_row_def)
  obtain d where d: "column_max ''go_devices_per_sec'' ''1.05'' [demo_table_row] = Inr (Finite d)" "d \<noteq> 0"
    by (rule demo_factor [OF demo_factors(2) x(3,4), of "''go_devices_per_sec''"]) (simp add: demo_table_row_def)
  obtain e where e: "column_max ''p95_ms'' ''1.05'' [demo_table_row] = Inr (Finite e)" "e \<noteq> 0"
    by (rule demo_factor [OF demo_factors(2) x(3,4), of "''p95_ms''"]) (simp add: demo_table_row_def)
  have label: "run_label demo_table_row = Inr ''D1 @ 1''" by (simp add: run_label_def texts)
  have "\<exists>doc. render_card (Content [demo_table_row]) = Inr doc"
    using a by (simp add: render_card_def rows card_row_def label cells bar_width_def py_div_def Let_def)
  moreover have "\<exists>doc. render_dashboard (Content [demo_table_row]) = Inr doc"
    using b by (simp add: render_dashboard_def rows dashboard_row_def label cells bar_width_def py_div_def Let_def)
  moreover have "\<exists>doc. render_worker (Content [demo_table_row]) = Inr doc"
    using c d by (simp add: render_worker_def rows duration_row_def rate_row_def target_line_def texts cells bar_width_def py_div_def Let_def)
  moreover have "\<exists>doc. render_d3_capacity (Content [demo_table_row]) = Inr doc"
    using e by (simp add: render_d3_capacity_def rows capacity_row_def texts cells bar_width_def py_div_def one Let_def del: int_of_float.simps)
  ultimately show thesis using that by (auto simp: render_quantitative_def)
qed

definition demo_assets :: "(string \<times> string) list \<Rightarrow> disk" where
  "demo_assets charts = \<lparr>asset_root = [''repo''],
     disk_file = map_of (map (\<lambda>(name, doc). ([''repo'', ''assets'', ''charts'', name], doc)) charts),
     parse_xml = (\<lambda>doc. if xml_ok doc \<and> startswith svg_head doc
       then Some (''{http://www.w3.org/2000/svg}svg'', Some ''1400'') else None)\<rparr>"


end
