(* ===== verification/Raster_Properties.thy ===== *)
theory Raster_Properties
  imports Raster
begin

text \<open>
  What the drawing of the social preview puts on the canvas, byte by byte, and that the PNG file
  holds that canvas.
\<close>

section \<open>Slices\<close>

lemma assign_slice_nth:
  assumes "0 \<le> i" "i \<le> j" "j \<le> int (length xs)" "length new = nat (j - i)"
  shows "length (assign_slice i j new xs) = length xs"
    and "k < length xs \<Longrightarrow> assign_slice i j new xs ! k = (if i \<le> int k \<and> int k < j then new ! (k - nat i) else xs ! k)"
proof -
  obtain a b where ab: "i = int a" "j = int b" "a \<le> b" "b \<le> length xs"
    using assms(1-3) by (metis int_nat_eq nat_int nat_le_iff nat_mono order_trans)
  have s: "assign_slice i j new xs = take a xs @ new @ drop b xs"
    using ab by (simp add: assign_slice_def clamp_def Let_def min_def max_def)
  have n: "length new = b - a" using assms(4) ab by simp
  show "length (assign_slice i j new xs) = length xs" unfolding s using ab n by simp
  show "k < length xs \<Longrightarrow> assign_slice i j new xs ! k = (if i \<le> int k \<and> int k < j then new ! (k - nat i) else xs ! k)"
    unfolding s using ab n by (auto simp: nth_append)
qed

lemma assign_slice_Nil:
  assumes "0 \<le> j" "j \<le> i"
  shows "assign_slice i j [] xs = xs"
  using assms by (simp add: assign_slice_def clamp_def Let_def max_def min_def)

lemma nth_concat_replicate:
  "0 < length xs \<Longrightarrow> k < n * length xs \<Longrightarrow> concat (replicate n xs) ! k = xs ! (k mod length xs)"
proof (induction n arbitrary: k)
  case (Suc n)
  then show ?case
    by (cases "k < length xs") (auto simp: nth_append le_mod_geq not_less)
qed simp

section \<open>Rectangles\<close>

text \<open>The pixel byte \<open>k\<close> belongs to, and the pixels of a box.\<close>

definition pixel_x :: "canvas_size \<Rightarrow> nat \<Rightarrow> int" where
  "pixel_x cs k = int k div 3 mod cs_width cs"

definition pixel_y :: "canvas_size \<Rightarrow> nat \<Rightarrow> int" where
  "pixel_y cs k = int k div 3 div cs_width cs"

definition covers :: "box \<Rightarrow> int \<Rightarrow> int \<Rightarrow> bool" where
  "covers b px py = (case b of (x, y, w, h) \<Rightarrow> x \<le> px \<and> px < x + w \<and> y \<le> py \<and> py < y + h)"

definition canvas_ok :: "canvas_size \<Rightarrow> byte list \<Rightarrow> bool" where
  "canvas_ok cs canvas \<longleftrightarrow> 0 < cs_width cs \<and> 0 \<le> cs_height cs \<and> int (length canvas) = cs_height cs * cs_width cs * 3"

lemma div_3_range: "A * 3 \<le> n \<and> n < B * 3 \<longleftrightarrow> A \<le> n div 3 \<and> n div 3 < (B :: int)"
  by presburger

lemma row_range:
  assumes "0 < W" "0 \<le> a" "b \<le> W" "a \<le> b"
  shows "(yy * W + a) * 3 \<le> int k \<and> int k < (yy * W + b) * 3 \<longleftrightarrow>
    int k div 3 div W = yy \<and> a \<le> int k div 3 mod W \<and> int k div 3 mod W < b"
proof -
  let ?q = "int k div 3"
  have "(yy * W + a) * 3 \<le> int k \<and> int k < (yy * W + b) * 3 \<longleftrightarrow> yy * W + a \<le> ?q \<and> ?q < yy * W + b"
    by (rule div_3_range)
  also have "\<dots> \<longleftrightarrow> ?q div W = yy \<and> a \<le> ?q mod W \<and> ?q mod W < b"
  proof
    assume q: "yy * W + a \<le> ?q \<and> ?q < yy * W + b"
    then have "?q = W * yy + (?q - yy * W)" "0 \<le> ?q - yy * W" "?q - yy * W < W" using assms by (simp_all add: mult.commute)
    then have "?q div W = yy" by (metis int_div_pos_eq)
    moreover have "?q = ?q div W * W + ?q mod W" by simp
    ultimately show "?q div W = yy \<and> a \<le> ?q mod W \<and> ?q mod W < b" using q by (metis add_le_cancel_left add_less_cancel_left)
  next
    assume q: "?q div W = yy \<and> a \<le> ?q mod W \<and> ?q mod W < b"
    moreover have "?q = ?q div W * W + ?q mod W" by simp
    ultimately show "yy * W + a \<le> ?q \<and> ?q < yy * W + b" by (metis add_le_cancel_left add_less_cancel_left)
  qed
  finally show ?thesis .
qed

lemma row_bounds:
  fixes W H yy a b :: int
  assumes "0 < W" "0 \<le> yy" "yy < H" "0 \<le> a" "a \<le> b" "b \<le> W"
  shows "0 \<le> (yy * W + a) * 3" "(yy * W + a) * 3 \<le> (yy * W + b) * 3" "(yy * W + b) * 3 \<le> H * W * 3"
proof -
  have "0 \<le> yy * W" using assms(1,2) by (intro mult_nonneg_nonneg) simp_all
  moreover have "(yy + 1) * W \<le> H * W" using assms by (intro mult_right_mono) simp_all
  ultimately show "0 \<le> (yy * W + a) * 3" "(yy * W + a) * 3 \<le> (yy * W + b) * 3" "(yy * W + b) * 3 \<le> H * W * 3"
    using assms by (simp_all add: distrib_right)
qed

lemma draw_rows:
  assumes "canvas_ok cs canvas" "length color = 3" "0 \<le> a" "a \<le> b" "b \<le> cs_width cs"
    and "\<forall>yy \<in> set ys. 0 \<le> yy \<and> yy < cs_height cs"
  defines "row \<equiv> \<lambda>yy. assign_slice ((yy * cs_width cs + a) * 3) ((yy * cs_width cs + b) * 3) (concat (replicate (nat (b - a)) color))"
  shows "length (fold row ys canvas) = length canvas \<and> (\<forall>k < length canvas. fold row ys canvas ! k =
    (if pixel_y cs k \<in> set ys \<and> a \<le> pixel_x cs k \<and> pixel_x cs k < b then color ! (k mod 3) else canvas ! k))"
  using assms(1,6)
proof (induction ys arbitrary: canvas)
  case (Cons yy ys)
  let ?W = "cs_width cs" and ?new = "concat (replicate (nat (b - a)) color)"
  let ?i = "(yy * ?W + a) * 3" and ?j = "(yy * ?W + b) * 3"
  have W: "0 < ?W" and len: "int (length canvas) = cs_height cs * ?W * 3" using Cons.prems(1) by (simp_all add: canvas_ok_def)
  have bounds: "0 \<le> ?i" "?i \<le> ?j" "?j \<le> int (length canvas)"
    using row_bounds [OF W _ _ assms(3,4,5)] Cons.prems(2) len by auto
  have new: "length ?new = nat (?j - ?i)" using assms(2) by (simp add: length_concat sum_list_replicate nat_mult_distrib algebra_simps)
  note s = assign_slice_nth [OF bounds new]
  have "canvas_ok cs (row yy canvas)" using Cons.prems(1) s(1) by (simp add: canvas_ok_def row_def)
  note IH = Cons.IH [OF this] 
  have step: "row yy canvas ! k = (if pixel_y cs k = yy \<and> a \<le> pixel_x cs k \<and> pixel_x cs k < b then color ! (k mod 3) else canvas ! k)"
    if k: "k < length canvas" for k
  proof -
    have range: "?i \<le> int k \<and> int k < ?j \<longleftrightarrow> pixel_y cs k = yy \<and> a \<le> pixel_x cs k \<and> pixel_x cs k < b"
      unfolding pixel_x_def pixel_y_def by (rule row_range [OF W assms(3,5,4)])
    have "?new ! (k - nat ?i) = color ! (k mod 3)" if "?i \<le> int k" "int k < ?j"
    proof -
      have "k - nat ?i < nat (b - a) * length color" using that bounds(1) assms(2) by (simp add: nat_less_iff)
      then have "?new ! (k - nat ?i) = color ! ((k - nat ?i) mod 3)" using assms(2) by (simp add: nth_concat_replicate)
      moreover have "(k - nat ?i) mod 3 = k mod 3"
      proof -
        have "nat ?i = nat (yy * ?W + a) * 3" using bounds(1) by (simp add: nat_mult_distrib)
        then have "k = (k - nat ?i) + nat (yy * ?W + a) * 3" using that(1) by simp
        then show ?thesis by (metis mod_mult_self2 mult.commute)
      qed
      ultimately show ?thesis by simp
    qed
    with range show ?thesis unfolding row_def s(2) [OF k] by auto
  qed
  have "length (row yy canvas) = length canvas" using s(1) by (simp add: row_def)
  with IH Cons.prems(2) step show ?case by auto
qed simp

lemma draw_rect_bytes:
  assumes "canvas_ok cs canvas" "length color = 3" "0 \<le> x + w"
  shows "canvas_ok cs (draw_rect cs color (x, y, w, h) canvas)"
    and "k < length canvas \<Longrightarrow> draw_rect cs color (x, y, w, h) canvas ! k =
      (if covers (x, y, w, h) (pixel_x cs k) (pixel_y cs k) then color ! (k mod 3) else canvas ! k)"
proof -
  let ?a = "max 0 x" and ?b = "min (cs_width cs) (x + w)" and ?ys = "[max 0 y..min (cs_height cs) (y + h) - 1]"
  let ?d = "draw_rect cs color (x, y, w, h) canvas"
  have W: "0 < cs_width cs" and H: "0 \<le> cs_height cs" using assms(1) by (simp_all add: canvas_ok_def)
  have d: "length ?d = length canvas \<and> (\<forall>k < length canvas. ?d ! k =
    (if pixel_y cs k \<in> set ?ys \<and> ?a \<le> pixel_x cs k \<and> pixel_x cs k < ?b then color ! (k mod 3) else canvas ! k))"
  proof (cases "?a \<le> ?b")
    case True
    have "\<forall>yy \<in> set ?ys. 0 \<le> yy \<and> yy < cs_height cs" by auto
    from draw_rows [OF assms(1,2) _ True _ this] show ?thesis by (simp add: draw_rect_def Let_def)
  next
    case False
    have "assign_slice ((yy * cs_width cs + ?a) * 3) ((yy * cs_width cs + ?b) * 3) [] xs = xs" if "yy \<in> set ?ys" for yy xs
    proof (rule assign_slice_Nil)
      have "0 \<le> yy * cs_width cs" using that W by simp
      then show "0 \<le> (yy * cs_width cs + ?b) * 3" using assms(3) W by simp
      show "(yy * cs_width cs + ?b) * 3 \<le> (yy * cs_width cs + ?a) * 3" using False by (intro mult_right_mono add_left_mono) linarith+
    qed
    moreover have "nat (?b - ?a) = 0" using False by linarith
    ultimately have "?d = fold (\<lambda>yy. id) ?ys canvas"
      unfolding draw_rect_def Let_def prod.case by (intro fold_cong) (auto simp: fun_eq_iff)
    moreover have "fold (\<lambda>yy. id) ys canvas = canvas" for ys :: "int list" by (induction ys) simp_all
    ultimately have "?d = canvas" by simp
    with False show ?thesis by auto
  qed
  then show "canvas_ok cs ?d" using assms(1) by (simp add: canvas_ok_def)
  have in_canvas: "0 \<le> pixel_x cs k \<and> pixel_x cs k < cs_width cs \<and> 0 \<le> pixel_y cs k \<and> pixel_y cs k < cs_height cs"
    if "k < length canvas" for k
  proof -
    have "int k < cs_height cs * cs_width cs * 3" using that assms(1) by (simp add: canvas_ok_def)
    then have "int k div 3 < cs_height cs * cs_width cs" using div_3_range [of 0 "int k" "cs_height cs * cs_width cs"] by simp
    moreover have "int k div 3 div cs_width cs * cs_width cs \<le> int k div 3" using W by (simp add: minus_mod_eq_div_mult [symmetric])
    ultimately have "pixel_y cs k * cs_width cs < cs_height cs * cs_width cs" unfolding pixel_y_def by simp
    then have "pixel_y cs k < cs_height cs" using W by (simp add: mult_less_cancel_right)
    then show ?thesis using W by (simp add: pixel_x_def pixel_y_def pos_imp_zdiv_nonneg_iff)
  qed
  show "k < length canvas \<Longrightarrow> ?d ! k =
      (if covers (x, y, w, h) (pixel_x cs k) (pixel_y cs k) then color ! (k mod 3) else canvas ! k)"
    using d in_canvas [of k] by (auto simp: covers_def)
qed

section \<open>Letters\<close>

text \<open>A text as the boxes of its dots, in the order they are drawn.\<close>

definition row_boxes :: "int \<Rightarrow> int \<Rightarrow> int \<Rightarrow> string \<Rightarrow> box list" where
  "row_boxes scale x y row = concat (map (\<lambda>(gx, bit).
     if bit = CHR ''1'' then [(x + int gx * scale, y, scale, scale)] else []) (enumerate 0 row))"

definition glyph_boxes :: "int \<Rightarrow> int \<Rightarrow> int \<Rightarrow> string list \<Rightarrow> box list" where
  "glyph_boxes scale x y rows = concat (map (\<lambda>(gy, row). row_boxes scale x (y + int gy * scale) row) (enumerate 0 rows))"

fun text_boxes :: "int \<Rightarrow> int \<Rightarrow> int \<Rightarrow> string \<Rightarrow> box list" where
  "text_boxes scale x y [] = []"
| "text_boxes scale x y (c # s) = glyph_boxes scale x y (glyph c) @ text_boxes scale (x + 6 * scale) y s"

lemma fold_boxes:
  assumes "\<And>p canvas. f p canvas = fold d (g p) canvas"
  shows "fold f ps canvas = fold d (concat (map g ps)) canvas"
  by (induction ps arbitrary: canvas) (simp_all add: assms)

lemma draw_row_boxes: "draw_row cs color scale x y row canvas = fold (draw_rect cs color) (row_boxes scale x y row) canvas"
  unfolding draw_row_def row_boxes_def by (rule fold_boxes) (simp split: prod.split)

lemma draw_glyph_boxes: "draw_glyph cs color scale x y rows canvas = fold (draw_rect cs color) (glyph_boxes scale x y rows) canvas"
  unfolding draw_glyph_def glyph_boxes_def by (rule fold_boxes) (simp add: draw_row_boxes split: prod.split)

lemma draw_text_boxes: "draw_text cs color scale x y s canvas = fold (draw_rect cs color) (text_boxes scale x y (upper s)) canvas"
proof -
  have "snd (fold (\<lambda>c (cursor, cv). (cursor + 6 * scale, draw_glyph cs color scale cursor y (glyph c) cv)) u (x, canvas)) =
      fold (draw_rect cs color) (text_boxes scale x y u) canvas" for u
    by (induction u arbitrary: x canvas) (simp_all add: draw_glyph_boxes)
  then show ?thesis by (simp add: draw_text_def)
qed

definition right_of_edge :: "box \<Rightarrow> bool" where
  "right_of_edge b = (case b of (x, y, w, h) \<Rightarrow> 0 \<le> x + w)"

lemma row_boxes_right: "0 \<le> x \<Longrightarrow> 0 \<le> scale \<Longrightarrow> b \<in> set (row_boxes scale x y row) \<Longrightarrow> right_of_edge b"
  by (auto simp: row_boxes_def right_of_edge_def split: if_splits)

lemma text_boxes_right: "0 \<le> x \<Longrightarrow> 0 \<le> scale \<Longrightarrow> b \<in> set (text_boxes scale x y s) \<Longrightarrow> right_of_edge b"
proof (induction s arbitrary: x)
  case (Cons c s)
  have "right_of_edge b" if "b \<in> set (glyph_boxes scale x y (glyph c))"
    using that Cons.prems(1,2) by (auto simp: glyph_boxes_def dest: row_boxes_right)
  moreover have "right_of_edge b" if "b \<in> set (text_boxes scale (x + 6 * scale) y s)"
    by (rule Cons.IH [OF _ Cons.prems(2) that]) (use Cons.prems in simp)
  ultimately show ?case using Cons.prems(3) by auto
qed simp

section \<open>The whole picture\<close>

text \<open>What a painter leaves of a list of coloured boxes: at each pixel the colour of the last box over it.\<close>

definition paint :: "(box \<times> byte list) list \<Rightarrow> byte list \<Rightarrow> int \<Rightarrow> int \<Rightarrow> byte list" where
  "paint marks ground px py = (case List.find (\<lambda>(b, color). covers b px py) (rev marks) of
     None \<Rightarrow> ground | Some (b, color) \<Rightarrow> color)"

lemma paint_bytes:
  assumes "canvas_ok cs canvas" "\<forall>(b, color) \<in> set marks. right_of_edge b \<and> length color = 3"
    and "\<forall>k < length canvas. canvas ! k = ground ! (k mod 3)"
  shows "canvas_ok cs (fold (\<lambda>(b, color). draw_rect cs color b) marks canvas) \<and>
    (\<forall>k < length canvas. fold (\<lambda>(b, color). draw_rect cs color b) marks canvas ! k =
       paint marks ground (pixel_x cs k) (pixel_y cs k) ! (k mod 3))"
  using assms(2)
proof (induction marks rule: rev_induct)
  case Nil
  then show ?case using assms(1,3) by (simp add: paint_def)
next
  case (snoc m marks)
  obtain x y w h color where m: "m = ((x, y, w, h), color)" by (metis prod.exhaust)
  let ?c = "fold (\<lambda>(b, color). draw_rect cs color b) marks canvas"
  have c: "canvas_ok cs ?c" "\<forall>k < length canvas. ?c ! k = paint marks ground (pixel_x cs k) (pixel_y cs k) ! (k mod 3)"
    using snoc by simp_all
  have len: "length ?c = length canvas" using c(1) assms(1) by (simp add: canvas_ok_def)
  have color: "length color = 3" "0 \<le> x + w" using snoc.prems m by (simp_all add: right_of_edge_def)
  show ?case using draw_rect_bytes(1) [OF c(1) color] draw_rect_bytes(2) [OF c(1) color] c(2) len m by (simp add: paint_def)
qed

definition text_marks :: "(int \<times> int \<times> string \<times> int) \<times> byte list \<Rightarrow> (box \<times> byte list) list" where
  "text_marks t = (case t of ((x, y, s, scale), color) \<Rightarrow> map (\<lambda>b. (b, color)) (text_boxes scale x y (upper s)))"

lemma draw_text_marks:
  "(case t of ((x, y, s, scale), color) \<Rightarrow> draw_text cs color scale x y s) canvas =
    fold (\<lambda>(b, color). draw_rect cs color b) (text_marks t) canvas"
  by (simp add: text_marks_def draw_text_boxes fold_map comp_def split: prod.split)

definition resolved :: "(('a \<times> string) list) \<Rightarrow> ('a \<times> byte list) list" where
  "resolved ps = map (\<lambda>p. (fst p, case rgb (snd p) of Inr color \<Rightarrow> color | Inl e \<Rightarrow> [])) ps"

definition COLORS :: "string list" where
  "COLORS = [BG, PANEL, GRID, TEXT, MUTED, PYTHON, PYTHON_ACCENT, GO, DANGER, GOOD]"

lemma colors_ok: "list_all (\<lambda>c. case rgb c of Inr color \<Rightarrow> length color = 3 | Inl e \<Rightarrow> False) COLORS"
  by code_simp

lemma color_ok: "c \<in> set COLORS \<Longrightarrow> \<exists>color. rgb c = Inr color \<and> length color = 3"
  using colors_ok by (cases "rgb c") (auto simp: list_all_iff split: sum.splits)

lemma resolve_colors:
  assumes "snd ` set ps \<subseteq> set COLORS"
  shows "traverse in_color ps = Inr (resolved ps)" "\<forall>p \<in> set (resolved ps). length (snd p) = 3"
proof -
  have one: "in_color p = Inr (fst p, case rgb (snd p) of Inr color \<Rightarrow> color | Inl e \<Rightarrow> []) \<and>
      length (case rgb (snd p) of Inr color \<Rightarrow> color | Inl e \<Rightarrow> []) = 3" if "p \<in> set ps" for p
  proof -
    have "snd p \<in> set COLORS" using that assms by blast
    then obtain color where "rgb (snd p) = Inr color" "length color = 3" using color_ok by blast
    then show ?thesis by (simp add: in_color_def)
  qed
  then show "traverse in_color ps = Inr (resolved ps)" by (simp add: resolved_def traverse_Inr list_all2_conv_all_nth)
  from one show "\<forall>p \<in> set (resolved ps). length (snd p) = 3" by (simp add: resolved_def)
qed

text \<open>The marks of the preview: its rectangles, then the dots of its texts.\<close>

definition preview_marks :: "(box \<times> byte list) list" where
  "preview_marks = resolved PREVIEW_RECTS @ concat (map text_marks (resolved PREVIEW_TEXTS))"

definition ground :: "byte list" where
  "ground = (case rgb BG of Inr color \<Rightarrow> color | Inl e \<Rightarrow> [])"

lemma preview_colors: "snd ` set PREVIEW_RECTS \<subseteq> set COLORS" "snd ` set PREVIEW_TEXTS \<subseteq> set COLORS"
  by (auto simp: PREVIEW_RECTS_def PREVIEW_TEXTS_def COLORS_def)

lemma preview_marks_ok: "\<forall>(b, color) \<in> set preview_marks. right_of_edge b \<and> length color = 3"
proof -
  have "right_of_edge b \<and> length color = 3" if m: "(b, color) \<in> set preview_marks" for b color
  proof (cases "(b, color) \<in> set (resolved PREVIEW_RECTS)")
    case True
    then have "length color = 3" using resolve_colors(2) [OF preview_colors(1)] by auto
    moreover have "right_of_edge b" using True by (auto simp: resolved_def PREVIEW_RECTS_def right_of_edge_def)
    ultimately show ?thesis by blast
  next
    case False
    then obtain x y s scale where t: "((x, y, s, scale), color) \<in> set (resolved PREVIEW_TEXTS)"
      "b \<in> set (text_boxes scale x y (upper s))"
      using m by (auto simp: preview_marks_def text_marks_def split: prod.splits)
    then have "length color = 3" using resolve_colors(2) [OF preview_colors(2)] by auto
    moreover have "0 \<le> x \<and> 0 \<le> scale" using t(1) by (auto simp: resolved_def PREVIEW_TEXTS_def)
    ultimately show ?thesis using t(2) text_boxes_right by blast
  qed
  then show ?thesis by blast
qed

lemma preview_drawn:
  obtains canvas where "preview_canvas = Inr canvas" "canvas_ok PREVIEW canvas" "length canvas = 2457600"
    "\<forall>k < 2457600. canvas ! k = paint preview_marks ground (pixel_x PREVIEW k) (pixel_y PREVIEW k) ! (k mod 3)"
proof -
  let ?blank = "concat (replicate 819200 ground)"
  let ?canvas = "fold (\<lambda>(b, color). draw_rect PREVIEW color b) preview_marks ?blank"
  obtain bg where bg: "rgb BG = Inr bg" "length bg = 3" using color_ok [of BG] by (auto simp: COLORS_def)
  then have ground: "length ground = 3" "rgb BG = Inr ground" by (simp_all add: ground_def)
  have blank: "canvas_ok PREVIEW ?blank" "\<forall>k < length ?blank. ?blank ! k = ground ! (k mod 3)"
    using ground(1) by (simp_all add: canvas_ok_def PREVIEW_def length_concat sum_list_replicate nth_concat_replicate)
  have len: "length ?blank = 2457600" using ground(1) by (simp add: length_concat sum_list_replicate)
  have size: "nat (cs_width PREVIEW * cs_height PREVIEW) = 819200" by (simp add: PREVIEW_def)
  have texts: "fold (\<lambda>((x, y, s, scale), color). draw_text PREVIEW color scale x y s) ts canvas =
      fold (\<lambda>(b, color). draw_rect PREVIEW color b) (concat (map text_marks ts)) canvas" for ts canvas
    by (rule fold_boxes) (simp add: draw_text_marks [symmetric] split_beta)
  have painted: "canvas_ok PREVIEW ?canvas" "\<forall>k < length ?blank. ?canvas ! k =
      paint preview_marks ground (pixel_x PREVIEW k) (pixel_y PREVIEW k) ! (k mod 3)"
    using paint_bytes [OF blank(1) preview_marks_ok blank(2)] by blast+
  have "preview_canvas = Inr ?canvas"
    using ground(2) by (simp add: preview_canvas_def resolve_colors(1) [OF preview_colors(1)] resolve_colors(1) [OF preview_colors(2)]
      texts preview_marks_def size del: replicate.simps concat_replicate_trivial)
  moreover have "length ?canvas = 2457600" using painted(1) by (simp add: canvas_ok_def PREVIEW_def)
  ultimately show thesis by (rule that [OF _ painted(1) _ painted(2) [unfolded len]])
qed

section \<open>Reading the file back\<close>

text \<open>What a PNG decoder does with a file of this kind: it checks the signature, the three chunks, their
  checksums and the header, inflates the data and undoes the filter.\<close>

definition read_u32 :: "byte list \<Rightarrow> nat" where
  "read_u32 = foldl (\<lambda>a b. 256 * a + unat b) 0"

definition read_chunk :: "byte list \<Rightarrow> (byte list \<times> byte list \<times> byte list) option" where
  "read_chunk bs = (let l = read_u32 (take 4 bs); kind = take 4 (drop 4 bs); content = take l (drop 8 bs) in
     if length bs < l + 12 \<or> read_u32 (take 4 (drop (l + 8) bs)) \<noteq> unat (crc32 (kind @ content)) then None
     else Some (kind, content, drop (l + 12) bs))"

fun read_rows :: "nat \<Rightarrow> nat \<Rightarrow> byte list \<Rightarrow> byte list option" where
  "read_rows w 0 bs = (if bs = [] then Some [] else None)"
| "read_rows w (Suc n) bs = (if take 1 bs = [0] \<and> w < length bs
     then map_option (append (take w (drop 1 bs))) (read_rows w n (drop (w + 1) bs)) else None)"

definition read_header :: "byte list \<Rightarrow> (nat \<times> nat) option" where
  "read_header h = (if length h = 13 \<and> drop 8 h = [8, 2, 0, 0, 0] then Some (read_u32 (take 4 h), read_u32 (take 4 (drop 4 h))) else None)"

definition read_png :: "(byte list \<Rightarrow> byte list option) \<Rightarrow> byte list \<Rightarrow> (nat \<times> nat \<times> byte list) option" where
  "read_png inflate bs = (if take 8 bs \<noteq> SIGNATURE then None
     else Option.bind (read_chunk (drop 8 bs)) (\<lambda>(k1, header, bs1).
       Option.bind (read_chunk bs1) (\<lambda>(k2, content, bs2). Option.bind (read_chunk bs2) (\<lambda>(k3, none, bs3).
       if [k1, k2, k3] = map ascii_bytes [''IHDR'', ''IDAT'', ''IEND''] \<and> none = [] \<and> bs3 = []
       then Option.bind (read_header header) (\<lambda>(w, h). Option.bind (inflate content) (\<lambda>raw.
         map_option (\<lambda>px. (w, h, px)) (read_rows (w * 3) h raw))) else None))))"

lemma pack_u32_Inr:
  assumes "n < 2 ^ 32"
  obtains bs where "pack_u32 n = Inr bs" "length bs = 4" "read_u32 bs = n"
proof -
  let ?bs = "map (\<lambda>i. of_nat (n div 256 ^ i)) [3, 2, 1, 0] :: byte list"
  have "read_u32 ?bs = 256 * (256 * (256 * (n div 256 ^ 3 mod 256) + n div 256 ^ 2 mod 256) + n div 256 mod 256) + n mod 256"
    by (simp add: read_u32_def unat_of_nat)
  also have "\<dots> = n"
  proof -
    have "n div 256 ^ 3 < 256" using assms by (simp add: less_mult_imp_div_less)
    moreover have "n = 256 * (n div 256) + n mod 256" by simp
    moreover have "n div 256 = 256 * (n div 256 ^ 2) + n div 256 mod 256"
      using mult_div_mod_eq [of 256 "n div 256"] by (simp add: div_mult2_eq [symmetric] power2_eq_square)
    moreover have "n div 256 ^ 2 = 256 * (n div 256 ^ 3) + n div 256 ^ 2 mod 256"
      using mult_div_mod_eq [of 256 "n div 256 ^ 2"] by (simp add: div_mult2_eq [symmetric])
    ultimately show ?thesis by (metis mod_less)
  qed
  finally show thesis using that [of ?bs] assms by (simp add: pack_u32_def)
qed

lemma png_chunk_read:
  assumes "length content < 2 ^ 32" "length kind = 4"
  obtains c where "png_chunk kind content = Inr c" "\<And>rest. read_chunk (c @ rest) = Some (kind, content, rest)"
proof -
  obtain l where l: "pack_u32 (length content) = Inr l" "length l = 4" "read_u32 l = length content"
    by (rule pack_u32_Inr [OF assms(1)])
  have "unat (crc32 (kind @ content)) < 2 ^ 32" using unsigned_less [of "crc32 (kind @ content)"] by simp
  then obtain k where k: "pack_u32 (unat (crc32 (kind @ content))) = Inr k" "length k = 4" "read_u32 k = unat (crc32 (kind @ content))"
    by (rule pack_u32_Inr)
  have "read_chunk ((l @ kind @ content @ k) @ rest) = Some (kind, content, rest)" for rest
    using l k assms(2) by (simp add: read_chunk_def Let_def)
  moreover have "png_chunk kind content = Inr (l @ kind @ content @ k)" using l k by (simp add: png_chunk_def)
  ultimately show thesis by (rule that [rotated])
qed

lemma read_rows_scan: "length canvas = w * n \<Longrightarrow> read_rows w n (scan_lines w n canvas) = Some canvas"
proof (induction n arbitrary: canvas)
  case 0
  then show ?case by (simp add: scan_lines_def)
next
  case (Suc n)
  have "scan_lines w (Suc n) canvas = 0 # take w canvas @ scan_lines w n (drop w canvas)"
    unfolding scan_lines_def by (simp add: upt_conv_Cons map_Suc_upt [symmetric] comp_def add.commute del: upt_Suc)
  moreover have "read_rows w n (scan_lines w n (drop w canvas)) = Some (drop w canvas)" using Suc by simp
  moreover have "length (take w canvas) = w" using Suc.prems by simp
  ultimately show ?case by simp
qed

lemma length_scan_lines: "length (scan_lines w n canvas) \<le> n * (w + 1)"
  by (induction n) (simp_all add: scan_lines_def)

lemma png_file_read:
  assumes "w < 2 ^ 32" "h < 2 ^ 32" "length canvas = w * 3 * h"
    and "inflate (deflate (scan_lines (w * 3) h canvas)) = Some (scan_lines (w * 3) h canvas)"
    and "length (deflate (scan_lines (w * 3) h canvas)) < 2 ^ 32"
  obtains png where "png_file deflate w h canvas = Inr png" "read_png inflate png = Some (w, h, canvas)"
proof -
  obtain bw where bw: "pack_u32 w = Inr bw" "length bw = 4" "read_u32 bw = w" by (rule pack_u32_Inr [OF assms(1)])
  obtain bh where bh: "pack_u32 h = Inr bh" "length bh = 4" "read_u32 bh = h" by (rule pack_u32_Inr [OF assms(2)])
  have kinds: "length (ascii_bytes ''IHDR'') = 4" "length (ascii_bytes ''IDAT'') = 4" "length (ascii_bytes ''IEND'') = 4"
    by (simp_all add: ascii_bytes_def)
  have "length (bw @ bh @ [8, 2, 0, 0, 0]) < 2 ^ 32" using bw bh by simp
  from png_chunk_read [OF this kinds(1)] obtain ihdr where ihdr: "png_chunk (ascii_bytes ''IHDR'') (bw @ bh @ [8, 2, 0, 0, 0]) = Inr ihdr"
    "\<And>rest. read_chunk (ihdr @ rest) = Some (ascii_bytes ''IHDR'', bw @ bh @ [8, 2, 0, 0, 0], rest)" by blast
  from png_chunk_read [OF assms(5) kinds(2)] obtain idat where idat:
    "png_chunk (ascii_bytes ''IDAT'') (deflate (scan_lines (w * 3) h canvas)) = Inr idat"
    "\<And>rest. read_chunk (idat @ rest) = Some (ascii_bytes ''IDAT'', deflate (scan_lines (w * 3) h canvas), rest)" by blast
  have "length ([] :: byte list) < 2 ^ 32" by simp
  from png_chunk_read [OF this kinds(3)] obtain iend where iend: "png_chunk (ascii_bytes ''IEND'') [] = Inr iend"
    "\<And>rest. read_chunk (iend @ rest) = Some (ascii_bytes ''IEND'', [], rest)" by blast
  have "png_file deflate w h canvas = Inr (SIGNATURE @ ihdr @ idat @ iend)"
    using bw bh ihdr idat iend by (simp add: png_file_def)
  moreover have "read_png inflate (SIGNATURE @ ihdr @ idat @ iend) = Some (w, h, canvas)"
  proof -
    have "read_header (bw @ bh @ [8, 2, 0, 0, 0]) = Some (w, h)" using bw bh by (simp add: read_header_def)
    moreover have "length SIGNATURE = 8" by (simp add: SIGNATURE_def)
    moreover have "read_rows (w * 3) h (scan_lines (w * 3) h canvas) = Some canvas" using read_rows_scan [OF assms(3)] .
    ultimately show ?thesis
      using assms(4) ihdr(2) idat(2) iend(2) [of "[]"] by (simp add: read_png_def)
  qed
  ultimately show thesis by (rule that)
qed

text \<open>
  C38. The social preview is the picture the program describes: whatever codec zlib is, as long as
  it inverts itself on the scan lines and its output has a length a chunk can hold, the file that is
  written decodes to 1280 by 640 pixels, and each byte of each pixel is that of the last rectangle
  or letter dot drawn over it, or of the background where nothing was drawn.
\<close>

theorem social_preview_decodes:
  assumes "\<And>raw. inflate (deflate raw) = Some raw"
    and "\<And>raw. length raw \<le> 2458240 \<Longrightarrow> length (deflate raw) < 2 ^ 32"
  shows "\<exists>png canvas. render_social_preview deflate = Inr png \<and> read_png inflate png = Some (1280, 640, canvas) \<and>
    length canvas = 1280 * 640 * 3 \<and>
    (\<forall>k < 1280 * 640 * 3. canvas ! k = paint preview_marks ground (int (k div 3 mod 1280)) (int (k div 3 div 1280)) ! (k mod 3))"
proof -
  obtain canvas where c: "preview_canvas = Inr canvas" "length canvas = 2457600"
    "\<forall>k < 2457600. canvas ! k = paint preview_marks ground (pixel_x PREVIEW k) (pixel_y PREVIEW k) ! (k mod 3)"
    by (rule preview_drawn)
  have "length (scan_lines (1280 * 3) 640 canvas) \<le> 2458240"
    using length_scan_lines [of "1280 * 3" 640 canvas] by simp
  from png_file_read [of 1280 640 canvas inflate deflate, OF _ _ _ assms(1) assms(2) [OF this]]
  obtain png where png: "png_file deflate 1280 640 canvas = Inr png" "read_png inflate png = Some (1280, 640, canvas)"
    using c(2) by auto
  have "render_social_preview deflate = Inr png"
    unfolding render_social_preview_def c(1) andthen_simps using png(1) by (simp add: PREVIEW_def)
  moreover have "pixel_x PREVIEW k = int (k div 3 mod 1280)" "pixel_y PREVIEW k = int (k div 3 div 1280)" for k
    by (simp_all add: pixel_x_def pixel_y_def PREVIEW_def zmod_int zdiv_int)
  ultimately show ?thesis using c(2,3) png(2) by (intro exI [of _ png] exI [of _ canvas]) simp
qed

lemma social_preview_decodes_witness:
  "\<exists>png canvas. render_social_preview (\<lambda>raw. raw) = Inr png \<and> read_png Some png = Some (1280, 640, canvas) \<and> length canvas = 1280 * 640 * 3"
  using social_preview_decodes [of Some "\<lambda>raw. raw"] by auto

section \<open>A box left of the canvas\<close>

text \<open>
  \<open>_draw_rect\<close> is meant to clip a box at the edges.  A box wholly left of the canvas that touches its
  first row is not clipped: the end of the slice is negative, so it counts from the end of the
  canvas, and everything up to there is removed.
\<close>

lemma left_box_erases: "draw_rect \<lparr>cs_width = 4, cs_height = 2\<rparr> [1, 2, 3] (-2, 0, 1, 1) (replicate 24 0) = [0, 0, 0]"
  by code_simp

end
