(* ===== verification/Command_Lines.thy ===== *)
theory Command_Lines
  imports Charts Fingerprint Worker
begin

text \<open>
  Three small programs: \<open>python/app/worker_cli.py\<close> runs one sweep and reports its duration,
  \<open>db/reset/reset.py\<close> seeds the database again, and \<open>scripts/publication/finalize_launch_copy.py\<close>
  puts two addresses into a text.
\<close>

section \<open>One sweep\<close>

text \<open>
  \<open>started\<close> and \<open>ended\<close> are the two readings of \<open>perf_counter\<close>, in seconds; how Python writes a float is
  the parameter \<open>float_repr\<close>.  The payload is printed with its keys sorted.
\<close>

definition sweep_items :: "sweep_result \<Rightarrow> (string \<times> json) list" where
  "sweep_items r = [(''alarms_opened'', JInt (alarms_opened r)), (''alarms_resolved'', JInt (alarms_resolved r)),
     (''maintenance_activated'', JInt (maintenance_activated r)), (''maintenance_completed'', JInt (maintenance_completed r)),
     (''devices_evaluated'', JInt (devices_evaluated r))]"

definition worker_payload :: "(pyfloat \<Rightarrow> string) \<Rightarrow> pyfloat \<Rightarrow> pyfloat \<Rightarrow> sweep_result \<Rightarrow> json attempt" where
  "worker_payload float_repr started ended r =
     (let duration_ms = f_mul (f_sub ended started) (num 1000) in
      andthen (if f_less (num 0) duration_ms
        then andthen (float_of_int (devices_evaluated r)) (\<lambda>devices. py_div devices (f_div duration_ms (num 1000)))
        else Inr (num 0)) (\<lambda>rate.
      Inr (JObj (sweep_items r @ [(''duration_ms'', JFloat (float_repr duration_ms)), (''devices_per_second'', JFloat (float_repr rate)),
        (''overrun_5s'', JBool (f_less (num 5000) duration_ms))]))))"

text \<open>The line printed, or the exception that ends the process, and the database left behind.\<close>

datatype cli_error = Sweep_Failed exn | Report_Failed fault

definition run_once :: "(pyfloat \<Rightarrow> string) \<Rightarrow> timestamp \<Rightarrow> pyfloat \<Rightarrow> pyfloat \<Rightarrow> session \<Rightarrow> (cli_error + json) \<times> session" where
  "run_once float_repr now started ended s = (case with_session (sweep_target_runtime now) s of
     (Inl e, t) \<Rightarrow> (Inl (Sweep_Failed e), t)
   | (Inr r, t) \<Rightarrow> (case worker_payload float_repr started ended r of
       Inl e \<Rightarrow> (Inl (Report_Failed e), t) | Inr payload \<Rightarrow> (Inr payload, t)))"

text \<open>The number of devices in the report is the one the packaged evidence takes from it.\<close>

lemma reported_devices:
  assumes "run_once float_repr now started ended s = (Inr payload, t)" "raw_file raw (worker_source source) = Content payload"
  shows "\<exists>r. with_session (sweep_target_runtime now) s = (Inr r, t) \<and>
    worker_fields raw source = Inr [(''worker_devices'', JInt (devices_evaluated r)), (''worker_source'', JStr (worker_source source))]"
proof -
  obtain r where r: "with_session (sweep_target_runtime now) s = (Inr r, t)" "worker_payload float_repr started ended r = Inr payload"
    using assms(1) by (auto simp: run_once_def split: prod.splits sum.splits)
  obtain items where "payload = JObj (sweep_items r @ items)"
    using r(2) by (auto simp: worker_payload_def andthen_Inr Let_def)
  then have "index ''devices_evaluated'' payload = Inr (JInt (devices_evaluated r))" by (simp add: index_def sweep_items_def)
  then show ?thesis using r(1) assms(2) by (simp add: worker_fields_def raw_is_file_def load_def)
qed

section \<open>Seeding again\<close>

text \<open>The exit code of \<open>seed.py --profile\<close>; a profile that is no choice ends with exit code 2.\<close>

definition reset_main :: "digests \<Rightarrow> (string \<Rightarrow> string) \<Rightarrow> (string list \<Rightarrow> string list) \<Rightarrow> (string \<Rightarrow> string) \<Rightarrow> string option \<Rightarrow> session \<Rightarrow>
    int \<times> session" where
  "reset_main dg md5_hex collate read_bytes profile s = (case profile of
     None \<Rightarrow> (2, s)
   | Some name \<Rightarrow> if name \<notin> {''D1'', ''D2'', ''D3''} then (2, s)
       else (case seed_main dg md5_hex collate read_bytes
           \<lparr>arg_profile = Some name, arg_describe_profile = None, arg_describe_all = False, arg_schema_hash = False,
            arg_fingerprint_only = False\<rparr> s of (code, line, t) \<Rightarrow> (code, t)))"

lemma reset_seeds:
  assumes "name \<in> {''D1'', ''D2'', ''D3''}"
  shows "\<exists>cfg. get_profile name = Inr cfg \<and>
    reset_main dg md5_hex collate read_bytes (Some name) s = (0, seed_database dg md5_hex cfg)"
proof -
  have "choice (Some name)" using assms by (auto simp: choice_def PROFILES_def)
  moreover have "choice None" by (simp add: choice_def)
  moreover obtain cfg where "get_profile name = Inr cfg" using assms by (auto simp: get_profile_def PROFILES_def)
  ultimately show ?thesis using assms by (simp add: reset_main_def seed_main_def Let_def)
qed

section \<open>The launch copy\<close>

text \<open>\<open>text.replace(old, new)\<close> for an old text that is not empty.\<close>

function replace_all :: "string \<Rightarrow> string \<Rightarrow> string \<Rightarrow> string" where
  "replace_all old new s = (if s = [] then []
     else if old \<noteq> [] \<and> startswith old s then new @ replace_all old new (drop (length old) s)
     else hd s # replace_all old new (tl s))"
  by pat_completeness auto
termination by (relation "measure (\<lambda>(old, new, s). length s)") auto

declare replace_all.simps [simp del]

definition token :: "string \<Rightarrow> string" where
  "token name = ''{{'' @ name @ ''}}''"

definition MEDIUM_TOKEN :: string where "MEDIUM_TOKEN = token ''MEDIUM_URL''"
definition GITHUB_TOKEN :: string where "GITHUB_TOKEN = token ''GITHUB_URL''"

definition scheme_char :: "char \<Rightarrow> bool" where
  "scheme_char c \<longleftrightarrow> is_letter c \<or> is_digit c \<or> c \<in> set ''+-.''"

definition unsafe_char :: "char \<Rightarrow> bool" where
  "unsafe_char c \<longleftrightarrow> (of_char c :: nat) \<in> {9, 10, 13}"

text \<open>
  \<open>urlparse\<close>: the scheme in lower case and the network location; None is a ValueError.  A host in
  brackets is checked as an address, which is the parameter \<open>address_ok\<close>.
\<close>

definition url_scheme :: "string \<Rightarrow> string \<times> string" where
  "url_scheme url = (let s = takeWhile (\<lambda>c. c \<noteq> CHR '':'') url in
     if length s < length url \<and> s \<noteq> [] \<and> is_letter (hd s) \<and> list_all scheme_char s
     then (lower s, drop (length s + 1) url) else ([], url))"

definition urlparse :: "(string \<Rightarrow> bool) \<Rightarrow> string \<Rightarrow> (string \<times> string) option" where
  "urlparse address_ok url =
     (let u = filter (\<lambda>c. \<not> unsafe_char c) (dropWhile (\<lambda>c. (of_char c :: nat) \<le> 32) url) in case url_scheme u of (scheme, rest) \<Rightarrow>
      if startswith ''//'' rest
      then let netloc = takeWhile (\<lambda>c. c \<notin> set ''/?#'') (drop 2 rest); opens = CHR ''['' \<in> set netloc; closes = CHR '']'' \<in> set netloc in
        if opens \<noteq> closes \<or> (opens \<and> \<not> address_ok netloc) then None else Some (scheme, netloc)
      else Some (scheme, []))"

definition is_https :: "(string \<Rightarrow> bool) \<Rightarrow> string \<Rightarrow> bool" where
  "is_https address_ok url \<longleftrightarrow> (case urlparse address_ok url of
     None \<Rightarrow> False | Some (scheme, netloc) \<Rightarrow> scheme = ''https'' \<and> netloc \<noteq> [])"

definition finalize_copy :: "(string \<Rightarrow> bool) \<Rightarrow> string \<Rightarrow> string \<Rightarrow> string \<Rightarrow> string attempt" where
  "finalize_copy address_ok source medium_url github_url =
     (if \<not> is_https address_ok medium_url \<or> \<not> is_https address_ok github_url then Inl ValueError
      else if \<not> occurs MEDIUM_TOKEN source \<or> \<not> occurs GITHUB_TOKEN source then Inl ValueError
      else Inr (replace_all GITHUB_TOKEN github_url (replace_all MEDIUM_TOKEN medium_url source)))"

text \<open>The exit code, and the text written if there is one.\<close>

definition finalize_main :: "(string \<Rightarrow> bool) \<Rightarrow> string option \<Rightarrow> string \<Rightarrow> string \<Rightarrow> int \<times> string option" where
  "finalize_main address_ok source medium_url github_url = (case source of
     None \<Rightarrow> (1, None)
   | Some s \<Rightarrow> (case finalize_copy address_ok s medium_url github_url of Inl e \<Rightarrow> (2, None) | Inr out \<Rightarrow> (0, Some out)))"

lemma replace_prefix: "CHR ''{'' \<notin> set a \<Longrightarrow> replace_all (token n) new (a @ s) = a @ replace_all (token n) new s"
proof (induction a)
  case (Cons c a)
  then have "\<not> startswith (token n) (c # a @ s)" by (auto simp: token_def startswith_def)
  with Cons show ?case by (simp add: replace_all.simps [of _ _ "c # a @ s"])
qed simp

lemma replace_token: "replace_all (token n) new (token n @ s) = new @ replace_all (token n) new s"
  by (subst replace_all.simps) (simp add: token_def startswith_def)

lemma replace_other:
  assumes "length m = length n" "m \<noteq> n" "CHR ''{'' \<notin> set m"
  shows "replace_all (token n) new (token m @ s) = token m @ replace_all (token n) new s"
proof -
  have no: "\<not> startswith (token n) (token m @ s)" using assms(1,2) by (simp add: token_def startswith_def)
  have "m \<noteq> []" using assms(1,2) by auto
  then have no': "\<not> startswith (token n) (CHR ''{'' # m @ ''}}'' @ s)" using assms(3) by (cases m) (auto simp: token_def startswith_def)
  have step: "replace_all (token n) new (c # t) = c # replace_all (token n) new t" if "\<not> startswith (token n) (c # t)" for c t
    using that by (simp add: replace_all.simps [of _ _ "c # t"])
  have "replace_all (token n) new (m @ ''}}'' @ s) = m @ ''}}'' @ replace_all (token n) new s"
    using replace_prefix [of "m @ ''}}''" n new s] assms(3) by simp
  then show ?thesis using step [of "CHR ''{''" "CHR ''{'' # m @ ''}}'' @ s"] step [OF no'] no by (simp add: token_def)
qed

text \<open>A text with the two tokens and no other braces gets exactly the two addresses in their places.\<close>

lemma finalized:
  assumes "is_https address_ok m" "is_https address_ok g" "CHR ''{'' \<notin> set (a @ b @ c @ m)"
  shows "finalize_main address_ok (Some (a @ MEDIUM_TOKEN @ b @ GITHUB_TOKEN @ c)) m g = (0, Some (a @ m @ b @ g @ c))"
proof -
  have nil: "replace_all old new [] = []" for old new by (simp add: replace_all.simps)
  have tail: "replace_all (token n) new c = c" for n new using replace_prefix [of c n new "[]"] assms(3) by (simp add: nil)
  have "occurs MEDIUM_TOKEN (a @ MEDIUM_TOKEN @ b @ GITHUB_TOKEN @ c)" "occurs GITHUB_TOKEN (a @ MEDIUM_TOKEN @ b @ GITHUB_TOKEN @ c)"
    unfolding occurs_iff by (metis, metis append.assoc)
  moreover have "replace_all MEDIUM_TOKEN m (a @ MEDIUM_TOKEN @ b @ GITHUB_TOKEN @ c) = a @ m @ b @ GITHUB_TOKEN @ c"
    using assms(3) tail by (simp add: MEDIUM_TOKEN_def GITHUB_TOKEN_def replace_prefix replace_token replace_other)
  moreover have "replace_all GITHUB_TOKEN g (a @ m @ b @ GITHUB_TOKEN @ c) = a @ m @ b @ g @ c"
    using replace_prefix [of "a @ m @ b" "''GITHUB_URL''" g "GITHUB_TOKEN @ c"] assms(3) tail
    by (simp add: GITHUB_TOKEN_def replace_token)
  ultimately show ?thesis using assms(1,2) by (simp add: finalize_main_def finalize_copy_def)
qed

end
