(* ===== verification/Spec2Isabelle.thy ===== *)
theory Spec2Isabelle
  imports Dashboard_Properties Hard_Gate Command_Properties Service_Properties Seed_Properties Driver_Properties
    Seed_Constraints Metrics_Properties Report_Parity Contracts Freeze Fingerprint Chart_Data
    Chart_Properties Raster_Properties Command_Lines
begin

text \<open>
  The Python service of a benchmark that compares two runtimes of one point-of-sale backend for
  car washes (\<open>src/python/app\<close>), with the database it works on, the data it is seeded with, the
  program that checks its correctness and the programs that turn recorded runs into published
  numbers.

  \<^bold>\<open>The program.\<close> Devices at wash stations authenticate with a credential, report heartbeats,
  read their configuration, take payments (card, QR code, prepaid RF card) and execute
  commands; a panel user reads a dashboard; a worker sweeps over all devices and raises and
  clears alarms.  Every operation is a transaction on PostgreSQL; what operations share is the
  database, and they meet through it: a heartbeat decides whether a payment is admitted, a
  payment occupies a code or a wallet and grants a start right, a result closes an execution
  and frees a bay, the sweep reads what heartbeats and results have left.

  \<^bold>\<open>Theories and code.\<close>
  \<^item> \<open>Prelude\<close>, \<open>Json\<close>, \<open>Calendar\<close>, \<open>Floats\<close>: what the code uses of Python - text, \<open>json.dumps\<close>,
    UTC dates, IEEE doubles - with their round trips.
  \<^item> \<open>Schema\<close>: a record per table of \<open>db/001_schema.sql\<close>, the constraints of inserts and updates.
    \<open>Session\<close>: \<open>python/app/db.py\<close> and SQLAlchemy's session as state passing; \<open>('a) op\<close> maps a
    session to an exception or a value and a session, with a weakest-precondition calculus; the
    locales \<open>atomic_op\<close>, \<open>reader_op\<close>, \<open>invariant_op\<close> are the contracts of operations.
  \<^item> \<open>Http\<close> (\<open>http.py\<close>, \<open>settings.py\<close>), \<open>Auth\<close> (\<open>auth.py\<close>), \<open>Heartbeat\<close> (\<open>heartbeat.py\<close>), \<open>Configuration\<close>
    (\<open>configuration.py\<close>), \<open>Payments\<close> (\<open>payments.py\<close>), \<open>Commands\<close> (\<open>commands.py\<close>), \<open>Worker\<close> (\<open>worker.py\<close>),
    \<open>Dashboard\<close> (\<open>dashboard.py\<close>), \<open>Api\<close> (\<open>main.py\<close>): one definition per function, in source order;
    \<open>serve\<close> is a request from its validation to its response.
  \<^item> \<open>Seed\<close>, \<open>Fingerprint\<close> (\<open>db/seed\<close>); \<open>Hard_Gate\<close>, \<open>Driver\<close> (\<open>scripts/correctness_driver.py\<close>);
    \<open>Metrics\<close> (\<open>metrics/normalize.py\<close>); \<open>Contracts\<close> (\<open>scripts/validate_contracts.py\<close>); \<open>Freeze\<close>
    (\<open>scripts/freeze_source.py\<close>); \<open>Chart_Data\<close> (\<open>scripts/publication/extract_chart_data.py\<close>).
  \<^item> \<open>Packaging\<close> (\<open>scripts/publication/package_evidence.py\<close>); \<open>Charts\<close> and \<open>Raster\<close>
    (\<open>render_assets.py\<close>: the four charts as SVG text, the social preview as bytes of a PNG file);
    \<open>Patterns\<close> (Python's \<open>re\<close>) with \<open>Repo_Audit\<close> (\<open>audit_public_repo.py\<close>), \<open>Published_Claims\<close>
    (\<open>validate_claims.py\<close>) and \<open>Published_Assets\<close> (\<open>validate_assets.py\<close>); \<open>Command_Lines\<close>
    (\<open>worker_cli.py\<close>, \<open>reset.py\<close>, \<open>finalize_launch_copy.py\<close>).
  \<^item> \<open>Fixture\<close>: a small database on which hypotheses are shown to be satisfiable.

  \<^bold>\<open>Lemmas.\<close>
  \<^item> One request: \<open>Payment_Facts\<close> specifies a payment by the relations \<open>guards_pass\<close>,
    \<open>program_resolved\<close>, \<open>settles\<close> and \<open>pays\<close>; \<open>Payment_Properties\<close> shows that \<open>create_payment\<close>
    implements them, is atomic, replays and refuses.  \<open>Request_Hash\<close>: the hashed rendering of a
    payment determines it, that of a command result does not.  \<open>Command_Facts\<close> and
    \<open>Command_Properties\<close>: poll, acknowledgement, result, their deadlines and retries.
    \<open>Worker_Facts\<close>, \<open>Sweep_Facts\<close>, \<open>Worker_Properties\<close>: the sweep as a run of verdicts on a book of
    alarms (locale \<open>alarm_book\<close>).  \<open>Dashboard_Properties\<close>: periods and sums.
  \<^item> All runs: \<open>Service\<close> has the step relation and the locale \<open>service_invariant\<close>, which carries an
    invariant from the operations that write to every reachable state.  It is interpreted for
    \<open>system_ok\<close> (\<open>Invariants\<close>), \<open>healthy\<close> (\<open>Integrity\<close>), \<open>scene\<close> (\<open>Scene\<close>) and the schema
    (\<open>Constraints\<close>).  \<open>No_Fault\<close> and \<open>Service_Properties\<close> show progress: no constraint fails, no
    request ends in a server error, commands settle.
  \<^item> The benchmark: \<open>Seed_Facts\<close>, \<open>Seed_Properties\<close> and \<open>Seed_Constraints\<close> bring the seeded databases
    under these invariants; \<open>Race\<close> proves races for a budget of any size (locale \<open>budget\<close>,
    interpreted for codes and wallets); \<open>Driver_Facts\<close>, \<open>Driver_Stage\<close>, \<open>Driver_Cases\<close>,
    \<open>Driver_Steps\<close> and \<open>Driver_Properties\<close> show that the whole correctness run passes; \<open>Report_Parity\<close>
    composes it with the comparison of two reports.  \<open>Metrics_Properties\<close>, \<open>Contracts\<close>, \<open>Freeze\<close>,
    \<open>Fingerprint\<close> and \<open>Chart_Data\<close> hold the lemmas of the tools.
  \<^item> The publication: \<open>Packaging\<close> shows that what is packaged is what the extraction reads;
    \<open>Chart_Properties\<close> has a recogniser of well-formed XML and shows that every chart passes it and
    the check of the assets; \<open>Raster_Properties\<close> gives the colour of every pixel of the preview and
    reads the PNG file back; \<open>Patterns\<close> proves the backtracking matcher against a declarative
    relation of matches, on which the meaning of a passing audit rests.  The searches are structural
    recursions or recursions on the length of the text left.

  \<^bold>\<open>Representation and bounds.\<close> Python integers are \<^typ>\<open>int\<close>, times are microseconds, texts are
  code points below 256, floats are exact rationals with the rounding written out, dicts are
  lists of items.  No fuel is used: every loop of the code runs over fetched rows or a given
  list and is a fold or structural recursion.  SHA-256, HMAC, MD5, the collation of the
  database, git, zlib and the YAML, TOML and XML parsers are parameters; where a property needs that
  digests differ, that zlib inverts itself or what a parser accepts, it says so.  Clock readings and orders of arrival are arguments.

  \<^bold>\<open>Not modelled.\<close> Locks and the overlap of transactions: operations run one after the other, in
  any order; that a poll works on rows read earlier is stated with explicit halves.  Message
  texts; column widths, NUL bytes and years after 9999; the framework's decoding of headers and
  bodies; creation of the engine, psql, docker, HTTP and file output; \<open>pg_stat_statements\<close> (its
  snapshots are arguments).  Of \<open>render_assets.py\<close> the diagrams and the hero image: fixed texts at
  fixed places, with arrows and signs outside the code points a text here can hold.  The texts
  printed by the publication checks.  The Go
  service is another program.
\<close>

section \<open>Properties of the running system\<close>

text \<open>
  C1. The project's correctness gate holds in every state the running system can reach: after
  any sequence of requests and worker sweeps, in any order and at any times, every query of
  \<open>hard_gate\<close> counts zero, provided the database was good to begin with.
\<close>

theorem hard_gate_holds:
  assumes "system_ok expected (committed s) (seqs s)" "reaches dg s t"
    and "\<forall>p. corr_payment p \<longrightarrow> must_be_complete expected p"
  shows "\<forall>(name, n) \<in> set (hard_gate (committed t)). n = 0"
  using hard_gate_zero [OF reaches_ok [OF assms(2,1)]] assms(3) by blast

lemma hard_gate_holds_witness:
  "partial_committed_financial_state (committed demo_paid) = 0 \<and>
   length (payment_transactions (committed demo_paid)) = 1"
proof -
  have "\<forall>p. corr_payment p \<longrightarrow> must_be_complete demo_expectation p" by (simp add: demo_expectation_def)
  from hard_gate_holds [OF demo_ok demo_reaches this]
  have "partial_committed_financial_state (committed demo_paid) = 0" by (simp add: hard_gate_def)
  moreover have "length (payment_transactions (committed demo_paid)) = 1"
    using demo_paid_once by (simp add: paid_once_def)
  ultimately show ?thesis by simp
qed

text \<open>
  C13. A payment grants exactly one start right if it succeeded and none otherwise: in every
  reachable state, for every payment that must be complete.
\<close>

theorem one_start_right:
  assumes "system_ok expected (committed s) (seqs s)" "reaches dg s t"
    and "p \<in> set (payment_transactions (committed t))" "must_be_complete expected p"
  shows "length (filter (\<lambda>r. sr_payment_id r = pay_id p) (start_rights (committed t))) =
    (if pay_status p = SUCCESS then 1 else 0)"
proof -
  let ?d = "committed t" and ?rs = "filter (\<lambda>r. sr_payment_id r = pay_id p) (start_rights (committed t))"
  have f: "financial_ok expected ?d" using reaches_ok [OF assms(2,1)] by (simp add: system_ok_def)
  have "length ?rs \<le> 1" using f by (intro filter_key_short) (simp add: financial_ok_def)
  moreover have "?rs \<noteq> [] \<longleftrightarrow> pay_status p = SUCCESS"
  proof
    assume "?rs \<noteq> []"
    then obtain r where "r \<in> set (start_rights ?d)" "sr_payment_id r = pay_id p"
      by (auto simp: filter_empty_conv)
    with f obtain p' where "p' \<in> set (payment_transactions ?d)" "pay_id p' = pay_id p" "pay_status p' = SUCCESS"
      unfolding financial_ok_def by metis
    with f assms(3) show "pay_status p = SUCCESS"
      unfolding financial_ok_def using distinct_key_eq by metis
  next
    assume "pay_status p = SUCCESS"
    with f assms(3,4) show "?rs \<noteq> []" by (auto simp: financial_ok_def Invariants.complete_def filter_empty_conv)
  qed
  ultimately show ?thesis by (cases ?rs) auto
qed

lemma one_start_right_witness:
  "\<exists>p \<in> set (payment_transactions (committed demo_paid)).
     length (filter (\<lambda>r. sr_payment_id r = pay_id p) (start_rights (committed demo_paid))) = 1"
proof -
  obtain p where "p \<in> set (payment_transactions (committed demo_paid))" "pay_status p = SUCCESS" "corr_payment p"
    using demo_paid_once by (auto simp: list_ex_iff paid_once_def)
  with one_start_right [OF demo_ok demo_reaches, of p] show ?thesis by (auto simp: demo_expectation_def)
qed

text \<open>
  C14. No wallet is ever overspent: in every reachable state the balance is not negative, and
  the debits booked against a wallet are exactly what is missing from the money it was given.
\<close>

theorem wallet_never_overspent:
  assumes "system_ok expected (committed s) (seqs s)" "reaches dg s t" "w \<in> set (rf_wallets (committed t))"
  shows "0 \<le> wal_balance_minor w \<and>
    wallet_debits (committed t) (wal_id w) = wallet_total expected (wal_id w) - wal_balance_minor w"
proof -
  have f: "financial_ok expected (committed t)" using reaches_ok [OF assms(2,1)] by (simp add: system_ok_def)
  have "filter (\<lambda>r. wal_id r = wal_id w) (rf_wallets (committed t)) = [w]"
    using f assms(3) by (intro filter_unique_key) (simp_all add: financial_ok_def)
  then have "wallet_balance (committed t) (wal_id w) = wal_balance_minor w" by (simp add: wallet_balance_def)
  moreover have "wallet_balance (committed t) (wal_id w) + wallet_debits (committed t) (wal_id w) =
      wallet_total expected (wal_id w)" "check_rf_wallet w"
    using f assms(3) by (simp_all add: financial_ok_def)
  ultimately show ?thesis by (simp add: check_rf_wallet_def)
qed

lemma wallet_never_overspent_witness: "wallet_debits (committed demo_paid) 1 = 1000"
proof -
  obtain w where "w \<in> set (rf_wallets (committed demo_paid))" "wal_id w = 1" "wal_balance_minor w = 0"
    using demo_paid_once by (auto simp: list_ex_iff paid_once_def)
  with wallet_never_overspent [OF demo_ok demo_reaches, of w] show ?thesis by (simp add: demo_expectation_def)
qed



text \<open>
  C16. Commands, their executions and their results agree in every reachable state: a command
  is finished exactly when a result is stored for it, the result and the execution then have
  the command's status, and no command finishes without having been acknowledged.
\<close>

theorem commands_agree:
  assumes "system_ok expected (committed s) (seqs s)" "reaches dg s t" "c \<in> set (commands (committed t))"
  shows "(terminal (cmd_status c) \<longleftrightarrow> (\<exists>r \<in> set (command_results (committed t)). res_command_id r = cmd_id c)) \<and>
    (\<forall>r \<in> set (command_results (committed t)). res_command_id r = cmd_id c \<longrightarrow> res_status r = cmd_status c) \<and>
    (terminal (cmd_status c) \<longrightarrow> cmd_acknowledged_at c \<noteq> None \<and>
       (\<forall>e \<in> set (program_executions (committed t)). exe_id e = cmd_program_execution_id c \<longrightarrow>
          exe_status e = cmd_status c))"
proof -
  have "command_ok (committed t) c"
    using reaches_ok [OF assms(2,1)] assms(3) by (simp add: system_ok_def commands_ok_def)
  then show ?thesis by (auto simp: command_ok_def terminal_def)
qed

lemma commands_agree_witness:
  "\<exists>t. reaches demo_digests demo t \<and> (\<exists>c \<in> set (commands (committed t)). cmd_status c = SUCCESS) \<and>
     command_results (committed t) \<noteq> []"
proof -
  let ?t = "snd (serve demo_digests ''u'' 0 0 0 demo_headers demo_result
      (snd (serve demo_digests ''u'' 0 0 0 demo_headers (CommandAcknowledge 1) demo)))"
  have "reaches demo_digests demo ?t"
    by (rule rtranclp_trans [OF reaches_serve reaches_serve])
  moreover have "list_ex (\<lambda>c. cmd_status c = SUCCESS) (commands (committed ?t))" by code_simp
  then obtain c where "c \<in> set (commands (committed ?t))" "cmd_status c = SUCCESS"
    by (auto simp: list_ex_iff)
  moreover from this commands_agree [OF demo_ok \<open>reaches demo_digests demo ?t\<close>, of c]
  have "command_results (committed ?t) \<noteq> []" by (auto simp: terminal_def)
  ultimately show ?thesis by blast
qed



end
